(* ===== verification/GoStrings.thy ===== *)
theory GoStrings
  imports Main "HOL-Library.Sublist"
begin

text \<open>
  Prelude of the development: the parts of Go's \<open>strings\<close>, \<open>path\<close> and \<open>fmt\<close>
  packages the modelled code uses, as functions on \<open>string\<close>, and the generic lemmas
  about them that every component shares.

  A Go string is a sequence of bytes and so is an Isabelle \<open>string\<close> (256 characters).
  The code's loops over \<open>[]rune(s)\<close> test for ASCII characters only, and in valid
  UTF-8 no byte of a longer rune is an ASCII byte, so the model runs them over bytes; it
  is exact on every valid UTF-8 string.  White space is Unicode white space, recognised by
  its UTF-8 bytes.  A result that Go signals by the index \<open>-1\<close> is \<open>None\<close>, and a
  multiple result ending in \<open>ok\<close> is an option.
\<close>

section \<open>Collections of the development\<close>

named_theorems len_le \<open>length bounds: an operation does not lengthen its input\<close>
named_theorems split_bools \<open>case splits of the modelled conditionals\<close>

lemmas [split_bools] = if_splits option.splits prod.splits

lemma length_dropWhile_Suc [termination_simp]: "length (dropWhile P xs) < Suc (length xs)"
  by (simp add: le_imp_less_Suc length_dropWhile_le)

section \<open>Bytes\<close>

abbreviation bslash :: char where "bslash \<equiv> CHR 0x5C"
abbreviation squote :: char where "squote \<equiv> CHR 0x27"
abbreviation dquote :: char where "dquote \<equiv> CHR 0x22"
abbreviation backtick :: char where "backtick \<equiv> CHR 0x60"
abbreviation newline :: char where "newline \<equiv> CHR 0x0A"
abbreviation tab :: char where "tab \<equiv> CHR 0x09"
abbreviation creturn :: char where "creturn \<equiv> CHR 0x0D"

text \<open>The em dash (three bytes) that separates verdict and explanation in every message.\<close>

definition emdash :: string where
  "emdash = [CHR 0xE2, CHR 0x80, CHR 0x94]"

definition dash :: "string \<Rightarrow> string \<Rightarrow> string" where
  "dash a b = a @ '' '' @ emdash @ '' '' @ b"

section \<open>Prefixes, suffixes and searching\<close>

definition hasPrefix :: "string \<Rightarrow> string \<Rightarrow> bool" where
  "hasPrefix s p = prefix p s"

definition hasSuffix :: "string \<Rightarrow> string \<Rightarrow> bool" where
  "hasSuffix s p = suffix p s"

definition trimPrefix :: "string \<Rightarrow> string \<Rightarrow> string" where
  "trimPrefix s p = (if hasPrefix s p then drop (length p) s else s)"

definition cutPrefix :: "string \<Rightarrow> string \<Rightarrow> string option" where
  "cutPrefix s p = (if hasPrefix s p then Some (drop (length p) s) else None)"

fun indexByte :: "string \<Rightarrow> char \<Rightarrow> nat option" where
  "indexByte [] c = None"
| "indexByte (x # s) c = (if x = c then Some 0 else map_option Suc (indexByte s c))"

fun indexStr :: "string \<Rightarrow> string \<Rightarrow> nat option" where
  "indexStr [] sub = (if sub = [] then Some 0 else None)"
| "indexStr (x # s) sub =
     (if hasPrefix (x # s) sub then Some 0 else map_option Suc (indexStr s sub))"

definition containsStr :: "string \<Rightarrow> string \<Rightarrow> bool" where
  "containsStr s sub = (indexStr s sub \<noteq> None)"

text \<open>\<open>strings.Cut\<close> at a one-byte separator: the parts before and after its first occurrence.\<close>

fun cutByte :: "string \<Rightarrow> char \<Rightarrow> (string \<times> string) option" where
  "cutByte [] c = None"
| "cutByte (x # s) c =
     (if x = c then Some ([], s) else map_option (\<lambda>(a, b). (x # a, b)) (cutByte s c))"

section \<open>Trimming\<close>

definition trimLeft :: "string \<Rightarrow> string \<Rightarrow> string" where
  "trimLeft s cutset = dropWhile (\<lambda>c. c \<in> set cutset) s"

definition trimRight :: "string \<Rightarrow> string \<Rightarrow> string" where
  "trimRight s cutset = rev (dropWhile (\<lambda>c. c \<in> set cutset) (rev s))"

definition trimBoth :: "string \<Rightarrow> string \<Rightarrow> string" where
  "trimBoth s cutset = trimRight (trimLeft s cutset) cutset"

definition isASCIISpace :: "char \<Rightarrow> bool" where
  "isASCIISpace c \<longleftrightarrow> c \<in> {CHR 0x09, CHR 0x0A, CHR 0x0B, CHR 0x0C, CHR 0x0D, CHR 0x20}"

text \<open>
  The runes of \<open>unicode.IsSpace\<close> beyond ASCII, as UTF-8: U+0085, U+00A0, U+1680,
  U+2000 to U+200A, U+2028, U+2029, U+202F, U+205F and U+3000.
\<close>

definition isSpaceSeq2 :: "char \<Rightarrow> char \<Rightarrow> bool" where
  "isSpaceSeq2 a b \<longleftrightarrow> a = CHR 0xC2 \<and> b \<in> {CHR 0x85, CHR 0xA0}"

definition isSpaceSeq3 :: "char \<Rightarrow> char \<Rightarrow> char \<Rightarrow> bool" where
  "isSpaceSeq3 a b c \<longleftrightarrow>
     (a = CHR 0xE1 \<and> b = CHR 0x9A \<and> c = CHR 0x80) \<or>
     (a = CHR 0xE2 \<and> b = CHR 0x80 \<and>
        c \<in> {CHR 0x80, CHR 0x81, CHR 0x82, CHR 0x83, CHR 0x84, CHR 0x85, CHR 0x86, CHR 0x87,
             CHR 0x88, CHR 0x89, CHR 0x8A, CHR 0xA8, CHR 0xA9, CHR 0xAF}) \<or>
     (a = CHR 0xE2 \<and> b = CHR 0x81 \<and> c = CHR 0x9F) \<or>
     (a = CHR 0xE3 \<and> b = CHR 0x80 \<and> c = CHR 0x80)"

text \<open>The number of bytes of the white-space rune a string starts with, 0 if it starts with none.\<close>

fun spaceLen :: "string \<Rightarrow> nat" where
  "spaceLen [] = 0"
| "spaceLen (a # s) =
     (if isASCIISpace a then 1
      else case s of [] \<Rightarrow> 0
      | b # s' \<Rightarrow> (if isSpaceSeq2 a b then 2
          else case s' of [] \<Rightarrow> 0 | c # _ \<Rightarrow> (if isSpaceSeq3 a b c then 3 else 0)))"

text \<open>The same at the end of a string, given in reverse.\<close>

fun spaceLenRev :: "string \<Rightarrow> nat" where
  "spaceLenRev [] = 0"
| "spaceLenRev (a # s) =
     (if isASCIISpace a then 1
      else case s of [] \<Rightarrow> 0
      | b # s' \<Rightarrow> (if isSpaceSeq2 b a then 2
          else case s' of [] \<Rightarrow> 0 | c # _ \<Rightarrow> (if isSpaceSeq3 c b a then 3 else 0)))"

function trimSpaceLeft :: "string \<Rightarrow> string" where
  "trimSpaceLeft s = (if spaceLen s = 0 then s else trimSpaceLeft (drop (spaceLen s) s))"
  by pat_completeness auto
termination
proof (relation "measure length")
  fix s assume "spaceLen s \<noteq> 0"
  moreover from this have "s \<noteq> []" by (cases s) auto
  ultimately show "(drop (spaceLen s) s, s) \<in> measure length" by simp
qed simp

function trimSpaceRev :: "string \<Rightarrow> string" where
  "trimSpaceRev s = (if spaceLenRev s = 0 then s else trimSpaceRev (drop (spaceLenRev s) s))"
  by pat_completeness auto
termination
proof (relation "measure length")
  fix s assume "spaceLenRev s \<noteq> 0"
  moreover from this have "s \<noteq> []" by (cases s) auto
  ultimately show "(drop (spaceLenRev s) s, s) \<in> measure length" by simp
qed simp

declare trimSpaceLeft.simps [simp del] trimSpaceRev.simps [simp del]

definition trimSpace :: "string \<Rightarrow> string" where
  "trimSpace s = rev (trimSpaceRev (rev (trimSpaceLeft s)))"

section \<open>Splitting and joining\<close>

text \<open>\<open>strings.Split(s, c)\<close>; the result is never empty.\<close>

fun splitByte :: "string \<Rightarrow> char \<Rightarrow> string list" where
  "splitByte [] c = [[]]"
| "splitByte (x # s) c =
     (if x = c then [] # splitByte s c
      else (case splitByte s c of [] \<Rightarrow> [[x]] | l # ls \<Rightarrow> (x # l) # ls))"

fun joinStr :: "string \<Rightarrow> string list \<Rightarrow> string" where
  "joinStr sep [] = []"
| "joinStr sep [x] = x"
| "joinStr sep (x # y # xs) = x @ sep @ joinStr sep (y # xs)"

text \<open>\<open>strings.Fields\<close>: the maximal runs without white space.\<close>

function goFields :: "string \<Rightarrow> string \<Rightarrow> string list" where
  "goFields cur [] = (if cur = [] then [] else [rev cur])"
| "goFields cur (c # s) =
     (if spaceLen (c # s) = 0 then goFields (c # cur) s
      else (if cur = [] then [] else [rev cur]) @ goFields [] (drop (spaceLen (c # s)) (c # s)))"
  by pat_completeness auto
termination
  by (relation "measure (\<lambda>(cur, s). length s)") auto

definition stringsFields :: "string \<Rightarrow> string list" where
  "stringsFields s = goFields [] s"

section \<open>Case mapping\<close>

text \<open>
  \<open>strings.ToLower\<close> and \<open>strings.ToUpper\<close> on ASCII letters.  Of the runes beyond
  ASCII only U+0130 and U+212A have an ASCII lower case (i and k), and only U+0131 and
  U+017F an ASCII upper case (I and S); the code compares the results with ASCII constants
  only, so the other runes are left as they are.
\<close>

definition lowerByte :: "char \<Rightarrow> char" where
  "lowerByte c = (if 65 \<le> (of_char c :: nat) \<and> (of_char c :: nat) \<le> 90
                  then char_of ((of_char c :: nat) + 32) else c)"

definition upperByte :: "char \<Rightarrow> char" where
  "upperByte c = (if 97 \<le> (of_char c :: nat) \<and> (of_char c :: nat) \<le> 122
                  then char_of ((of_char c :: nat) - 32) else c)"

fun toLower :: "string \<Rightarrow> string" where
  "toLower [] = []"
| "toLower (a # s) =
     (case s of
        b # s' \<Rightarrow>
          (if a = CHR 0xC4 \<and> b = CHR 0xB0 then CHR ''i'' # toLower s'
           else (case s' of
              c # s'' \<Rightarrow> (if a = CHR 0xE2 \<and> b = CHR 0x84 \<and> c = CHR 0xAA
                           then CHR ''k'' # toLower s'' else lowerByte a # toLower s)
            | [] \<Rightarrow> lowerByte a # toLower s))
      | [] \<Rightarrow> [lowerByte a])"

fun toUpper :: "string \<Rightarrow> string" where
  "toUpper [] = []"
| "toUpper (a # s) =
     (case s of
        b # s' \<Rightarrow>
          (if a = CHR 0xC4 \<and> b = CHR 0xB1 then CHR ''I'' # toUpper s'
           else if a = CHR 0xC5 \<and> b = CHR 0xBF then CHR ''S'' # toUpper s'
           else upperByte a # toUpper s)
      | [] \<Rightarrow> [upperByte a])"

text \<open>\<open>strings.EqualFold\<close> against an ASCII constant without the letters k and s.\<close>

definition equalFold :: "string \<Rightarrow> string \<Rightarrow> bool" where
  "equalFold s t \<longleftrightarrow> map upperByte s = map upperByte t"


section \<open>Paths, quoting and numbers\<close>

text \<open>
  \<open>path.Clean\<close>: one pass over the components with a stack (its top first); an empty
  component and \<open>.\<close> are dropped, \<open>..\<close> removes the component before it.
\<close>

definition cleanStep :: "bool \<Rightarrow> string list \<Rightarrow> string \<Rightarrow> string list" where
  "cleanStep rooted stack el =
     (if el = [] \<or> el = ''.'' then stack
      else if el = ''..'' then
        (case stack of
           [] \<Rightarrow> (if rooted then [] else [''..''])
         | x # st \<Rightarrow> (if x = ''..'' then ''..'' # x # st else st))
      else el # stack)"

definition pathClean :: "string \<Rightarrow> string" where
  "pathClean p =
     (let rooted = hasPrefix p ''/'';
          comps = rev (foldl (cleanStep rooted) [] (splitByte p CHR ''/''));
          out = (if rooted then ''/'' else []) @ joinStr ''/'' comps
      in if out = [] then ''.'' else out)"

definition afterLastSlash :: "string \<Rightarrow> string" where
  "afterLastSlash p = rev (takeWhile (\<lambda>c. c \<noteq> CHR ''/'') (rev p))"

definition pathBase :: "string \<Rightarrow> string" where
  "pathBase p =
     (if p = [] then ''.''
      else let b = afterLastSlash (trimRight p ''/'') in if b = [] then ''/'' else b)"

definition hexDigit :: "nat \<Rightarrow> char" where
  "hexDigit n = (if n < 10 then char_of (48 + n) else char_of (87 + n))"

text \<open>\<open>strconv.Quote\<close> byte by byte; printable runes beyond ASCII stand for themselves.\<close>

definition quoteByte :: "char \<Rightarrow> string" where
  "quoteByte c =
     (if c = dquote \<or> c = bslash then [bslash, c]
      else if c = CHR 0x07 then [bslash, CHR ''a''] else if c = CHR 0x08 then [bslash, CHR ''b'']
      else if c = CHR 0x0C then [bslash, CHR ''f''] else if c = newline then [bslash, CHR ''n'']
      else if c = creturn then [bslash, CHR ''r''] else if c = tab then [bslash, CHR ''t'']
      else if c = CHR 0x0B then [bslash, CHR ''v'']
      else if (of_char c :: nat) < 32 \<or> (of_char c :: nat) = 127
        then [bslash, CHR ''x'', hexDigit (of_char c div 16), hexDigit (of_char c mod 16)]
      else [c])"

definition goQuote :: "string \<Rightarrow> string" where
  "goQuote s = [dquote] @ concat (map quoteByte s) @ [dquote]"

fun natToString :: "nat \<Rightarrow> string" where
  "natToString n =
     (if n < 10 then [char_of (48 + n)] else natToString (n div 10) @ [char_of (48 + n mod 10)])"

declare natToString.simps [simp del]

definition intToString :: "int \<Rightarrow> string" where
  "intToString i = (if i < 0 then CHR ''-'' # natToString (nat (- i)) else natToString (nat i))"

section \<open>Character classes of the shell\<close>

definition isDigit :: "char \<Rightarrow> bool" where
  "isDigit c \<longleftrightarrow> 48 \<le> (of_char c :: nat) \<and> (of_char c :: nat) \<le> 57"

definition isAlpha :: "char \<Rightarrow> bool" where
  "isAlpha c \<longleftrightarrow> (65 \<le> (of_char c :: nat) \<and> (of_char c :: nat) \<le> 90) \<or>
                 (97 \<le> (of_char c :: nat) \<and> (of_char c :: nat) \<le> 122)"

section \<open>Lemmas\<close>

subsection \<open>Searching\<close>

lemma hasPrefix_iff: "hasPrefix s p \<longleftrightarrow> (\<exists>t. s = p @ t)"
  by (simp add: hasPrefix_def prefix_def)

lemma indexByte_Some:
  "indexByte s c = Some i \<Longrightarrow> i < length s \<and> s ! i = c \<and> c \<notin> set (take i s)"
  by (induction s arbitrary: i) (auto split: if_splits)

lemma indexByte_None: "indexByte s c = None \<longleftrightarrow> c \<notin> set s"
  by (induction s) auto

lemma indexStr_Some:
  "indexStr s sub = Some i \<Longrightarrow> i + length sub \<le> length s \<and> hasPrefix (drop i s) sub"
proof (induction s arbitrary: i)
  case Nil
  then show ?case by (auto simp: hasPrefix_def split: if_splits)
next
  case (Cons x s)
  show ?case
  proof (cases "hasPrefix (x # s) sub")
    case True
    with Cons.prems show ?thesis by (auto simp: hasPrefix_def dest: prefix_length_le)
  next
    case False
    with Cons show ?thesis by auto
  qed
qed

lemma all_le_Suc_split: "(\<forall>i \<le> Suc n. Q i) \<longleftrightarrow> Q 0 \<and> (\<forall>i \<le> n. Q (Suc i))"
  by (metis Suc_le_mono le0 not0_implies_Suc)

lemma indexStr_None: "indexStr s sub = None \<longleftrightarrow> (\<forall>i \<le> length s. \<not> hasPrefix (drop i s) sub)"
proof (induction s)
  case Nil
  then show ?case by (auto simp: hasPrefix_def)
next
  case (Cons x s)
  have "(\<forall>i \<le> length (x # s). \<not> hasPrefix (drop i (x # s)) sub) \<longleftrightarrow>
        \<not> hasPrefix (x # s) sub \<and> (\<forall>i \<le> length s. \<not> hasPrefix (drop i s) sub)"
    using all_le_Suc_split [of "length s" "\<lambda>i. \<not> hasPrefix (drop i (x # s)) sub"] by simp
  with Cons show ?case by auto
qed

lemma containsStr_iff: "containsStr s sub \<longleftrightarrow> (\<exists>a b. s = a @ sub @ b)"
proof
  assume "containsStr s sub"
  then obtain i where "indexStr s sub = Some i" by (auto simp: containsStr_def)
  from indexStr_Some [OF this] obtain t where "drop i s = sub @ t" by (auto simp: hasPrefix_iff)
  then have "s = take i s @ sub @ t" by (metis append_take_drop_id)
  then show "\<exists>a b. s = a @ sub @ b" by blast
next
  assume "\<exists>a b. s = a @ sub @ b"
  then obtain a b where s: "s = a @ sub @ b" by blast
  then have "hasPrefix (drop (length a) s) sub" "length a \<le> length s"
    by (auto simp: hasPrefix_iff)
  then show "containsStr s sub" unfolding containsStr_def indexStr_None by blast
qed

lemma cutByte_Some:
  "cutByte s c = Some (a, b) \<Longrightarrow> s = a @ c # b \<and> c \<notin> set a"
  by (induction s arbitrary: a b) (auto split: if_splits)

lemma trimPrefix_length [len_le]: "length (trimPrefix s p) \<le> length s"
  by (simp add: trimPrefix_def)

subsection \<open>Trimming shortens\<close>

lemma trimLeft_length [len_le]: "length (trimLeft s cs) \<le> length s"
  by (simp add: trimLeft_def length_dropWhile_le)

lemma trimRight_length [len_le]: "length (trimRight s cs) \<le> length s"
  unfolding trimRight_def by (metis length_dropWhile_le length_rev)

lemma trimBoth_length [len_le]: "length (trimBoth s cs) \<le> length s"
  unfolding trimBoth_def by (meson le_trans trimLeft_length trimRight_length)

text \<open>What trimming removes is made of white-space bytes only.\<close>

definition spaceByte :: "char \<Rightarrow> bool" where
  "spaceByte c \<longleftrightarrow> isASCIISpace c \<or> 128 \<le> (of_char c :: nat)"

lemma isSpaceSeq2_bytes: "isSpaceSeq2 a b \<Longrightarrow> spaceByte a \<and> spaceByte b"
  unfolding isSpaceSeq2_def spaceByte_def by (elim conjE insertE emptyE) simp_all

lemma isSpaceSeq3_bytes: "isSpaceSeq3 a b c \<Longrightarrow> spaceByte a \<and> spaceByte b \<and> spaceByte c"
  unfolding isSpaceSeq3_def spaceByte_def by (elim conjE disjE insertE emptyE) simp_all

lemma isASCIISpace_byte: "isASCIISpace a \<Longrightarrow> spaceByte a"
  by (simp add: spaceByte_def)

lemma spaceLen_bytes: "\<forall>c \<in> set (take (spaceLen s) s). spaceByte c"
proof (cases s)
  case (Cons a t)
  show ?thesis
  proof (cases t)
    case Nil
    then show ?thesis by (simp add: Cons isASCIISpace_byte)
  next
    case (Cons b u)
    then show ?thesis unfolding \<open>s = a # t\<close>
      by (cases u) (simp_all add: isASCIISpace_byte isSpaceSeq2_bytes isSpaceSeq3_bytes numeral_3_eq_3 numeral_2_eq_2)
  qed
qed simp

lemma spaceLenRev_bytes: "\<forall>c \<in> set (take (spaceLenRev s) s). spaceByte c"
proof (cases s)
  case (Cons a t)
  show ?thesis
  proof (cases t)
    case Nil
    then show ?thesis by (simp add: Cons isASCIISpace_byte)
  next
    case (Cons b u)
    then show ?thesis unfolding \<open>s = a # t\<close>
      by (cases u) (auto simp add: isASCIISpace_byte numeral_3_eq_3 numeral_2_eq_2
          dest: isSpaceSeq2_bytes isSpaceSeq3_bytes)
  qed
qed simp

lemma trimSpaceLeft_parts: "\<exists>a. s = a @ trimSpaceLeft s \<and> (\<forall>c \<in> set a. spaceByte c)"
proof (induction s rule: trimSpaceLeft.induct)
  case (1 s)
  show ?case
  proof (cases "spaceLen s = 0")
    case True
    then show ?thesis by (simp add: trimSpaceLeft.simps [of s])
  next
    case False
    with 1 obtain a where a: "drop (spaceLen s) s = a @ trimSpaceLeft (drop (spaceLen s) s)"
      "\<forall>c \<in> set a. spaceByte c" by blast
    then have "s = (take (spaceLen s) s @ a) @ trimSpaceLeft (drop (spaceLen s) s)"
      by (metis append.assoc append_take_drop_id)
    moreover have "trimSpaceLeft s = trimSpaceLeft (drop (spaceLen s) s)"
      by (simp add: trimSpaceLeft.simps [of s] False)
    moreover have "\<forall>c \<in> set (take (spaceLen s) s @ a). spaceByte c"
      using a(2) spaceLen_bytes [of s] by auto
    ultimately show ?thesis by metis
  qed
qed

lemma trimSpaceRev_parts: "\<exists>a. s = a @ trimSpaceRev s \<and> (\<forall>c \<in> set a. spaceByte c)"
proof (induction s rule: trimSpaceRev.induct)
  case (1 s)
  show ?case
  proof (cases "spaceLenRev s = 0")
    case True
    then show ?thesis by (simp add: trimSpaceRev.simps [of s])
  next
    case False
    with 1 obtain a where a: "drop (spaceLenRev s) s = a @ trimSpaceRev (drop (spaceLenRev s) s)"
      "\<forall>c \<in> set a. spaceByte c" by blast
    then have "s = (take (spaceLenRev s) s @ a) @ trimSpaceRev (drop (spaceLenRev s) s)"
      by (metis append.assoc append_take_drop_id)
    moreover have "trimSpaceRev s = trimSpaceRev (drop (spaceLenRev s) s)"
      by (simp add: trimSpaceRev.simps [of s] False)
    moreover have "\<forall>c \<in> set (take (spaceLenRev s) s @ a). spaceByte c"
      using a(2) spaceLenRev_bytes [of s] by auto
    ultimately show ?thesis by metis
  qed
qed

lemma trimSpace_parts:
  "\<exists>a b. s = a @ trimSpace s @ b \<and> (\<forall>c \<in> set a. spaceByte c) \<and> (\<forall>c \<in> set b. spaceByte c)"
proof -
  obtain a where a: "s = a @ trimSpaceLeft s" "\<forall>c \<in> set a. spaceByte c"
    using trimSpaceLeft_parts by blast
  obtain b where b: "rev (trimSpaceLeft s) = b @ trimSpaceRev (rev (trimSpaceLeft s))"
    "\<forall>c \<in> set b. spaceByte c"
    using trimSpaceRev_parts by blast
  then have "trimSpaceLeft s = trimSpace s @ rev b"
    unfolding trimSpace_def by (metis rev_append rev_rev_ident)
  with a b(2) show ?thesis by (metis set_rev)
qed

lemma trimSpace_sub: "\<exists>a b. s = a @ trimSpace s @ b"
  using trimSpace_parts by blast

lemma containsStr_skip_left:
  assumes "sub \<noteq> []" and "\<forall>c \<in> set a. c \<noteq> hd sub"
  shows "containsStr (a @ s) sub \<longleftrightarrow> containsStr s sub"
  using assms(2)
proof (induction a)
  case (Cons x a)
  then have "\<not> hasPrefix (x # a @ s) sub" using assms(1) by (cases sub) (auto simp: hasPrefix_def)
  with Cons show ?case by (auto simp: containsStr_def)
qed simp

lemma containsStr_rev: "containsStr (rev s) (rev sub) \<longleftrightarrow> containsStr s sub"
  unfolding containsStr_iff by (metis append.assoc rev_append rev_rev_ident)

lemma containsStr_trimSpace:
  assumes "sub \<noteq> []" and "\<not> spaceByte (hd sub)" and "\<not> spaceByte (last sub)"
  shows "containsStr (trimSpace s) sub \<longleftrightarrow> containsStr s sub"
proof -
  obtain a b where ab: "s = a @ trimSpace s @ b" "\<forall>c \<in> set a. spaceByte c" "\<forall>c \<in> set b. spaceByte c"
    using trimSpace_parts by blast
  have "containsStr s sub \<longleftrightarrow> containsStr (trimSpace s @ b) sub"
    using ab assms by (subst ab(1), subst containsStr_skip_left) auto
  also have "\<dots> \<longleftrightarrow> containsStr (rev b @ rev (trimSpace s)) (rev sub)"
    by (metis containsStr_rev rev_append)
  also have "\<dots> \<longleftrightarrow> containsStr (rev (trimSpace s)) (rev sub)"
    using ab assms by (subst containsStr_skip_left) (auto simp: hd_rev)
  also have "\<dots> \<longleftrightarrow> containsStr (trimSpace s) sub" by (rule containsStr_rev)
  finally show ?thesis by blast
qed

lemma trimSpace_length [len_le]: "length (trimSpace s) \<le> length s"
  using trimSpace_sub [of s] by (metis length_append le_add1 le_add2 le_trans)

lemma trimSpace_Nil [simp]: "trimSpace [] = []"
  by (simp add: trimSpace_def trimSpaceLeft.simps [of "[]"] trimSpaceRev.simps [of "[]"])

subsection \<open>Splitting and joining\<close>

lemma splitByte_not_Nil [simp]: "splitByte s c \<noteq> []"
  by (induction s) (auto split: list.splits)

lemma joinStr_Cons: "xs \<noteq> [] \<Longrightarrow> joinStr sep (x # xs) = x @ sep @ joinStr sep xs"
  by (cases xs) auto

lemma joinStr_splitByte: "joinStr [c] (splitByte s c) = s"
proof (induction s)
  case (Cons x s)
  then show ?case
    by (cases "splitByte s c") (auto simp: joinStr_Cons, (cases "tl (splitByte s c)"; simp)+)
qed simp

lemma splitByte_app: "c \<notin> set l \<Longrightarrow> splitByte (l @ c # t) c = l # splitByte t c"
  by (induction l) auto

lemma splitByte_single: "c \<notin> set l \<Longrightarrow> splitByte l c = [l]"
  by (induction l) auto

lemma splitByte_joinStr:
  "ls \<noteq> [] \<Longrightarrow> list_all (\<lambda>l. c \<notin> set l) ls \<Longrightarrow> splitByte (joinStr [c] ls) c = ls"
proof (induction ls)
  case (Cons l ls)
  then show ?case by (cases ls) (simp_all add: splitByte_app splitByte_single)
qed simp

lemma splitByte_no_sep: "l \<in> set (splitByte s c) \<Longrightarrow> c \<notin> set l"
proof (induction s arbitrary: l)
  case (Cons x s)
  then show ?case
    by (cases "splitByte s c") (auto split: if_splits)
qed simp

lemma joinStr_length: "length (joinStr sep ts) =
    sum_list (map length ts) + length sep * (length ts - 1)"
  by (induction sep ts rule: joinStr.induct) auto

lemma joinStr_sub: "t \<in> set ts \<Longrightarrow> \<exists>a b. joinStr sep ts = a @ t @ b"
proof (induction sep ts rule: joinStr.induct)
  case (3 sep x y xs)
  show ?case
  proof (cases "t = x")
    case True
    then show ?thesis by (auto intro: exI [of _ "[]"])
  next
    case False
    with 3 obtain a b where "joinStr sep (y # xs) = a @ t @ b" by auto
    then have "joinStr sep (x # y # xs) = (x @ sep @ a) @ t @ b" by simp
    then show ?thesis by blast
  qed
qed (auto intro: exI [of _ "[]"])

lemma joinStr_elem_length: "t \<in> set ts \<Longrightarrow> length t \<le> length (joinStr sep ts)"
  using joinStr_sub [of t ts sep] by auto

lemma splitByte_length:
  assumes "l \<in> set (splitByte s c)"
  shows "length l \<le> length s"
  by (metis assms joinStr_elem_length joinStr_splitByte)

lemma splitByte_length_less:
  assumes "l \<in> set (splitByte s c)" and "c \<in> set s"
  shows "length l < length s"
proof -
  have "length l \<le> length s" using assms(1) by (rule splitByte_length)
  moreover have "length l \<noteq> length s"
  proof
    assume eq: "length l = length s"
    obtain a b where "s = a @ l @ b"
      using joinStr_sub [OF assms(1), of "[c]"] by (auto simp: joinStr_splitByte)
    with eq have "l = s" by auto
    with assms splitByte_no_sep show False by blast
  qed
  ultimately show ?thesis by simp
qed

lemma splitByte_sub: "l \<in> set (splitByte s c) \<Longrightarrow> set l \<subseteq> set s"
  using joinStr_sub [of l "splitByte s c" "[c]"] by (auto simp: joinStr_splitByte)

lemma joinStr_chars: "c \<in> set (joinStr sep ts) \<Longrightarrow> c \<in> set sep \<or> (\<exists>t \<in> set ts. c \<in> set t)"
  by (induction sep ts rule: joinStr.induct) auto

lemma joinStr_ends: "\<exists>m. joinStr sep (a # ts @ [b]) = a @ m @ b"
proof (induction ts arbitrary: a)
  case (Cons t ts)
  then obtain m where "joinStr sep (t # ts @ [b]) = t @ m @ b" by blast
  then show ?case by (intro exI [of _ "sep @ t @ m"]) (simp add: joinStr_Cons)
qed simp

end
