(* ===== verification/ShellLex.thy ===== *)
theory ShellLex
  imports GoStrings
begin

text \<open>
  The shell scanner of \<open>internal/jinn/command_risk_parse.go\<close>: the quote automaton, the
  comment stripper, the word splitter, the spans of \<open>[[ ]]\<close> and \<open>(( ))\<close> in which
  \<open><\<close> and \<open>>\<close> compare, and the operator splitter.  A loop with a rune index is a
  recursion on the remaining text that carries the index where the code needs it; the span
  cursor \<open>spanIdx\<close> is the list of the spans not yet passed.
\<close>

section \<open>Quote state\<close>

record shellQuoteState =
  inSingle :: bool
  inDouble :: bool
  escaped :: bool

definition quote0 :: shellQuoteState where
  "quote0 = \<lparr>inSingle = False, inDouble = False, escaped = False\<rparr>"

text \<open>The second component tells whether the byte is quoted text (or a quoting byte).\<close>

definition writeLiteral :: "shellQuoteState \<Rightarrow> char \<Rightarrow> shellQuoteState \<times> bool" where
  "writeLiteral s ch =
     (if escaped s then (s\<lparr>escaped := False\<rparr>, True)
      else if ch = bslash \<and> \<not> inSingle s then (s\<lparr>escaped := True\<rparr>, True)
      else if ch = squote \<and> \<not> inDouble s then (s\<lparr>inSingle := \<not> inSingle s\<rparr>, True)
      else if ch = dquote \<and> \<not> inSingle s then (s\<lparr>inDouble := \<not> inDouble s\<rparr>, True)
      else if inSingle s \<or> inDouble s then (s, True)
      else (s, False))"

definition isShellDoubleOperator :: "char \<Rightarrow> char \<Rightarrow> bool" where
  "isShellDoubleOperator left right \<longleftrightarrow>
     (left = CHR ''&'' \<and> right = CHR ''&'') \<or> (left = CHR ''|'' \<and> right = CHR ''|'')"

definition isShellCommandSeparator :: "char \<Rightarrow> bool" where
  "isShellCommandSeparator ch \<longleftrightarrow> ch = CHR ''|'' \<or> ch = CHR '';'' \<or> ch = newline"

text \<open>\<open>prev\<close> is the rune before the examined one, if there is one.\<close>

definition isShellBackgroundSeparator :: "char option \<Rightarrow> char \<Rightarrow> bool" where
  "isShellBackgroundSeparator prev ch \<longleftrightarrow>
     ch = CHR ''&'' \<and> prev \<noteq> Some CHR ''>'' \<and> prev \<noteq> Some CHR ''<''"

definition isShellBlank :: "char \<Rightarrow> bool" where
  "isShellBlank ch \<longleftrightarrow> ch = CHR '' '' \<or> ch = tab \<or> ch = creturn"

definition isCommentWordStart :: "char \<Rightarrow> bool" where
  "isCommentWordStart ch \<longleftrightarrow> ch = newline \<or> ch = CHR '';'' \<or> ch = CHR ''|'' \<or> ch = CHR ''&'' \<or>
     ch = CHR ''('' \<or> ch = CHR ''{'' \<or> isShellBlank ch"

fun stripCommentsLoop :: "shellQuoteState \<Rightarrow> bool \<Rightarrow> string \<Rightarrow> string" where
  "stripCommentsLoop q atWordStart [] = []"
| "stripCommentsLoop q atWordStart (ch # rest) =
     (let (q', lit) = writeLiteral q ch in
      if lit then ch # stripCommentsLoop q' False rest
      else if ch = CHR ''#'' \<and> atWordStart
        then stripCommentsLoop q' atWordStart (dropWhile (\<lambda>c. c \<noteq> newline) rest)
      else ch # stripCommentsLoop q' (isCommentWordStart ch) rest)"

definition stripShellComments :: "string \<Rightarrow> string" where
  "stripShellComments cmdline = stripCommentsLoop quote0 True cmdline"

section \<open>Words\<close>

text \<open>\<open>cur\<close> is the builder, its last byte first.\<close>

fun shellFieldsLoop :: "shellQuoteState \<Rightarrow> bool \<Rightarrow> string \<Rightarrow> string \<Rightarrow> string list" where
  "shellFieldsLoop q inField cur [] = (if inField then [rev cur] else [])"
| "shellFieldsLoop q inField cur (ch # rest) =
     (if escaped q then shellFieldsLoop (q\<lparr>escaped := False\<rparr>) True (ch # cur) rest
      else if ch = bslash \<and> \<not> inSingle q then shellFieldsLoop (q\<lparr>escaped := True\<rparr>) True cur rest
      else if ch = squote \<and> \<not> inDouble q
        then shellFieldsLoop (q\<lparr>inSingle := \<not> inSingle q\<rparr>) True cur rest
      else if ch = dquote \<and> \<not> inSingle q
        then shellFieldsLoop (q\<lparr>inDouble := \<not> inDouble q\<rparr>) True cur rest
      else if \<not> inSingle q \<and> \<not> inDouble q \<and> isShellBlank ch
        then (if inField then rev cur # shellFieldsLoop q False [] rest
              else shellFieldsLoop q inField cur rest)
      else shellFieldsLoop q True (ch # cur) rest)"

definition shellFields :: "string \<Rightarrow> string list" where
  "shellFields s = shellFieldsLoop quote0 False [] s"

section \<open>Comparison spans\<close>

record outputSpan =
  spanStart :: nat
  spanEnd :: nat

record outputComparisonToken =
  tokText :: string
  tokStart :: nat
  tokEnd :: nat
  tokQuoted :: bool
  tokEscaped :: bool

record outputComparisonTokenizer =
  otTokens :: "outputComparisonToken list"
  otCur :: string
  otQuote :: shellQuoteState
  otTokenStart :: "nat option"
  otTokenQuoted :: bool
  otTokenEscaped :: bool

definition tokenizer0 :: outputComparisonTokenizer where
  "tokenizer0 = \<lparr>otTokens = [], otCur = [], otQuote = quote0, otTokenStart = None,
                 otTokenQuoted = False, otTokenEscaped = False\<rparr>"

definition otStart :: "nat \<Rightarrow> outputComparisonTokenizer \<Rightarrow> outputComparisonTokenizer" where
  "otStart i s = (if otTokenStart s = None then s\<lparr>otTokenStart := Some i\<rparr> else s)"

definition otWrite :: "char \<Rightarrow> outputComparisonTokenizer \<Rightarrow> outputComparisonTokenizer" where
  "otWrite ch s = s\<lparr>otCur := otCur s @ [ch]\<rparr>"

definition otFlush :: "nat \<Rightarrow> outputComparisonTokenizer \<Rightarrow> outputComparisonTokenizer" where
  "otFlush e s =
     (case otTokenStart s of
        None \<Rightarrow> s
      | Some b \<Rightarrow> s\<lparr>otTokens := otTokens s @ [\<lparr>tokText = otCur s, tokStart = b, tokEnd = e,
                       tokQuoted = otTokenQuoted s, tokEscaped = otTokenEscaped s\<rparr>],
                    otCur := [], otTokenStart := None,
                    otTokenQuoted := False, otTokenEscaped := False\<rparr>)"

definition otConsumeEscape ::
  "nat \<Rightarrow> char \<Rightarrow> outputComparisonTokenizer \<Rightarrow> outputComparisonTokenizer option" where
  "otConsumeEscape i ch s =
     (if escaped (otQuote s)
      then Some ((otWrite ch (otStart i s))\<lparr>otTokenEscaped := True,
                   otQuote := (otQuote s)\<lparr>escaped := False\<rparr>\<rparr>)
      else if ch \<noteq> bslash \<or> inSingle (otQuote s) then None
      else Some ((otStart i s)\<lparr>otTokenEscaped := True,
                   otQuote := (otQuote s)\<lparr>escaped := True\<rparr>\<rparr>))"

definition otConsumeQuote ::
  "nat \<Rightarrow> char \<Rightarrow> outputComparisonTokenizer \<Rightarrow> outputComparisonTokenizer option" where
  "otConsumeQuote i ch s =
     (let q = otQuote s in
      if ch = squote \<and> \<not> inDouble q
      then Some ((otStart i (s\<lparr>otQuote := q\<lparr>inSingle := \<not> inSingle q\<rparr>\<rparr>))\<lparr>otTokenQuoted := True\<rparr>)
      else if ch = dquote \<and> \<not> inSingle q
      then Some ((otStart i (s\<lparr>otQuote := q\<lparr>inDouble := \<not> inDouble q\<rparr>\<rparr>))\<lparr>otTokenQuoted := True\<rparr>)
      else None)"

definition otConsume :: "nat \<Rightarrow> char \<Rightarrow> outputComparisonTokenizer \<Rightarrow> outputComparisonTokenizer" where
  "otConsume i ch s =
     (case otConsumeEscape i ch s of
        Some s' \<Rightarrow> s'
      | None \<Rightarrow>
          (case otConsumeQuote i ch s of
             Some s' \<Rightarrow> s'
           | None \<Rightarrow>
               (if \<not> inSingle (otQuote s) \<and> \<not> inDouble (otQuote s) \<and> isShellBlank ch
                then otFlush i s
                else otWrite ch (otStart i s))))"

fun tokenizeLoop :: "nat \<Rightarrow> string \<Rightarrow> outputComparisonTokenizer \<Rightarrow> outputComparisonTokenizer" where
  "tokenizeLoop i [] s = otFlush i s"
| "tokenizeLoop i (ch # rest) s = tokenizeLoop (Suc i) rest (otConsume i ch s)"

definition tokenizeOutputComparisonTokens :: "string \<Rightarrow> outputComparisonToken list" where
  "tokenizeOutputComparisonTokens seg = otTokens (tokenizeLoop 0 seg tokenizer0)"

definition isCommandPositionStartToken :: "string \<Rightarrow> bool" where
  "isCommandPositionStartToken tok \<longleftrightarrow>
     tok \<in> {''!'', ''if'', ''while'', ''until'', ''elif'', ''then'', ''do'', ''&&'', ''||'', '';'', ''|''}"

definition plainToken :: "outputComparisonToken \<Rightarrow> bool" where
  "plainToken tok \<longleftrightarrow> \<not> tokQuoted tok \<and> \<not> tokEscaped tok"

fun squareSpansLoop ::
  "nat option \<Rightarrow> bool \<Rightarrow> outputComparisonToken list \<Rightarrow> outputSpan list" where
  "squareSpansLoop openStart commandPos [] = []"
| "squareSpansLoop openStart commandPos (tok # rest) =
     (let commandPos' = (isCommandPositionStartToken (tokText tok) \<and> plainToken tok) in
      case openStart of
        Some b \<Rightarrow>
          (if plainToken tok \<and> tokText tok = '']]''
           then \<lparr>spanStart = b, spanEnd = tokEnd tok\<rparr> # squareSpansLoop None commandPos' rest
           else squareSpansLoop openStart commandPos' rest)
      | None \<Rightarrow>
          (if commandPos \<and> plainToken tok \<and> tokText tok = ''[[''
           then squareSpansLoop (Some (tokStart tok)) commandPos' rest
           else squareSpansLoop None commandPos' rest))"

definition outputSquareComparisonSpans :: "outputComparisonToken list \<Rightarrow> outputSpan list" where
  "outputSquareComparisonSpans tokens = squareSpansLoop None True tokens"

record outputArithmeticScanner =
  asSpans :: "outputSpan list"
  asOpenStart :: "nat option"
  asParenDepth :: int

text \<open>The result's second component is the number of further runes the step consumes.\<close>

definition arithConsume ::
  "outputArithmeticScanner \<Rightarrow> nat \<Rightarrow> char \<Rightarrow> string \<Rightarrow> outputArithmeticScanner \<times> nat" where
  "arithConsume s i ch rest =
     (let doubleParen = (case rest of [] \<Rightarrow> False | c # _ \<Rightarrow> c = ch) in
      case asOpenStart s of
        None \<Rightarrow> (if ch = CHR ''('' \<and> doubleParen
                 then (s\<lparr>asOpenStart := Some i, asParenDepth := 0\<rparr>, 1) else (s, 0))
      | Some b \<Rightarrow>
          (if ch = CHR ''(''
           then (s\<lparr>asParenDepth := asParenDepth s + 1\<rparr>, if doubleParen then 1 else 0)
           else if ch \<noteq> CHR '')'' then (s, 0)
           else if doubleParen
           then (if asParenDepth s = 0
                 then (s\<lparr>asSpans := asSpans s @ [\<lparr>spanStart = b, spanEnd = i + 2\<rparr>],
                         asOpenStart := None\<rparr>, 1)
                 else (s\<lparr>asParenDepth := asParenDepth s - 1\<rparr>, 1))
           else if asParenDepth s > 0 then (s\<lparr>asParenDepth := asParenDepth s - 1\<rparr>, 0)
           else (s, 0)))"

function (sequential) arithSpansLoop ::
  "nat \<Rightarrow> string \<Rightarrow> shellQuoteState \<Rightarrow> outputArithmeticScanner \<Rightarrow> outputSpan list" where
  "arithSpansLoop i [] q s = asSpans s"
| "arithSpansLoop i (ch # rest) q s =
     (let (q', lit) = writeLiteral q ch in
      if lit then arithSpansLoop (Suc i) rest q' s
      else (let (s', skip) = arithConsume s i ch rest
            in arithSpansLoop (Suc i + skip) (drop skip rest) q' s'))"
  by pat_completeness auto
termination
  by (relation "measure (\<lambda>(i, s, q, t). length s)") auto

definition outputArithmeticComparisonSpans :: "string \<Rightarrow> outputSpan list" where
  "outputArithmeticComparisonSpans runes =
     arithSpansLoop 0 runes quote0 \<lparr>asSpans = [], asOpenStart = None, asParenDepth = 0\<rparr>"

fun mergeSpans :: "outputSpan list \<Rightarrow> outputSpan list \<Rightarrow> outputSpan list" where
  "mergeSpans merged [] = rev merged"
| "mergeSpans [] (sp # rest) = mergeSpans [sp] rest"
| "mergeSpans (m # ms) (sp # rest) =
     (if spanStart sp > spanEnd m then mergeSpans (sp # m # ms) rest
      else if spanEnd sp > spanEnd m then mergeSpans (m\<lparr>spanEnd := spanEnd sp\<rparr> # ms) rest
      else mergeSpans (m # ms) rest)"

definition outputComparisonSkipSpans :: "string \<Rightarrow> outputSpan list" where
  "outputComparisonSkipSpans seg =
     (let spans = outputSquareComparisonSpans (tokenizeOutputComparisonTokens seg) @
                  outputArithmeticComparisonSpans seg in
      if length spans \<le> 1 then spans else mergeSpans [] (sort_key spanStart spans))"

text \<open>The cursor moves past the spans that end at or before \<open>i\<close>.\<close>

definition runeInOutputSpan :: "nat \<Rightarrow> outputSpan list \<Rightarrow> bool \<times> outputSpan list" where
  "runeInOutputSpan i spans =
     (let spans' = dropWhile (\<lambda>sp. i \<ge> spanEnd sp) spans in
      (case spans' of [] \<Rightarrow> False | sp # _ \<Rightarrow> i \<ge> spanStart sp, spans'))"

fun tokenInOutputSpan :: "nat \<Rightarrow> nat \<Rightarrow> outputSpan list \<Rightarrow> bool" where
  "tokenInOutputSpan b e [] = False"
| "tokenInOutputSpan b e (sp # spans) =
     (if e \<le> spanStart sp then False
      else if b < spanEnd sp \<and> e > spanStart sp then True
      else tokenInOutputSpan b e spans)"

section \<open>Operators\<close>

fun splitLoop ::
  "nat \<Rightarrow> char option \<Rightarrow> shellQuoteState \<Rightarrow> outputSpan list \<Rightarrow> string \<Rightarrow> string \<Rightarrow> string list" where
  "splitLoop i prev q spans cur [] = (if cur \<noteq> [] then [rev cur] else [])"
| "splitLoop i prev q spans cur (ch # rest) =
     (let (q', lit) = writeLiteral q ch in
      if lit then splitLoop (Suc i) (Some ch) q' spans (ch # cur) rest
      else (let (inSpan, spans') = runeInOutputSpan i spans in
      if inSpan then splitLoop (Suc i) (Some ch) q' spans' (ch # cur) rest
      else if (case rest of [] \<Rightarrow> False | c # _ \<Rightarrow> isShellDoubleOperator ch c)
        then rev cur # splitLoop (Suc (Suc i)) (Some (hd rest)) q' spans' [] (tl rest)
      else if isShellCommandSeparator ch
        then rev cur # splitLoop (Suc i) (Some ch) q' spans' [] rest
      else if isShellBackgroundSeparator prev ch
        then rev cur # splitLoop (Suc i) (Some ch) q' spans' [] rest
      else splitLoop (Suc i) (Some ch) q' spans' (ch # cur) rest))"

definition splitOnOperators :: "string \<Rightarrow> string list" where
  "splitOnOperators cmdline =
     splitLoop 0 None quote0 (outputComparisonSkipSpans cmdline) [] cmdline"

section \<open>Redirections\<close>

definition isShellWriteRedirection :: "char \<Rightarrow> string \<Rightarrow> bool" where
  "isShellWriteRedirection ch rest \<longleftrightarrow>
     ch = CHR ''>'' \<or> (ch = CHR ''<'' \<and> (case rest of [] \<Rightarrow> False | c # _ \<Rightarrow> c = CHR ''>''))"

fun outputRedirLoop ::
  "nat \<Rightarrow> shellQuoteState \<Rightarrow> outputSpan list \<Rightarrow> string \<Rightarrow> bool" where
  "outputRedirLoop i q spans [] = False"
| "outputRedirLoop i q spans (ch # rest) =
     (let (q', lit) = writeLiteral q ch in
      if lit then outputRedirLoop (Suc i) q' spans rest
      else (let (inSpan, spans') = runeInOutputSpan i spans in
      if inSpan then outputRedirLoop (Suc i) q' spans' rest
      else if isShellWriteRedirection ch rest then True
      else outputRedirLoop (Suc i) q' spans' rest))"

definition hasOutputRedirection :: "string \<Rightarrow> bool" where
  "hasOutputRedirection seg = outputRedirLoop 0 quote0 (outputComparisonSkipSpans seg) seg"

fun inputRedirLoop :: "shellQuoteState \<Rightarrow> string \<Rightarrow> bool" where
  "inputRedirLoop q [] = False"
| "inputRedirLoop q (ch # rest) =
     (if escaped q then inputRedirLoop (q\<lparr>escaped := False\<rparr>) rest
      else if ch = bslash \<and> \<not> inSingle q then inputRedirLoop (q\<lparr>escaped := True\<rparr>) rest
      else if ch = squote \<and> \<not> inDouble q then inputRedirLoop (q\<lparr>inSingle := \<not> inSingle q\<rparr>) rest
      else if ch = dquote \<and> \<not> inSingle q then inputRedirLoop (q\<lparr>inDouble := \<not> inDouble q\<rparr>) rest
      else if \<not> inSingle q \<and> \<not> inDouble q \<and> ch = CHR ''<'' then True
      else inputRedirLoop q rest)"

definition hasInputRedirection :: "string \<Rightarrow> bool" where
  "hasInputRedirection seg = inputRedirLoop quote0 seg"

definition allDigits :: "string \<Rightarrow> bool" where
  "allDigits s \<longleftrightarrow> s \<noteq> [] \<and> list_all isDigit s"

definition compactOutputRedirectionTarget :: "string \<Rightarrow> string \<Rightarrow> string option" where
  "compactOutputRedirectionTarget tok opr =
     (case indexStr tok opr of
        None \<Rightarrow> None
      | Some index \<Rightarrow>
          (let pre = take index tok in
           if pre \<noteq> [] \<and> \<not> allDigits pre then Some (drop (index + length opr) tok)
           else Some (drop (index + length opr) tok)))"

text \<open>The target and whether the next token holds it.\<close>

definition outputRedirectionTarget :: "string \<Rightarrow> (string \<times> bool) option" where
  "outputRedirectionTarget tok =
     (if tok \<in> {''>'', ''>|'', ''>>'', ''&>'', ''&>>'', ''<>''} then Some ([], True)
      else case compactOutputRedirectionTarget tok ''<>'' of
        Some target \<Rightarrow> Some (target, target = [])
      | None \<Rightarrow>
          (case compactOutputRedirectionTarget tok ''>'' of
             Some target \<Rightarrow> Some (target, target = [])
           | None \<Rightarrow> None))"

definition dangerousDevicePrefixes :: "string list" where
  "dangerousDevicePrefixes =
     [''/dev/sd'', ''/dev/hd'', ''/dev/vd'', ''/dev/xvd'', ''/dev/nvme'', ''/dev/mmcblk'',
      ''/dev/disk'', ''/dev/rdisk'', ''/dev/loop'', ''/dev/md'', ''/dev/dm-'', ''/dev/nbd'',
      ''/dev/rbd'', ''/dev/drbd'', ''/dev/pmem'', ''/dev/bcache'', ''/dev/dasd'', ''/dev/aoe/'',
      ''/dev/cciss/'', ''/dev/ram'', ''/dev/mtd'', ''/dev/zram'', ''/dev/ada'', ''/dev/da'',
      ''/dev/nda'', ''/dev/wd'', ''/dev/vtbd'', ''/dev/ld'', ''/dev/cgd'', ''/dev/vnd'',
      ''/dev/dsk/'', ''/dev/rdsk/'', ''/dev/zvol/'', ''/dev/mapper/'']"

definition cleanTarget :: "string \<Rightarrow> string" where
  "cleanTarget target = (if hasPrefix target ''/'' then pathClean target else target)"

definition isDangerousDevicePath :: "string \<Rightarrow> bool" where
  "isDangerousDevicePath target0 =
     (let target = cleanTarget target0 in
      if target \<in> {''/dev/null'', ''/dev/stdout'', ''/dev/stderr''} then False
      else list_ex (hasPrefix target) dangerousDevicePrefixes)"

fun dangerousTargetLoop ::
  "outputSpan list \<Rightarrow> outputComparisonToken list \<Rightarrow> string option" where
  "dangerousTargetLoop spans [] = None"
| "dangerousTargetLoop spans (tok # rest) =
     (if tokenInOutputSpan (tokStart tok) (tokEnd tok) spans then dangerousTargetLoop spans rest
      else case outputRedirectionTarget (tokText tok) of
        None \<Rightarrow> dangerousTargetLoop spans rest
      | Some (target, consumesNext) \<Rightarrow>
          (let target' = (if target = [] \<and> consumesNext
                          then (case rest of [] \<Rightarrow> target | n # _ \<Rightarrow> tokText n) else target) in
           if isDangerousDevicePath target' then Some target'
           else dangerousTargetLoop spans rest))"

definition dangerousOutputRedirectionTarget :: "string \<Rightarrow> string option" where
  "dangerousOutputRedirectionTarget seg =
     dangerousTargetLoop (outputComparisonSkipSpans seg) (tokenizeOutputComparisonTokens seg)"

definition isInputRedirectionToken :: "string \<Rightarrow> bool" where
  "isInputRedirectionToken tok =
     (if hasPrefix tok ''<'' then True
      else case dropWhile isDigit tok of
        [] \<Rightarrow> False
      | ch # _ \<Rightarrow> ch = CHR ''<'' \<and> allDigits (takeWhile isDigit tok))"

definition inputRedirectionConsumesNext :: "string \<Rightarrow> bool" where
  "inputRedirectionConsumesNext tok =
     (if tok = ''<'' then True
      else case indexByte tok CHR ''<'' of None \<Rightarrow> False | Some i \<Rightarrow> Suc i = length tok)"

section \<open>Names and assignments\<close>

definition isShellNameStart :: "char \<Rightarrow> bool" where
  "isShellNameStart ch \<longleftrightarrow> isAlpha ch \<or> ch = CHR ''_''"

definition isIdentChar :: "char \<Rightarrow> bool" where
  "isIdentChar ch \<longleftrightarrow> isAlpha ch \<or> isDigit ch \<or> ch = CHR ''_''"

fun isShellName :: "string \<Rightarrow> bool" where
  "isShellName [] = False"
| "isShellName (ch # rest) = (isShellNameStart ch \<and> list_all isIdentChar rest)"

definition isEnvAssignment :: "string \<Rightarrow> bool" where
  "isEnvAssignment tok =
     (case indexByte tok CHR ''='' of
        None \<Rightarrow> False
      | Some eq \<Rightarrow> 0 < eq \<and> list_all isIdentChar (take eq tok))"

definition isFlag :: "string \<Rightarrow> bool" where
  "isFlag tok = hasPrefix tok ''-''"

definition containsAny :: "string \<Rightarrow> char list \<Rightarrow> bool" where
  "containsAny s flags = (let s' = trimLeft s ''-'' in list_ex (\<lambda>f. f \<in> set s') flags)"

definition firstVerb :: "string \<Rightarrow> string" where
  "firstVerb cmd =
     (case dropWhile isEnvAssignment (shellFields cmd) of [] \<Rightarrow> [] | tok # _ \<Rightarrow> tok)"

end
