(* ===== verification/ShellWrap.thy ===== *)
theory ShellWrap
  imports ShellLex
begin

text \<open>
  Command wrappers (\<open>internal/jinn/command_risk_parse.go\<close>, and \<open>timeOutputRisk\<close> of
  \<open>command_risk.go\<close> is in theory \<open>RiskClassify\<close>): the executable a segment really runs,
  found through environment assignments, shell keywords, \<open>env\<close>, \<open>timeout\<close>,
  \<open>time\<close> and their kin.  A payload index \<open>-1\<close> is \<open>None\<close>.
\<close>

section \<open>Verbs\<close>

text \<open>The text before the first \<open><\<close> or \<open>>\<close>; empty when that is a file descriptor or nothing.\<close>

definition commandVerbBeforeRedirection :: "string \<Rightarrow> string" where
  "commandVerbBeforeRedirection tok =
     (let pre = takeWhile (\<lambda>ch. ch \<noteq> CHR ''<'' \<and> ch \<noteq> CHR ''>'') tok in
      if pre = tok then tok
      else if pre = [] \<or> allDigits pre then [] else pre)"

definition normalizedCommandVerb :: "string \<Rightarrow> string" where
  "normalizedCommandVerb tok0 =
     (let tok = commandVerbBeforeRedirection tok0 in
      if tok = [] then []
      else if tok = ''[['' \<or> hasPrefix tok ''(('' then ''true''
      else (let verb = trimRight (trimLeft (pathBase tok) ''({'') '')}'' in
            if verb = [] then pathBase tok else verb))"

definition isCasePatternToken :: "string \<Rightarrow> bool" where
  "isCasePatternToken tok \<longleftrightarrow> hasSuffix tok '')'' \<and> tok \<noteq> '')''"

section \<open>Payload positions\<close>

definition directShellWrappers :: "string set" where
  "directShellWrappers = {''{'', ''('', ''!'', ''if'', ''then'', ''else'', ''elif'',
     ''do'', ''while'', ''until'', ''nohup''}"

text \<open>The options that take a separate argument, by wrapper.\<close>

definition flagSkippingShellWrappers :: "(string \<times> string list) list" where
  "flagSkippingShellWrappers =
     [(''nice'', [''-n'', ''--adjustment'']),
      (''setsid'', []),
      (''stdbuf'', [''-i'', ''-o'', ''-e'', ''--input'', ''--output'', ''--error''])]"

fun restPayload :: "string list \<Rightarrow> string list option" where
  "restPayload [] = None"
| "restPayload (t # ts) = Some (t # ts)"

definition indexedPayload :: "string list \<Rightarrow> nat option \<Rightarrow> string list option" where
  "indexedPayload tokens index = map_option (\<lambda>i. drop i tokens) index"

definition coprocPayloadIndex :: "string list \<Rightarrow> nat option" where
  "coprocPayloadIndex tokens =
     (case tokens of
        [] \<Rightarrow> None
      | t # ts \<Rightarrow>
          (if isShellName t \<and> (case ts of [] \<Rightarrow> False | t2 # _ \<Rightarrow> t2 = ''{'' \<or> t2 = ''('')
           then Some 1 else Some 0))"

fun casePayloadIndex :: "string list \<Rightarrow> nat option" where
  "casePayloadIndex [] = None"
| "casePayloadIndex (tok # rest) =
     (if isCasePatternToken tok \<and> rest \<noteq> [] then Some 1
      else map_option Suc (casePayloadIndex rest))"

fun wrapperPayloadIndex :: "string list \<Rightarrow> string list \<Rightarrow> nat option" where
  "wrapperPayloadIndex flagArgs [] = None"
| "wrapperPayloadIndex flagArgs (tok # rest) =
     (if isEnvAssignment tok then map_option Suc (wrapperPayloadIndex flagArgs rest)
      else if tok \<in> set flagArgs
        then map_option (\<lambda>i. i + 2) (wrapperPayloadIndex flagArgs (drop 1 rest))
      else if hasPrefix tok ''-'' then map_option Suc (wrapperPayloadIndex flagArgs rest)
      else Some 0)"

fun execPayloadIndex :: "string list \<Rightarrow> nat option" where
  "execPayloadIndex [] = None"
| "execPayloadIndex (tok # rest) =
     (if isEnvAssignment tok then map_option Suc (execPayloadIndex rest)
      else if hasPrefix tok ''-'' then map_option Suc (execPayloadIndex rest)
      else Some 0)"

fun commandPayloadIndex :: "string list \<Rightarrow> nat option" where
  "commandPayloadIndex [] = None"
| "commandPayloadIndex (tok # rest) =
     (if isEnvAssignment tok then map_option Suc (commandPayloadIndex rest)
      else if tok = ''-v'' \<or> tok = ''-V'' then None
      else if hasPrefix tok ''-'' then map_option Suc (commandPayloadIndex rest)
      else Some 0)"

fun multiplexerPayloadIndex :: "string list \<Rightarrow> nat option" where
  "multiplexerPayloadIndex [] = None"
| "multiplexerPayloadIndex (tok # rest) =
     (if hasPrefix tok ''-'' then map_option Suc (multiplexerPayloadIndex rest) else Some 0)"

definition timeoutFlagConsumesArg :: "string \<Rightarrow> bool" where
  "timeoutFlagConsumesArg tok \<longleftrightarrow> tok \<in> {''-k'', ''--kill-after'', ''-s'', ''--signal''}"

text \<open>The duration stands between the options and the command.\<close>

fun timeoutPayloadIndex :: "string list \<Rightarrow> nat option" where
  "timeoutPayloadIndex [] = None"
| "timeoutPayloadIndex (tok # rest) =
     (if tok = ''--'' then (if length rest \<ge> 2 then Some 2 else None)
      else if timeoutFlagConsumesArg tok
        then map_option (\<lambda>i. i + 2) (timeoutPayloadIndex (drop 1 rest))
      else if hasPrefix tok ''-'' then map_option Suc (timeoutPayloadIndex rest)
      else if rest \<noteq> [] then Some 1 else None)"

section \<open>The time command\<close>

record timeInvocation =
  outputTargets :: "string list"
  payloadIndex :: "nat option"

definition nextArgumentIndex :: "string list \<Rightarrow> nat \<Rightarrow> nat option" where
  "nextArgumentIndex tokens index = (if index + 1 < length tokens then Some (index + 1) else None)"

definition isTimeFormatOption :: "string \<Rightarrow> bool" where
  "isTimeFormatOption token \<longleftrightarrow> token = ''-f'' \<or> token = ''--format''"

definition isTimeOutputOption :: "string \<Rightarrow> bool" where
  "isTimeOutputOption token \<longleftrightarrow> token = ''-o'' \<or> token = ''--output''"

definition appendNextTimeOutputTarget ::
  "timeInvocation \<Rightarrow> string list \<Rightarrow> nat \<Rightarrow> timeInvocation \<times> nat" where
  "appendNextTimeOutputTarget invocation tokens index =
     (case nextArgumentIndex tokens index of
        None \<Rightarrow> (invocation, index)
      | Some next \<Rightarrow>
          (invocation\<lparr>outputTargets := outputTargets invocation @ [tokens ! next]\<rparr>, next))"

lemma appendNextTimeOutputTarget_ge: "index \<le> snd (appendNextTimeOutputTarget ti tokens index)"
  by (auto simp: appendNextTimeOutputTarget_def nextArgumentIndex_def)

function parseTimeLoop :: "string list \<Rightarrow> nat \<Rightarrow> timeInvocation \<Rightarrow> timeInvocation" where
  "parseTimeLoop tokens i ti =
     (if i < length tokens then
        (let tok = tokens ! i in
         if tok = ''--'' then ti\<lparr>payloadIndex := nextArgumentIndex tokens i\<rparr>
         else if isTimeFormatOption tok then parseTimeLoop tokens (i + 2) ti
         else if isTimeOutputOption tok then
           (let r = appendNextTimeOutputTarget ti tokens i
            in parseTimeLoop tokens (snd r + 1) (fst r))
         else if hasPrefix tok ''--format='' then parseTimeLoop tokens (i + 1) ti
         else if hasPrefix tok ''--output='' then
           parseTimeLoop tokens (i + 1)
             (ti\<lparr>outputTargets := outputTargets ti @ [trimPrefix tok ''--output='']\<rparr>)
         else if hasPrefix tok ''-f'' \<and> length tok > 2 then parseTimeLoop tokens (i + 1) ti
         else if hasPrefix tok ''-o'' \<and> length tok > 2 then
           parseTimeLoop tokens (i + 1)
             (ti\<lparr>outputTargets := outputTargets ti @ [drop 2 tok]\<rparr>)
         else if hasPrefix tok ''-'' then parseTimeLoop tokens (i + 1) ti
         else ti\<lparr>payloadIndex := Some i\<rparr>)
      else ti)"
  by pat_completeness auto
termination
  by (relation "measure (\<lambda>(tokens, i, ti). length tokens - i)")
    (auto intro!: diff_less_mono2 simp: le_imp_less_Suc appendNextTimeOutputTarget_ge)

declare parseTimeLoop.simps [simp del]

definition parseTimeInvocation :: "string list \<Rightarrow> timeInvocation" where
  "parseTimeInvocation tokens = parseTimeLoop tokens 0 \<lparr>outputTargets = [], payloadIndex = None\<rparr>"

definition timePayloadIndex :: "string list \<Rightarrow> nat option" where
  "timePayloadIndex tokens = payloadIndex (parseTimeInvocation tokens)"

section \<open>taskset\<close>

definition isTasksetPIDOption :: "string \<Rightarrow> bool" where
  "isTasksetPIDOption token \<longleftrightarrow> token = ''-p'' \<or> token = ''--pid''"

definition isAttachedTasksetCPUListOption :: "string \<Rightarrow> bool" where
  "isAttachedTasksetCPUListOption token \<longleftrightarrow>
     hasPrefix token ''--cpu-list='' \<or> (hasPrefix token ''-c'' \<and> length token > 2)"

definition tasksetPayloadAfterAffinity :: "string list \<Rightarrow> nat \<Rightarrow> nat option" where
  "tasksetPayloadAfterAffinity tokens affinityIndex =
     (if affinityIndex + 1 < length tokens then Some (affinityIndex + 1) else None)"

definition tasksetPayloadFromArgument :: "string list \<Rightarrow> nat \<Rightarrow> bool \<Rightarrow> nat option" where
  "tasksetPayloadFromArgument tokens index cpuListMode =
     (if cpuListMode then Some index else tasksetPayloadAfterAffinity tokens index)"

function tasksetLoop :: "string list \<Rightarrow> nat \<Rightarrow> bool \<Rightarrow> nat option" where
  "tasksetLoop tokens i cpuListMode =
     (if i < length tokens then
        (let tok = tokens ! i in
         if tok = ''--'' then tasksetPayloadAfterAffinity tokens (i + 1)
         else if isTasksetPIDOption tok then None
         else if tok = ''-c'' \<or> tok = ''--cpu-list'' then
           (if i + 1 \<ge> length tokens then None else tasksetLoop tokens (i + 2) True)
         else if isAttachedTasksetCPUListOption tok then tasksetLoop tokens (i + 1) True
         else if hasPrefix tok ''-'' then tasksetLoop tokens (i + 1) cpuListMode
         else tasksetPayloadFromArgument tokens i cpuListMode)
      else None)"
  by pat_completeness auto
termination
  by (relation "measure (\<lambda>(tokens, i, m). length tokens - i)") auto

declare tasksetLoop.simps [simp del]

definition tasksetPayloadIndex :: "string list \<Rightarrow> nat option" where
  "tasksetPayloadIndex tokens = tasksetLoop tokens 0 False"

definition shellWrapperPayloadIndex :: "(string \<times> (string list \<Rightarrow> nat option)) list" where
  "shellWrapperPayloadIndex =
     [(''coproc'', coprocPayloadIndex), (''case'', casePayloadIndex),
      (''exec'', execPayloadIndex), (''command'', commandPayloadIndex),
      (''builtin'', commandPayloadIndex), (''busybox'', multiplexerPayloadIndex),
      (''toybox'', multiplexerPayloadIndex), (''timeout'', timeoutPayloadIndex),
      (''taskset'', tasksetPayloadIndex), (''time'', timePayloadIndex)]"

section \<open>env\<close>

text \<open>
  \<open>Some payload\<close> when the token splits a string (an empty payload where Go has nil);
  \<open>rest\<close> are the tokens after it.
\<close>

definition envSplitStringPayload :: "string \<Rightarrow> string list \<Rightarrow> string list option" where
  "envSplitStringPayload token rest =
     (if token = ''-S'' \<or> token = ''--split-string''
      then (case rest of [] \<Rightarrow> Some [] | v # _ \<Rightarrow> Some (shellFields v))
      else map_option shellFields (cutPrefix token ''--split-string=''))"

definition envOptionConsumesArgument :: "string \<Rightarrow> bool" where
  "envOptionConsumesArgument token \<longleftrightarrow>
     token \<in> {''-u'', ''--unset'', ''-C'', ''--chdir'', ''-a'', ''--argv0'', ''-P''}"

definition isAttachedEnvOption :: "string \<Rightarrow> bool" where
  "isAttachedEnvOption token \<longleftrightarrow>
     hasPrefix token ''--chdir='' \<or> hasPrefix token ''--argv0='' \<or>
     (length token > 2 \<and>
      (hasPrefix token ''-C'' \<or> hasPrefix token ''-a'' \<or> hasPrefix token ''-P''))"

fun envPayload :: "string list \<Rightarrow> string list option" where
  "envPayload [] = None"
| "envPayload (tok # rest) =
     (if isEnvAssignment tok then envPayload rest
      else case envSplitStringPayload tok rest of
        Some payload \<Rightarrow> (if payload \<noteq> [] then Some payload else None)
      | None \<Rightarrow>
          (if envOptionConsumesArgument tok then envPayload (drop 1 rest)
           else if isAttachedEnvOption tok then envPayload rest
           else if hasPrefix tok ''-'' then envPayload rest
           else Some (tok # rest)))"

definition wrappedCommandPayload :: "string \<Rightarrow> string list \<Rightarrow> string list option" where
  "wrappedCommandPayload verb rest =
     (if verb \<in> directShellWrappers then restPayload rest
      else case map_of flagSkippingShellWrappers verb of
        Some flagArgs \<Rightarrow> indexedPayload rest (wrapperPayloadIndex flagArgs rest)
      | None \<Rightarrow>
          (if verb = ''env'' then envPayload rest
           else case map_of shellWrapperPayloadIndex verb of
             Some f \<Rightarrow> indexedPayload rest (f rest)
           | None \<Rightarrow> None))"

section \<open>Token weight\<close>

text \<open>
  The weight of a token list is the length of the tokens joined by blanks: what
  \<open>find -exec\<close> and \<open>xargs\<close> hand back to the classifier.  Splitting a string into
  words never weighs more than the string, and unwrapping never adds weight; the recursion of
  \<open>effectiveCommand\<close> and of the classifier ends because of that.
\<close>

definition wlen :: "string list \<Rightarrow> nat" where
  "wlen ts = length (joinStr '' '' ts)"

lemma wlen_Nil [simp]: "wlen [] = 0"
  by (simp add: wlen_def)

lemma wlen_Cons: "wlen (t # ts) = length t + (if ts = [] then 0 else Suc (wlen ts))"
  by (cases ts) (simp_all add: wlen_def)

lemma wlen_tail [len_le]: "wlen ts \<le> wlen (t # ts)"
  by (simp add: wlen_Cons)

lemma wlen_tail_less: "wlen ts \<noteq> wlen (t # ts) \<Longrightarrow> wlen ts < wlen (t # ts)"
  using wlen_tail [of ts t] by simp

lemma wlen_drop [len_le]: "wlen (drop n ts) \<le> wlen ts"
proof (induction ts arbitrary: n)
  case (Cons t ts)
  show ?case
  proof (cases n)
    case (Suc m)
    from Cons.IH [of m] wlen_tail [of ts t] show ?thesis by (simp add: Suc)
  qed simp
qed simp

lemma wlen_take [len_le]: "wlen (take n ts) \<le> wlen ts"
proof (induction ts arbitrary: n)
  case (Cons t ts)
  from Cons.IH [of "n - 1"] show ?case by (cases n) (auto simp: wlen_Cons)
qed simp

lemma wlen_takeWhile [len_le]: "wlen (takeWhile P ts) \<le> wlen ts"
  by (metis takeWhile_eq_take wlen_take)

lemma wlen_elem: "t \<in> set ts \<Longrightarrow> length t \<le> wlen ts"
  by (simp add: wlen_def joinStr_elem_length)

lemma wlen_shellFieldsLoop:
  "inField \<or> cur = [] \<Longrightarrow> wlen (shellFieldsLoop q inField cur s) \<le> length cur + length s"
proof (induction q inField cur s rule: shellFieldsLoop.induct)
  case (1 q inField cur)
  then show ?case by (simp add: wlen_Cons)
next
  case (2 q inField cur ch rest)
  show ?case
  proof (cases "escaped q")
    case True
    with 2(1) show ?thesis by simp
  next
    case e: False
    show ?thesis
    proof (cases "ch = bslash \<and> \<not> inSingle q")
      case True
      with e 2(2) show ?thesis by simp
    next
      case b: False
      show ?thesis
      proof (cases "ch = squote \<and> \<not> inDouble q")
        case True
        with e b 2(3) show ?thesis by simp
      next
        case s: False
        show ?thesis
        proof (cases "ch = dquote \<and> \<not> inSingle q")
          case True
          with e b s 2(4) show ?thesis by simp
        next
          case False
          with e b s 2(5,6,7,8) show ?thesis by (auto simp: wlen_Cons)
        qed
      qed
    qed
  qed
qed

lemma wlen_shellFields [len_le]: "wlen (shellFields s) \<le> length s"
  using wlen_shellFieldsLoop [of False "[]" quote0 s] by (simp add: shellFields_def)

lemma wlen_indexedPayload: "indexedPayload ts i = Some us \<Longrightarrow> wlen us \<le> wlen ts"
  by (auto simp: indexedPayload_def wlen_drop)

lemma wlen_restPayload: "restPayload ts = Some us \<Longrightarrow> wlen us \<le> wlen ts"
  by (cases ts) auto

lemma wlen_envSplit: "envSplitStringPayload tok rest = Some us \<Longrightarrow> wlen us \<le> wlen (tok # rest)"
proof (cases "tok = ''-S'' \<or> tok = ''--split-string''")
  case True
  assume us: "envSplitStringPayload tok rest = Some us"
  show ?thesis
  proof (cases rest)
    case Nil
    with True us show ?thesis by (simp add: envSplitStringPayload_def)
  next
    case (Cons v vs)
    with True us have "us = shellFields v" by (simp add: envSplitStringPayload_def)
    moreover have "wlen (shellFields v) \<le> length v" by (rule wlen_shellFields)
    moreover have "length v \<le> wlen (tok # rest)" using Cons by (intro wlen_elem) simp
    ultimately show ?thesis by simp
  qed
next
  case False
  assume "envSplitStringPayload tok rest = Some us"
  with False have "us = shellFields (drop 15 tok)"
    by (auto simp: envSplitStringPayload_def cutPrefix_def eval_nat_numeral split: if_splits)
  moreover have "wlen (shellFields (drop 15 tok)) \<le> length (drop 15 tok)"
    by (rule wlen_shellFields)
  moreover have "length tok \<le> wlen (tok # rest)" by (rule wlen_elem) simp
  ultimately show ?thesis by simp
qed

lemma wlen_envPayload: "envPayload ts = Some us \<Longrightarrow> wlen us \<le> wlen ts"
proof (induction ts rule: envPayload.induct)
  case (2 tok rest)
  have "wlen (drop 1 rest) \<le> wlen (tok # rest)"
    by (meson le_trans wlen_drop wlen_tail)
  with 2 show ?case
    by (auto split: if_splits option.splits intro: le_trans [OF _ wlen_tail] dest: wlen_envSplit)
qed simp

lemma wlen_wrappedCommandPayload:
  "wrappedCommandPayload verb rest = Some us \<Longrightarrow> wlen us \<le> wlen rest"
  by (auto simp: wrappedCommandPayload_def split: if_splits option.splits
      dest: wlen_indexedPayload wlen_restPayload wlen_envPayload)

lemma normalizedCommandVerb_Nil [simp]: "normalizedCommandVerb [] = []"
  by (simp add: normalizedCommandVerb_def commandVerbBeforeRedirection_def)

lemma normalizedCommandVerb_nonempty: "normalizedCommandVerb tok \<noteq> [] \<Longrightarrow> tok \<noteq> []"
  by auto

section \<open>The effective command\<close>

function (sequential) effectiveCommand :: "string list \<Rightarrow> string \<times> string list" where
  "effectiveCommand [] = ([], [])"
| "effectiveCommand (tok # rest) =
     (if isEnvAssignment tok then effectiveCommand rest
      else if isCasePatternToken tok \<and> rest \<noteq> [] then effectiveCommand rest
      else (let verb = normalizedCommandVerb tok in
        if verb = [] then effectiveCommand rest
        else case wrappedCommandPayload verb rest of
          Some payload \<Rightarrow> effectiveCommand payload
        | None \<Rightarrow> (verb, tok # rest)))"
  by pat_completeness auto
termination
proof (relation "measures [wlen, length]")
  fix tok rest verb payload
  assume v: "verb = normalizedCommandVerb tok" "verb \<noteq> []"
    and p: "wrappedCommandPayload verb rest = Some payload"
  from v have "tok \<noteq> []" using normalizedCommandVerb_nonempty by blast
  then have "wlen rest < wlen (tok # rest)" by (cases rest) (auto simp: wlen_Cons)
  with wlen_wrappedCommandPayload [OF p]
  show "(payload, tok # rest) \<in> measures [wlen, length]" by simp
qed (auto intro: wlen_tail_less)

lemma effectiveCommand_skip:
  "isEnvAssignment tok \<or> (isCasePatternToken tok \<and> rest \<noteq> []) \<or> normalizedCommandVerb tok = [] \<Longrightarrow>
   effectiveCommand (tok # rest) = effectiveCommand rest"
  by auto

lemma wlen_effectiveCommand [len_le]: "wlen (snd (effectiveCommand ts)) \<le> wlen ts"
proof (induction ts rule: effectiveCommand.induct)
  case (2 tok rest)
  note tail = wlen_tail [of rest tok]
  show ?case
  proof (cases "isEnvAssignment tok \<or> (isCasePatternToken tok \<and> rest \<noteq> []) \<or>
                normalizedCommandVerb tok = []")
    case True
    with 2(1-3) have "wlen (snd (effectiveCommand rest)) \<le> wlen rest" by blast
    with tail effectiveCommand_skip [OF True] show ?thesis by simp
  next
    case False
    show ?thesis
    proof (cases "wrappedCommandPayload (normalizedCommandVerb tok) rest")
      case None
      with False show ?thesis by auto
    next
      case (Some us)
      with False 2(4) have "wlen (snd (effectiveCommand us)) \<le> wlen us" by blast
      with False Some tail wlen_wrappedCommandPayload [OF Some] show ?thesis by auto
    qed
  qed
qed simp

lemma effectiveCommand_shape:
  "effectiveCommand ts = (verb, toks) \<Longrightarrow>
     (verb = [] \<and> toks = []) \<or> (verb \<noteq> [] \<and> (\<exists>tok rest. toks = tok # rest \<and> verb = normalizedCommandVerb tok))"
  by (induction ts arbitrary: verb toks rule: effectiveCommand.induct)
    (auto simp: Let_def split: if_splits option.splits)

end
