(* ===== verification/RiskTables.thy ===== *)
theory RiskTables
  imports ShellWrap
begin

text \<open>
  Risk levels and the classification tables of \<open>internal/jinn/command_risk.go\<close>.  A Go
  map is an association list read with \<open>map_of\<close>; the parts of \<open>riskTable\<close> are
  its three sections, in the order of the source.
\<close>

section \<open>Risk levels\<close>

datatype RiskLevel = RiskSafe | RiskCaution | RiskDangerous

fun riskRank :: "RiskLevel \<Rightarrow> nat" where
  "riskRank RiskSafe = 0"
| "riskRank RiskCaution = 1"
| "riskRank RiskDangerous = 2"

lemma riskRank_inj: "riskRank a = riskRank b \<longleftrightarrow> a = b"
  by (cases a; cases b) simp_all

text \<open>The levels are ordered as the \<open>iota\<close> constants of the source.\<close>

instantiation RiskLevel :: linorder
begin

definition less_eq_RiskLevel :: "RiskLevel \<Rightarrow> RiskLevel \<Rightarrow> bool" where
  "less_eq_RiskLevel a b \<longleftrightarrow> riskRank a \<le> riskRank b"

definition less_RiskLevel :: "RiskLevel \<Rightarrow> RiskLevel \<Rightarrow> bool" where
  "less_RiskLevel a b \<longleftrightarrow> riskRank a < riskRank b"

instance
  by standard (auto simp: less_eq_RiskLevel_def less_RiskLevel_def riskRank_inj)

end

instantiation RiskLevel :: order_bot
begin

definition bot_RiskLevel :: RiskLevel where "bot_RiskLevel = RiskSafe"

instance
  by standard (simp add: bot_RiskLevel_def less_eq_RiskLevel_def)

end

lemmas risk_order = less_eq_RiskLevel_def less_RiskLevel_def

lemma RiskSafe_le [simp]: "RiskSafe \<le> l"
  by (simp add: less_eq_RiskLevel_def)

lemma le_RiskDangerous [simp]: "l \<le> RiskDangerous"
  by (cases l) (simp_all add: less_eq_RiskLevel_def)

lemma not_less_RiskSafe [simp]: "\<not> l < RiskSafe"
  by (cases l) (simp_all add: less_RiskLevel_def)

lemma RiskDangerous_le [simp]: "RiskDangerous \<le> l \<longleftrightarrow> l = RiskDangerous"
  by (cases l) (simp_all add: less_eq_RiskLevel_def)

lemma le_RiskSafe [simp]: "l \<le> RiskSafe \<longleftrightarrow> l = RiskSafe"
  by (cases l) (simp_all add: less_eq_RiskLevel_def)

lemma RiskSafe_less [simp]: "RiskSafe < l \<longleftrightarrow> l \<noteq> RiskSafe"
  by (cases l) (simp_all add: less_RiskLevel_def)

lemma less_RiskCaution [simp]: "l < RiskCaution \<longleftrightarrow> l = RiskSafe"
  by (cases l) (simp_all add: less_RiskLevel_def)

lemma RiskCaution_le [simp]: "RiskCaution \<le> l \<longleftrightarrow> l \<noteq> RiskSafe"
  by (cases l) (simp_all add: less_eq_RiskLevel_def)

lemma RiskCaution_less [simp]: "RiskCaution < l \<longleftrightarrow> l = RiskDangerous"
  by (cases l) (simp_all add: less_RiskLevel_def)

lemma not_RiskDangerous_less [simp]: "\<not> RiskDangerous < l"
  by (cases l) (simp_all add: less_RiskLevel_def)

fun RiskLevel_String :: "RiskLevel \<Rightarrow> string" where
  "RiskLevel_String RiskSafe = ''safe''"
| "RiskLevel_String RiskCaution = ''caution''"
| "RiskLevel_String RiskDangerous = ''dangerous''"

text \<open>\<open>ExplainRisk\<close>.\<close>

definition ExplainRisk :: "RiskLevel \<Rightarrow> string \<Rightarrow> string" where
  "ExplainRisk r reason = RiskLevel_String r @ '': '' @ reason"

text \<open>A verdict is a level with its explanation; \<open>(0, "", false)\<close> is \<open>None\<close>.\<close>

type_synonym verdict = "RiskLevel \<times> string"
type_synonym classifier = "string \<Rightarrow> verdict"

section \<open>The verb table\<close>

record riskRule =
  Level :: RiskLevel
  Reason :: string

definition rule :: "RiskLevel \<Rightarrow> string \<Rightarrow> riskRule" where
  "rule l r = \<lparr>Level = l, Reason = r\<rparr>"

lemma rule_sel [simp]: "Level (rule l r) = l" "Reason (rule l r) = r"
  by (simp_all add: rule_def)

definition riskTableSafe :: "(string \<times> riskRule) list" where
  "riskTableSafe =
    [(''ls'', rule RiskSafe ''lists files''),
      (''cat'', rule RiskSafe ''reads file contents''),
      (''grep'', rule RiskSafe ''searches text''),
      (''rg'', rule RiskSafe ''searches text''),
      (''find'', rule RiskSafe ''locates files''),
      (''head'', rule RiskSafe ''reads file prefix''),
      (''tail'', rule RiskSafe ''reads file suffix''),
      (''wc'', rule RiskSafe ''counts lines/words''),
      (''stat'', rule RiskSafe ''reads file metadata''),
      (''file'', rule RiskSafe ''identifies file type''),
      (''pwd'', rule RiskSafe ''prints working directory''),
      (''echo'', rule RiskSafe ''prints arguments''),
      (''printf'', rule RiskSafe ''prints arguments''),
      (''date'', rule RiskSafe ''prints time''),
      (''env'', rule RiskSafe ''lists environment''),
      (''which'', rule RiskSafe ''locates executable''),
      (''whoami'', rule RiskSafe ''prints user''),
      (''hostname'', rule RiskSafe ''prints hostname''),
      (''command'', rule RiskSafe ''shell command lookup''),
      (''builtin'', rule RiskSafe ''shell builtin lookup''),
      (''true'', rule RiskSafe (dash ''shell true'' ''no side effects'')),
      (''false'', rule RiskSafe (dash ''shell false'' ''no side effects''))]"

definition riskTableCaution :: "(string \<times> riskRule) list" where
  "riskTableCaution =
    [(''go'', rule RiskCaution (dash ''go toolchain'' ''may build or modify files'')),
      (''git'', rule RiskCaution ''git can modify state; some subcommands are safe but whole-verb is caution''),
      (''cp'', rule RiskCaution ''copies files''),
      (''mv'', rule RiskCaution ''moves/renames files''),
      (''mkdir'', rule RiskCaution ''creates directory''),
      (''touch'', rule RiskCaution ''creates/updates file''),
      (''chmod'', rule RiskCaution ''changes permissions''),
      (''chown'', rule RiskCaution ''changes ownership''),
      (''sed'', rule RiskCaution ''text edit; -i modifies files''),
      (''awk'', rule RiskCaution ''text processing''),
      (''tar'', rule RiskCaution ''archives; may extract over files''),
      (''zip'', rule RiskCaution ''creates archive''),
      (''unzip'', rule RiskCaution ''extracts archive''),
      (''curl'', rule RiskCaution ''network request; may write files with -o''),
      (''wget'', rule RiskCaution ''downloads files''),
      (''rsync'', rule RiskCaution ''syncs files; may overwrite destinations''),
      (''tee'', rule RiskCaution ''writes stdin to files''),
      (''xargs'', rule RiskCaution ''builds command lines from input''),
      (''exec'', rule RiskCaution ''replaces shell with command''),
      (''alias'', rule RiskCaution ''defines shell aliases''),
      (''hash'', rule RiskCaution ''updates shell command path cache''),
      (''docker'', rule RiskCaution (dash ''container runtime'' ''may modify local containers, images, and volumes'')),
      (''podman'', rule RiskCaution (dash ''container runtime'' ''may modify local containers, images, and volumes'')),
      (''kubectl'', rule RiskCaution (dash ''Kubernetes CLI'' ''may modify cluster resources'')),
      (''helm'', rule RiskCaution (dash ''Helm CLI'' ''may modify cluster releases'')),
      (''terraform'', rule RiskCaution (dash ''Terraform CLI'' ''may modify infrastructure state'')),
      (''tofu'', rule RiskCaution (dash ''OpenTofu CLI'' ''may modify infrastructure state'')),
      (''pulumi'', rule RiskCaution (dash ''Pulumi CLI'' ''may modify infrastructure state'')),
      (''gh'', rule RiskCaution (dash ''GitHub CLI'' ''may modify remote GitHub resources'')),
      (''brew'', rule RiskCaution (dash ''Homebrew CLI'' ''may modify installed packages'')),
      (''apt'', rule RiskCaution (dash ''package manager'' ''may modify installed packages'')),
      (''apt-get'', rule RiskCaution (dash ''package manager'' ''may modify installed packages'')),
      (''dnf'', rule RiskCaution (dash ''package manager'' ''may modify installed packages'')),
      (''yum'', rule RiskCaution (dash ''package manager'' ''may modify installed packages'')),
      (''pacman'', rule RiskCaution (dash ''package manager'' ''may modify installed packages'')),
      (''npm'', rule RiskCaution (dash ''package manager'' ''may modify project dependencies'')),
      (''pnpm'', rule RiskCaution (dash ''package manager'' ''may modify project dependencies'')),
      (''yarn'', rule RiskCaution (dash ''package manager'' ''may modify project dependencies'')),
      (''bun'', rule RiskCaution (dash ''package manager'' ''may modify project dependencies'')),
      (''pip'', rule RiskCaution (dash ''package manager'' ''may modify Python packages'')),
      (''pip3'', rule RiskCaution (dash ''package manager'' ''may modify Python packages'')),
      (''gem'', rule RiskCaution (dash ''package manager'' ''may modify Ruby packages'')),
      (''cargo'', rule RiskCaution (dash ''package manager'' ''may modify Rust packages'')),
      (''composer'', rule RiskCaution (dash ''package manager'' ''may modify PHP dependencies'')),
      (''aws'', rule RiskCaution (dash ''AWS CLI'' ''may modify cloud resources'')),
      (''az'', rule RiskCaution (dash ''Azure CLI'' ''may modify cloud resources'')),
      (''gcloud'', rule RiskCaution (dash ''Google Cloud CLI'' ''may modify cloud resources'')),
      (''psql'', rule RiskCaution (dash ''database CLI'' ''may modify persistent data'')),
      (''mysql'', rule RiskCaution (dash ''database CLI'' ''may modify persistent data'')),
      (''sqlite3'', rule RiskCaution (dash ''database CLI'' ''may modify persistent data''))]"

definition riskTableDangerous :: "(string \<times> riskRule) list" where
  "riskTableDangerous =
    [(''rm'', rule RiskDangerous (dash ''removes files'' ''irreversible'')),
      (''rmdir'', rule RiskDangerous ''removes directory''),
      (''unlink'', rule RiskDangerous (dash ''removes file'' ''irreversible'')),
      (''dd'', rule RiskDangerous (dash ''raw disk write'' ''can destroy data'')),
      (''mkfs'', rule RiskDangerous ''formats filesystem''),
      (''mkfs.ext4'', rule RiskDangerous ''formats filesystem''),
      (''mkfs.xfs'', rule RiskDangerous ''formats filesystem''),
      (''mkswap'', rule RiskDangerous (dash ''initializes swap area'' ''destroys existing data'')),
      (''wipefs'', rule RiskDangerous ''erases filesystem signatures''),
      (''blkdiscard'', rule RiskDangerous ''discards block-device contents''),
      (''fdisk'', rule RiskDangerous ''partitions disk''),
      (''parted'', rule RiskDangerous ''partitions disk''),
      (''shred'', rule RiskDangerous ''overwrites and deletes''),
      (''wipe'', rule RiskDangerous ''secure delete''),
      (''truncate'', rule RiskDangerous (dash ''truncates file contents'' ''can destroy data'')),
      (''fsck'', rule RiskDangerous (dash ''repairs filesystem'' ''can corrupt if misused'')),
      (''reboot'', rule RiskDangerous ''reboots system''),
      (''shutdown'', rule RiskDangerous ''halts system''),
      (''halt'', rule RiskDangerous ''halts system''),
      (''poweroff'', rule RiskDangerous ''powers off''),
      (''kill'', rule RiskDangerous ''signals process''),
      (''killall'', rule RiskDangerous ''signals multiple processes''),
      (''sudo'', rule RiskDangerous (dash ''elevated privileges'' ''treat entire command as dangerous'')),
      (''su'', rule RiskDangerous (dash ''switches user'' ''elevated privileges'')),
      (''doas'', rule RiskDangerous (dash ''elevated privileges'' ''treat entire command as dangerous'')),
      (''pkexec'', rule RiskDangerous (dash ''elevated privileges'' ''treat entire command as dangerous'')),
      (''eval'', rule RiskDangerous (dash ''evaluates shell code'' ''arbitrary command execution'')),
      (''source'', rule RiskDangerous (dash ''sources shell code'' ''arbitrary command execution'')),
      (''.'', rule RiskDangerous (dash ''sources shell code'' ''arbitrary command execution'')),
      (''trap'', rule RiskDangerous (dash ''registers shell code handler'' ''arbitrary command execution''))]"

definition riskTable :: "(string \<times> riskRule) list" where
  "riskTable = riskTableSafe @ riskTableCaution @ riskTableDangerous"

section \<open>Subcommands\<close>

definition subcommandRiskRules :: "(string \<times> (string \<times> riskRule) list) list" where
  "subcommandRiskRules =
    [(''git'',
       [(''status'', rule RiskSafe (dash ''git status'' ''read-only project status'')),
        (''log'', rule RiskSafe (dash ''git log'' ''read-only history'')),
        (''show'', rule RiskSafe (dash ''git show'' ''read-only object inspection'')),
        (''diff'', rule RiskSafe (dash ''git diff'' ''read-only diff output'')),
        (''push'', rule RiskDangerous (dash ''git push'' ''modifies remote refs''))]),
     (''go'',
       [(''env'', rule RiskSafe (dash ''go env'' ''read-only environment query'')),
        (''version'', rule RiskSafe (dash ''go version'' ''read-only'')),
        (''list'', rule RiskSafe (dash ''go list'' ''read-only package query'')),
        (''doc'', rule RiskSafe (dash ''go doc'' ''read-only docs'')),
        (''help'', rule RiskSafe (dash ''go help'' ''read-only''))])]"

definition subcommandFlagArgRules :: "(string \<times> string list) list" where
  "subcommandFlagArgRules =
    [(''git'', [''-C'', ''--git-dir'', ''--work-tree'', ''--namespace''])]"

definition isSubcommandSetupToken :: "string \<Rightarrow> bool" where
  "isSubcommandSetupToken tok =
     (if hasPrefix tok ''-'' then True
      else if isEnvAssignment tok then True
      else case indexByte tok CHR ''='' of
        None \<Rightarrow> False
      | Some eq \<Rightarrow> 0 < eq \<and> eq < length tok - 1 \<and> hasPrefix (take eq tok) ''-'')"

fun firstSubcommandLoop :: "string list \<Rightarrow> string list \<Rightarrow> string" where
  "firstSubcommandLoop consumeNextArg [] = []"
| "firstSubcommandLoop consumeNextArg (tok # rest) =
     (if tok = ''--'' then (case rest of [] \<Rightarrow> [] | n # _ \<Rightarrow> n)
      else if isSubcommandSetupToken tok then
        (if tok \<in> set consumeNextArg then firstSubcommandLoop consumeNextArg (drop 1 rest)
         else firstSubcommandLoop consumeNextArg rest)
      else tok)"

definition firstSubcommandToken :: "string \<Rightarrow> string list \<Rightarrow> string" where
  "firstSubcommandToken verb tokens =
     (if length tokens < 2 then []
      else firstSubcommandLoop
        (case map_of subcommandFlagArgRules verb of None \<Rightarrow> [] | Some fs \<Rightarrow> fs) (drop 1 tokens))"

text \<open>The options up to the first \<open>--\<close>.\<close>

definition writesDiffOutput :: "string list \<Rightarrow> bool" where
  "writesDiffOutput args =
     list_ex (\<lambda>tok. tok = ''--output'' \<or> hasPrefix tok ''--output='')
       (takeWhile (\<lambda>tok. tok \<noteq> ''--'') args)"

definition applySubcommandRule :: "string \<Rightarrow> string list \<Rightarrow> verdict option" where
  "applySubcommandRule verb tokens =
     (case map_of subcommandRiskRules verb of
        None \<Rightarrow> None
      | Some rules \<Rightarrow>
          (let subcommand = firstSubcommandToken verb tokens in
           if subcommand = [] then None
           else case map_of rules subcommand of
             None \<Rightarrow> None
           | Some r \<Rightarrow>
               (if verb = ''git'' \<and> subcommand \<in> {''diff'', ''show'', ''log''} \<and>
                   writesDiffOutput (drop 1 tokens)
                then Some (RiskCaution, dash ''git --output'' ''writes diff output to a file'')
                else Some (Level r, Reason r))))"

section \<open>Interpreters\<close>

definition isPythonVerb :: "string \<Rightarrow> bool" where
  "isPythonVerb verb \<longleftrightarrow>
     verb = ''python'' \<or> hasPrefix verb ''python2'' \<or> hasPrefix verb ''python3''"

definition isShellInterpreter :: "string \<Rightarrow> bool" where
  "isShellInterpreter verb \<longleftrightarrow>
     verb \<in> {''sh'', ''bash'', ''zsh'', ''dash'', ''ksh'', ''mksh'', ''ash'', ''fish'', ''csh'', ''tcsh''}"

definition isFilesystemFormatter :: "string \<Rightarrow> bool" where
  "isFilesystemFormatter verb \<longleftrightarrow> verb = ''mkfs'' \<or> hasPrefix verb ''mkfs.''"

definition isDynamicCommandVerb :: "string \<Rightarrow> bool" where
  "isDynamicCommandVerb verb = containsStr verb ''$''"

definition isShellTerminator :: "string \<Rightarrow> bool" where
  "isShellTerminator tok \<longleftrightarrow> tok = ''fi'' \<or> tok = ''done'' \<or> tok = ''esac''"

definition onlyShellTerminators :: "string list \<Rightarrow> bool" where
  "onlyShellTerminators tokens = list_all isShellTerminator tokens"

definition inlineCodeFlagRules :: "(string \<times> string list) list" where
  "inlineCodeFlagRules =
    [(''python'', [''-c'']),
     (''node'', [''-e'', ''--eval'', ''-p'', ''--print'']),
     (''nodejs'', [''-e'', ''--eval'', ''-p'', ''--print'']),
     (''perl'', [''-e'', ''-E'']),
     (''ruby'', [''-e'']),
     (''php'', [''-r'', ''-B'', ''-R'', ''-E'']),
     (''lua'', [''-e'']),
     (''Rscript'', [''-e'', ''--expression'']),
     (''rscript'', [''-e'', ''--expression'']),
     (''julia'', [''-e'', ''--eval'']),
     (''osascript'', [''-e'']),
     (''pwsh'', [''-c'', ''-Command'', ''-command'', ''-EncodedCommand'', ''-encodedcommand'']),
     (''powershell'', [''-c'', ''-Command'', ''-command'', ''-EncodedCommand'', ''-encodedcommand'']),
     (''powershell.exe'', [''-c'', ''-Command'', ''-command'', ''-EncodedCommand'', ''-encodedcommand'']),
     (''cmd'', [''/c'', ''/C'']),
     (''cmd.exe'', [''/c'', ''/C''])]"

text \<open>No rule (Go's nil map) is the empty list.\<close>

definition flagRules :: "string \<Rightarrow> string list" where
  "flagRules verb = (case map_of inlineCodeFlagRules verb of None \<Rightarrow> [] | Some fs \<Rightarrow> fs)"

definition inlineCodeFlags :: "string \<Rightarrow> string list" where
  "inlineCodeFlags verb =
     (case map_of inlineCodeFlagRules verb of
        Some flags \<Rightarrow> flags
      | None \<Rightarrow>
          (if isPythonVerb verb then flagRules ''python''
           else if hasPrefix verb ''lua5.'' then flagRules ''lua''
           else []))"

definition isInlineCodeInterpreter :: "string \<Rightarrow> bool" where
  "isInlineCodeInterpreter verb = (inlineCodeFlags verb \<noteq> [])"

definition isAttachedShortInlineFlag :: "string \<Rightarrow> string \<Rightarrow> bool" where
  "isAttachedShortInlineFlag tok flag =
     (if length flag \<noteq> 2 \<or> length tok \<le> length flag \<or> \<not> hasPrefix tok ''-'' \<or> hasPrefix tok ''--''
      then False
      else flag ! 1 \<in> set (drop 1 tok))"

definition matchesInlineCodeFlag :: "string \<Rightarrow> string \<Rightarrow> bool" where
  "matchesInlineCodeFlag tok flag =
     (if tok = flag then True
      else if flag \<noteq> [] \<and> hasPrefix tok (flag @ ''='') then True
      else isAttachedShortInlineFlag tok flag)"

definition isInlineCodeExecution :: "string \<Rightarrow> string list \<Rightarrow> bool" where
  "isInlineCodeExecution verb tokens =
     (let flags = inlineCodeFlags verb in
      if flags = [] then False
      else list_ex (\<lambda>tok. list_ex (matchesInlineCodeFlag tok) flags) (drop 1 tokens))"

datatype interpreterOptionRole =
  interpreterOptionNone | interpreterConfigArgument | interpreterSourceArgument

definition interpreterOptionSpecs :: "string \<Rightarrow> (string \<times> interpreterOptionRole) list" where
  "interpreterOptionSpecs verb =
    (if isPythonVerb verb then
       [(''-W'', interpreterConfigArgument), (''-X'', interpreterConfigArgument),
        (''-m'', interpreterSourceArgument),
        (''--check-hash-based-pycs'', interpreterConfigArgument)]
     else if verb = ''node'' \<or> verb = ''nodejs'' then
       [(''-r'', interpreterConfigArgument), (''--require'', interpreterConfigArgument),
        (''--import'', interpreterConfigArgument), (''--loader'', interpreterConfigArgument),
        (''--experimental-loader'', interpreterConfigArgument), (''-C'', interpreterConfigArgument),
        (''--conditions'', interpreterConfigArgument), (''--input-type'', interpreterConfigArgument)]
     else if verb = ''perl'' then
       [(''-I'', interpreterConfigArgument), (''-M'', interpreterConfigArgument),
        (''-m'', interpreterConfigArgument)]
     else if verb = ''ruby'' then
       [(''-I'', interpreterConfigArgument), (''-r'', interpreterConfigArgument),
        (''-C'', interpreterConfigArgument), (''--directory'', interpreterConfigArgument)]
     else if verb = ''php'' then
       [(''-c'', interpreterConfigArgument), (''-d'', interpreterConfigArgument),
        (''-f'', interpreterSourceArgument), (''--file'', interpreterSourceArgument)]
     else [])"

fun optionValueLoop ::
  "(string \<times> interpreterOptionRole) list \<Rightarrow> string \<Rightarrow> interpreterOptionRole \<times> string \<times> bool" where
  "optionValueLoop [] token = (interpreterOptionNone, [], False)"
| "optionValueLoop ((name, role) # specs) token =
     (if token = name then (role, [], False)
      else if hasPrefix name ''--'' \<and> hasPrefix token (name @ ''='')
        then (role, trimPrefix token (name @ ''=''), True)
      else if \<not> hasPrefix name ''--'' \<and> hasPrefix token name \<and> length token > length name
        then (role, drop (length name) token, True)
      else optionValueLoop specs token)"

definition interpreterOptionValue ::
  "string \<Rightarrow> string \<Rightarrow> interpreterOptionRole \<times> string \<times> bool" where
  "interpreterOptionValue verb token = optionValueLoop (interpreterOptionSpecs verb) token"

text \<open>The result is the program token and whether the program is implicit (read from stdin).\<close>

definition interpreterSourceProgram :: "string list \<Rightarrow> string \<Rightarrow> bool \<Rightarrow> string \<times> bool" where
  "interpreterSourceProgram rest attachedValue attached =
     (if attached then (attachedValue, False)
      else case rest of [] \<Rightarrow> ([], True) | n # _ \<Rightarrow> (n, False))"

definition inputRedirectionArgumentCount :: "string \<Rightarrow> nat option" where
  "inputRedirectionArgumentCount token =
     (if \<not> isInputRedirectionToken token then None
      else if inputRedirectionConsumesNext token then Some 1 else Some 0)"

function (sequential) stdinProgramLoop :: "string \<Rightarrow> string list \<Rightarrow> string \<times> bool" where
  "stdinProgramLoop verb [] = ([], True)"
| "stdinProgramLoop verb (tok # rest) =
     (case inputRedirectionArgumentCount tok of
        Some skipped \<Rightarrow> stdinProgramLoop verb (drop skipped rest)
      | None \<Rightarrow>
          (if tok = ''-'' then (tok, False)
           else (let (role, val, attached) = interpreterOptionValue verb tok in
             if role = interpreterConfigArgument
               then stdinProgramLoop verb (if attached then rest else drop 1 rest)
             else if role = interpreterSourceArgument
               then interpreterSourceProgram rest val attached
             else if role = interpreterOptionNone \<and> \<not> isFlag tok then (tok, False)
             else stdinProgramLoop verb rest)))"
  by pat_completeness auto
termination
  by (relation "measure (\<lambda>(verb, ts). length ts)") auto

definition stdinCodeProgram :: "string \<Rightarrow> string list \<Rightarrow> string \<times> bool" where
  "stdinCodeProgram verb tokens = stdinProgramLoop verb (drop 1 tokens)"

definition isStdinCodeProgram :: "string \<Rightarrow> bool" where
  "isStdinCodeProgram program \<longleftrightarrow> program \<in> {''-'', ''/dev/stdin'', ''/dev/fd/0''}"

definition isStdinCodeInterpreterInvocation :: "string \<Rightarrow> string list \<Rightarrow> bool" where
  "isStdinCodeInterpreterInvocation verb tokens =
     (if \<not> isInlineCodeInterpreter verb then False
      else (let (program, implicit) = stdinCodeProgram verb tokens
            in implicit \<or> isStdinCodeProgram program))"

definition isImplicitNodeStdinInvocation :: "string \<Rightarrow> string list \<Rightarrow> bool" where
  "isImplicitNodeStdinInvocation verb tokens =
     (if verb \<noteq> ''node'' \<and> verb \<noteq> ''nodejs'' then False
      else if list_ex (\<lambda>tok. tok = ''--input-type'' \<or> hasPrefix tok ''--input-type='') (drop 1 tokens)
        then (let (program, implicit) = stdinCodeProgram verb tokens in implicit \<and> program = [])
      else False)"

text \<open>The explanation, when the interpreter reads its program from standard input.\<close>

definition dangerousStdinCodeInvocation :: "string \<Rightarrow> string \<Rightarrow> string list \<Rightarrow> string option" where
  "dangerousStdinCodeInvocation seg verb tokens =
     (if \<not> isStdinCodeInterpreterInvocation verb tokens then None
      else if isImplicitNodeStdinInvocation verb tokens
        then Some (dash ''node input type without script'' ''arbitrary code execution'')
      else if hasInputRedirection seg
        then Some (dash ''input redirection feeds interpreter stdin'' ''arbitrary code execution'')
      else if isStdinCodeProgram (fst (stdinCodeProgram verb tokens))
        then Some (dash (verb @ '' explicit stdin program'') ''arbitrary code execution'')
      else None)"

end
