(* ===== verification/RiskArgs.thy ===== *)
theory RiskArgs
  imports RiskTables
begin

text \<open>
  The argument heuristics of \<open>internal/jinn/command_risk.go\<close>: one function per verb,
  \<open>None\<close> where no heuristic fires.  The heuristics of \<open>find\<close>, \<open>xargs\<close>,
  \<open>alias\<close> and \<open>hash\<close> classify a nested command; they take the classifier as their
  first argument, so that theory \<open>RiskClassify\<close> can tie the knot.
\<close>

abbreviation danger :: "string \<Rightarrow> verdict option" where
  "danger r \<equiv> Some (RiskDangerous, r)"

section \<open>Finding arguments\<close>

definition nonFlagToken :: "string \<Rightarrow> bool" where
  "nonFlagToken tok \<longleftrightarrow> tok \<noteq> [] \<and> \<not> hasPrefix tok ''-''"

definition firstNonFlagToken :: "string list \<Rightarrow> string" where
  "firstNonFlagToken tokens = (case filter nonFlagToken tokens of [] \<Rightarrow> [] | t # _ \<Rightarrow> t)"

definition lastNonFlagToken :: "string list \<Rightarrow> string" where
  "lastNonFlagToken tokens = firstNonFlagToken (rev tokens)"

definition hasAnyToken :: "string list \<Rightarrow> string list \<Rightarrow> bool" where
  "hasAnyToken tokens values = list_ex (\<lambda>tok. list_ex (\<lambda>v. tok = v) values) tokens"

fun payloadAfterGlobalFlags :: "(string \<Rightarrow> bool) \<Rightarrow> string list \<Rightarrow> string list" where
  "payloadAfterGlobalFlags consumesArg [] = []"
| "payloadAfterGlobalFlags consumesArg (tok # rest) =
     (if tok = ''--'' then rest
      else if consumesArg tok then payloadAfterGlobalFlags consumesArg (drop 1 rest)
      else if hasPrefix tok ''-'' then payloadAfterGlobalFlags consumesArg rest
      else tok # rest)"

fun positionalTokens :: "(string \<Rightarrow> bool) \<Rightarrow> string list \<Rightarrow> string list" where
  "positionalTokens consumesArg [] = []"
| "positionalTokens consumesArg (tok # rest) =
     (if tok = ''--'' then rest
      else if consumesArg tok then positionalTokens consumesArg (drop 1 rest)
      else if hasPrefix tok ''-'' then positionalTokens consumesArg rest
      else tok # positionalTokens consumesArg rest)"

text \<open>The inner loop over the options; it returns the advanced index and the targets found.\<close>

fun optionTargetsInner ::
  "string list \<Rightarrow> string \<Rightarrow> string list \<Rightarrow> nat \<Rightarrow> nat \<times> string list" where
  "optionTargetsInner [] tok tokens i = (i, [])"
| "optionTargetsInner (opt # opts) tok tokens i =
     (if tok = opt then
        (if i + 1 < length tokens
         then (let r = optionTargetsInner opts tok tokens (i + 1)
               in (fst r, tokens ! (i + 1) # snd r))
         else optionTargetsInner opts tok tokens i)
      else if hasPrefix opt ''--'' \<and> hasPrefix tok (opt @ ''='') then
        (let r = optionTargetsInner opts tok tokens i in (fst r, trimPrefix tok (opt @ ''='') # snd r))
      else if \<not> hasPrefix opt ''--'' \<and> hasPrefix tok opt \<and> length tok > length opt then
        (let r = optionTargetsInner opts tok tokens i in (fst r, drop (length opt) tok # snd r))
      else optionTargetsInner opts tok tokens i)"

lemma optionTargetsInner_ge: "i \<le> fst (optionTargetsInner opts tok tokens i)"
  by (induction opts tok tokens i rule: optionTargetsInner.induct) (auto simp: Let_def)

function optionTargetsLoop :: "string list \<Rightarrow> string list \<Rightarrow> nat \<Rightarrow> string list" where
  "optionTargetsLoop options tokens i =
     (if i < length tokens then
        (let r = optionTargetsInner options (tokens ! i) tokens i
         in snd r @ optionTargetsLoop options tokens (fst r + 1))
      else [])"
  by pat_completeness auto
termination
  by (relation "measure (\<lambda>(options, tokens, i). length tokens - i)")
    (auto intro!: diff_less_mono2 simp: le_imp_less_Suc optionTargetsInner_ge)

declare optionTargetsLoop.simps [simp del]

definition commandOptionTargets :: "string list \<Rightarrow> string list \<Rightarrow> string list" where
  "commandOptionTargets tokens options = optionTargetsLoop options tokens 0"

section \<open>Files and devices\<close>

definition checkRmFlags :: "string list \<Rightarrow> verdict option" where
  "checkRmFlags tokens =
     (if list_ex (\<lambda>tok. isFlag tok \<and> containsAny tok ''rf'') (drop 1 tokens)
      then danger (dash ''critical: rm with force/recursive flags'' ''irreversible'') else None)"

definition checkChmodArgs :: "string list \<Rightarrow> verdict option" where
  "checkChmodArgs tokens =
     (let target = lastNonFlagToken (drop 1 tokens) in
      if isDangerousDevicePath target
      then danger (dash (''chmod on device '' @ target) ''can compromise storage access'')
      else if list_ex (\<lambda>tok. tok = ''777'' \<or> tok = ''0777'' \<or> tok = ''a+rwx'') (drop 1 tokens)
      then Some (RiskCaution, dash ''chmod 777'' ''grants world read/write/execute'')
      else None)"

definition checkOwnershipDeviceTarget :: "string list \<Rightarrow> verdict option" where
  "checkOwnershipDeviceTarget tokens =
     (let target = lastNonFlagToken (drop 1 tokens) in
      if isDangerousDevicePath target
      then danger (dash (''chown on device '' @ target) ''can compromise storage access'')
      else None)"

definition checkFileCommandDeviceDestination :: "string \<Rightarrow> string list \<Rightarrow> verdict option" where
  "checkFileCommandDeviceDestination verb tokens =
     (let dest = lastNonFlagToken (drop 1 tokens) in
      if isDangerousDevicePath dest
      then danger (dash (verb @ '' to device '' @ dest) ''can destroy data'') else None)"

definition isDangerousOutputDirectory :: "string \<Rightarrow> bool" where
  "isDangerousOutputDirectory target0 =
     (let target = cleanTarget target0 in
      if target \<in> {''/dev/null'', ''/dev/stdout'', ''/dev/stderr''} then False
      else target = ''/dev'' \<or> hasPrefix target ''/dev/'')"

definition curlFileWritingOptions :: "string list" where
  "curlFileWritingOptions =
     [''-o'', ''--output'', ''-D'', ''--dump-header'', ''--trace'', ''--trace-ascii'',
      ''--stderr'', ''-c'', ''--cookie-jar'', ''--hsts'', ''--alt-svc'',
      ''--etag-save'', ''--libcurl'']"

definition wgetFileWritingOptions :: "string list" where
  "wgetFileWritingOptions =
     [''-O'', ''--output-document'', ''-o'', ''--output-file'', ''-a'', ''--append-output'',
      ''--hsts-file'', ''--save-cookies'', ''--rejected-log'']"

function writeOutLoop :: "string \<Rightarrow> string list" where
  "writeOutLoop remaining =
     (case indexStr remaining ''%output{'' of
        None \<Rightarrow> []
      | Some b \<Rightarrow>
          (let after = drop (b + 8) remaining in
           case indexByte after CHR ''}'' of
             None \<Rightarrow> []
           | Some e \<Rightarrow>
               (let target = trimPrefix (take e after) ''>>'' in
                (if target \<noteq> [] then [target] else []) @ writeOutLoop (drop (Suc e) after))))"
  by pat_completeness auto
termination
proof (relation "measure length")
  fix remaining b after e
  assume b: "indexStr remaining ''%output{'' = Some b" and a: "after = drop (b + 8) remaining"
  from indexStr_Some [OF b] have "8 \<le> length remaining" by simp
  then show "(drop (Suc e) after, remaining) \<in> measure length" by (simp add: a)
qed simp

declare writeOutLoop.simps [simp del]

definition curlWriteOutTargets :: "string list \<Rightarrow> string list" where
  "curlWriteOutTargets tokens =
     concat (map writeOutLoop (commandOptionTargets tokens [''-w'', ''--write-out'']))"

definition curlRemoteOutputDirectory :: "string list \<Rightarrow> string option" where
  "curlRemoteOutputDirectory tokens =
     (if \<not> list_ex (\<lambda>tok. tok = ''-O'' \<or> tok = ''--remote-name'' \<or> tok = ''--remote-name-all'') tokens
      then None
      else (let targets = commandOptionTargets tokens [''--output-dir''] in
            if targets = [] then None else Some (last targets)))"

text \<open>The first element that satisfies the predicate: a loop that returns at it.\<close>

definition firstTarget :: "(string \<Rightarrow> bool) \<Rightarrow> string list \<Rightarrow> string option" where
  "firstTarget P ts = (case filter P ts of [] \<Rightarrow> None | t # _ \<Rightarrow> Some t)"

definition checkCurlOutputTarget :: "string list \<Rightarrow> verdict option" where
  "checkCurlOutputTarget tokens =
     (let args = drop 1 tokens in
      case firstTarget isDangerousDevicePath (commandOptionTargets args curlFileWritingOptions) of
        Some target \<Rightarrow> danger (dash (''curl output to device '' @ target) ''can destroy data'')
      | None \<Rightarrow>
      (case firstTarget isDangerousDevicePath (curlWriteOutTargets args) of
        Some target \<Rightarrow> danger (dash (''curl write-out to device '' @ target) ''can destroy data'')
      | None \<Rightarrow>
      (case curlRemoteOutputDirectory args of
        Some target \<Rightarrow>
          (if isDangerousOutputDirectory target
           then danger (dash (''curl remote output directory '' @ target) ''can destroy data'')
           else None)
      | None \<Rightarrow> None)))"

definition checkWgetOutputTarget :: "string list \<Rightarrow> verdict option" where
  "checkWgetOutputTarget tokens =
     (let args = drop 1 tokens in
      case firstTarget isDangerousDevicePath (commandOptionTargets args wgetFileWritingOptions) of
        Some target \<Rightarrow> danger (dash (''wget output to device '' @ target) ''can destroy data'')
      | None \<Rightarrow>
      (case firstTarget isDangerousOutputDirectory
              (commandOptionTargets args [''-P'', ''--directory-prefix'']) of
        Some target \<Rightarrow> danger (dash (''wget output directory '' @ target) ''can destroy data'')
      | None \<Rightarrow> None))"

fun tarCreateOutputTarget :: "string list \<Rightarrow> string option" where
  "tarCreateOutputTarget [] = None"
| "tarCreateOutputTarget (tok # rest) =
     (let nextTok = Some (case rest of [] \<Rightarrow> [] | n # _ \<Rightarrow> n) in
      if tok = ''-f'' \<or> tok = ''--file'' then nextTok
      else if hasPrefix tok ''--file='' then Some (trimPrefix tok ''--file='')
      else if hasPrefix tok ''-'' \<and> containsStr tok ''f'' then
        (let suffix = (case indexStr tok ''f'' of None \<Rightarrow> tok | Some i \<Rightarrow> drop (Suc i) tok) in
         if suffix \<noteq> [] then Some suffix else nextTok)
      else tarCreateOutputTarget rest)"

definition checkTarOutputTarget :: "string list \<Rightarrow> verdict option" where
  "checkTarOutputTarget tokens =
     (case tarCreateOutputTarget (drop 1 tokens) of
        Some target \<Rightarrow>
          (if isDangerousDevicePath target
           then danger (dash (''tar output to device '' @ target) ''can destroy data'') else None)
      | None \<Rightarrow> None)"

definition checkZipOutputTarget :: "string list \<Rightarrow> verdict option" where
  "checkZipOutputTarget tokens =
     (let target = firstNonFlagToken (drop 1 tokens) in
      if isDangerousDevicePath target
      then danger (dash (''zip output to device '' @ target) ''can destroy data'') else None)"

definition checkTeeTargets :: "string list \<Rightarrow> verdict option" where
  "checkTeeTargets tokens =
     (case firstTarget (\<lambda>tok. \<not> hasPrefix tok ''-'' \<and> isDangerousDevicePath tok) (drop 1 tokens) of
        Some tok \<Rightarrow> danger (dash (''tee to device '' @ tok) ''can destroy data'')
      | None \<Rightarrow> None)"

definition checkRsyncDelete :: "string list \<Rightarrow> verdict option" where
  "checkRsyncDelete tokens =
     (case firstTarget (\<lambda>tok. tok = ''--delete'' \<or> hasPrefix tok ''--delete-'' \<or>
                             tok = ''--remove-source-files'') (drop 1 tokens) of
        None \<Rightarrow> None
      | Some tok \<Rightarrow>
          (if tok = ''--delete'' \<or> hasPrefix tok ''--delete-''
           then danger (dash ''rsync delete mode'' ''deletes destination files'')
           else danger (dash ''rsync remove-source-files'' ''deletes source files after transfer'')))"

section \<open>git\<close>

fun gitForcePushLoop :: "string list \<Rightarrow> bool" where
  "gitForcePushLoop [] = False"
| "gitForcePushLoop (tok # rest) =
     ((tok = ''push'' \<and> list_ex (\<lambda>f. f = ''--force'' \<or> f = ''-f'') rest) \<or> gitForcePushLoop rest)"

definition checkGitForcePush :: "string list \<Rightarrow> verdict option" where
  "checkGitForcePush tokens =
     (if gitForcePushLoop (drop 1 tokens)
      then Some (RiskCaution, dash ''git force push'' ''rewrites remote history'') else None)"

definition isGitShellAliasConfig :: "string \<Rightarrow> bool" where
  "isGitShellAliasConfig config =
     (case cutByte config CHR ''='' of
        None \<Rightarrow> False
      | Some (key, val) \<Rightarrow>
          hasPrefix (toLower (trimSpace key)) ''alias.'' \<and> hasPrefix (trimSpace val) ''!'')"

fun gitShellAliasLoop :: "string list \<Rightarrow> bool" where
  "gitShellAliasLoop [] = False"
| "gitShellAliasLoop (tok # rest) =
     (if tok = ''-c'' \<and> (case rest of [] \<Rightarrow> False | n # _ \<Rightarrow> isGitShellAliasConfig n) then True
      else if hasPrefix tok ''-c'' \<and> length tok > 2 \<and> isGitShellAliasConfig (drop 2 tok) then True
      else if hasPrefix tok ''--config='' \<and> isGitShellAliasConfig (trimPrefix tok ''--config='') then True
      else gitShellAliasLoop rest)"

definition hasGitShellAlias :: "string list \<Rightarrow> bool" where
  "hasGitShellAlias tokens = gitShellAliasLoop (drop 1 tokens)"

definition hasGitCleanDryRun :: "string list \<Rightarrow> bool" where
  "hasGitCleanDryRun tokens =
     list_ex (\<lambda>tok. tok = ''-n'' \<or> tok = ''--dry-run'' \<or>
                    (hasPrefix tok ''-'' \<and> containsStr tok ''n'')) tokens"

definition hasPathspecDiscard :: "string list \<Rightarrow> bool" where
  "hasPathspecDiscard tokens = list_ex (\<lambda>tok. tok = ''--'') tokens"

fun gitDestructiveLoop :: "string list \<Rightarrow> verdict option" where
  "gitDestructiveLoop [] = None"
| "gitDestructiveLoop (tok # rest) =
     (if tok = ''clean'' then
        (if hasGitCleanDryRun rest
         then Some (RiskSafe, dash ''git clean dry-run'' ''read-only deletion preview'')
         else danger (dash ''git clean'' ''deletes untracked files''))
      else if tok = ''reset'' then
        (if list_ex (\<lambda>f. f = ''--hard'') rest
         then danger (dash ''git reset --hard'' ''discards local changes'')
         else gitDestructiveLoop rest)
      else if tok = ''checkout'' \<or> tok = ''restore'' then
        (if hasPathspecDiscard rest
         then danger (dash (''git '' @ tok @ '' pathspec'') ''discards local file changes'')
         else gitDestructiveLoop rest)
      else gitDestructiveLoop rest)"

definition checkGitDestructiveArgs :: "string list \<Rightarrow> verdict option" where
  "checkGitDestructiveArgs tokens =
     (case checkGitForcePush tokens of
        Some v \<Rightarrow> Some v
      | None \<Rightarrow>
          (if hasGitShellAlias tokens
           then danger (dash ''git shell alias'' ''arbitrary command execution'')
           else gitDestructiveLoop (drop 1 tokens)))"

section \<open>Nested commands\<close>

definition isFindDelegatingAction :: "string \<Rightarrow> bool" where
  "isFindDelegatingAction tok \<longleftrightarrow> tok \<in> {''-exec'', ''-execdir'', ''-ok'', ''-okdir''}"

definition isFindFileOutputAction :: "string \<Rightarrow> bool" where
  "isFindFileOutputAction tok \<longleftrightarrow> tok \<in> {''-fprint'', ''-fprint0'', ''-fprintf'', ''-fls''}"

definition classifyFindExecPayload :: "classifier \<Rightarrow> string list \<Rightarrow> verdict option" where
  "classifyFindExecPayload cc tokens =
     (let payload = takeWhile (\<lambda>tok. tok \<noteq> '';'' \<and> tok \<noteq> [bslash, CHR '';''] \<and> tok \<noteq> ''+'') tokens in
      if payload = [] then None
      else (let (level, reason) = cc (joinStr '' '' payload) in
            if level \<le> RiskSafe then None else Some (level, ''find -exec: '' @ reason)))"

fun checkFindDelete :: "classifier \<Rightarrow> string list \<Rightarrow> verdict option" where
  "checkFindDelete cc [] = None"
| "checkFindDelete cc (tok # rest) =
     (case (if isFindDelegatingAction tok \<and> rest \<noteq> [] then classifyFindExecPayload cc rest else None) of
        Some v \<Rightarrow> Some v
      | None \<Rightarrow>
          (if tok = ''-delete'' then danger (dash ''find -delete'' ''bulk file deletion'')
           else if isFindFileOutputAction tok
             then Some (RiskCaution, dash (''find '' @ tok) ''writes output file'')
           else checkFindDelete cc rest))"

definition xargsFlagConsumesArg :: "string \<Rightarrow> bool" where
  "xargsFlagConsumesArg tok \<longleftrightarrow>
     tok \<in> {''-a'', ''--arg-file'', ''-d'', ''--delimiter'', ''-E'', ''-I'', ''-i'', ''-L'',
            ''-l'', ''-n'', ''-P'', ''-s''}"

fun xargsPayload :: "string list \<Rightarrow> string list" where
  "xargsPayload [] = []"
| "xargsPayload (tok # rest) =
     (if xargsFlagConsumesArg tok then xargsPayload (drop 1 rest)
      else if hasPrefix tok ''--max-'' \<or> hasPrefix tok ''--delimiter='' \<or> hasPrefix tok ''-''
        then xargsPayload rest
      else tok # rest)"

definition checkXargsRm :: "classifier \<Rightarrow> string list \<Rightarrow> verdict option" where
  "checkXargsRm cc tokens =
     (let payload = xargsPayload (drop 1 tokens) in
      if payload = [] then None
      else (let (level, reason) = cc (joinStr '' '' payload) in
            if level \<le> RiskSafe then None else Some (level, ''xargs: '' @ reason)))"

fun aliasLoop :: "classifier \<Rightarrow> verdict \<Rightarrow> string list \<Rightarrow> verdict" where
  "aliasLoop cc (maxLevel, maxReason) [] = (maxLevel, maxReason)"
| "aliasLoop cc (maxLevel, maxReason) (tok # rest) =
     (case cutByte tok CHR ''='' of
        None \<Rightarrow> aliasLoop cc (maxLevel, maxReason) rest
      | Some (name, val) \<Rightarrow>
          (if name = [] \<or> val = [] then aliasLoop cc (maxLevel, maxReason) rest
           else (let (level, reason) = cc val in
                 aliasLoop cc (if level > maxLevel then (level, reason) else (maxLevel, maxReason)) rest)))"

definition checkAliasDefinitions :: "classifier \<Rightarrow> string list \<Rightarrow> verdict option" where
  "checkAliasDefinitions cc tokens =
     (let (maxLevel, maxReason) = aliasLoop cc (RiskSafe, []) (drop 1 tokens) in
      if maxLevel > RiskSafe then Some (maxLevel, ''alias definition: '' @ maxReason) else None)"

fun hashLoop :: "classifier \<Rightarrow> string list \<Rightarrow> verdict option" where
  "hashLoop cc [] = None"
| "hashLoop cc (tok # rest) =
     (if tok \<noteq> ''-p'' \<or> rest = [] then hashLoop cc rest
      else (let (level, reason) = cc (hd rest) in
            if level > RiskSafe then Some (level, ''hash binding: '' @ reason)
            else hashLoop cc (drop 2 rest)))"

definition checkHashBindings :: "classifier \<Rightarrow> string list \<Rightarrow> verdict option" where
  "checkHashBindings cc tokens = hashLoop cc (drop 1 tokens)"

end
