(* ===== verification/RiskCloud.thy ===== *)
theory RiskCloud
  imports RiskArgs
begin

text \<open>
  The heuristics of \<open>internal/jinn/command_risk.go\<close> for container runtimes, cluster and
  infrastructure tools, package managers, cloud command lines and SQL clients, and the
  dispatch of \<open>arbitraryCodeInvocation\<close>.
\<close>

section \<open>Container runtimes\<close>

definition containerRuntimeGlobalFlagConsumesArg :: "string \<Rightarrow> bool" where
  "containerRuntimeGlobalFlagConsumesArg tok \<longleftrightarrow>
     tok \<in> {''--config'', ''--context'', ''--host'', ''-H'', ''--log-level'',
            ''--tlscacert'', ''--tlscert'', ''--tlskey''}"

definition containerRuntimePayload :: "string list \<Rightarrow> string list" where
  "containerRuntimePayload tokens =
     payloadAfterGlobalFlags containerRuntimeGlobalFlagConsumesArg tokens"

definition isContainerRemovalSubcommand :: "string \<Rightarrow> bool" where
  "isContainerRemovalSubcommand tok \<longleftrightarrow> tok \<in> {''rm'', ''remove'', ''prune''}"

definition checkContainerRuntimeSystem :: "string \<Rightarrow> string list \<Rightarrow> verdict option" where
  "checkContainerRuntimeSystem verb args =
     (if length args > 1 \<and> args ! 1 = ''prune''
      then danger (dash (verb @ '' system prune'') ''deletes local container runtime state'')
      else None)"

definition checkContainerRuntimeVolume :: "string \<Rightarrow> string list \<Rightarrow> verdict option" where
  "checkContainerRuntimeVolume verb args =
     (if length args > 1 \<and> isContainerRemovalSubcommand (args ! 1)
      then danger (dash (verb @ '' volume '' @ args ! 1) ''deletes local volume data'') else None)"

definition checkContainerRuntimeContainer :: "string \<Rightarrow> string list \<Rightarrow> verdict option" where
  "checkContainerRuntimeContainer verb args =
     (if length args > 1 \<and> isContainerRemovalSubcommand (args ! 1)
      then danger (dash (verb @ '' container '' @ args ! 1) ''deletes local containers'') else None)"

definition checkContainerRuntimeRemove :: "string \<Rightarrow> string list \<Rightarrow> verdict option" where
  "checkContainerRuntimeRemove verb args =
     danger (dash (verb @ '' '' @ hd args) ''deletes local containers'')"

definition checkContainerRuntimeCompose :: "string \<Rightarrow> string list \<Rightarrow> verdict option" where
  "checkContainerRuntimeCompose verb args =
     (if length args > 1 \<and> args ! 1 = ''down'' \<and> hasAnyToken (drop 2 args) [''-v'', ''--volumes'']
      then danger (dash (verb @ '' compose down --volumes'') ''deletes local volume data'') else None)"

definition containerRuntimeSubcommandChecks ::
  "(string \<times> (string \<Rightarrow> string list \<Rightarrow> verdict option)) list" where
  "containerRuntimeSubcommandChecks =
     [(''system'', checkContainerRuntimeSystem),
      (''volume'', checkContainerRuntimeVolume),
      (''container'', checkContainerRuntimeContainer),
      (''rm'', checkContainerRuntimeRemove),
      (''remove'', checkContainerRuntimeRemove),
      (''compose'', checkContainerRuntimeCompose)]"

definition checkContainerRuntimeDestructiveArgs :: "string list \<Rightarrow> verdict option" where
  "checkContainerRuntimeDestructiveArgs tokens =
     (case containerRuntimePayload (drop 1 tokens) of
        [] \<Rightarrow> None
      | arg # args \<Rightarrow>
          (case map_of containerRuntimeSubcommandChecks arg of
             Some check \<Rightarrow> check (hd tokens) (arg # args)
           | None \<Rightarrow> None))"

section \<open>Clusters and infrastructure\<close>

definition clusterToolGlobalFlagConsumesArg :: "string \<Rightarrow> bool" where
  "clusterToolGlobalFlagConsumesArg tok \<longleftrightarrow>
     tok \<in> {''-n'', ''--namespace'', ''--context'', ''--kubeconfig'', ''--server'', ''--user'',
            ''--as'', ''--as-group''}"

definition clusterToolPayload :: "string list \<Rightarrow> string list" where
  "clusterToolPayload tokens = payloadAfterGlobalFlags clusterToolGlobalFlagConsumesArg tokens"

definition checkKubectlDestructiveArgs :: "string list \<Rightarrow> verdict option" where
  "checkKubectlDestructiveArgs tokens =
     (case clusterToolPayload (drop 1 tokens) of
        [] \<Rightarrow> None
      | arg # _ \<Rightarrow>
          (if arg = ''delete'' \<or> arg = ''drain''
           then danger (dash (''kubectl '' @ arg) ''removes or evicts cluster resources'') else None))"

definition checkHelmDestructiveArgs :: "string list \<Rightarrow> verdict option" where
  "checkHelmDestructiveArgs tokens =
     (case clusterToolPayload (drop 1 tokens) of
        [] \<Rightarrow> None
      | arg # _ \<Rightarrow>
          (if arg = ''uninstall'' \<or> arg = ''delete''
           then danger (dash (''helm '' @ arg) ''removes cluster releases'') else None))"

definition terraformPayload :: "string list \<Rightarrow> string list" where
  "terraformPayload tokens = payloadAfterGlobalFlags (\<lambda>tok. tok = ''-chdir'') tokens"

definition checkTerraformDestructiveArgs :: "string list \<Rightarrow> verdict option" where
  "checkTerraformDestructiveArgs tokens =
     (case terraformPayload (drop 1 tokens) of
        [] \<Rightarrow> None
      | arg # args \<Rightarrow>
          (if arg = ''destroy''
           then danger (dash (hd tokens @ '' destroy'') ''deletes managed infrastructure'')
           else if arg = ''apply'' \<and> hasAnyToken args [''-destroy'']
           then danger (dash (hd tokens @ '' apply -destroy'') ''deletes managed infrastructure'')
           else None))"

definition pulumiGlobalFlagConsumesArg :: "string \<Rightarrow> bool" where
  "pulumiGlobalFlagConsumesArg tok \<longleftrightarrow>
     tok \<in> {''-C'', ''--cwd'', ''--config-file'', ''--profiling'', ''-s'', ''--stack''}"

definition pulumiPayload :: "string list \<Rightarrow> string list" where
  "pulumiPayload tokens = payloadAfterGlobalFlags pulumiGlobalFlagConsumesArg tokens"

definition checkPulumiDestructiveArgs :: "string list \<Rightarrow> verdict option" where
  "checkPulumiDestructiveArgs tokens =
     (case pulumiPayload (drop 1 tokens) of
        [] \<Rightarrow> None
      | arg # args \<Rightarrow>
          (if arg = ''destroy''
           then danger (dash ''pulumi destroy'' ''deletes managed infrastructure'')
           else case args of
             [] \<Rightarrow> None
           | sub # _ \<Rightarrow>
               (if arg = ''stack'' \<and> (sub = ''rm'' \<or> sub = ''remove'')
                then danger (dash (''pulumi stack '' @ sub) ''removes stack state'') else None)))"

section \<open>GitHub\<close>

definition githubCLIGlobalFlagConsumesArg :: "string \<Rightarrow> bool" where
  "githubCLIGlobalFlagConsumesArg tok \<longleftrightarrow> tok \<in> {''-R'', ''--repo'', ''--hostname''}"

definition githubCLIPayload :: "string list \<Rightarrow> string list" where
  "githubCLIPayload tokens = payloadAfterGlobalFlags githubCLIGlobalFlagConsumesArg tokens"

fun githubAPIUsesDelete :: "string list \<Rightarrow> bool" where
  "githubAPIUsesDelete [] = False"
| "githubAPIUsesDelete (tok # rest) =
     (if tok = ''-X'' \<or> tok = ''--method'' then
        (if (case rest of [] \<Rightarrow> False | n # _ \<Rightarrow> equalFold n ''DELETE'') then True
         else githubAPIUsesDelete (drop 1 rest))
      else if hasPrefix tok ''-X'' \<and> length tok > 2 \<and> equalFold (drop 2 tok) ''DELETE'' then True
      else if hasPrefix tok ''--method='' \<and> equalFold (trimPrefix tok ''--method='') ''DELETE''
        then True
      else githubAPIUsesDelete rest)"

definition checkGitHubCLIDestructiveArgs :: "string list \<Rightarrow> verdict option" where
  "checkGitHubCLIDestructiveArgs tokens =
     (case githubCLIPayload (drop 1 tokens) of
        [] \<Rightarrow> None
      | arg # args \<Rightarrow>
          (if (case args of [] \<Rightarrow> False | sub # _ \<Rightarrow> sub = ''delete'' \<or> sub = ''delete-asset'') \<and>
              arg \<in> {''repo'', ''release'', ''run'', ''workflow''}
           then danger (dash (''gh '' @ arg @ '' '' @ hd args) ''deletes remote GitHub resources'')
           else if arg = ''api'' \<and> githubAPIUsesDelete args
           then danger (dash ''gh api DELETE'' ''deletes remote GitHub resources'')
           else None))"

section \<open>Package managers\<close>

definition brewGlobalFlagConsumesArg :: "string \<Rightarrow> bool" where
  "brewGlobalFlagConsumesArg tok \<longleftrightarrow> tok \<in> {''--prefix'', ''--repository'', ''--cellar''}"

definition linuxPackageGlobalFlagConsumesArg :: "string \<Rightarrow> bool" where
  "linuxPackageGlobalFlagConsumesArg tok \<longleftrightarrow>
     tok \<in> {''-c'', ''-o'', ''--config-file'', ''--option'', ''--installroot'', ''--releasever''}"

definition languagePackageGlobalFlagConsumesArg :: "string \<Rightarrow> bool" where
  "languagePackageGlobalFlagConsumesArg tok \<longleftrightarrow>
     tok \<in> {''-C'', ''--cwd'', ''--dir'', ''--prefix'', ''--project'', ''--python''}"

fun packageManagerPayload :: "string list \<Rightarrow> string list" where
  "packageManagerPayload [] = []"
| "packageManagerPayload (verb # args) =
     (if verb = ''brew'' then payloadAfterGlobalFlags brewGlobalFlagConsumesArg args
      else if verb \<in> {''apt'', ''apt-get'', ''dnf'', ''yum''}
        then payloadAfterGlobalFlags linuxPackageGlobalFlagConsumesArg args
      else if verb = ''pacman'' then args
      else if verb \<in> {''npm'', ''pnpm'', ''yarn'', ''bun'', ''pip'', ''pip3'', ''gem'', ''cargo'', ''composer''}
        then payloadAfterGlobalFlags languagePackageGlobalFlagConsumesArg args
      else [])"

definition isPackageRemovalSubcommand :: "string \<Rightarrow> bool" where
  "isPackageRemovalSubcommand subcommand \<longleftrightarrow>
     subcommand \<in> {''uninstall'', ''remove'', ''rm'', ''purge'', ''autoremove'', ''erase''}"

definition isPacmanRemovalFlag :: "string \<Rightarrow> bool" where
  "isPacmanRemovalFlag tok \<longleftrightarrow> (tok = ''-R'' \<or> hasPrefix tok ''-R'') \<or> hasPrefix tok ''--remove''"

definition checkPacmanDestructiveArgs :: "string list \<Rightarrow> verdict option" where
  "checkPacmanDestructiveArgs args =
     (case firstTarget isPacmanRemovalFlag args of
        Some tok \<Rightarrow> danger (dash (''pacman '' @ tok) ''removes installed packages'')
      | None \<Rightarrow> None)"

definition checkPackageManagerDestructiveArgs :: "string list \<Rightarrow> verdict option" where
  "checkPackageManagerDestructiveArgs tokens =
     (case packageManagerPayload tokens of
        [] \<Rightarrow> None
      | arg # args \<Rightarrow>
          (let verb = hd tokens in
           if verb = ''pacman'' then checkPacmanDestructiveArgs (arg # args)
           else if isPackageRemovalSubcommand arg
           then danger (dash (verb @ '' '' @ arg) ''removes installed packages'')
           else None))"

text \<open>The explanation, for a command whose purpose is to run given code.\<close>

definition arbitraryCodeInvocation :: "string \<Rightarrow> string list \<Rightarrow> string option" where
  "arbitraryCodeInvocation verb tokens =
     (if verb \<in> {''awk'', ''gawk'', ''make'', ''npx'', ''bunx''}
      then Some (dash (verb @ '' execution'') ''arbitrary code execution'')
      else if verb = ''pnpm'' \<or> verb = ''bun'' then
        (case packageManagerPayload tokens of
           [] \<Rightarrow> None
         | arg # _ \<Rightarrow>
             (if verb = ''pnpm'' \<and> (arg = ''dlx'' \<or> arg = ''exec'')
              then Some (dash (verb @ '' '' @ arg) ''arbitrary code execution'')
              else if verb = ''bun'' \<and> arg = ''x''
              then Some (dash ''bun x'' ''arbitrary code execution'')
              else None))
      else None)"

section \<open>Clouds\<close>

definition isCloudDestructiveOperation :: "string \<Rightarrow> bool" where
  "isCloudDestructiveOperation operation \<longleftrightarrow>
     hasPrefix operation ''delete-'' \<or> hasPrefix operation ''remove-'' \<or>
     hasPrefix operation ''terminate-'' \<or>
     operation \<in> {''delete'', ''destroy'', ''purge'', ''remove'', ''terminate''}"

definition awsGlobalFlagConsumesArg :: "string \<Rightarrow> bool" where
  "awsGlobalFlagConsumesArg tok \<longleftrightarrow>
     tok \<in> {''--ca-bundle'', ''--cli-binary-format'', ''--cli-input-json'', ''--cli-input-yaml'',
            ''--color'', ''--endpoint-url'', ''--output'', ''--profile'', ''--query'', ''--region''}"

definition awsPayload :: "string list \<Rightarrow> string list" where
  "awsPayload tokens = payloadAfterGlobalFlags awsGlobalFlagConsumesArg tokens"

definition checkAWSDestructiveArgs :: "string list \<Rightarrow> verdict option" where
  "checkAWSDestructiveArgs tokens =
     (case awsPayload (drop 1 tokens) of
        service # operation # _ \<Rightarrow>
          (if service = ''s3'' \<and> (operation = ''rm'' \<or> operation = ''rb'')
           then danger (dash (''aws s3 '' @ operation) ''deletes S3 data or buckets'')
           else if isCloudDestructiveOperation operation
           then danger (dash (''aws '' @ service @ '' '' @ operation)
                          ''deletes or terminates cloud resources'')
           else None)
      | _ \<Rightarrow> None)"

definition azureGlobalFlagConsumesArg :: "string \<Rightarrow> bool" where
  "azureGlobalFlagConsumesArg tok \<longleftrightarrow>
     tok \<in> {''--cloud'', ''--defaults'', ''--only-show-errors'', ''--output'', ''--profile'',
            ''--query'', ''--subscription'', ''--tenant'', ''--username''}"

definition azureOptionConsumesArg :: "string \<Rightarrow> bool" where
  "azureOptionConsumesArg tok \<longleftrightarrow>
     azureGlobalFlagConsumesArg tok \<or>
     tok \<in> {''--ids'', ''--location'', ''--name'', ''--resource-group'', ''--slot'', ''-g'', ''-n''}"

definition azurePayload :: "string list \<Rightarrow> string list" where
  "azurePayload tokens = payloadAfterGlobalFlags azureGlobalFlagConsumesArg tokens"

definition checkAzureDestructiveArgs :: "string list \<Rightarrow> verdict option" where
  "checkAzureDestructiveArgs tokens =
     (case firstTarget isCloudDestructiveOperation
             (positionalTokens azureOptionConsumesArg (azurePayload (drop 1 tokens))) of
        Some tok \<Rightarrow> danger (dash (''az '' @ tok) ''deletes or purges cloud resources'')
      | None \<Rightarrow> None)"

definition gcloudGlobalFlagConsumesArg :: "string \<Rightarrow> bool" where
  "gcloudGlobalFlagConsumesArg tok \<longleftrightarrow>
     tok \<in> {''--account'', ''--billing-project'', ''--configuration'', ''--flags-file'',
            ''--format'', ''--impersonate-service-account'', ''--project'', ''--trace-token''}"

definition gcloudOptionConsumesArg :: "string \<Rightarrow> bool" where
  "gcloudOptionConsumesArg tok \<longleftrightarrow>
     gcloudGlobalFlagConsumesArg tok \<or>
     tok \<in> {''--cluster'', ''--instance'', ''--name'', ''--region'', ''--zone''}"

definition gcloudPayload :: "string list \<Rightarrow> string list" where
  "gcloudPayload tokens = payloadAfterGlobalFlags gcloudGlobalFlagConsumesArg tokens"

definition checkGcloudDestructiveArgs :: "string list \<Rightarrow> verdict option" where
  "checkGcloudDestructiveArgs tokens =
     (case firstTarget isCloudDestructiveOperation
             (positionalTokens gcloudOptionConsumesArg (gcloudPayload (drop 1 tokens))) of
        Some tok \<Rightarrow> danger (dash (''gcloud '' @ tok) ''deletes or destroys cloud resources'')
      | None \<Rightarrow> None)"

section \<open>SQL clients\<close>

fun optionValues :: "string \<Rightarrow> string \<Rightarrow> string list \<Rightarrow> string list" where
  "optionValues shortFlag longFlag [] = []"
| "optionValues shortFlag longFlag (tok # rest) =
     (if tok = shortFlag \<or> tok = longFlag then
        (case rest of
           [] \<Rightarrow> []
         | n # rest' \<Rightarrow> n # optionValues shortFlag longFlag rest')
      else if hasPrefix tok shortFlag \<and> length tok > length shortFlag then
        drop (length shortFlag) tok # optionValues shortFlag longFlag rest
      else if hasPrefix tok (longFlag @ ''='') then
        trimPrefix tok (longFlag @ ''='') # optionValues shortFlag longFlag rest
      else optionValues shortFlag longFlag rest)"

fun sqliteInlineStatements :: "string list \<Rightarrow> string list" where
  "sqliteInlineStatements [] = []"
| "sqliteInlineStatements (tok # rest) =
     (if hasPrefix tok ''-'' then sqliteInlineStatements rest else rest)"

fun inlineSQLStatements :: "string list \<Rightarrow> string list" where
  "inlineSQLStatements [] = []"
| "inlineSQLStatements (verb # args) =
     (if verb = ''psql'' then optionValues ''-c'' ''--command'' args
      else if verb = ''mysql'' then optionValues ''-e'' ''--execute'' args
      else if verb = ''sqlite3'' then sqliteInlineStatements args
      else [])"

definition isDestructiveSQL :: "string \<Rightarrow> bool" where
  "isDestructiveSQL sql =
     (let upper = toUpper (trimLeft (trimSpace sql) ''({'') in
      list_ex (hasPrefix upper)
        [''DROP '', ''DROP'' @ [newline], ''TRUNCATE '', ''TRUNCATE'' @ [newline],
         ''DELETE '', ''DELETE'' @ [newline]] \<or>
      upper \<in> {''DROP'', ''TRUNCATE'', ''DELETE''})"

definition checkSQLCommandArgs :: "string list \<Rightarrow> verdict option" where
  "checkSQLCommandArgs tokens =
     (if list_ex isDestructiveSQL (inlineSQLStatements tokens)
      then danger (dash (hd tokens @ '' destructive SQL'') ''can delete persistent data'') else None)"

end
