(* ===== verification/ShellExpand.thy ===== *)
theory ShellExpand
  imports ShellLex
begin

text \<open>
  Nested shell code of \<open>internal/jinn/command_risk_parse.go\<close>: command and process
  substitutions, backticks and function bodies, their extraction and their removal.  The
  matching functions get the text from \<open>start\<close> on and give the distance from
  \<open>start\<close> to the match; 0 stands for the code's \<open>return start\<close> (no match).
\<close>

section \<open>Quote state of command expansion\<close>

text \<open>Double quotes do not stop an expansion, so only single quotes and escapes hide a rune.\<close>

definition expansionConsume :: "shellQuoteState \<Rightarrow> char \<Rightarrow> shellQuoteState \<times> bool" where
  "expansionConsume s ch =
     (if escaped s then (s\<lparr>escaped := False\<rparr>, True)
      else if ch = bslash \<and> \<not> inSingle s then (s\<lparr>escaped := True\<rparr>, True)
      else if ch = squote \<and> \<not> inDouble s then (s\<lparr>inSingle := \<not> inSingle s\<rparr>, True)
      else if ch = dquote \<and> \<not> inSingle s then (s\<lparr>inDouble := \<not> inDouble s\<rparr>, True)
      else if inSingle s then (s, True)
      else (s, False))"

section \<open>Matching\<close>

text \<open>\<open>k\<close> is the distance from the start, \<open>depth\<close> the nesting depth.\<close>

fun matchLoop ::
  "char \<Rightarrow> char \<Rightarrow> nat \<Rightarrow> int \<Rightarrow> shellQuoteState \<Rightarrow> string \<Rightarrow> nat" where
  "matchLoop open close k depth q [] = 0"
| "matchLoop open close k depth q (ch # rest) =
     (let (q', lit) = writeLiteral q ch in
      if lit then matchLoop open close (Suc k) depth q' rest
      else if ch = open then matchLoop open close (Suc k) (depth + 1) q' rest
      else if ch = close
        then (if depth - 1 = 0 then k else matchLoop open close (Suc k) (depth - 1) q' rest)
      else matchLoop open close (Suc k) depth q' rest)"

definition findMatchingParenRunes :: "string \<Rightarrow> nat" where
  "findMatchingParenRunes s = matchLoop CHR ''('' CHR '')'' 0 0 quote0 s"

definition findMatchingBrace :: "string \<Rightarrow> nat" where
  "findMatchingBrace s = matchLoop CHR ''{'' CHR ''}'' 0 0 quote0 s"

definition findNextBacktick :: "string \<Rightarrow> nat option" where
  "findNextBacktick s = indexByte s backtick"

section \<open>Command substitution\<close>

definition startsWith :: "char \<Rightarrow> string \<Rightarrow> bool" where
  "startsWith c s = (case s of [] \<Rightarrow> False | x # _ \<Rightarrow> x = c)"

function (sequential) extractSubshellLoop :: "shellQuoteState \<Rightarrow> string \<Rightarrow> string list" where
  "extractSubshellLoop q [] = []"
| "extractSubshellLoop q (ch # rest) =
     (let (q', hidden) = expansionConsume q ch in
      if hidden then extractSubshellLoop q' rest
      else if ch = CHR ''$'' \<and> startsWith CHR ''('' rest then
        (if startsWith CHR ''('' (drop 1 rest) then extractSubshellLoop q' rest
         else (let off = findMatchingParenRunes (ch # rest) in
               if off = 0 then [drop 1 rest]
               else take (off - 2) (drop 1 rest) # extractSubshellLoop q' (drop off rest)))
      else if ch = backtick then
        (case findNextBacktick rest of
           None \<Rightarrow> [rest]
         | Some k \<Rightarrow> take k rest # extractSubshellLoop q' (drop (Suc k) rest))
      else extractSubshellLoop q' rest)"
  by pat_completeness auto
termination
  by (relation "measure (\<lambda>(q, s). length s)") auto

definition extractSubshellContents :: "string \<Rightarrow> string list" where
  "extractSubshellContents cmdline = extractSubshellLoop quote0 cmdline"

function (sequential) stripSubshellsLoop :: "shellQuoteState \<Rightarrow> string \<Rightarrow> string" where
  "stripSubshellsLoop q [] = []"
| "stripSubshellsLoop q (ch # rest) =
     (let (q', hidden) = expansionConsume q ch in
      if hidden then ch # stripSubshellsLoop q' rest
      else if ch = CHR ''$'' \<and> startsWith CHR ''('' rest then
        (let off = findMatchingParenRunes (ch # rest) in
         if off = 0 then [] else stripSubshellsLoop q' (drop off rest))
      else if ch = backtick then
        (case findNextBacktick rest of
           None \<Rightarrow> []
         | Some k \<Rightarrow> stripSubshellsLoop q' (drop (Suc k) rest))
      else ch # stripSubshellsLoop q' rest)"
  by pat_completeness auto
termination
  by (relation "measure (\<lambda>(q, s). length s)") auto

definition stripSubshells :: "string \<Rightarrow> string" where
  "stripSubshells cmdline = stripSubshellsLoop quote0 cmdline"

section \<open>Process substitution\<close>

text \<open>The loop runs while a next rune exists.\<close>

function (sequential) extractProcessLoop :: "shellQuoteState \<Rightarrow> string \<Rightarrow> string list" where
  "extractProcessLoop q [] = []"
| "extractProcessLoop q [ch] = []"
| "extractProcessLoop q (ch # c2 # rest) =
     (let (q', lit) = writeLiteral q ch in
      if lit then extractProcessLoop q' (c2 # rest)
      else if (ch = CHR ''<'' \<or> ch = CHR ''>'') \<and> c2 = CHR ''('' then
        (let off = findMatchingParenRunes (c2 # rest) in
         if off = 0 then [rest]
         else take (off - 1) rest # extractProcessLoop q' (drop off rest))
      else extractProcessLoop q' (c2 # rest))"
  by pat_completeness auto
termination
  by (relation "measure (\<lambda>(q, s). length s)") auto

definition extractProcessSubstitutionContents :: "string \<Rightarrow> string list" where
  "extractProcessSubstitutionContents cmdline = extractProcessLoop quote0 cmdline"

definition containsProcessSubstitution :: "string \<Rightarrow> bool" where
  "containsProcessSubstitution cmdline = (extractProcessSubstitutionContents cmdline \<noteq> [])"

definition containsCommandExpansion :: "string \<Rightarrow> bool" where
  "containsCommandExpansion cmdline =
     (extractSubshellContents cmdline \<noteq> [] \<or> containsProcessSubstitution cmdline)"

section \<open>Function bodies\<close>

definition looksLikeFunctionHeader :: "string \<Rightarrow> bool" where
  "looksLikeFunctionHeader pre =
     (case rev (stringsFields pre) of
        [] \<Rightarrow> False
      | l # before \<Rightarrow>
          (if hasSuffix l ''()'' then True
           else case before of [] \<Rightarrow> False | w # _ \<Rightarrow> w = ''function'' \<and> isShellName l))"

text \<open>\<open>pre\<close> is the text before the scanned one: \<open>runes[:i]\<close> once the loop is at \<open>i\<close>.\<close>

fun nextFunctionBodyOpenLoop :: "shellQuoteState \<Rightarrow> nat \<Rightarrow> string \<Rightarrow> string \<Rightarrow> nat option" where
  "nextFunctionBodyOpenLoop q k pre [] = None"
| "nextFunctionBodyOpenLoop q k pre (ch # rest) =
     (let (q', lit) = writeLiteral q ch in
      if lit then nextFunctionBodyOpenLoop q' (Suc k) (pre @ [ch]) rest
      else if (ch = CHR ''{'' \<or> ch = CHR ''('') \<and> looksLikeFunctionHeader pre then Some k
      else nextFunctionBodyOpenLoop q' (Suc k) (pre @ [ch]) rest)"

definition nextFunctionBodyOpen :: "string \<Rightarrow> string \<Rightarrow> nat option" where
  "nextFunctionBodyOpen pre s = nextFunctionBodyOpenLoop quote0 0 pre s"

definition findMatchingFunctionBody :: "string \<Rightarrow> nat" where
  "findMatchingFunctionBody s =
     (if startsWith CHR ''('' s then findMatchingParenRunes s else findMatchingBrace s)"

function extractBodiesLoop :: "string \<Rightarrow> string \<Rightarrow> string list" where
  "extractBodiesLoop pre s =
     (if s = [] then []
      else case nextFunctionBodyOpen pre s of
        None \<Rightarrow> []
      | Some k \<Rightarrow>
          (let off = findMatchingFunctionBody (drop k s) in
           if off = 0 then [drop (Suc k) s]
           else take (off - 1) (drop (Suc k) s) #
                extractBodiesLoop (pre @ take (Suc (k + off)) s) (drop (Suc (k + off)) s)))"
  by pat_completeness auto
termination
  by (relation "measure (\<lambda>(pre, s). length s)") auto

declare extractBodiesLoop.simps [simp del]

definition extractFunctionBodyContents :: "string \<Rightarrow> string list" where
  "extractFunctionBodyContents cmdline = extractBodiesLoop [] cmdline"

function stripBodiesLoop :: "string \<Rightarrow> string \<Rightarrow> string" where
  "stripBodiesLoop pre s =
     (if s = [] then []
      else case nextFunctionBodyOpen pre s of
        None \<Rightarrow> s
      | Some k \<Rightarrow>
          (let off = findMatchingFunctionBody (drop k s) in
           take (Suc k) s @
           (if off = 0 then []
            else take 1 (drop (k + off) s) @
                 stripBodiesLoop (pre @ take (Suc (k + off)) s) (drop (Suc (k + off)) s))))"
  by pat_completeness auto
termination
  by (relation "measure (\<lambda>(pre, s). length s)") auto

declare stripBodiesLoop.simps [simp del]

definition stripFunctionBodies :: "string \<Rightarrow> string" where
  "stripFunctionBodies cmdline = stripBodiesLoop [] cmdline"

end
