(* ===== verification/RiskClassify.thy ===== *)
theory RiskClassify
  imports RiskCloud ShellExpand
begin

text \<open>
  The command classifier of \<open>internal/jinn/command_risk.go\<close> and the here-document part of
  \<open>command_risk_parse.go\<close>.  \<open>ClassifyCommand\<close> recurs through nine different callers;
  every function on the way takes the classifier as a parameter (\<open>cc\<close>), and
  \<open>classifyBody\<close> is the body of \<open>ClassifyCommand\<close> over it.  The recursion is tied in
  theory \<open>RiskRecursion\<close>, where the body is shown to call \<open>cc\<close> on shorter strings only.
\<close>

section \<open>Output of the time wrapper\<close>

fun timeTargetsRisk :: "RiskLevel \<times> string \<times> bool \<Rightarrow> string list \<Rightarrow> RiskLevel \<times> string \<times> bool" where
  "timeTargetsRisk acc [] = acc"
| "timeTargetsRisk acc (target # rest) =
     (if isDangerousDevicePath target
      then (RiskDangerous, dash (''time output to device '' @ target) ''can destroy data'', True)
      else timeTargetsRisk (RiskCaution, dash ''time output'' ''writes file'', True) rest)"

lemma wlen_time_payload: "payloadIndex (parseTimeInvocation ts) = Some i \<Longrightarrow> wlen (drop i ts) \<le> wlen ts"
  by (rule wlen_drop)

text \<open>The mutual recursion of \<open>timeOutputRisk\<close> and \<open>classifyTimeInvocation\<close>.\<close>

function (sequential)
  timeOutputRisk :: "string list \<Rightarrow> RiskLevel \<times> string \<times> bool" and
  classifyTimeInvocation :: "string list \<Rightarrow> RiskLevel \<times> string \<times> bool" where
  "timeOutputRisk [] = (RiskSafe, [], False)"
| "timeOutputRisk (tok # rest) =
     (if isEnvAssignment tok then timeOutputRisk rest
      else (let verb = normalizedCommandVerb tok in
        if verb = [] then timeOutputRisk rest
        else if verb = ''time'' then classifyTimeInvocation rest
        else case wrappedCommandPayload verb rest of
          Some payload \<Rightarrow> timeOutputRisk payload
        | None \<Rightarrow> (RiskSafe, [], False)))"
| "classifyTimeInvocation tokens =
     (let invocation = parseTimeInvocation tokens;
          (level, reason, found) = timeTargetsRisk (RiskSafe, [], False) (outputTargets invocation)
      in case payloadIndex invocation of
           None \<Rightarrow> (level, reason, found)
         | Some i \<Rightarrow>
             (let (payloadLevel, payloadReason, payloadFound) = timeOutputRisk (drop i tokens) in
              if payloadLevel > level then (payloadLevel, payloadReason, payloadFound \<or> found)
              else (level, reason, found \<or> payloadFound)))"
  by pat_completeness auto
termination
proof (relation "measures [\<lambda>x. case x of Inl ts \<Rightarrow> wlen ts | Inr ts \<Rightarrow> wlen ts,
                           \<lambda>x. case x of Inl ts \<Rightarrow> length ts | Inr ts \<Rightarrow> length ts,
                           \<lambda>x. case x of Inl _ \<Rightarrow> 0 | Inr _ \<Rightarrow> 1]", goal_cases)
  case (5 tok rest verb payload)
  then have "tok \<noteq> []" using normalizedCommandVerb_nonempty by blast
  then have "wlen rest < wlen (tok # rest)" by (cases rest) (auto simp: wlen_Cons)
  with wlen_wrappedCommandPayload [OF 5(5)] show ?case by simp
next
  case (6 tokens invocation level reason found)
  show ?case by (auto simp: le_less [symmetric] intro: le_neq_implies_less wlen_drop)
qed (auto intro: wlen_tail_less)

section \<open>One segment\<close>

definition dangerousCommandInvocation :: "string \<Rightarrow> string \<Rightarrow> string list \<Rightarrow> string option" where
  "dangerousCommandInvocation seg verb tokens =
     (if isDynamicCommandVerb verb
        then Some (dash ''dynamic command expansion'' ''arbitrary command execution'')
      else if isFilesystemFormatter verb then Some ''formats filesystem''
      else if isShellInterpreter verb
        then Some (dash (verb @ '' shell execution'') ''arbitrary command execution'')
      else if isInlineCodeExecution verb tokens
        then Some (dash (verb @ '' inline code'') ''arbitrary code execution'')
      else case dangerousStdinCodeInvocation seg verb tokens of
        Some reason \<Rightarrow> Some reason
      | None \<Rightarrow> arbitraryCodeInvocation verb tokens)"

definition heuristics :: "classifier \<Rightarrow> (string \<times> (string list \<Rightarrow> verdict option)) list" where
  "heuristics cc =
    [(''rm'', checkRmFlags),
     (''cp'', checkFileCommandDeviceDestination ''cp''),
     (''mv'', checkFileCommandDeviceDestination ''mv''),
     (''chmod'', checkChmodArgs), (''chown'', checkOwnershipDeviceTarget),
     (''curl'', checkCurlOutputTarget), (''wget'', checkWgetOutputTarget),
     (''tar'', checkTarOutputTarget), (''zip'', checkZipOutputTarget),
     (''git'', checkGitDestructiveArgs), (''find'', checkFindDelete cc),
     (''xargs'', checkXargsRm cc), (''rsync'', checkRsyncDelete),
     (''alias'', checkAliasDefinitions cc), (''hash'', checkHashBindings cc),
     (''tee'', checkTeeTargets),
     (''docker'', checkContainerRuntimeDestructiveArgs),
     (''podman'', checkContainerRuntimeDestructiveArgs),
     (''kubectl'', checkKubectlDestructiveArgs), (''helm'', checkHelmDestructiveArgs),
     (''terraform'', checkTerraformDestructiveArgs), (''tofu'', checkTerraformDestructiveArgs),
     (''pulumi'', checkPulumiDestructiveArgs), (''gh'', checkGitHubCLIDestructiveArgs),
     (''brew'', checkPackageManagerDestructiveArgs), (''apt'', checkPackageManagerDestructiveArgs),
     (''apt-get'', checkPackageManagerDestructiveArgs),
     (''dnf'', checkPackageManagerDestructiveArgs), (''yum'', checkPackageManagerDestructiveArgs),
     (''pacman'', checkPackageManagerDestructiveArgs),
     (''npm'', checkPackageManagerDestructiveArgs),
     (''pnpm'', checkPackageManagerDestructiveArgs),
     (''yarn'', checkPackageManagerDestructiveArgs),
     (''bun'', checkPackageManagerDestructiveArgs), (''pip'', checkPackageManagerDestructiveArgs),
     (''pip3'', checkPackageManagerDestructiveArgs), (''gem'', checkPackageManagerDestructiveArgs),
     (''cargo'', checkPackageManagerDestructiveArgs),
     (''composer'', checkPackageManagerDestructiveArgs),
     (''aws'', checkAWSDestructiveArgs), (''az'', checkAzureDestructiveArgs),
     (''gcloud'', checkGcloudDestructiveArgs), (''psql'', checkSQLCommandArgs),
     (''mysql'', checkSQLCommandArgs), (''sqlite3'', checkSQLCommandArgs)]"

definition argHeuristicForVerb :: "classifier \<Rightarrow> string \<Rightarrow> (string list \<Rightarrow> verdict option) option" where
  "argHeuristicForVerb cc verb = map_of (heuristics cc) verb"

definition applyArgHeuristics :: "classifier \<Rightarrow> string \<Rightarrow> string list \<Rightarrow> riskRule \<Rightarrow> verdict" where
  "applyArgHeuristics cc verb tokens base =
     (case applySubcommandRule verb tokens of
        Some (subLevel, subReason) \<Rightarrow>
          (case checkGitForcePush tokens of
             Some (level2, reason2) \<Rightarrow>
               (if level2 > subLevel then (level2, reason2) else (subLevel, subReason))
           | None \<Rightarrow> (subLevel, subReason))
      | None \<Rightarrow>
          (case argHeuristicForVerb cc verb of
             None \<Rightarrow> (Level base, Reason base)
           | Some heuristic \<Rightarrow>
               (case heuristic tokens of
                  Some v \<Rightarrow> v
                | None \<Rightarrow> (Level base, Reason base))))"

definition classifySegment :: "classifier \<Rightarrow> string \<Rightarrow> verdict" where
  "classifySegment cc seg =
     (let tokens = shellFields seg in
      if tokens = [] then (RiskCaution, ''empty segment'')
      else if onlyShellTerminators tokens then (RiskSafe, ''shell terminator'')
      else (let (wrapperLevel, wrapperReason, wrapperWrites) = timeOutputRisk tokens in
      if wrapperLevel = RiskDangerous then (wrapperLevel, wrapperReason)
      else (let (verb, commandTokens) = effectiveCommand tokens in
      if verb = [] then (RiskCaution, dash ''only environment assignments'' ''no command verb'')
      else case dangerousCommandInvocation seg verb commandTokens of
        Some reason \<Rightarrow> (RiskDangerous, reason)
      | None \<Rightarrow>
      (case map_of riskTable verb of
        None \<Rightarrow> (RiskCaution, dash (''unknown command '' @ goQuote verb) ''defaulting to caution'')
      | Some r \<Rightarrow>
      (let (level, reason) = applyArgHeuristics cc verb commandTokens r in
       case dangerousOutputRedirectionTarget seg of
         Some target \<Rightarrow>
           (RiskDangerous, dash (''shell redirection to device '' @ target) ''can destroy data'')
       | None \<Rightarrow>
           (if hasOutputRedirection seg \<and> level < RiskCaution
            then (RiskCaution, dash ''shell output redirection'' ''writes files'')
            else if wrapperWrites \<and> level < RiskCaution then (RiskCaution, wrapperReason)
            else (level, reason)))))))"

section \<open>Segments, expansions and function bodies\<close>

text \<open>\<open>if lvl > maxLevel { maxLevel = lvl }\<close>, over a list of verdicts.\<close>

definition raiseLevel :: "RiskLevel \<Rightarrow> RiskLevel \<Rightarrow> RiskLevel" where
  "raiseLevel maxLevel lvl = (if lvl > maxLevel then lvl else maxLevel)"

definition maxLevelOf :: "RiskLevel \<Rightarrow> verdict list \<Rightarrow> RiskLevel" where
  "maxLevelOf l vs = foldl (\<lambda>m v. raiseLevel m (fst v)) l vs"

definition trimmedSegments :: "string \<Rightarrow> string list" where
  "trimmedSegments cmdline = filter (\<lambda>seg. seg \<noteq> []) (map trimSpace (splitOnOperators cmdline))"

definition classifyShellSegments :: "classifier \<Rightarrow> string \<Rightarrow> RiskLevel \<times> string list" where
  "classifyShellSegments cc cmdline =
     (let vs = map (classifySegment cc) (trimmedSegments cmdline)
      in (maxLevelOf RiskSafe vs, map snd vs))"

definition classifyBodies :: "classifier \<Rightarrow> string \<Rightarrow> string list \<Rightarrow> RiskLevel \<times> string list \<Rightarrow>
    RiskLevel \<times> string list" where
  "classifyBodies cc label bodies acc =
     (let vs = map cc bodies
      in (maxLevelOf (fst acc) vs, snd acc @ map (\<lambda>v. label @ '': '' @ snd v) vs))"

definition classifyCommandExpansion :: "classifier \<Rightarrow> string \<Rightarrow> RiskLevel \<times> string list" where
  "classifyCommandExpansion cc cmdline =
     classifyBodies cc ''process substitution'' (extractProcessSubstitutionContents cmdline)
       (classifyBodies cc ''subshell'' (extractSubshellContents cmdline)
         (classifyShellSegments cc (stripSubshells cmdline)))"

definition classifyOuterShellAfterFunctionStrip :: "classifier \<Rightarrow> string \<Rightarrow> RiskLevel \<times> string list" where
  "classifyOuterShellAfterFunctionStrip cc cmdline0 =
     (let cmdline = trimSpace cmdline0 in
      if cmdline = [] then (RiskSafe, [])
      else if containsCommandExpansion cmdline then classifyCommandExpansion cc cmdline
      else classifyShellSegments cc cmdline)"

definition classifyEmbeddedShellBodies ::
  "classifier \<Rightarrow> string \<Rightarrow> string \<Rightarrow> string list \<Rightarrow> RiskLevel \<times> string list" where
  "classifyEmbeddedShellBodies cc label cmdline bodies =
     classifyBodies cc label bodies
       (classifyOuterShellAfterFunctionStrip cc (stripFunctionBodies cmdline))"

section \<open>Here-documents\<close>

text \<open>The closing quote of a quoted marker: the marker and the text after it.\<close>

definition quotedMarker :: "char \<Rightarrow> string \<Rightarrow> string \<times> string" where
  "quotedMarker quote rest =
     (case indexByte rest quote of
        Some i \<Rightarrow> (take i rest, drop (Suc i) rest)
      | None \<Rightarrow> (trimBoth (quote # rest) [squote, dquote], []))"

definition heredocHeaderParts :: "string \<Rightarrow> string \<times> string" where
  "heredocHeaderParts afterOp =
     (let raw = trimSpace (trimPrefix (trimSpace afterOp) ''-'') in
      case raw of
        [] \<Rightarrow> ([], [])
      | c # rest \<Rightarrow>
          (if c = squote \<or> c = dquote then quotedMarker c rest
           else (let isEnd = (\<lambda>ch. isShellBlank ch \<or> isShellCommandSeparator ch \<or> ch = CHR ''&'')
                 in (takeWhile (\<lambda>ch. \<not> isEnd ch) raw, dropWhile (\<lambda>ch. \<not> isEnd ch) raw))))"

definition isShellHeredocReader :: "string \<Rightarrow> bool" where
  "isShellHeredocReader line =
     (let (verb, commandTokens) = effectiveCommand (shellFields line) in
      if \<not> isShellInterpreter verb then False
      else list_all (\<lambda>tok. \<not> (tok = ''-c'' \<or> tok = ''--command'' \<or> \<not> isFlag tok))
             (drop 1 commandTokens))"

definition isStdinCodeHeredocReader :: "string \<Rightarrow> bool" where
  "isStdinCodeHeredocReader line =
     (let (verb, commandTokens) = effectiveCommand (shellFields line) in
      if \<not> isInlineCodeInterpreter verb then False
      else list_all (\<lambda>tok. tok = ''-'' \<or> isFlag tok) (drop 1 commandTokens))"

text \<open>The accumulated level and explanations that the code updates through pointers.\<close>

type_synonym heredocAcc = "RiskLevel \<times> string list"

definition noteVerdict :: "verdict \<Rightarrow> heredocAcc \<Rightarrow> heredocAcc" where
  "noteVerdict v acc =
     (raiseLevel (fst acc) (fst v),
      if fst v \<ge> RiskDangerous then snd acc @ [snd v] else snd acc)"

definition classifyHeredocShellLine :: "classifier \<Rightarrow> string \<Rightarrow> heredocAcc \<Rightarrow> heredocAcc" where
  "classifyHeredocShellLine cc line0 acc =
     (let line = trimSpace line0 in
      if line = [] then acc else noteVerdict (cc line) acc)"

definition classifyHeredocHeaderLine :: "classifier \<Rightarrow> string \<Rightarrow> heredocAcc \<Rightarrow> heredocAcc" where
  "classifyHeredocHeaderLine cc line0 acc =
     (let line = trimSpace line0 in
      if line = [] then acc
      else if isShellHeredocReader line then acc
      else if isStdinCodeHeredocReader line then
        (raiseLevel (fst acc) RiskDangerous,
         snd acc @ [dash ''heredoc feeds interpreter stdin'' ''arbitrary code execution''])
      else classifyHeredocShellLine cc line acc)"

fun heredocLoop :: "classifier \<Rightarrow> bool \<Rightarrow> string \<Rightarrow> heredocAcc \<Rightarrow> string list \<Rightarrow> heredocAcc" where
  "heredocLoop cc inBody marker acc [] = acc"
| "heredocLoop cc inBody marker acc (line # rest) =
     (let trimmed = trimSpace line in
      if \<not> inBody then
        (case indexStr trimmed ''<<'' of
           None \<Rightarrow> heredocLoop cc inBody marker (classifyHeredocShellLine cc trimmed acc) rest
         | Some idx \<Rightarrow>
             (let (marker', suffix) = heredocHeaderParts (drop (idx + 2) trimmed)
              in heredocLoop cc True marker'
                   (classifyHeredocShellLine cc suffix
                     (classifyHeredocHeaderLine cc (take idx trimmed) acc)) rest))
      else if trimmed = marker then heredocLoop cc False marker acc rest
      else if trimmed = [] then heredocLoop cc inBody marker acc rest
      else heredocLoop cc inBody marker (noteVerdict (cc trimmed) acc) rest)"

definition classifyHeredoc :: "classifier \<Rightarrow> string \<Rightarrow> verdict option" where
  "classifyHeredoc cc cmdline =
     (if \<not> containsStr cmdline ''<<'' then None
      else (let acc = heredocLoop cc False [] (RiskCaution, [''heredoc'']) (splitByte cmdline newline)
            in Some (fst acc, joinStr ''; '' (snd acc))))"

section \<open>The body of the classifier\<close>

definition joinReasons :: "RiskLevel \<times> string list \<Rightarrow> verdict" where
  "joinReasons r = (fst r, joinStr '' | '' (snd r))"

definition classifyBody :: "classifier \<Rightarrow> string \<Rightarrow> verdict" where
  "classifyBody cc cmdline0 =
     (let cmdline = trimSpace cmdline0 in
      if cmdline = [] then (RiskCaution, ''empty command'')
      else case classifyHeredoc cc cmdline of
        Some v \<Rightarrow> v
      | None \<Rightarrow>
      (let cmdline = stripShellComments cmdline in
       if trimSpace cmdline = [] then (RiskCaution, ''empty command'')
       else (let bodies = extractFunctionBodyContents cmdline in
       if bodies \<noteq> [] then joinReasons (classifyEmbeddedShellBodies cc ''function body'' cmdline bodies)
       else if containsCommandExpansion cmdline then joinReasons (classifyCommandExpansion cc cmdline)
       else (let (maxLevel, reasons) = classifyShellSegments cc cmdline in
         if reasons = [] then (RiskCaution, ''empty command'')
         else if length reasons = 1 then (maxLevel, hd reasons)
         else (maxLevel, ''pipeline: '' @ joinStr '' | '' reasons)))))"

end
