(* ===== verification/RiskRecursion.thy ===== *)
theory RiskRecursion
  imports RiskClassify
begin

text \<open>
  The recursion of \<open>ClassifyCommand\<close>.  Two classifiers agree below \<open>n\<close> when they give
  the same verdict on every string shorter than \<open>n\<close>; each function of theory
  \<open>RiskClassify\<close> gives the same result for classifiers that agree below the length of its
  input.  That is the congruence rule with which the recursive definition is accepted, with the
  length of the command line as its measure.
\<close>

definition agreeBelow :: "nat \<Rightarrow> classifier \<Rightarrow> classifier \<Rightarrow> bool" where
  "agreeBelow n f g \<longleftrightarrow> (\<forall>t. length t < n \<longrightarrow> f t = g t)"

named_theorems cc_cong \<open>a function of the classifier parameter respects agreement\<close>

lemma agreeBelowD: "agreeBelow n f g \<Longrightarrow> length t < n \<Longrightarrow> f t = g t"
  by (simp add: agreeBelow_def)

lemma agreeBelow_mono: "agreeBelow n f g \<Longrightarrow> m \<le> n \<Longrightarrow> agreeBelow m f g"
  by (simp add: agreeBelow_def)

section \<open>Extraction shortens\<close>

lemma splitLoop_length:
  "seg \<in> set (splitLoop i prev q spans cur s) \<Longrightarrow> length seg \<le> length cur + length s"
proof (induction "length s" arbitrary: s i prev q spans cur rule: less_induct)
  case less
  show ?case
  proof (cases s)
    case Nil
    with less.prems show ?thesis by (auto split: if_splits)
  next
    case (Cons ch rest)
    have IH: "length seg \<le> length cur + Suc (length rest)"
      if "seg \<in> set (splitLoop j p q' sp c t)" "length t \<le> length rest"
        "c = [] \<or> c = ch # cur" for j p q' sp c t
      using less.hyps [OF _ that(1)] that(2,3) Cons by auto
    have tl: "length (tl rest) \<le> length rest" by simp
    obtain q' lit where w: "writeLiteral q ch = (q', lit)" by fastforce
    obtain inSpan spans' where r: "runeInOutputSpan i spans = (inSpan, spans')" by fastforce
    from less.prems obtain j p sp c t where "seg = rev cur \<or> seg \<in> set (splitLoop j p q' sp c t)"
      "length t \<le> length rest" "c = [] \<or> c = ch # cur"
      unfolding Cons splitLoop.simps w r Let_def prod.case
      by (simp only: set_simps insert_iff split: if_splits) (use tl in blast)+
    then show ?thesis using IH Cons by auto
  qed
qed

lemma splitOnOperators_length:
  "seg \<in> set (splitOnOperators s) \<Longrightarrow> length seg \<le> length s"
  unfolding splitOnOperators_def using splitLoop_length [of seg 0 None quote0 _ "[]" s] by simp

lemma trimmedSegments_length: "seg \<in> set (trimmedSegments s) \<Longrightarrow> length seg \<le> length s"
  unfolding trimmedSegments_def
  by (auto intro: le_trans [OF trimSpace_length] dest: splitOnOperators_length)

lemma stripCommentsLoop_length: "length (stripCommentsLoop q w s) \<le> length s"
proof (induction q w s rule: stripCommentsLoop.induct)
  case (2 q w ch rest)
  obtain q' lit where w: "writeLiteral q ch = (q', lit)" by fastforce
  have "length (dropWhile (\<lambda>c. c \<noteq> newline) rest) \<le> length rest" by (rule length_dropWhile_le)
  with 2(1,2,3) [OF w [symmetric] refl] w show ?case by (auto simp: le_SucI)
qed simp

lemma stripShellComments_length [len_le]: "length (stripShellComments s) \<le> length s"
  by (simp add: stripShellComments_def stripCommentsLoop_length)

lemma extractSubshellLoop_length:
  "body \<in> set (extractSubshellLoop q s) \<Longrightarrow> length body < length s"
proof (induction "length s" arbitrary: s q rule: less_induct)
  case less
  show ?case
  proof (cases s)
    case (Cons ch rest)
    have IH: "length body < Suc (length rest)"
      if "body \<in> set (extractSubshellLoop q' t)" "length t \<le> length rest" for q' t
      using less.hyps [OF _ that(1)] that(2) Cons by simp
    from less.prems Cons show ?thesis
      by (auto simp: Let_def split: prod.splits if_splits option.splits dest: IH)
  qed (use less.prems in simp)
qed

lemma extractSubshellContents_length:
  "body \<in> set (extractSubshellContents s) \<Longrightarrow> length body < length s"
  unfolding extractSubshellContents_def by (rule extractSubshellLoop_length)

lemma stripSubshellsLoop_length: "length (stripSubshellsLoop q s) \<le> length s"
proof (induction "length s" arbitrary: s q rule: less_induct)
  case less
  show ?case
  proof (cases s)
    case (Cons ch rest)
    have IH: "length (stripSubshellsLoop q' t) \<le> length rest"
      if "length t \<le> length rest" for q' t
      using less.hyps [of t q'] that Cons by simp
    have IHd: "length (stripSubshellsLoop q' (drop k rest)) \<le> Suc (length rest)" for q' k
      using IH [of "drop k rest" q'] by simp
    show ?thesis unfolding Cons
      by (auto simp: Let_def IH IHd split: prod.splits if_splits option.splits)
  qed simp
qed

lemma stripSubshells_length [len_le]: "length (stripSubshells s) \<le> length s"
  unfolding stripSubshells_def by (rule stripSubshellsLoop_length)

lemma extractProcessLoop_length:
  "body \<in> set (extractProcessLoop q s) \<Longrightarrow> length body < length s"
proof (induction "length s" arbitrary: s q rule: less_induct)
  case less
  show ?case
  proof (cases s rule: list.exhaust [case_names Nil Cons])
    case (Cons ch rest)
    have IH: "length body < Suc (length rest)"
      if "body \<in> set (extractProcessLoop q' t)" "length t \<le> length rest" for q' t
      using less.hyps [OF _ that(1)] that(2) Cons by simp
    from less.prems Cons show ?thesis
      by (cases rest) (auto simp: Let_def split: prod.splits if_splits dest: IH)
  qed (use less.prems in simp)
qed

lemma extractProcessSubstitutionContents_length:
  "body \<in> set (extractProcessSubstitutionContents s) \<Longrightarrow> length body < length s"
  unfolding extractProcessSubstitutionContents_def by (rule extractProcessLoop_length)

lemma extractBodiesLoop_length:
  "body \<in> set (extractBodiesLoop pre s) \<Longrightarrow> length body < length s"
proof (induction "length s" arbitrary: s pre rule: less_induct)
  case less
  show ?case
  proof (cases "s = []")
    case True
    with less.prems show ?thesis by (simp add: extractBodiesLoop.simps)
  next
    case False
    have IH: "length body < length s"
      if "body \<in> set (extractBodiesLoop p (drop (Suc k) s))" for p k
      using less.hyps [OF _ that] False by simp
    from less.prems False show ?thesis
      by (subst (asm) extractBodiesLoop.simps)
        (auto simp: Let_def min_less_iff_disj split: if_splits option.splits dest: IH)
  qed
qed

lemma extractFunctionBodyContents_length:
  "body \<in> set (extractFunctionBodyContents s) \<Longrightarrow> length body < length s"
  unfolding extractFunctionBodyContents_def by (rule extractBodiesLoop_length)

lemma stripBodiesLoop_length: "length (stripBodiesLoop pre s) \<le> length s"
proof (induction "length s" arbitrary: s pre rule: less_induct)
  case less
  show ?case
  proof (cases "s = []")
    case True
    then show ?thesis by (simp add: stripBodiesLoop.simps)
  next
    case False
    have step: "length (take (Suc k) s @ (if off = 0 then [] else take 1 (drop (k + off) s) @
        stripBodiesLoop p (drop (Suc (k + off)) s))) \<le> length s" for p k off
      using less.hyps [of "drop (Suc (k + off)) s" p] False by (auto simp: min_def)
    show ?thesis
      by (subst stripBodiesLoop.simps) (use step in \<open>simp add: Let_def split: option.split\<close>)
  qed
qed

lemma stripFunctionBodies_length [len_le]: "length (stripFunctionBodies s) \<le> length s"
  unfolding stripFunctionBodies_def by (rule stripBodiesLoop_length)

section \<open>Agreement\<close>

lemma map_agree:
  "agreeBelow n f g \<Longrightarrow> (\<And>t. t \<in> set ts \<Longrightarrow> length t < n) \<Longrightarrow> map f ts = map g ts"
  by (auto dest: agreeBelowD)

lemma classifyFindExecPayload_cong:
  assumes "agreeBelow n f g" and "wlen ts < n"
  shows "classifyFindExecPayload f ts = classifyFindExecPayload g ts"
proof -
  let ?p = "takeWhile (\<lambda>tok. tok \<noteq> '';'' \<and> tok \<noteq> [bslash, CHR '';''] \<and> tok \<noteq> ''+'') ts"
  have "wlen ?p < n" using assms(2) wlen_takeWhile by (rule le_less_trans [rotated])
  then have "f (joinStr '' '' ?p) = g (joinStr '' '' ?p)"
    using assms(1) by (auto simp: wlen_def dest: agreeBelowD)
  then show ?thesis by (simp add: classifyFindExecPayload_def Let_def)
qed

lemma checkFindDelete_cong [cc_cong]:
  "agreeBelow n f g \<Longrightarrow> wlen ts \<le> n \<Longrightarrow> checkFindDelete f ts = checkFindDelete g ts"
proof (induction ts)
  case (Cons tok rest)
  have "wlen rest \<le> n" using Cons.prems(2) wlen_tail [of rest tok] by simp
  with Cons have IH: "checkFindDelete f rest = checkFindDelete g rest" by blast
  have "rest \<noteq> [] \<Longrightarrow> classifyFindExecPayload f rest = classifyFindExecPayload g rest"
    using Cons.prems by (intro classifyFindExecPayload_cong) (auto simp: wlen_Cons)
  with IH show ?case by (auto split: option.splits)
qed simp

lemma xargsPayload_wlen: "wlen (xargsPayload ts) \<le> wlen ts"
proof (induction ts rule: xargsPayload.induct)
  case (2 tok rest)
  have "wlen (drop 1 rest) \<le> wlen (tok # rest)" "wlen rest \<le> wlen (tok # rest)"
    using wlen_drop [of 1 rest] wlen_tail [of rest tok] by simp_all
  with 2 show ?case by (cases "xargsFlagConsumesArg tok") (auto simp del: One_nat_def)
qed simp

lemma checkXargsRm_cong [cc_cong]:
  assumes "agreeBelow n f g" and "wlen ts \<le> n"
  shows "checkXargsRm f ts = checkXargsRm g ts"
proof (cases "drop 1 ts")
  case Nil
  then show ?thesis by (simp add: checkXargsRm_def)
next
  case (Cons t us)
  then obtain v where ts: "ts = v # t # us" by (cases ts) auto
  have "wlen (xargsPayload (t # us)) < n"
    using xargsPayload_wlen [of "t # us"] assms(2) unfolding ts by (simp add: wlen_Cons [of v])
  then have "f (joinStr '' '' (xargsPayload (t # us))) = g (joinStr '' '' (xargsPayload (t # us)))"
    using assms(1) by (auto simp: wlen_def dest: agreeBelowD)
  then show ?thesis by (simp add: checkXargsRm_def ts Let_def del: xargsPayload.simps)
qed

lemma aliasLoop_cong:
  "agreeBelow n f g \<Longrightarrow> wlen ts \<le> n \<Longrightarrow> aliasLoop f acc ts = aliasLoop g acc ts"
proof (induction ts arbitrary: acc)
  case Nil
  then show ?case by (cases acc) simp
next
  case (Cons tok rest)
  have "wlen rest \<le> n" using Cons.prems(2) wlen_tail [of rest tok] by simp
  with Cons have IH: "\<And>acc. aliasLoop f acc rest = aliasLoop g acc rest" by blast
  have v: "f v = g v" if "cutByte tok CHR ''='' = Some (nm, v)" for nm v
  proof -
    have "length v < length tok" using cutByte_Some [OF that] by simp
    also have "length tok \<le> n" using wlen_elem [of tok "tok # rest"] Cons.prems(2) by simp
    finally show ?thesis using Cons.prems(1) by (rule agreeBelowD [rotated])
  qed
  obtain l r where acc: "acc = (l, r)" by fastforce
  show ?case unfolding acc
  proof (cases "cutByte tok CHR ''=''")
    case (Some p)
    then obtain nm v' where "cutByte tok CHR ''='' = Some (nm, v')" by (cases p) auto
    with v [OF this] show "aliasLoop f (l, r) (tok # rest) = aliasLoop g (l, r) (tok # rest)"
      by (simp add: IH)
  qed (simp add: IH)
qed

lemma wlen_drop_le: "wlen ts \<le> n \<Longrightarrow> wlen (drop k ts) \<le> n"
  by (rule le_trans [OF wlen_drop])

lemma checkAliasDefinitions_cong [cc_cong]:
  assumes "agreeBelow n f g" and "wlen ts \<le> n"
  shows "checkAliasDefinitions f ts = checkAliasDefinitions g ts"
  by (simp only: checkAliasDefinitions_def aliasLoop_cong [OF assms(1) wlen_drop_le [OF assms(2)]])

lemma hashLoop_cong: "agreeBelow n f g \<Longrightarrow> wlen ts \<le> n \<Longrightarrow> hashLoop f ts = hashLoop g ts"
proof (induction f ts rule: hashLoop.induct)
  case (2 f tok rest)
  have w: "wlen rest \<le> n" "wlen (drop 2 rest) \<le> n"
    using 2(4) wlen_tail [of rest tok] wlen_drop [of 2 rest] by simp_all
  show ?case
  proof (cases "tok \<noteq> ''-p'' \<or> rest = []")
    case True
    with 2(1) [OF True 2(3) w(1)] show ?thesis by auto
  next
    case False
    then obtain h us where rest: "rest = h # us" by (cases rest) auto
    have "length h \<le> wlen rest" by (rule wlen_elem) (simp add: rest)
    also have "wlen rest < n" using 2(4) False by (auto simp: wlen_Cons [of tok])
    finally have h: "f h = g h" using 2(3) agreeBelowD by blast
    obtain l r where fh: "f h = (l, r)" by fastforce
    have "\<not> l > RiskSafe \<Longrightarrow> hashLoop f (drop 2 rest) = hashLoop g (drop 2 rest)"
      using 2(2) [OF False _ _ _ 2(3) w(2)] fh by (simp add: rest)
    with False h fh show ?thesis by (auto simp: rest split: prod.splits)
  qed
qed simp

lemma checkHashBindings_cong [cc_cong]:
  assumes "agreeBelow n f g" and "wlen ts \<le> n"
  shows "checkHashBindings f ts = checkHashBindings g ts"
  by (simp only: checkHashBindings_def hashLoop_cong [OF assms(1) wlen_drop_le [OF assms(2)]])

lemma heuristics_cong:
  assumes "agreeBelow n f g" and "wlen ts \<le> n"
  shows "(case argHeuristicForVerb f v of None \<Rightarrow> d | Some h \<Rightarrow> (case h ts of Some r \<Rightarrow> r | None \<Rightarrow> d)) =
         (case argHeuristicForVerb g v of None \<Rightarrow> d | Some h \<Rightarrow> (case h ts of Some r \<Rightarrow> r | None \<Rightarrow> d))"
  by (simp add: argHeuristicForVerb_def heuristics_def cc_cong [OF assms])

lemma applyArgHeuristics_cong [cc_cong]:
  assumes "agreeBelow n f g" and "wlen ts \<le> n"
  shows "applyArgHeuristics f v ts b = applyArgHeuristics g v ts b"
  unfolding applyArgHeuristics_def heuristics_cong [OF assms] ..

lemma classifySegment_cong [cc_cong]:
  assumes "agreeBelow n f g" and "length seg \<le> n"
  shows "classifySegment f seg = classifySegment g seg"
proof -
  have "wlen (snd (effectiveCommand (shellFields seg))) \<le> n"
    using assms(2) wlen_effectiveCommand [of "shellFields seg"] wlen_shellFields [of seg] by simp
  then have "applyArgHeuristics f v (snd (effectiveCommand (shellFields seg))) b =
      applyArgHeuristics g v (snd (effectiveCommand (shellFields seg))) b" for v b
    by (rule applyArgHeuristics_cong [OF assms(1)])
  then show ?thesis unfolding classifySegment_def case_prod_beta Let_def by (simp only:)
qed

lemma classifyShellSegments_cong [cc_cong]:
  assumes "agreeBelow n f g" and "length s \<le> n"
  shows "classifyShellSegments f s = classifyShellSegments g s"
proof -
  have "map (classifySegment f) (trimmedSegments s) = map (classifySegment g) (trimmedSegments s)"
    using assms by (auto intro!: classifySegment_cong dest: trimmedSegments_length)
  then show ?thesis unfolding classifyShellSegments_def by (simp only: Let_def)
qed

lemma classifyBodies_cong [cc_cong]:
  assumes "agreeBelow n f g" and "\<And>t. t \<in> set ts \<Longrightarrow> length t < n"
  shows "classifyBodies f label ts acc = classifyBodies g label ts acc"
proof -
  have "map f ts = map g ts" using assms(2) by (rule map_agree [OF assms(1)])
  then show ?thesis by (simp only: classifyBodies_def)
qed

lemma classifyCommandExpansion_cong [cc_cong]:
  assumes "agreeBelow n f g" and "length s \<le> n"
  shows "classifyCommandExpansion f s = classifyCommandExpansion g s"
proof -
  have "classifyShellSegments f (stripSubshells s) = classifyShellSegments g (stripSubshells s)"
    by (rule classifyShellSegments_cong [OF assms(1) le_trans [OF stripSubshells_length assms(2)]])
  moreover have "\<And>t. t \<in> set (extractSubshellContents s) \<Longrightarrow> length t < n"
    using assms(2) by (auto dest: extractSubshellContents_length)
  moreover have "\<And>t. t \<in> set (extractProcessSubstitutionContents s) \<Longrightarrow> length t < n"
    using assms(2) by (auto dest: extractProcessSubstitutionContents_length)
  ultimately show ?thesis
    unfolding classifyCommandExpansion_def by (simp add: classifyBodies_cong [OF assms(1)])
qed

lemma classifyOuterShell_cong [cc_cong]:
  assumes "agreeBelow n f g" and "length s \<le> n"
  shows "classifyOuterShellAfterFunctionStrip f s = classifyOuterShellAfterFunctionStrip g s"
proof -
  have "length (trimSpace s) \<le> n" using assms(2) trimSpace_length [of s] by simp
  then show ?thesis
    unfolding classifyOuterShellAfterFunctionStrip_def
    by (simp add: Let_def classifyCommandExpansion_cong [OF assms(1)] classifyShellSegments_cong [OF assms(1)])
qed

lemma classifyEmbedded_cong [cc_cong]:
  assumes "agreeBelow n f g" and "length s \<le> n"
  shows "classifyEmbeddedShellBodies f l s (extractFunctionBodyContents s) =
         classifyEmbeddedShellBodies g l s (extractFunctionBodyContents s)"
proof -
  have "classifyOuterShellAfterFunctionStrip f (stripFunctionBodies s) =
        classifyOuterShellAfterFunctionStrip g (stripFunctionBodies s)"
    by (rule classifyOuterShell_cong [OF assms(1) le_trans [OF stripFunctionBodies_length assms(2)]])
  moreover have "\<And>t. t \<in> set (extractFunctionBodyContents s) \<Longrightarrow> length t < n"
    using assms(2) by (auto dest: extractFunctionBodyContents_length)
  ultimately show ?thesis
    unfolding classifyEmbeddedShellBodies_def by (simp add: classifyBodies_cong [OF assms(1)])
qed

section \<open>Agreement for here-documents\<close>

lemma heredocHeaderParts_length: "length (snd (heredocHeaderParts s)) \<le> length s"
proof -
  have raw: "length (trimSpace (trimPrefix (trimSpace s) ''-'')) \<le> length s"
    by (meson le_trans trimSpace_length trimPrefix_length)
  show ?thesis
  proof (cases "trimSpace (trimPrefix (trimSpace s) ''-'')")
    case (Cons c rest)
    have "length (snd (quotedMarker c rest)) \<le> length rest"
      by (simp add: quotedMarker_def split: option.splits)
    moreover have "length (dropWhile P (c # rest)) \<le> length (c # rest)" for P
      by (rule length_dropWhile_le)
    ultimately show ?thesis using raw Cons
      by (auto simp: heredocHeaderParts_def Let_def simp del: dropWhile.simps intro: le_trans)
  qed (simp add: heredocHeaderParts_def)
qed

lemma classifyHeredocShellLine_cong [cc_cong]:
  assumes "agreeBelow n f g" and "length s < n"
  shows "classifyHeredocShellLine f s acc = classifyHeredocShellLine g s acc"
proof -
  have "length (trimSpace s) < n" using assms(2) trimSpace_length [of s] by simp
  then show ?thesis
    by (simp add: classifyHeredocShellLine_def Let_def agreeBelowD [OF assms(1)])
qed

lemma classifyHeredocHeaderLine_cong [cc_cong]:
  assumes "agreeBelow n f g" and "length s < n"
  shows "classifyHeredocHeaderLine f s acc = classifyHeredocHeaderLine g s acc"
proof -
  have "length (trimSpace s) < n" using assms(2) trimSpace_length [of s] by simp
  then show ?thesis
    by (simp add: classifyHeredocHeaderLine_def Let_def classifyHeredocShellLine_cong [OF assms(1)])
qed

lemma heredocHeader_cong:
  assumes "agreeBelow n f g" and "length t \<le> n" and "indexStr t ''<<'' = Some i"
  shows "classifyHeredocShellLine f (snd (heredocHeaderParts (drop (i + 2) t)))
           (classifyHeredocHeaderLine f (take i t) acc) =
         classifyHeredocShellLine g (snd (heredocHeaderParts (drop (i + 2) t)))
           (classifyHeredocHeaderLine g (take i t) acc)"
proof -
  have i: "i + 2 \<le> length t" using indexStr_Some [OF assms(3)] by simp
  have "length (snd (heredocHeaderParts (drop (i + 2) t))) < n"
    using heredocHeaderParts_length [of "drop (i + 2) t"] i assms(2) by simp
  moreover have "length (take i t) < n" using i assms(2) by simp
  ultimately show ?thesis
    by (simp only: classifyHeredocShellLine_cong [OF assms(1)] classifyHeredocHeaderLine_cong [OF assms(1)])
qed

lemma heredocLoop_cong:
  assumes "agreeBelow n f g"
  shows "(\<And>l. l \<in> set ls \<Longrightarrow> length l < n) \<Longrightarrow>
    heredocLoop f b m acc ls = heredocLoop g b m acc ls"
proof (induction ls arbitrary: b m acc)
  case (Cons line rest)
  have IH: "\<And>b m acc. heredocLoop f b m acc rest = heredocLoop g b m acc rest"
    using Cons by (meson list.set_intros(2))
  have t: "length (trimSpace line) < n"
    using Cons.prems [of line] trimSpace_length [of line] by simp
  note hd = heredocHeader_cong [OF assms less_imp_le [OF t]]
  have f: "f (trimSpace line) = g (trimSpace line)" by (rule agreeBelowD [OF assms t])
  show ?case
  proof (cases b)
    case True
    then show ?thesis by (simp add: Let_def IH f)
  next
    case False
    show ?thesis
    proof (cases "indexStr (trimSpace line) ''<<''")
      case None
      with False show ?thesis
        by (simp add: Let_def IH classifyHeredocShellLine_cong [OF assms t])
    next
      case (Some i)
      show ?thesis unfolding heredocLoop.simps Let_def
        by (simp only: False Some option.case case_prod_beta not_False_eq_True if_True hd [OF Some] IH)
    qed
  qed
qed simp

lemma splitByte_no_sep_eq: "c \<notin> set s \<Longrightarrow> splitByte s c = [s]"
  by (induction s) auto

text \<open>A command line of one line is its own header line, so nothing is classified again whole.\<close>

lemma classifyHeredoc_cong [cc_cong]:
  assumes agree: "agreeBelow n f g" and len: "length s \<le> n"
  shows "classifyHeredoc f s = classifyHeredoc g s"
proof (cases "containsStr s ''<<''")
  case True
  have "heredocLoop f False [] acc (splitByte s newline) =
        heredocLoop g False [] acc (splitByte s newline)" for acc
  proof (cases "newline \<in> set s")
    case True
    then show ?thesis
      using heredocLoop_cong [OF agree] splitByte_length_less len by (meson less_le_trans)
  next
    case False
    from True obtain i where i: "indexStr (trimSpace s) ''<<'' = Some i"
      using containsStr_trimSpace [of "''<<''" s] by (auto simp: containsStr_def spaceByte_def isASCIISpace_def)
    have "length (trimSpace s) \<le> n" using len trimSpace_length [of s] by simp
    from heredocHeader_cong [OF agree this i] show ?thesis
      by (simp add: splitByte_no_sep_eq [OF False] i case_prod_beta)
  qed
  then show ?thesis by (simp add: classifyHeredoc_def)
qed (simp add: classifyHeredoc_def)

section \<open>The recursive classifier\<close>

lemma classifyBody_cong:
  assumes agree: "agreeBelow (length s) f g"
  shows "classifyBody f s = classifyBody g s"
proof -
  let ?t = "trimSpace s" and ?u = "stripShellComments (trimSpace s)"
  have t: "length ?t \<le> length s" by (rule trimSpace_length)
  then have u: "length ?u \<le> length s" using stripShellComments_length [of ?t] by simp
  show ?thesis
    unfolding classifyBody_def Let_def classifyHeredoc_cong [OF agree t]
      classifyEmbedded_cong [OF agree u] classifyCommandExpansion_cong [OF agree u]
      classifyShellSegments_cong [OF agree u] ..
qed

lemma classifyBody_fundef_cong [fundef_cong]:
  "s = s' \<Longrightarrow> (\<And>t. length t < length s' \<Longrightarrow> f t = g t) \<Longrightarrow> classifyBody f s = classifyBody g s'"
  using classifyBody_cong [of s' f g] by (simp add: agreeBelow_def)

function ClassifyCommand :: "string \<Rightarrow> RiskLevel \<times> string" where
  "ClassifyCommand cmdline = classifyBody ClassifyCommand cmdline"
  by pat_completeness auto
termination
  by (relation "measure length") auto

declare ClassifyCommand.simps [simp del]

abbreviation commandRisk :: "string \<Rightarrow> RiskLevel" where
  "commandRisk cmdline \<equiv> fst (ClassifyCommand cmdline)"

end
