(* ===== verification/RiskSafety.thy ===== *)
theory RiskSafety
  imports RiskRecursion
begin

text \<open>
  What the verdict of \<open>ClassifyCommand\<close> promises: how deep its recursion goes, that a
  verdict dominates every part of the command line, that no heuristic masks a dangerous verb,
  and what a \<open>safe\<close> verdict guarantees.
\<close>

section \<open>Levels of a list of verdicts\<close>

lemma raiseLevel_max: "raiseLevel m l = max m l"
  by (auto simp: raiseLevel_def max_def)

lemma maxLevelOf_Nil [simp]: "maxLevelOf l [] = l"
  by (simp add: maxLevelOf_def)

lemma maxLevelOf_Cons: "maxLevelOf l (v # vs) = maxLevelOf (max l (fst v)) vs"
  by (simp add: maxLevelOf_def raiseLevel_max)

lemma maxLevelOf_le: "maxLevelOf l vs \<le> b \<longleftrightarrow> l \<le> b \<and> (\<forall>v \<in> set vs. fst v \<le> b)"
  by (induction vs arbitrary: l) (auto simp: maxLevelOf_Cons maxLevelOf_Nil)

lemma maxLevelOf_ge: "l \<le> maxLevelOf l vs" "v \<in> set vs \<Longrightarrow> fst v \<le> maxLevelOf l vs"
  using maxLevelOf_le [of l vs "maxLevelOf l vs"] by auto

lemma maxLevelOf_attained: "maxLevelOf l vs = l \<or> (\<exists>v \<in> set vs. fst v = maxLevelOf l vs)"
proof (induction vs arbitrary: l)
  case (Cons v vs)
  from Cons [of "max l (fst v)"] show ?case unfolding maxLevelOf_Cons
    by (metis list.set_intros max_def)
qed simp

lemma maxLevelOf_Safe:
  "maxLevelOf l vs = RiskSafe \<longleftrightarrow> l = RiskSafe \<and> (\<forall>v \<in> set vs. fst v = RiskSafe)"
  using maxLevelOf_le [of l vs RiskSafe] by simp

lemma classifyBodies_Safe:
  "fst (classifyBodies cc label ts acc) = RiskSafe \<longleftrightarrow>
   fst acc = RiskSafe \<and> (\<forall>t \<in> set ts. fst (cc t) = RiskSafe)"
  by (auto simp: classifyBodies_def Let_def maxLevelOf_Safe)

lemma classifyBodies_ge:
  "fst acc \<le> fst (classifyBodies cc label ts acc)"
  "t \<in> set ts \<Longrightarrow> fst (cc t) \<le> fst (classifyBodies cc label ts acc)"
  by (auto simp: classifyBodies_def Let_def intro: maxLevelOf_ge)

lemma classifyShellSegments_Safe:
  "fst (classifyShellSegments cc s) = RiskSafe \<longleftrightarrow>
   (\<forall>seg \<in> set (trimmedSegments s). fst (classifySegment cc seg) = RiskSafe)"
  by (auto simp: classifyShellSegments_def Let_def maxLevelOf_Safe)

lemma classifyShellSegments_ge:
  "seg \<in> set (trimmedSegments s) \<Longrightarrow> fst (classifySegment cc seg) \<le> fst (classifyShellSegments cc s)"
  by (auto simp: classifyShellSegments_def Let_def intro: maxLevelOf_ge)

section \<open>Recursion depth\<close>

text \<open>
  The classifier with its recursion cut at depth \<open>d\<close>, where an arbitrary function answers.
\<close>

fun classifyDepth :: "classifier \<Rightarrow> nat \<Rightarrow> classifier" where
  "classifyDepth bad 0 s = bad s"
| "classifyDepth bad (Suc d) s = classifyBody (classifyDepth bad d) s"

section \<open>Heuristics never weaken a verb to safe\<close>

definition neverSafe :: "(string list \<Rightarrow> verdict option) \<Rightarrow> bool" where
  "neverSafe h \<longleftrightarrow> (\<forall>ts l r. h ts = Some (l, r) \<longrightarrow> l \<noteq> RiskSafe)"

named_theorems never_safe \<open>heuristics that only raise\<close>

lemma neverSafe_rm [never_safe]: "neverSafe checkRmFlags"
  by (auto simp: neverSafe_def checkRmFlags_def)

lemma neverSafe_file [never_safe]: "neverSafe (checkFileCommandDeviceDestination v)"
  by (auto simp: neverSafe_def checkFileCommandDeviceDestination_def Let_def)

lemma neverSafe_chmod [never_safe]: "neverSafe checkChmodArgs"
  by (auto simp: neverSafe_def checkChmodArgs_def Let_def split: if_splits)

lemma neverSafe_chown [never_safe]: "neverSafe checkOwnershipDeviceTarget"
  by (auto simp: neverSafe_def checkOwnershipDeviceTarget_def Let_def)

lemma neverSafe_curl [never_safe]: "neverSafe checkCurlOutputTarget"
  by (auto simp: neverSafe_def checkCurlOutputTarget_def Let_def split: if_splits option.splits)

lemma neverSafe_wget [never_safe]: "neverSafe checkWgetOutputTarget"
  by (auto simp: neverSafe_def checkWgetOutputTarget_def Let_def split: if_splits option.splits)

lemma neverSafe_tar [never_safe]: "neverSafe checkTarOutputTarget"
  by (auto simp: neverSafe_def checkTarOutputTarget_def split: if_splits option.splits)

lemma neverSafe_zip [never_safe]: "neverSafe checkZipOutputTarget"
  by (auto simp: neverSafe_def checkZipOutputTarget_def Let_def)

lemma neverSafe_tee [never_safe]: "neverSafe checkTeeTargets"
  by (auto simp: neverSafe_def checkTeeTargets_def split: option.splits)

lemma neverSafe_rsync [never_safe]: "neverSafe checkRsyncDelete"
  by (auto simp: neverSafe_def checkRsyncDelete_def split: if_splits option.splits)

lemma neverSafe_find [never_safe]: "neverSafe (checkFindDelete cc)"
proof -
  have "checkFindDelete cc ts = Some (l, r) \<Longrightarrow> l \<noteq> RiskSafe" for ts l r
    by (induction ts)
      (auto simp: classifyFindExecPayload_def Let_def split: if_splits option.splits prod.splits)
  then show ?thesis by (auto simp: neverSafe_def)
qed

lemma neverSafe_xargs [never_safe]: "neverSafe (checkXargsRm cc)"
  by (auto simp: neverSafe_def checkXargsRm_def Let_def split: if_splits prod.splits)

lemma neverSafe_alias [never_safe]: "neverSafe (checkAliasDefinitions cc)"
  by (auto simp: neverSafe_def checkAliasDefinitions_def split: if_splits prod.splits)

lemma neverSafe_hash [never_safe]: "neverSafe (checkHashBindings cc)"
proof -
  have "hashLoop cc ts = Some (l, r) \<Longrightarrow> l \<noteq> RiskSafe" for ts l r
    by (induction cc ts rule: hashLoop.induct) (auto split: if_splits prod.splits)
  then show ?thesis by (auto simp: neverSafe_def checkHashBindings_def)
qed

lemma neverSafe_container [never_safe]: "neverSafe checkContainerRuntimeDestructiveArgs"
  by (auto simp: neverSafe_def checkContainerRuntimeDestructiveArgs_def containerRuntimeSubcommandChecks_def
      checkContainerRuntimeSystem_def checkContainerRuntimeVolume_def checkContainerRuntimeContainer_def
      checkContainerRuntimeRemove_def checkContainerRuntimeCompose_def
      split: if_splits option.splits list.splits)

lemma neverSafe_kubectl [never_safe]: "neverSafe checkKubectlDestructiveArgs"
  by (auto simp: neverSafe_def checkKubectlDestructiveArgs_def split: if_splits list.splits)

lemma neverSafe_helm [never_safe]: "neverSafe checkHelmDestructiveArgs"
  by (auto simp: neverSafe_def checkHelmDestructiveArgs_def split: if_splits list.splits)

lemma neverSafe_terraform [never_safe]: "neverSafe checkTerraformDestructiveArgs"
  by (auto simp: neverSafe_def checkTerraformDestructiveArgs_def split: if_splits list.splits)

lemma neverSafe_pulumi [never_safe]: "neverSafe checkPulumiDestructiveArgs"
  by (auto simp: neverSafe_def checkPulumiDestructiveArgs_def split: if_splits list.splits)

lemma neverSafe_gh [never_safe]: "neverSafe checkGitHubCLIDestructiveArgs"
  by (auto simp: neverSafe_def checkGitHubCLIDestructiveArgs_def split: if_splits list.splits)

lemma neverSafe_pkg [never_safe]: "neverSafe checkPackageManagerDestructiveArgs"
  by (auto simp: neverSafe_def checkPackageManagerDestructiveArgs_def checkPacmanDestructiveArgs_def Let_def
      split: if_splits list.splits option.splits)

lemma neverSafe_aws [never_safe]: "neverSafe checkAWSDestructiveArgs"
  by (auto simp: neverSafe_def checkAWSDestructiveArgs_def split: if_splits list.splits)

lemma neverSafe_az [never_safe]: "neverSafe checkAzureDestructiveArgs"
  by (auto simp: neverSafe_def checkAzureDestructiveArgs_def split: option.splits)

lemma neverSafe_gcloud [never_safe]: "neverSafe checkGcloudDestructiveArgs"
  by (auto simp: neverSafe_def checkGcloudDestructiveArgs_def split: option.splits)

lemma neverSafe_sql [never_safe]: "neverSafe checkSQLCommandArgs"
  by (auto simp: neverSafe_def checkSQLCommandArgs_def)

text \<open>Only \<open>git\<close> has a heuristic that answers safe (\<open>git clean\<close> as a dry run).\<close>

lemma heuristics_neverSafe:
  "map_of (heuristics cc) v = Some h \<Longrightarrow> v \<noteq> ''git'' \<Longrightarrow> neverSafe h"
proof -
  have "\<forall>p \<in> set (heuristics cc). fst p \<noteq> ''git'' \<longrightarrow> neverSafe (snd p)"
    by (simp add: heuristics_def never_safe)
  then show "map_of (heuristics cc) v = Some h \<Longrightarrow> v \<noteq> ''git'' \<Longrightarrow> neverSafe h"
    by (fastforce dest: map_of_SomeD)
qed

section \<open>The verb table\<close>

lemma riskTableSafe_level: "map_of riskTableSafe v = Some r \<Longrightarrow> Level r = RiskSafe"
proof -
  have "\<forall>p \<in> set riskTableSafe. Level (snd p) = RiskSafe" by (simp add: riskTableSafe_def)
  then show "map_of riskTableSafe v = Some r \<Longrightarrow> Level r = RiskSafe"
    by (fastforce dest: map_of_SomeD)
qed

lemma riskTableCaution_level: "map_of riskTableCaution v = Some r \<Longrightarrow> Level r = RiskCaution"
proof -
  have "\<forall>p \<in> set riskTableCaution. Level (snd p) = RiskCaution" by (simp add: riskTableCaution_def)
  then show "map_of riskTableCaution v = Some r \<Longrightarrow> Level r = RiskCaution"
    by (fastforce dest: map_of_SomeD)
qed

lemma riskTableDangerous_level: "map_of riskTableDangerous v = Some r \<Longrightarrow> Level r = RiskDangerous"
proof -
  have "\<forall>p \<in> set riskTableDangerous. Level (snd p) = RiskDangerous"
    by (simp add: riskTableDangerous_def)
  then show "map_of riskTableDangerous v = Some r \<Longrightarrow> Level r = RiskDangerous"
    by (fastforce dest: map_of_SomeD)
qed

lemma riskTable_keys_distinct: "distinct (map fst riskTable)"
  by (simp add: riskTable_def riskTableSafe_def riskTableCaution_def riskTableDangerous_def)

text \<open>Keys occur once, so a rule of a section is the rule of the table.\<close>

lemma map_of_section:
  assumes "map_of t v = Some r" and "distinct (map fst t)" and "set sec \<subseteq> set t" and "v \<in> fst ` set sec"
  shows "map_of sec v = Some r"
proof -
  from assms(4) obtain r' where r': "(v, r') \<in> set sec" by auto
  with assms(3) have "(v, r') \<in> set t" by blast
  with assms(2) have "map_of t v = Some r'" by simp
  with assms(1) have "r' = r" by simp
  moreover from assms(4) obtain r'' where r'': "map_of sec v = Some r''"
    by (metis map_of_eq_None_iff not_None_eq)
  moreover from r'' assms(2,3) have "map_of t v = Some r''" by (auto dest: map_of_SomeD)
  ultimately show ?thesis using assms(1) by simp
qed

lemma riskTable_sections:
  "set riskTableSafe \<subseteq> set riskTable" "set riskTableCaution \<subseteq> set riskTable"
  "set riskTableDangerous \<subseteq> set riskTable"
  by (auto simp: riskTable_def)

lemma riskTable_cases:
  assumes "map_of riskTable v = Some r"
  obtains "v \<in> fst ` set riskTableSafe" "Level r = RiskSafe"
    | "v \<in> fst ` set riskTableCaution" "Level r = RiskCaution"
    | "v \<in> fst ` set riskTableDangerous" "Level r = RiskDangerous"
proof -
  from assms have "v \<in> fst ` set riskTableSafe \<or> v \<in> fst ` set riskTableCaution \<or>
      v \<in> fst ` set riskTableDangerous"
    by (force simp: riskTable_def dest: map_of_SomeD)
  then show thesis
    using map_of_section [OF assms riskTable_keys_distinct] riskTable_sections
      riskTableSafe_level riskTableCaution_level riskTableDangerous_level that by metis
qed

lemma riskTable_Safe:
  "map_of riskTable v = Some r \<Longrightarrow> Level r = RiskSafe \<Longrightarrow> v \<in> fst ` set riskTableSafe"
  by (erule riskTable_cases) simp_all

lemma riskTable_Dangerous:
  assumes "v \<in> fst ` set riskTableDangerous"
  obtains r where "map_of riskTable v = Some r" "Level r = RiskDangerous"
proof -
  from assms obtain r where "(v, r) \<in> set riskTableDangerous" by auto
  then have r: "map_of riskTable v = Some r"
    using riskTable_sections(3) riskTable_keys_distinct by (auto intro: map_of_is_SomeI)
  with assms have "Level r = RiskDangerous"
    using map_of_section [OF r riskTable_keys_distinct riskTable_sections(3)] riskTableDangerous_level
    by blast
  with r show thesis by (rule that)
qed

section \<open>One segment\<close>

lemma applyArgHeuristics_Safe:
  assumes "fst (applyArgHeuristics cc v ts b) = RiskSafe"
  shows "v = ''git'' \<or> v = ''go'' \<or> Level b = RiskSafe"
proof (cases "v \<in> {''git'', ''go''}")
  case False
  then have "map_of subcommandRiskRules v = None" by (simp add: subcommandRiskRules_def)
  then have "applySubcommandRule v ts = None" by (simp add: applySubcommandRule_def)
  with assms False show ?thesis
    using heuristics_neverSafe [of cc v]
    by (fastforce simp: applyArgHeuristics_def argHeuristicForVerb_def neverSafe_def
        split: option.splits)
qed auto

lemma heuristics_keys:
  "map fst (heuristics cc) = map fst (heuristics (\<lambda>_. (RiskSafe, [])))"
  by (simp add: heuristics_def)

lemma dangerousVerbs_disjoint:
  "list_all (\<lambda>w. w \<notin> set (map fst subcommandRiskRules) \<and>
      (w = ''rm'' \<or> w \<notin> set (map fst (heuristics (\<lambda>_. (RiskSafe, []))))))
    (map fst riskTableDangerous)"
  by code_simp

lemma dangerousVerb_no_subcommand:
  assumes "v \<in> fst ` set riskTableDangerous"
  shows "applySubcommandRule v ts = None" and "argHeuristicForVerb cc v = None \<or> v = ''rm''"
proof -
  have "v \<notin> fst ` set subcommandRiskRules" and "v = ''rm'' \<or> v \<notin> fst ` set (heuristics cc)"
    using assms dangerousVerbs_disjoint heuristics_keys [of cc]
    by (auto simp: list_all_iff simp flip: set_map)
  then have "map_of subcommandRiskRules v = None" and "v = ''rm'' \<or> map_of (heuristics cc) v = None"
    by (auto simp: map_of_eq_None_iff)
  then show "applySubcommandRule v ts = None" and "argHeuristicForVerb cc v = None \<or> v = ''rm''"
    by (auto simp: applySubcommandRule_def argHeuristicForVerb_def)
qed

lemma checkRmFlags_level: "checkRmFlags ts = Some (l, r) \<Longrightarrow> l = RiskDangerous"
  by (auto simp: checkRmFlags_def split: if_splits)

lemma applyArgHeuristics_Dangerous:
  assumes "v \<in> fst ` set riskTableDangerous" and "Level b = RiskDangerous"
  shows "fst (applyArgHeuristics cc v ts b) = RiskDangerous"
proof -
  have "argHeuristicForVerb cc ''rm'' = Some checkRmFlags"
    by (simp add: argHeuristicForVerb_def heuristics_def)
  then have "argHeuristicForVerb cc v = None \<or> argHeuristicForVerb cc v = Some checkRmFlags"
    using dangerousVerb_no_subcommand(2) [OF assms(1), of cc] by auto
  then show ?thesis
    using dangerousVerb_no_subcommand(1) [OF assms(1), of ts] assms(2)
    by (auto simp: applyArgHeuristics_def split: option.splits dest: checkRmFlags_level)
qed

section \<open>Properties of one segment\<close>

text \<open>What a segment has been found to be when its verdict is safe.\<close>

definition benignSegment :: "string \<Rightarrow> bool" where
  "benignSegment seg \<longleftrightarrow>
     (let tokens = shellFields seg; (verb, args) = effectiveCommand tokens in
      tokens \<noteq> [] \<and>
      (onlyShellTerminators tokens \<or>
       ((verb \<in> fst ` set riskTableSafe \<or> verb = ''git'' \<or> verb = ''go'') \<and>
        \<not> isDynamicCommandVerb verb \<and> \<not> isShellInterpreter verb \<and>
        \<not> isInlineCodeExecution verb args \<and>
        \<not> hasOutputRedirection seg \<and> dangerousOutputRedirectionTarget seg = None \<and>
        fst (timeOutputRisk tokens) \<noteq> RiskDangerous \<and> \<not> snd (snd (timeOutputRisk tokens)))))"

lemma classifySegment_unfold:
  "classifySegment cc seg =
     (let tokens = shellFields seg; wr = timeOutputRisk tokens;
          verb = fst (effectiveCommand tokens); args = snd (effectiveCommand tokens) in
      if tokens = [] then (RiskCaution, ''empty segment'')
      else if onlyShellTerminators tokens then (RiskSafe, ''shell terminator'')
      else if fst wr = RiskDangerous then (RiskDangerous, fst (snd wr))
      else if verb = [] then (RiskCaution, dash ''only environment assignments'' ''no command verb'')
      else case dangerousCommandInvocation seg verb args of
        Some reason \<Rightarrow> (RiskDangerous, reason)
      | None \<Rightarrow>
      (case map_of riskTable verb of
        None \<Rightarrow> (RiskCaution, dash (''unknown command '' @ goQuote verb) ''defaulting to caution'')
      | Some r \<Rightarrow>
      (let a = applyArgHeuristics cc verb args r in
       case dangerousOutputRedirectionTarget seg of
         Some target \<Rightarrow>
           (RiskDangerous, dash (''shell redirection to device '' @ target) ''can destroy data'')
       | None \<Rightarrow>
           (if hasOutputRedirection seg \<and> fst a < RiskCaution
            then (RiskCaution, dash ''shell output redirection'' ''writes files'')
            else if snd (snd wr) \<and> fst a < RiskCaution then (RiskCaution, fst (snd wr))
            else a))))"
  by (auto simp: classifySegment_def Let_def split: option.split prod.split)

lemma dangerousCommandInvocation_None:
  "dangerousCommandInvocation seg v ts = None \<Longrightarrow>
   \<not> isDynamicCommandVerb v \<and> \<not> isShellInterpreter v \<and> \<not> isInlineCodeExecution v ts"
  by (auto simp: dangerousCommandInvocation_def split: if_splits)

lemma classifySegment_Safe:
  assumes "fst (classifySegment cc seg) = RiskSafe"
  shows "benignSegment seg"
proof -
  let ?ts = "shellFields seg"
  let ?v = "fst (effectiveCommand ?ts)" and ?as = "snd (effectiveCommand ?ts)"
  have ne: "?ts \<noteq> []" using assms by (auto simp: classifySegment_unfold)
  show ?thesis
  proof (cases "onlyShellTerminators ?ts")
    case True
    with ne show ?thesis by (simp add: benignSegment_def case_prod_beta Let_def)
  next
    case False
    from assms ne False have d: "dangerousCommandInvocation seg ?v ?as = None"
      and w: "fst (timeOutputRisk ?ts) \<noteq> RiskDangerous"
      by (auto simp: classifySegment_unfold Let_def split: if_splits option.splits)
    with assms ne False obtain r where r: "map_of riskTable ?v = Some r"
      by (auto simp: classifySegment_unfold Let_def split: if_splits option.splits)
    with assms ne False d w have "fst (applyArgHeuristics cc ?v ?as r) = RiskSafe"
      "dangerousOutputRedirectionTarget seg = None" "\<not> hasOutputRedirection seg"
      "\<not> snd (snd (timeOutputRisk ?ts))"
      by (auto simp: classifySegment_unfold Let_def split: if_splits option.splits)
    with applyArgHeuristics_Safe riskTable_Safe [OF r] dangerousCommandInvocation_None [OF d] ne w
    show ?thesis by (auto simp: benignSegment_def case_prod_beta Let_def)
  qed
qed

lemma classifySegment_Dangerous_verb:
  assumes "effectiveCommand (shellFields seg) = (verb, args)"
    and "verb \<in> fst ` set riskTableDangerous" and "\<not> onlyShellTerminators (shellFields seg)"
  shows "fst (classifySegment cc seg) = RiskDangerous"
proof -
  have "[] \<notin> fst ` set riskTableDangerous" by (simp add: riskTableDangerous_def)
  with assms(2) have "verb \<noteq> []" by metis
  with assms(1) have "shellFields seg \<noteq> []" by auto
  obtain r where "map_of riskTable verb = Some r" "Level r = RiskDangerous"
    using riskTable_Dangerous [OF assms(2)] .
  with \<open>verb \<noteq> []\<close> \<open>shellFields seg \<noteq> []\<close> show ?thesis
    using assms applyArgHeuristics_Dangerous [OF assms(2)]
    by (auto simp: classifySegment_unfold Let_def split: option.splits)
qed

section \<open>Unfolding a command line\<close>

text \<open>The text the parts of a command line are read from: trimmed, without comments.\<close>

definition commandText :: "string \<Rightarrow> string" where
  "commandText s = stripShellComments (trimSpace s)"

definition hasHeredoc :: "string \<Rightarrow> bool" where
  "hasHeredoc s = containsStr s ''<<''"

text \<open>The outer shell text, with function bodies and expansions taken out, and the nested bodies.\<close>

definition outerText :: "string \<Rightarrow> string" where
  "outerText u =
     (if extractFunctionBodyContents u \<noteq> []
      then (let w = trimSpace (stripFunctionBodies u) in
            if containsCommandExpansion w then stripSubshells w else w)
      else if containsCommandExpansion u then stripSubshells u else u)"

definition nestedBodies :: "string \<Rightarrow> string list" where
  "nestedBodies u =
     (if extractFunctionBodyContents u \<noteq> []
      then extractFunctionBodyContents u @
           (let w = trimSpace (stripFunctionBodies u) in
            extractSubshellContents w @ extractProcessSubstitutionContents w)
      else extractSubshellContents u @ extractProcessSubstitutionContents u)"

lemma trimmedSegments_Nil [simp]: "trimmedSegments [] = []"
  by (simp add: trimmedSegments_def splitOnOperators_def)

lemma no_expansion:
  "\<not> containsCommandExpansion s \<Longrightarrow> extractSubshellContents s = [] \<and> extractProcessSubstitutionContents s = []"
  by (simp add: containsCommandExpansion_def containsProcessSubstitution_def)

lemma extractSubshellContents_Nil [simp]: "extractSubshellContents [] = []"
  by (simp add: extractSubshellContents_def)

lemma extractProcess_Nil [simp]: "extractProcessSubstitutionContents [] = []"
  by (simp add: extractProcessSubstitutionContents_def)

lemma hasHeredoc_trimSpace: "containsStr (trimSpace s) ''<<'' \<longleftrightarrow> hasHeredoc s"
  unfolding hasHeredoc_def
  by (rule containsStr_trimSpace) (simp_all add: spaceByte_def isASCIISpace_def)

lemma expansion_Safe:
  "fst (classifyCommandExpansion cc s) = RiskSafe \<longleftrightarrow>
   (\<forall>seg \<in> set (trimmedSegments (stripSubshells s)). fst (classifySegment cc seg) = RiskSafe) \<and>
   (\<forall>b \<in> set (extractSubshellContents s @ extractProcessSubstitutionContents s). fst (cc b) = RiskSafe)"
  by (auto simp: classifyCommandExpansion_def classifyBodies_Safe classifyShellSegments_Safe)

text \<open>Here-documents only raise the level they start from.\<close>

lemma noteVerdict_ge: "fst acc \<le> fst (noteVerdict v acc)" "fst v \<le> fst (noteVerdict v acc)"
  by (simp_all add: noteVerdict_def raiseLevel_max)

lemma shellLine_ge: "fst acc \<le> fst (classifyHeredocShellLine cc l acc)"
  by (simp add: classifyHeredocShellLine_def Let_def noteVerdict_ge)

lemma headerLine_ge: "fst acc \<le> fst (classifyHeredocHeaderLine cc l acc)"
  by (simp add: classifyHeredocHeaderLine_def Let_def raiseLevel_max shellLine_ge)

lemma heredocLoop_ge: "fst acc \<le> fst (heredocLoop cc b m acc ls)"
proof (induction ls arbitrary: b m acc)
  case (Cons line rest)
  have header: "fst acc \<le> fst (classifyHeredocShellLine cc l (classifyHeredocHeaderLine cc l' acc))" for l l'
    using headerLine_ge shellLine_ge by (rule order_trans)
  have IH: "fst acc \<le> fst a \<Longrightarrow> fst acc \<le> fst (heredocLoop cc b m a rest)" for b m a
    by (rule order_trans [OF _ Cons.IH])
  show ?case unfolding heredocLoop.simps Let_def
    by (auto intro!: IH header shellLine_ge noteVerdict_ge simp del: split_paired_All
        split: option.split prod.split)
qed simp

lemma classifyHeredoc_Some:
  assumes "hasHeredoc s"
  obtains v where "classifyHeredoc cc (trimSpace s) = Some v" "fst v \<noteq> RiskSafe"
proof -
  have "RiskCaution \<le> fst (heredocLoop cc False [] (RiskCaution, [''heredoc'']) (splitByte (trimSpace s) newline))"
    using heredocLoop_ge [of "(RiskCaution, [''heredoc''])"] by simp
  with assms that show thesis
    by (simp add: classifyHeredoc_def hasHeredoc_trimSpace Let_def)
qed

lemma classifyHeredoc_None: "\<not> hasHeredoc s \<Longrightarrow> classifyHeredoc cc (trimSpace s) = None"
  by (simp add: classifyHeredoc_def hasHeredoc_trimSpace)

text \<open>
  The verdict of a command line without here-document: the level of its outer segments and
  its nested bodies.
\<close>

definition partsLevel :: "string \<Rightarrow> RiskLevel" where
  "partsLevel u =
     max (fst (classifyShellSegments ClassifyCommand (outerText u)))
         (maxLevelOf RiskSafe (map ClassifyCommand (nestedBodies u)))"

lemma maxLevelOf_append: "maxLevelOf l (vs @ ws) = maxLevelOf (maxLevelOf l vs) ws"
  by (simp add: maxLevelOf_def)

lemma maxLevelOf_max: "maxLevelOf l vs = max l (maxLevelOf RiskSafe vs)"
proof (induction vs arbitrary: l)
  case Nil
  then show ?case by (simp add: max_absorb1)
next
  case (Cons v vs)
  have "maxLevelOf l (v # vs) = max (max l (fst v)) (maxLevelOf RiskSafe vs)"
    unfolding maxLevelOf_Cons by (rule Cons)
  also have "\<dots> = max l (maxLevelOf (fst v) vs)" using Cons [of "fst v"] by (simp add: max.assoc)
  also have "maxLevelOf (fst v) vs = maxLevelOf RiskSafe (v # vs)"
    by (simp add: maxLevelOf_Cons max_absorb2)
  finally show ?case .
qed

lemma maxLevelOf_map_append:
  "maxLevelOf RiskSafe (map cc (xs @ ys)) = max (maxLevelOf RiskSafe (map cc xs)) (maxLevelOf RiskSafe (map cc ys))"
  by (metis map_append maxLevelOf_append maxLevelOf_max)

lemma classifyBodies_level:
  "fst (classifyBodies cc label ts acc) = max (fst acc) (maxLevelOf RiskSafe (map cc ts))"
  by (simp add: classifyBodies_def Let_def maxLevelOf_max [of "fst acc"])

lemma expansion_level:
  "fst (classifyCommandExpansion cc s) =
   max (fst (classifyShellSegments cc (stripSubshells s)))
       (maxLevelOf RiskSafe (map cc (extractSubshellContents s @ extractProcessSubstitutionContents s)))"
  unfolding classifyCommandExpansion_def classifyBodies_level maxLevelOf_map_append
  by (rule max.assoc)

lemma noExpansion_level:
  assumes "\<not> containsCommandExpansion s"
  shows "maxLevelOf RiskSafe (map cc (extractSubshellContents s @ extractProcessSubstitutionContents s)) = RiskSafe"
  using no_expansion [OF assms] by simp

lemma outerShell_level:
  "fst (classifyOuterShellAfterFunctionStrip cc s) =
   (let w = trimSpace s in
    max (fst (classifyShellSegments cc (if containsCommandExpansion w then stripSubshells w else w)))
        (maxLevelOf RiskSafe (map cc (extractSubshellContents w @ extractProcessSubstitutionContents w))))"
proof (cases "trimSpace s = []")
  case True
  then show ?thesis
    by (simp add: classifyOuterShellAfterFunctionStrip_def classifyShellSegments_def Let_def
        stripSubshells_def)
next
  case False
  then show ?thesis
    by (simp add: classifyOuterShellAfterFunctionStrip_def Let_def expansion_level noExpansion_level
        max_absorb1 del: map_append)
qed

lemma commandRisk_parts:
  assumes "\<not> hasHeredoc s" and "trimSpace s \<noteq> []" and "trimSpace (commandText s) \<noteq> []"
  shows "commandRisk s = partsLevel (commandText s) \<or>
    (nestedBodies (commandText s) = [] \<and> trimmedSegments (outerText (commandText s)) = [] \<and>
     commandRisk s = RiskCaution)"
proof -
  let ?u = "commandText s"
  have cc: "ClassifyCommand s =
      (if extractFunctionBodyContents ?u \<noteq> []
       then joinReasons (classifyEmbeddedShellBodies ClassifyCommand ''function body'' ?u (extractFunctionBodyContents ?u))
       else if containsCommandExpansion ?u then joinReasons (classifyCommandExpansion ClassifyCommand ?u)
       else (let (maxLevel, reasons) = classifyShellSegments ClassifyCommand ?u in
         if reasons = [] then (RiskCaution, ''empty command'')
         else if length reasons = 1 then (maxLevel, hd reasons)
         else (maxLevel, ''pipeline: '' @ joinStr '' | '' reasons)))"
    using assms classifyHeredoc_None [OF assms(1)]
    by (simp add: ClassifyCommand.simps [of s] classifyBody_def Let_def commandText_def)
  consider (bodies) "extractFunctionBodyContents ?u \<noteq> []"
    | (exp) "extractFunctionBodyContents ?u = []" "containsCommandExpansion ?u"
    | (plain) "extractFunctionBodyContents ?u = []" "\<not> containsCommandExpansion ?u" by blast
  then show ?thesis
  proof cases
    case bodies
    then have "commandRisk s = partsLevel ?u"
      by (simp add: cc joinReasons_def classifyEmbeddedShellBodies_def classifyBodies_level partsLevel_def
          outerText_def nestedBodies_def outerShell_level Let_def maxLevelOf_map_append del: map_append)
        (simp add: max.assoc max.commute max.left_commute)
    then show ?thesis ..
  next
    case exp
    then have "commandRisk s = partsLevel ?u"
      by (simp add: cc joinReasons_def expansion_level partsLevel_def outerText_def nestedBodies_def
          del: map_append)
    then show ?thesis ..
  next
    case plain
    then have parts: "outerText ?u = ?u" "nestedBodies ?u = []"
      by (simp_all add: outerText_def nestedBodies_def no_expansion)
    show ?thesis
    proof (cases "trimmedSegments ?u = []")
      case True
      with plain parts show ?thesis by (simp add: cc classifyShellSegments_def)
    next
      case False
      with plain have "commandRisk s = fst (classifyShellSegments ClassifyCommand ?u)"
        by (simp add: cc classifyShellSegments_def Let_def)
      with parts show ?thesis by (simp add: partsLevel_def max_absorb1)
    qed
  qed
qed

end
