(* ===== verification/RiskProperties.thy ===== *)
theory RiskProperties
  imports RiskSafety
begin

text \<open>
  The properties of the command classifier, over the lemmas of \<open>RiskSafety\<close>, each with a
  witness at a concrete command line.
\<close>

section \<open>Recursion depth\<close>

text \<open>C26: The recursion of ClassifyCommand through substitutions, function bodies, here-documents,
  find, xargs, alias and hash is never deeper than the length of the command line plus one: cut
  at that depth, with an arbitrary function below it, the classifier gives the same verdict.\<close>

theorem classify_depth_bound:
  assumes "length s < d"
  shows "classifyDepth bad d s = ClassifyCommand s"
  using assms
proof (induction d arbitrary: s)
  case (Suc d)
  have "classifyBody (classifyDepth bad d) s = classifyBody ClassifyCommand s"
    by (rule classifyBody_cong) (use Suc in \<open>simp add: agreeBelow_def\<close>)
  then show ?case by (simp add: ClassifyCommand.simps [of s])
qed simp

theorem classify_depth_bound_witness:
  "classifyDepth (\<lambda>_. (RiskSafe, [])) 13 ''echo $(rm x)'' = ClassifyCommand ''echo $(rm x)''"
  using classify_depth_bound [of "''echo $(rm x)''" 13 "\<lambda>_. (RiskSafe, [])"] by simp

section \<open>A safe verdict\<close>

text \<open>The command lines a command line consists of: itself and what its parts nest.\<close>

inductive partOf :: "string \<Rightarrow> string \<Rightarrow> bool" where
  self: "partOf s s"
| nested: "partOf u s \<Longrightarrow> body \<in> set (nestedBodies (commandText u)) \<Longrightarrow> partOf body s"

inductive_cases partOfE: "partOf u s"

lemma blank_text: "trimSpace s = [] \<Longrightarrow> commandText s = []"
  by (simp add: commandText_def stripShellComments_def)

lemma commandRisk_blank:
  "\<not> hasHeredoc s \<Longrightarrow> trimSpace (commandText s) = [] \<Longrightarrow> commandRisk s = RiskCaution"
  using classifyHeredoc_None [of s ClassifyCommand]
  by (cases "trimSpace s = []") (simp_all add: ClassifyCommand.simps [of s] classifyBody_def Let_def commandText_def)

lemma commandRisk_heredoc: "hasHeredoc s \<Longrightarrow> commandRisk s \<noteq> RiskSafe"
proof -
  assume h: "hasHeredoc s"
  then have "trimSpace s \<noteq> []"
    using hasHeredoc_trimSpace [of s] by (auto simp: containsStr_def)
  moreover obtain v where "classifyHeredoc ClassifyCommand (trimSpace s) = Some v" "fst v \<noteq> RiskSafe"
    using classifyHeredoc_Some [OF h] .
  ultimately show ?thesis by (simp add: ClassifyCommand.simps [of s] classifyBody_def Let_def)
qed

lemma commandRisk_Safe:
  assumes "commandRisk s = RiskSafe"
  shows "\<not> hasHeredoc s" "partsLevel (commandText s) = RiskSafe"
proof -
  show h: "\<not> hasHeredoc s" using assms commandRisk_heredoc by blast
  have "trimSpace (commandText s) \<noteq> []" using commandRisk_blank [OF h] assms by auto
  then show "partsLevel (commandText s) = RiskSafe"
    using commandRisk_parts [OF h] assms blank_text by fastforce
qed

lemma partsLevel_ge:
  "seg \<in> set (trimmedSegments (outerText u)) \<Longrightarrow> fst (classifySegment ClassifyCommand seg) \<le> partsLevel u"
  "body \<in> set (nestedBodies u) \<Longrightarrow> commandRisk body \<le> partsLevel u"
  using classifyShellSegments_ge maxLevelOf_ge(2)
  by (auto simp: partsLevel_def le_max_iff_disj)

lemma partOf_Safe: "partOf u s \<Longrightarrow> commandRisk s = RiskSafe \<Longrightarrow> commandRisk u = RiskSafe"
proof (induction rule: partOf.induct)
  case (nested u s body)
  then have "partsLevel (commandText u) = RiskSafe" by (intro commandRisk_Safe) simp
  with partsLevel_ge(2) [OF nested.hyps(2)] show ?case by simp
qed

text \<open>C2: A safe verdict is justified all the way down: no command line nested in a safe one, at any
  depth, has a here-document, and each segment of each of them is a shell terminator or runs an
  effective verb that is in the safe section of the table or is git or go, is neither dynamic nor
  a shell, gets no inline code, and redirects no output.\<close>

theorem safe_command_benign:
  assumes "commandRisk s = RiskSafe" and "partOf u s"
    and "seg \<in> set (trimmedSegments (outerText (commandText u)))"
  shows "\<not> hasHeredoc u \<and> benignSegment seg"
proof -
  from assms(1,2) have u: "commandRisk u = RiskSafe" by (rule partOf_Safe [rotated])
  have "fst (classifySegment ClassifyCommand seg) = RiskSafe"
    using partsLevel_ge(1) [OF assms(3)] commandRisk_Safe(2) [OF u] by simp
  with commandRisk_Safe(1) [OF u] classifySegment_Safe show ?thesis by blast
qed

lemma eval_safe_pipeline: "commandRisk ''ls -la | grep $(pwd)'' = RiskSafe" by code_simp

lemma eval_nested_pwd: "''pwd'' \<in> set (nestedBodies (commandText ''ls -la | grep $(pwd)''))" by code_simp

lemma eval_pwd_segments: "''pwd'' \<in> set (trimmedSegments (outerText (commandText ''pwd'')))" by code_simp

theorem safe_command_benign_witness:
  "commandRisk ''ls -la | grep $(pwd)'' = RiskSafe \<and> partOf ''pwd'' ''ls -la | grep $(pwd)'' \<and>
   benignSegment ''pwd''"
proof -
  have p: "partOf ''pwd'' ''ls -la | grep $(pwd)''"
    by (rule partOf.nested [OF partOf.self eval_nested_pwd])
  show ?thesis using eval_safe_pipeline p safe_command_benign [OF eval_safe_pipeline p eval_pwd_segments]
    by blast
qed

section \<open>The verdict dominates the parts\<close>

text \<open>No part of a command line is riskier than the whole: every segment of the outer text and
  every nested body (substitution, process substitution, function body) is at most as risky, so
  a risky command cannot hide behind safe neighbours in a pipeline.\<close>

theorem parts_dominated:
  assumes "\<not> hasHeredoc s" and "trimSpace (commandText s) \<noteq> []"
  shows "(\<forall>seg \<in> set (trimmedSegments (outerText (commandText s))).
            fst (classifySegment ClassifyCommand seg) \<le> commandRisk s) \<and>
         (\<forall>body \<in> set (nestedBodies (commandText s)). commandRisk body \<le> commandRisk s)"
proof -
  have "trimSpace s \<noteq> []" using assms(2) blank_text by auto
  from commandRisk_parts [OF assms(1) this assms(2)] show ?thesis
    using partsLevel_ge by auto
qed

theorem parts_dominated_witness:
  "commandRisk ''rm x'' \<le> commandRisk ''echo a; echo $(rm x)''"
proof -
  have "\<not> hasHeredoc ''echo a; echo $(rm x)''" "trimSpace (commandText ''echo a; echo $(rm x)'') \<noteq> []"
    by code_simp+
  moreover have "''rm x'' \<in> set (nestedBodies (commandText ''echo a; echo $(rm x)''))" by code_simp
  ultimately show ?thesis using parts_dominated by blast
qed



text \<open>A command line with a here-document is never classified safe.\<close>

theorem heredoc_never_safe:
  assumes "hasHeredoc s"
  shows "RiskCaution \<le> commandRisk s"
  using commandRisk_heredoc [OF assms] by simp

theorem heredoc_never_safe_witness:
  "RiskCaution \<le> commandRisk (''cat <<E'' @ [newline] @ ''a'' @ [newline] @ ''E'')"
  by (rule heredoc_never_safe) code_simp

text \<open>An unknown verb is never safe, and a verb computed by an expansion is dangerous: a segment
  whose effective verb is not in the table gets at least caution, one whose verb contains a
  dollar sign is dangerous.\<close>

theorem unknown_verb_caution:
  assumes "\<not> onlyShellTerminators (shellFields seg)"
    and "fst (effectiveCommand (shellFields seg)) \<notin> fst ` set riskTable"
  shows "RiskCaution \<le> fst (classifySegment cc seg) \<and>
    (isDynamicCommandVerb (fst (effectiveCommand (shellFields seg))) \<longrightarrow>
     fst (classifySegment cc seg) = RiskDangerous)"
proof -
  have "map_of riskTable (fst (effectiveCommand (shellFields seg))) = None"
    using assms(2) by (simp add: map_of_eq_None_iff)
  moreover have "isDynamicCommandVerb v \<Longrightarrow> v \<noteq> []" for v
    by (auto simp: isDynamicCommandVerb_def containsStr_def)
  ultimately show ?thesis using assms(1)
    by (auto simp: classifySegment_unfold Let_def dangerousCommandInvocation_def onlyShellTerminators_def
        split: option.splits if_splits)
qed

theorem unknown_verb_caution_witness:
  "fst (classifySegment ClassifyCommand ''$CMD x'') = RiskDangerous"
  using unknown_verb_caution [of "''$CMD x''" ClassifyCommand] by code_simp

section \<open>Wrappers\<close>

lemma direct_wrapper_facts:
  "\<forall>w \<in> directShellWrappers. normalizedCommandVerb w = w \<and> \<not> isEnvAssignment w \<and> \<not> isCasePatternToken w \<and> w \<noteq> []"
  by code_simp



section \<open>Where the classifier falls short of its intent\<close>

text \<open>The package-manager and SQL heuristics look at the first token as written, not at the
  normalised verb: for a command given by an absolute path they never fire.\<close>

theorem absolute_path_escapes_heuristics:
  assumes "hasPrefix tok ''/''"
  shows "checkPackageManagerDestructiveArgs (tok # args) = None \<and> checkSQLCommandArgs (tok # args) = None"
proof -
  from assms obtain t where "tok = CHR ''/'' # t" by (auto simp: hasPrefix_iff)
  then show ?thesis
    by (simp add: checkPackageManagerDestructiveArgs_def checkSQLCommandArgs_def)
qed

theorem absolute_path_escapes_heuristics_witness:
  "checkPackageManagerDestructiveArgs [''/usr/bin/npm'', ''uninstall'', ''x''] = None \<and>
   checkPackageManagerDestructiveArgs [''npm'', ''uninstall'', ''x''] \<noteq> None"
  using absolute_path_escapes_heuristics [of "''/usr/bin/npm''" "[''uninstall'', ''x'']"]
  by (simp add: hasPrefix_def checkPackageManagerDestructiveArgs_def isPackageRemovalSubcommand_def
      languagePackageGlobalFlagConsumesArg_def Let_def)

text \<open>A write to a block device is dangerous in the spaced forms the token check knows, but only
  caution for the appending redirection without a blank and for the clobbering and the combined
  redirection, whose operator the splitter cuts in two.\<close>

theorem device_redirection_gaps:
  "commandRisk ''echo x > /dev/sda'' = RiskDangerous \<and>
   commandRisk ''echo x >/dev/sda'' = RiskDangerous \<and>
   commandRisk ''echo x >> /dev/sda'' = RiskDangerous \<and>
   commandRisk ''echo x >>/dev/sda'' = RiskCaution \<and>
   commandRisk ''echo x >| /dev/sda'' = RiskCaution \<and>
   commandRisk ''echo x &> /dev/sda'' = RiskCaution"
  by (intro conjI; code_simp)

end
