(* ===== verification/ExitCodes.thy ===== *)
theory ExitCodes
  imports ShellWrap ShellExpand
begin

text \<open>
  \<open>exitcode.go\<close>: how the exit code of a shell command is reported, the recovery hints, and
  the command identity the lookup uses.
\<close>

section \<open>Data\<close>

datatype Classification =
  ClassSuccess | ClassExpectedNonzero | ClassError | ClassTimeout | ClassSignal

fun Classification_string :: "Classification \<Rightarrow> string" where
  "Classification_string ClassSuccess = ''success''"
| "Classification_string ClassExpectedNonzero = ''expected_nonzero''"
| "Classification_string ClassError = ''error''"
| "Classification_string ClassTimeout = ''timeout''"
| "Classification_string ClassSignal = ''signal''"

record exitEntry =
  exClass :: Classification
  exReason :: string
  exHint :: string

definition exit_entry :: "Classification \<Rightarrow> string \<Rightarrow> exitEntry" where
  "exit_entry c r = \<lparr>exClass = c, exReason = r, exHint = []\<rparr>"

definition exitTable :: "(string \<times> (int \<times> exitEntry) list) list" where
  "exitTable =
    [(''grep'', [(1, exit_entry ClassExpectedNonzero
        ''no matches found (grep exits 1 when the pattern does not match)'')]),
     (''rg'', [(1, exit_entry ClassExpectedNonzero
        ''no matches found (rg exits 1 when the pattern does not match)'')]),
     (''ag'', [(1, exit_entry ClassExpectedNonzero
        ''no matches found (ag exits 1 when the pattern does not match)'')]),
     (''diff'', [(1, exit_entry ClassExpectedNonzero
        ''files differ (diff exits 1 when inputs are not identical)'')]),
     (''cmp'', [(1, exit_entry ClassExpectedNonzero
        ''files differ (cmp exits 1 when inputs are not identical)'')]),
     (''test'', [(1, exit_entry ClassExpectedNonzero
        ''condition is false (test/[ exits 1 for a false expression)'')]),
     (''['', [(1, exit_entry ClassExpectedNonzero
        ''condition is false ([ exits 1 for a false expression)'')]),
     (''curl'', [(22, exit_entry ClassExpectedNonzero
        ''HTTP error response (curl exits 22 for 4xx/5xx status codes)'')]),
     (''ssh'', [(255, exit_entry ClassError
        ''SSH connection or protocol error (exit 255 indicates a connection-level failure)'')]),
     (''timeout'', [(124, exit_entry ClassTimeout
        ''command exceeded time limit (timeout exits 124 when the child is killed)'')])]"

definition stderrHints :: "(string \<times> string) list" where
  "stderrHints =
    [(''go: no go.mod file'', ''run: go mod init <module-path>''),
     (''command not found'', ''install the missing command or check PATH''),
     (''permission denied'', ''check file permissions or run with appropriate access''),
     (''No such file or directory'', ''verify the file path exists''),
     (''EADDRINUSE'', ''port is in use -- kill the process or choose a different port''),
     (''EACCES'', ''check file permissions or run with appropriate access''),
     (''npm ERR! peer dep'', ''run: npm install --legacy-peer-deps''),
     (''Cannot find module'', ''run: npm install (or bun install)''),
     (''ModuleNotFoundError'', ''run: pip install <missing-module>''),
     (''cargo: command not found'', ''install Rust via rustup''),
     (''go: module'', ''run: go mod tidy''),
     (''connection refused'', ''target service is not running or wrong port''),
     (''certificate'', ''check TLS certificates or use --insecure for testing''),
     (''out of memory'', ''increase available memory or reduce workload''),
     (''disk full'', ''free disk space''),
     (''too many open files'', ''increase ulimit: ulimit -n 4096''),
     (''killed'', ''process was killed (OOM or signal) -- check system resources'')]"

section \<open>Operations\<close>

definition matchStderrHint :: "string \<Rightarrow> string" where
  "matchStderrHint stderr =
     (let lower = toLower stderr in
      case find (\<lambda>(pattern, _). containsStr lower (toLower pattern)) stderrHints of
        Some (_, h) \<Rightarrow> h | None \<Rightarrow> [])"

definition classifyExitCode :: "string \<Rightarrow> int \<Rightarrow> Classification \<times> string" where
  "classifyExitCode argv0 exitCode =
     (if exitCode = 0 then (ClassSuccess, ''command completed successfully'')
      else if exitCode < 0 \<or> 128 < exitCode then (ClassSignal, ''process was terminated by a signal'')
      else if exitCode = 124 then (ClassTimeout, ''command exceeded time limit'')
      else (let base = toLower (pathBase argv0) in
        case map_of exitTable base of
          Some codes \<Rightarrow>
            (case map_of codes exitCode of
               Some entry \<Rightarrow> (exClass entry, exReason entry)
             | None \<Rightarrow> (ClassError, ''command exited with non-zero status''))
        | None \<Rightarrow> (ClassError, ''command exited with non-zero status'')))"

definition extractArgv0 :: "string \<Rightarrow> string" where
  "extractArgv0 cmd =
     (let segments = splitOnOperators cmd in
      if length segments \<noteq> 1 \<or> containsCommandExpansion cmd \<or> containsProcessSubstitution cmd then []
      else fst (effectiveCommand (shellFields (hd segments))))"

section \<open>Lemmas\<close>

text \<open>The exit codes that are signals of a command's own, by the command.\<close>

definition expectedCode :: "string \<Rightarrow> int \<Rightarrow> bool" where
  "expectedCode base code \<longleftrightarrow>
     (base \<in> {''grep'', ''rg'', ''ag'', ''diff'', ''cmp'', ''test'', ''[''} \<and> code = 1) \<or>
     (base = ''curl'' \<and> code = 22)"

end
