(* ===== verification/GoValues.thy ===== *)
theory GoValues
  imports GoStrings Complex_Main
begin

text \<open>
  The dynamic values the tools exchange: what \<open>encoding/json\<close> decodes into an \<open>any\<close>,
  tool arguments as association lists, the argument readers of \<open>engine.go\<close>, and the
  error type of \<open>errors.go\<close>.
\<close>

section \<open>Numbers\<close>

text \<open>
  A \<open>float64\<close> is one of the finite binary fractions, an infinity or not a number; the two
  zeros, which no comparison tells apart, are one value.
\<close>

datatype float64 = Finite rat | PosInf | NegInf | NaN

text \<open>
  \<open>float64(v)\<close> of an integer: exact up to 53 bits, rounded to the nearest, ties to the even
  neighbour, beyond that.
\<close>

fun bitLength :: "nat \<Rightarrow> nat" where
  "bitLength n = (if n = 0 then 0 else Suc (bitLength (n div 2)))"

declare bitLength.simps [simp del]

definition roundToFloat :: "nat \<Rightarrow> nat" where
  "roundToFloat n =
     (if n \<le> 2 ^ 53 then n
      else let e = bitLength n - 53; q = n div 2 ^ e; r = n mod 2 ^ e; half = 2 ^ (e - 1) in
        (if r < half \<or> (r = half \<and> even q) then q else q + 1) * 2 ^ e)"

definition float64OfInt :: "int \<Rightarrow> float64" where
  "float64OfInt i =
     Finite (if i < 0 then - of_nat (roundToFloat (nat (- i))) else of_nat (roundToFloat (nat i)))"

text \<open>Comparison of two numbers; every comparison with NaN but \<open>!=\<close> is false.\<close>

fun floatLess :: "float64 \<Rightarrow> float64 \<Rightarrow> bool" where
  "floatLess NaN _ = False"
| "floatLess _ NaN = False"
| "floatLess (Finite a) (Finite b) = (a < b)"
| "floatLess NegInf b = (b \<noteq> NegInf)"
| "floatLess PosInf _ = False"
| "floatLess (Finite _) b = (b = PosInf)"

definition floatEq :: "float64 \<Rightarrow> float64 \<Rightarrow> bool" where
  "floatEq a b = (a \<noteq> NaN \<and> a = b)"

definition floatLessEq :: "float64 \<Rightarrow> float64 \<Rightarrow> bool" where
  "floatLessEq a b = (floatLess a b \<or> floatEq a b)"

section \<open>Dynamic values and arguments\<close>

datatype jsonValue =
    JNull
  | JBool bool
  | JInt int
  | JFloat float64
  | JString string
  | JArray "jsonValue list"
  | JObject "(string \<times> jsonValue) list"

type_synonym toolArgs = "(string \<times> jsonValue) list"

text \<open>
  \<open>s, _ := args[key].(string)\<close> and its kin: the zero value when the key is absent or has
  another type.
\<close>

definition strArg :: "toolArgs \<Rightarrow> string \<Rightarrow> string" where
  "strArg args key = (case map_of args key of Some (JString s) \<Rightarrow> s | _ \<Rightarrow> [])"

definition boolArg :: "toolArgs \<Rightarrow> string \<Rightarrow> bool" where
  "boolArg args key = (case map_of args key of Some (JBool b) \<Rightarrow> b | _ \<Rightarrow> False)"

text \<open>\<open>int(f)\<close> of a float: truncation; outside the range of int64 the minimum, as on amd64.\<close>

definition intOfFloat :: "float64 \<Rightarrow> int" where
  "intOfFloat f =
     (case f of
        Finite q \<Rightarrow> (let i = (if q < 0 then - \<lfloor>- q\<rfloor> else \<lfloor>q\<rfloor>) in
          if - (2 ^ 63) \<le> i \<and> i < 2 ^ 63 then i else - (2 ^ 63))
      | _ \<Rightarrow> - (2 ^ 63))"

text \<open>The result of an operation on int64: the exact integer wrapped to 64 bits.\<close>

definition wrap64 :: "int \<Rightarrow> int" where
  "wrap64 i = (i + 2 ^ 63) mod 2 ^ 64 - 2 ^ 63"

definition intArg :: "toolArgs \<Rightarrow> string \<Rightarrow> int \<Rightarrow> int" where
  "intArg args key d =
     (case map_of args key of
        Some (JFloat f) \<Rightarrow> (if floatLess (Finite 0) f then intOfFloat f else d)
      | Some (JInt i) \<Rightarrow> (if 0 < i then i else d)
      | _ \<Rightarrow> d)"

text \<open>Assignment to a map entry.\<close>

definition setArg :: "string \<Rightarrow> jsonValue \<Rightarrow> toolArgs \<Rightarrow> toolArgs" where
  "setArg key v args = (key, v) # filter (\<lambda>(k, _). k \<noteq> key) args"

section \<open>Errors\<close>

record goError =
  Err :: string
  Suggestion :: string
  Code :: string

definition ErrWithSuggestion :: "string \<Rightarrow> string \<Rightarrow> string \<Rightarrow> goError" where
  "ErrWithSuggestion e s c = \<lparr>Err = e, Suggestion = s, Code = c\<rparr>"

text \<open>An error without suggestion and code; what \<open>ErrorDetails\<close> reports of it is empty.\<close>

definition plainError :: "string \<Rightarrow> goError" where
  "plainError e = \<lparr>Err = e, Suggestion = [], Code = []\<rparr>"

section \<open>Lemmas\<close>

lemma map_of_filter_other: "k \<noteq> key \<Longrightarrow> map_of (filter (\<lambda>(k', _). k' \<noteq> key) args) k = map_of args k"
  by (induction args) auto

lemma map_of_setArg: "map_of (setArg key v args) = (map_of args)(key \<mapsto> v)"
  by (rule ext) (simp add: setArg_def map_of_filter_other)

lemma strArg_setArg [simp]:
  "strArg (setArg key (JString s) args) key = s"
  "k \<noteq> key \<Longrightarrow> strArg (setArg key v args) k = strArg args k"
  by (simp_all add: strArg_def map_of_setArg)

lemma boolArg_setArg [simp]:
  "boolArg (setArg key (JBool b) args) key = b"
  "k \<noteq> key \<Longrightarrow> boolArg (setArg key v args) k = boolArg args k"
  by (simp_all add: boolArg_def map_of_setArg)

lemma intArg_setArg [simp]: "k \<noteq> key \<Longrightarrow> intArg (setArg key v args) k d = intArg args k d"
  by (simp add: intArg_def map_of_setArg)

lemma floatLess_irrefl [simp]: "\<not> floatLess a a"
  by (cases a) auto

lemma float_trichotomy:
  "a \<noteq> NaN \<Longrightarrow> b \<noteq> NaN \<Longrightarrow> floatLess a b \<or> floatEq a b \<or> floatLess b a"
  by (cases a; cases b) (auto simp: floatEq_def)

lemma floatLess_asym: "floatLess a b \<Longrightarrow> \<not> floatLess b a"
  by (cases a; cases b) auto

end
