(* ===== verification/ShellTool.thy ===== *)
theory ShellTool
  imports RiskRecursion ExitCodes GoValues
begin

text \<open>
  The shell policy (\<open>shell_mode.go\<close>) and the run_shell tool (\<open>runShell\<close> in
  \<open>tool_shell.go\<close>): the gates a command passes before it is executed and the report on its
  outcome.  The execution itself (\<open>executeShellCommand\<close>: processes, pipes, timers) is the
  parameter \<open>exec\<close>, a function of the command, the timeout and the world that returns what
  the command did and the world after it.
\<close>

section \<open>Shell modes\<close>

type_synonym ShellMode = string

definition ShellModeDisabled :: ShellMode where "ShellModeDisabled = ''disabled''"
definition ShellModeSandboxed :: ShellMode where "ShellModeSandboxed = ''sandboxed''"
definition ShellModeUnsafe :: ShellMode where "ShellModeUnsafe = ''unsafe''"

definition ParseShellMode :: "string \<Rightarrow> goError + ShellMode" where
  "ParseShellMode value =
     (if value \<in> {ShellModeDisabled, ShellModeSandboxed, ShellModeUnsafe} then Inr value
      else Inl (plainError (''invalid shell mode '' @ goQuote value @ '': use disabled, sandboxed, or unsafe'')))"

text \<open>
  The binary that confines the shell: \<open>goos\<close> is \<open>runtime.GOOS\<close> and \<open>regular\<close> tells
  whether a path is a regular file.
\<close>

definition validateShellMode :: "string \<Rightarrow> (string \<Rightarrow> bool) \<Rightarrow> ShellMode \<Rightarrow> goError + string" where
  "validateShellMode goos regular mode0 =
     (let mode = (if mode0 = [] then ShellModeDisabled else mode0) in
      if mode = ShellModeDisabled \<or> mode = ShellModeUnsafe then Inr []
      else if mode = ShellModeSandboxed then
        (if goos = ''darwin'' then
           (let path = ''/usr/bin/sandbox-exec'' in
            if \<not> regular path
            then Inl (plainError (''sandboxed shell unavailable: '' @ path @ '' is not installed''))
            else Inr path)
         else if goos = ''linux'' then
           (case find regular [''/usr/bin/bwrap'', ''/bin/bwrap''] of
              Some path \<Rightarrow> Inr path
            | None \<Rightarrow> Inl (plainError ''sandboxed shell unavailable: bwrap is not installed in a system path''))
         else Inl (plainError (''sandboxed shell is unsupported on '' @ goos)))
      else Inl (plainError (''invalid shell mode '' @ goQuote mode)))"

text \<open>
  The launch-time search path: the absolute entries of PATH that are directories, cleaned and
  without duplicates; \<open>isDir\<close> is the file system's answer.
\<close>

fun sanitizeEntries :: "(string \<Rightarrow> bool) \<Rightarrow> string list \<Rightarrow> string list \<Rightarrow> string list" where
  "sanitizeEntries isDir paths [] = paths"
| "sanitizeEntries isDir paths (entry # es) =
     (if entry = [] \<or> \<not> hasPrefix entry ''/'' then sanitizeEntries isDir paths es
      else (let clean = pathClean entry in
        if clean \<in> set paths then sanitizeEntries isDir paths es
        else if \<not> isDir clean then sanitizeEntries isDir paths es
        else sanitizeEntries isDir (paths @ [clean]) es))"

definition sanitizeExecutablePath :: "(string \<Rightarrow> bool) \<Rightarrow> string \<Rightarrow> string list" where
  "sanitizeExecutablePath isDir raw =
     (if raw = [] then [] else sanitizeEntries isDir [] (splitByte raw CHR '':''))"

section \<open>The run_shell tool\<close>

record shellExecution =
  content :: string
  exitCode :: int
  canceled :: bool
  resourceLimited :: bool
  stdout :: string
  stderr :: string
  durationMs :: int

type_synonym 'w executor = "string \<Rightarrow> int \<Rightarrow> 'w \<Rightarrow> shellExecution \<times> 'w"
type_synonym shellResult = "string \<times> toolArgs \<times> goError option"

definition shellReport ::
    "ShellMode \<Rightarrow> string \<Rightarrow> RiskLevel \<Rightarrow> int \<Rightarrow> shellExecution \<Rightarrow> shellResult" where
  "shellReport mode cmd risk timeout res =
     (let (class, reason) = classifyExitCode (extractArgv0 cmd) (exitCode res);
          meta = [(''risk'', JString (RiskLevel_String risk)),
                  (''classification'', JString (Classification_string class)),
                  (''stdout'', JString (stdout res)), (''stderr'', JString (stderr res)),
                  (''exit_code'', JInt (exitCode res)), (''timeout_ms'', JInt (wrap64 (timeout * 1000))),
                  (''duration_ms'', JInt (durationMs res)), (''shell_mode'', JString mode)] @
                 (if mode = ShellModeUnsafe then [(''shell_security'', JString ''unconfined'')] else [])
      in if resourceLimited res
         then ([], setArg ''classification'' (JString ''resource_limit'') meta,
               Some (ErrWithSuggestion ''shell output exceeded 16 MiB capture limit''
                 ''reduce command output or redirect it to a bounded workspace file'' ''resource_limit''))
         else if canceled res
         then ([], meta, Some (ErrWithSuggestion ''run_shell canceled''
                 ''retry the command if cancellation was unintended'' ''canceled''))
         else (let output = ''[exit: '' @ intToString (exitCode res) @ '']'' @ [newline] @ content res;
                   result = output @ [newline] @ ''[classification: '' @
                     dash (Classification_string class) reason @ '']'';
                   h = matchStderrHint (stderr res)
               in (if h \<noteq> [] then result @ [newline] @ ''[hint: '' @ h @ '']'' else result, meta, None)))"

definition runShell ::
    "'w executor \<Rightarrow> ShellMode \<Rightarrow> toolArgs \<Rightarrow> 'w \<Rightarrow> shellResult \<times> 'w" where
  "runShell exec mode args w =
     (if mode = ShellModeDisabled
      then (([], [], Some (ErrWithSuggestion ''run_shell is disabled''
              ''restart jinn with --shell-mode=sandboxed, or explicitly choose --shell-mode=unsafe''
              ''command_blocked'')), w)
      else let cmd = strArg args ''command'' in
        if trimSpace cmd = []
        then (([], [], Some (ErrWithSuggestion ''command is required''
                ''provide a non-empty shell command'' ''invalid_args'')), w)
        else (let (riskLevel, riskReason) = ClassifyCommand cmd in
          if boolArg args ''dry_run''
          then ((''[dry-run] would execute: '' @ cmd,
                 [(''risk'', JString (RiskLevel_String riskLevel)),
                  (''classification'', JString (Classification_string ClassSuccess)),
                  (''timeout_ms'', JInt (wrap64 (intArg args ''timeout'' 30 * 1000))),
                  (''duration_ms'', JInt 0), (''exit_code'', JInt 0)], None), w)
          else if riskLevel = RiskDangerous \<and> \<not> boolArg args ''force''
          then (([], [(''risk'', JString (RiskLevel_String riskLevel))],
                 Some (ErrWithSuggestion
                   (''blocked by risk classifier: '' @ dash (RiskLevel_String riskLevel) riskReason)
                   ''pass force:true in args to override, or use a less-destructive command''
                   ''command_blocked'')), w)
          else (let timeout = intArg args ''timeout'' 30;
                    timeout = (if timeout > 300 then 300 else timeout);
                    (res, w') = exec cmd timeout w
                in (shellReport mode cmd riskLevel timeout res, w'))))"

section \<open>Lemmas\<close>

text \<open>The command a request gets executed, when it gets past the gates.\<close>

definition admittedCommand :: "ShellMode \<Rightarrow> toolArgs \<Rightarrow> string option" where
  "admittedCommand mode args =
     (let cmd = strArg args ''command'' in
      if mode = ShellModeDisabled \<or> trimSpace cmd = [] \<or> boolArg args ''dry_run'' \<or>
         (commandRisk cmd = RiskDangerous \<and> \<not> boolArg args ''force'')
      then None else Some cmd)"

lemma runShell_blocked:
  "admittedCommand mode args = None \<Longrightarrow> runShell exec mode args w = runShell exec' mode args w"
  "admittedCommand mode args = None \<Longrightarrow> snd (runShell exec mode args w) = w"
  by (auto simp: admittedCommand_def runShell_def Let_def case_prod_beta split: if_splits)

lemma runShell_admitted:
  assumes "admittedCommand mode args = Some cmd"
  shows "runShell exec mode args w =
    (let timeout = min 300 (intArg args ''timeout'' 30); (res, w') = exec cmd timeout w in
     (shellReport mode cmd (commandRisk cmd) timeout res, w'))"
  using assms
  by (auto simp: admittedCommand_def runShell_def Let_def case_prod_beta min_def split: if_splits)

lemma admittedCommand_Some:
  "admittedCommand mode args = Some cmd \<Longrightarrow>
   cmd = strArg args ''command'' \<and> mode \<noteq> ShellModeDisabled \<and>
   (commandRisk cmd = RiskDangerous \<longrightarrow> boolArg args ''force'')"
  by (auto simp: admittedCommand_def Let_def split: if_splits)

lemma runShell_exec_cong:
  assumes "\<And>cmd t w. admittedCommand mode args = Some cmd \<Longrightarrow> exec cmd t w = exec' cmd t w"
  shows "runShell exec mode args w = runShell exec' mode args w"
proof (cases "admittedCommand mode args")
  case None
  then show ?thesis by (rule runShell_blocked(1))
next
  case (Some cmd)
  then show ?thesis using assms by (simp add: runShell_admitted Let_def)
qed

lemma pathClean_rooted: "hasPrefix e ''/'' \<Longrightarrow> hasPrefix (pathClean e) ''/''"
  by (auto simp: pathClean_def Let_def hasPrefix_def)

lemma sanitizeEntries_step:
  "sanitizeEntries isDir paths (e # es) =
   sanitizeEntries isDir
     (if hasPrefix e ''/'' \<and> pathClean e \<notin> set paths \<and> isDir (pathClean e)
      then paths @ [pathClean e] else paths) es"
  by (cases e) (simp_all add: Let_def hasPrefix_def)

lemma sanitizeEntries_inv:
  assumes "distinct paths" and "\<forall>p \<in> set paths. isDir p \<and> hasPrefix p ''/''"
  shows "distinct (sanitizeEntries isDir paths es) \<and>
    (\<forall>p \<in> set (sanitizeEntries isDir paths es). isDir p \<and> hasPrefix p ''/'')"
  using assms
proof (induction es arbitrary: paths)
  case (Cons e es)
  show ?case unfolding sanitizeEntries_step
    by (rule Cons.IH) (use Cons.prems pathClean_rooted in auto)
qed simp

end
