(* ===== verification/PlanTypes.thy ===== *)
theory PlanTypes
  imports ShellTool
begin

text \<open>
  \<open>plan_types.go\<close>: the graph a run_plan call executes and the record of a run, with the JSON
  text \<open>encoding/json\<close> gives a run, by which the engine measures its transcript.

  A Go slice is an option: \<open>None\<close> is the nil slice, which JSON writes as \<open>null\<close>.
\<close>

section \<open>Limits\<close>

definition DefaultMaxDepth :: int where "DefaultMaxDepth = 8"
definition maxPlanNodes :: nat where "maxPlanNodes = 64"
definition maxPlanCommands :: nat where "maxPlanCommands = 16"
definition maxPlanEdges :: nat where "maxPlanEdges = 32"
definition maxPlanDepth :: int where "maxPlanDepth = 32"
definition maxPlanOperations :: nat where "maxPlanOperations = 256"
definition maxPlanTranscript :: int where "maxPlanTranscript = 200 * 2 ^ 10"
definition PlanTranscriptMaxBytes :: int where "PlanTranscriptMaxBytes = 200 * 1024"

lemmas planLimits = DefaultMaxDepth_def maxPlanNodes_def maxPlanCommands_def maxPlanEdges_def
  maxPlanDepth_def maxPlanOperations_def maxPlanTranscript_def PlanTranscriptMaxBytes_def

section \<open>Plans\<close>

record Condition =
  Kind :: string
  Op :: string
  Value :: jsonValue
  Path :: string
  Extract :: string
  Regex :: string
  Stream :: string
  Negate :: bool

record PlanOp =
  Shell :: string
  Tool :: string
  Args :: toolArgs

record PlanEdge =
  When :: Condition
  To :: string

record PlanNode =
  ID :: string
  Commands :: "PlanOp list"
  Parallel :: bool
  Mutates :: bool
  NodeForce :: bool
  Edges :: "PlanEdge list"

record PlanTree =
  Root :: string
  Nodes :: "PlanNode list"
  Cwd :: string
  MaxDepth :: int
  PlanForce :: bool

definition HighConfidenceKinds :: "string set" where
  "HighConfidenceKinds = {''exitCode'', ''fileExists'', ''jsonPath'', ''numeric'', ''always''}"

section \<open>Runs\<close>

datatype StopReason =
  StopLeaf | StopNoEdgeMatch | StopMaxDepth | StopMutationBlocked | StopAborted | StopError | StopResourceLimit

fun StopReason_string :: "StopReason \<Rightarrow> string" where
  "StopReason_string StopLeaf = ''leaf''"
| "StopReason_string StopNoEdgeMatch = ''no_edge_match''"
| "StopReason_string StopMaxDepth = ''max_depth''"
| "StopReason_string StopMutationBlocked = ''mutation_blocked''"
| "StopReason_string StopAborted = ''aborted''"
| "StopReason_string StopError = ''error''"
| "StopReason_string StopResourceLimit = ''resource_limit''"

record PlanOpResult =
  OK :: bool
  Result :: string
  Stdout :: string
  Stderr :: string
  Error :: string
  OpClass :: string
  OpRisk :: string
  OpExitCode :: int

definition emptyOpResult :: PlanOpResult where
  "emptyOpResult = \<lparr>OK = False, Result = [], Stdout = [], Stderr = [], Error = [],
     OpClass = [], OpRisk = [], OpExitCode = 0\<rparr>"

type_synonym 'a slice = "'a list option"

definition elems :: "'a slice \<Rightarrow> 'a list" where
  "elems s = (case s of None \<Rightarrow> [] | Some xs \<Rightarrow> xs)"

definition appendSlice :: "'a slice \<Rightarrow> 'a \<Rightarrow> 'a slice" where
  "appendSlice s x = Some (elems s @ [x])"

record PlanNodeResult =
  NodeID :: string
  Depth :: int
  Ops :: "PlanOpResult slice"

record PlanRunResult =
  Transcript :: "PlanNodeResult slice"
  PathTaken :: "string slice"
  DepthReached :: int
  StoppedReason :: StopReason
  EdgesEvaluated :: nat
  EdgesMatched :: nat
  executedNodes :: nat
  executedOperations :: nat

section \<open>JSON text\<close>

text \<open>
  Strings as \<open>json.Marshal\<close> writes them: quote, backslash and control characters escaped,
  and, for HTML, the angle brackets and the ampersand, and U+2028 and U+2029.
\<close>

definition jsonHex :: "char \<Rightarrow> string" where
  "jsonHex c = [bslash] @ ''u00'' @ [hexDigit (of_char c div 16), hexDigit (of_char c mod 16)]"

definition jsonByte :: "char \<Rightarrow> string" where
  "jsonByte c =
     (if c = dquote \<or> c = bslash then [bslash, c]
      else if c = CHR 0x08 then [bslash, CHR ''b''] else if c = CHR 0x0C then [bslash, CHR ''f'']
      else if c = newline then [bslash, CHR ''n''] else if c = creturn then [bslash, CHR ''r'']
      else if c = tab then [bslash, CHR ''t'']
      else if (of_char c :: nat) < 32 \<or> c = CHR ''<'' \<or> c = CHR ''>'' \<or> c = CHR ''&'' then jsonHex c
      else [c])"

fun jsonBytes :: "string \<Rightarrow> string" where
  "jsonBytes [] = []"
| "jsonBytes (a # s) =
     (if a = CHR 0xE2 \<and> take 2 s = [CHR 0x80, CHR 0xA8]
      then [bslash] @ ''u2028'' @ jsonBytes (drop 2 s)
      else if a = CHR 0xE2 \<and> take 2 s = [CHR 0x80, CHR 0xA9]
      then [bslash] @ ''u2029'' @ jsonBytes (drop 2 s)
      else jsonByte a @ jsonBytes s)"

definition encodeString :: "string \<Rightarrow> string" where
  "encodeString s = [dquote] @ jsonBytes s @ [dquote]"

definition encodeSlice :: "('a \<Rightarrow> string) \<Rightarrow> 'a slice \<Rightarrow> string" where
  "encodeSlice enc s =
     (case s of None \<Rightarrow> ''null'' | Some xs \<Rightarrow> ''['' @ joinStr '','' (map enc xs) @ '']'')"

definition encodeField :: "string \<Rightarrow> string \<Rightarrow> string" where
  "encodeField key text = [dquote] @ key @ [dquote] @ '':'' @ text"

definition encodeObject :: "string list \<Rightarrow> string" where
  "encodeObject fs = ''{'' @ joinStr '','' fs @ ''}''"

text \<open>A string field with \<open>omitempty\<close>.\<close>

definition optionalString :: "string \<Rightarrow> string \<Rightarrow> string list" where
  "optionalString key s = (if s = [] then [] else [encodeField key (encodeString s)])"

definition encodeOpResult :: "PlanOpResult \<Rightarrow> string" where
  "encodeOpResult r = encodeObject
     ([encodeField ''ok'' (if OK r then ''true'' else ''false'')] @
      optionalString ''result'' (Result r) @ optionalString ''stdout'' (Stdout r) @
      optionalString ''stderr'' (Stderr r) @ optionalString ''error'' (Error r) @
      optionalString ''classification'' (OpClass r) @ optionalString ''risk'' (OpRisk r) @
      (if OpExitCode r = 0 then [] else [encodeField ''exit_code'' (intToString (OpExitCode r))]))"

definition encodeNodeResult :: "PlanNodeResult \<Rightarrow> string" where
  "encodeNodeResult n = encodeObject
     [encodeField ''node_id'' (encodeString (NodeID n)),
      encodeField ''depth'' (intToString (Depth n)),
      encodeField ''ops'' (encodeSlice encodeOpResult (Ops n))]"

definition encodeRunResult :: "PlanRunResult \<Rightarrow> string" where
  "encodeRunResult r = encodeObject
     [encodeField ''transcript'' (encodeSlice encodeNodeResult (Transcript r)),
      encodeField ''path_taken'' (encodeSlice encodeString (PathTaken r)),
      encodeField ''depth_reached'' (intToString (DepthReached r)),
      encodeField ''stopped_reason'' (encodeString (StopReason_string (StoppedReason r))),
      encodeField ''edges_evaluated'' (natToString (EdgesEvaluated r)),
      encodeField ''edges_matched'' (natToString (EdgesMatched r))]"

section \<open>Lemmas\<close>

lemma elems_simps [simp]: "elems None = []" "elems (Some xs) = xs" "elems (appendSlice s x) = elems s @ [x]"
  by (simp_all add: elems_def appendSlice_def)

end
