(* ===== verification/PlanCheck.thy ===== *)
theory PlanCheck
  imports PlanTypes
begin

text \<open>
  The static side of run_plan: the tool catalogue (\<open>tool_registry.go\<close>), the checks of
  \<open>validatePlan\<close>, the evaluation of edge conditions and the risk of a tool operation
  (\<open>plan_engine.go\<close>).

  The regular-expression engine, the JSON codec and the float parser of the Go standard library
  are arguments, bundled in \<open>textEnv\<close>: \<open>reCompile\<close> gives the error text or the number
  of capture groups, \<open>reSubmatch\<close> is \<open>FindStringSubmatch\<close> with \<open>None\<close> for nil.
\<close>

record textEnv =
  reCompile :: "string \<Rightarrow> string + nat"
  reMatch :: "string \<Rightarrow> string \<Rightarrow> bool"
  reSubmatch :: "string \<Rightarrow> string \<Rightarrow> string list option"
  parseFloat :: "string \<Rightarrow> float64 option"
  jsonDecode :: "string \<Rightarrow> jsonValue option"
  jsonEncode :: "jsonValue \<Rightarrow> string option"

section \<open>The tool catalogue\<close>

datatype toolRouteRisk =
  toolRouteRiskReadOnly | toolRouteRiskMutating | toolRouteRiskShell | toolRouteRiskNetwork

record toolDescriptor =
  toolName :: string
  routeRisk :: toolRouteRisk

definition mayMutate :: "toolDescriptor \<Rightarrow> bool" where
  "mayMutate d = (routeRisk d = toolRouteRiskMutating \<or> routeRisk d = toolRouteRiskShell)"

definition webFetchTool :: string where "webFetchTool = ''web_fetch''"
definition webSearchTool :: string where "webSearchTool = ''web_search''"

definition tool_entry :: "string \<Rightarrow> toolRouteRisk \<Rightarrow> toolDescriptor" where
  "tool_entry n r = \<lparr>toolName = n, routeRisk = r\<rparr>"

definition toolCatalog :: "toolDescriptor list" where
  "toolCatalog =
    [tool_entry ''run_plan'' toolRouteRiskMutating,
     tool_entry ''run_shell'' toolRouteRiskShell,
     tool_entry ''read_file'' toolRouteRiskReadOnly,
     tool_entry ''multi_read'' toolRouteRiskReadOnly,
     tool_entry ''write_file'' toolRouteRiskMutating,
     tool_entry ''edit_file'' toolRouteRiskMutating,
     tool_entry ''multi_edit'' toolRouteRiskMutating,
     tool_entry ''apply_patch'' toolRouteRiskMutating,
     tool_entry ''search_files'' toolRouteRiskReadOnly,
     tool_entry ''stat_file'' toolRouteRiskReadOnly,
     tool_entry ''list_dir'' toolRouteRiskReadOnly,
     tool_entry ''find_files'' toolRouteRiskReadOnly,
     tool_entry ''list_tools'' toolRouteRiskReadOnly,
     tool_entry ''detect_project'' toolRouteRiskReadOnly,
     tool_entry ''memory'' toolRouteRiskMutating,
     tool_entry ''undo'' toolRouteRiskMutating,
     tool_entry ''lsp_query'' toolRouteRiskReadOnly,
     tool_entry ''lsp_batch'' toolRouteRiskReadOnly,
     tool_entry ''diff_files'' toolRouteRiskReadOnly,
     tool_entry ''search_replace'' toolRouteRiskMutating,
     tool_entry webFetchTool toolRouteRiskNetwork,
     tool_entry webSearchTool toolRouteRiskNetwork]"

definition lookupToolDescriptor :: "string \<Rightarrow> toolDescriptor option" where
  "lookupToolDescriptor n = find (\<lambda>d. toolName d = n) toolCatalog"

definition engineLookupToolDescriptor :: "ShellMode \<Rightarrow> string \<Rightarrow> toolDescriptor option" where
  "engineLookupToolDescriptor mode n =
     (case lookupToolDescriptor n of
        Some d \<Rightarrow> (if routeRisk d = toolRouteRiskShell \<and> mode = ShellModeDisabled then None else Some d)
      | None \<Rightarrow> None)"

definition ReadOnlyToolNames :: "string list" where
  "ReadOnlyToolNames = map toolName (filter (\<lambda>d. routeRisk d = toolRouteRiskReadOnly) toolCatalog)"

definition registeredToolNames :: "ShellMode \<Rightarrow> string list" where
  "registeredToolNames mode =
     map toolName (filter (\<lambda>d. \<not> (routeRisk d = toolRouteRiskShell \<and> mode = ShellModeDisabled)) toolCatalog)"

section \<open>Gates of an operation\<close>

definition planPhase1ToolAllowlist :: "string set" where
  "planPhase1ToolAllowlist =
     {''read_file'', ''multi_read'', ''list_dir'', ''search_files'', ''find_files'', ''stat_file'',
      ''lsp_query'', ''lsp_batch''}"

definition planPhase1ToolAllowed :: "PlanOp \<Rightarrow> bool" where
  "planPhase1ToolAllowed op =
     (if Tool op \<in> planPhase1ToolAllowlist then True
      else let action = strArg (Args op) ''action'' in
        if Tool op = ''memory'' then action = ''recall'' \<or> action = ''list''
        else if Tool op = ''undo'' then action = ''list'' \<or> action = ''preview''
        else False)"

definition planToolRisk :: "string \<Rightarrow> toolArgs \<Rightarrow> goError + RiskLevel" where
  "planToolRisk tool args =
     (case lookupToolDescriptor tool of
        None \<Rightarrow> Inl (plainError (''unknown tool: '' @ tool))
      | Some descriptor \<Rightarrow>
        (if tool = ''run_shell'' then
           (let command = strArg args ''command'' in
            if trimSpace command = [] then Inl (plainError ''run_shell command is required'')
            else Inr (fst (ClassifyCommand command)))
         else
           let action = strArg args ''action'';
               default = (if routeRisk descriptor = toolRouteRiskMutating then RiskCaution else RiskSafe) in
           if tool \<in> {''write_file'', ''edit_file'', ''multi_edit'', ''apply_patch'', ''search_replace''}
           then Inr RiskCaution
           else if tool = ''memory'' then
             (if action = ''gc'' then Inr RiskDangerous
              else if action = ''save'' \<or> action = ''forget'' then Inr RiskCaution
              else Inr default)
           else if tool = ''undo'' then
             (if action = ''clear'' then Inr RiskDangerous else Inr default)
           else Inr default))"

section \<open>Conditions\<close>

definition validPlanOperator :: "string \<Rightarrow> bool" where
  "validPlanOperator op = (op \<in> {''eq'', ''ne'', ''lt'', ''lte'', ''gt'', ''gte''})"

fun isIntegral :: "float64 \<Rightarrow> bool" where
  "isIntegral (Finite q) = (of_int \<lfloor>q\<rfloor> = q)"
| "isIntegral _ = False"

definition numericPlanValue :: "jsonValue \<Rightarrow> bool \<Rightarrow> float64 option" where
  "numericPlanValue value integer =
     (let number = (case value of JInt v \<Rightarrow> Some (float64OfInt v) | JFloat v \<Rightarrow> Some v | _ \<Rightarrow> None) in
      case number of
        None \<Rightarrow> None
      | Some n \<Rightarrow> (if n = NaN \<or> n = PosInf \<or> n = NegInf \<or> (integer \<and> \<not> isIntegral n) then None
                  else Some n))"

definition compareNumeric :: "float64 \<Rightarrow> float64 \<Rightarrow> string \<Rightarrow> bool" where
  "compareNumeric a b op =
     (if op = ''eq'' then floatEq a b
      else if op = ''ne'' then \<not> floatEq a b
      else if op = ''lt'' then floatLess a b
      else if op = ''lte'' then floatLessEq a b
      else if op = ''gt'' then floatLess b a
      else if op = ''gte'' then floatLessEq b a
      else False)"

definition negateCondition :: "bool \<Rightarrow> bool \<Rightarrow> bool" where
  "negateCondition matched negate = (if negate then \<not> matched else matched)"

text \<open>\<open>validateCondition\<close>: the error text, or \<open>None\<close>.\<close>

definition validateCondition :: "textEnv \<Rightarrow> Condition \<Rightarrow> string option" where
  "validateCondition env cond =
     (let kind = Kind cond in
      if kind = ''always'' then
        (if Op cond \<noteq> [] \<or> Value cond \<noteq> JNull \<or> Path cond \<noteq> [] \<or> Extract cond \<noteq> [] \<or> Regex cond \<noteq> [] \<or>
            Stream cond \<noteq> [] then Some ''always does not accept comparison fields'' else None)
      else if kind = ''exitCode'' then
        (if \<not> validPlanOperator (Op cond) then Some ''exitCode requires a supported operator''
         else if numericPlanValue (Value cond) True = None then Some ''exitCode requires an integer value''
         else if Path cond \<noteq> [] \<or> Extract cond \<noteq> [] \<or> Regex cond \<noteq> [] \<or> Stream cond \<noteq> []
         then Some ''exitCode does not accept path, extract, regex, or stream''
         else None)
      else if kind = ''fileExists'' then
        (if trimSpace (Path cond) = [] then Some ''fileExists requires a path''
         else if Op cond \<noteq> [] \<or> Value cond \<noteq> JNull \<or> Extract cond \<noteq> [] \<or> Regex cond \<noteq> [] \<or> Stream cond \<noteq> []
         then Some ''fileExists does not accept comparison fields'' else None)
      else if kind = ''numeric'' then
        (if \<not> validPlanOperator (Op cond) then Some ''numeric requires a supported operator''
         else if numericPlanValue (Value cond) False = None then Some ''numeric requires a numeric value''
         else (let extractError = (if Extract cond = [] then None
                 else case reCompile env (Extract cond) of
                   Inl err \<Rightarrow> Some (''numeric extract regex: '' @ err)
                 | Inr groups \<Rightarrow> (if groups = 0 then Some ''numeric extract regex requires a capture group''
                                 else None)) in
           case extractError of
             Some err \<Rightarrow> Some err
           | None \<Rightarrow> (if Path cond \<noteq> [] \<or> Regex cond \<noteq> [] \<or> Stream cond \<noteq> []
                     then Some ''numeric does not accept path, regex, or stream'' else None)))
      else if kind = ''jsonPath'' then
        (if trimSpace (Path cond) = [] then Some ''jsonPath requires a path''
         else if \<not> validPlanOperator (Op cond) then Some ''jsonPath requires a supported operator''
         else if Value cond = JNull then Some ''jsonPath requires a value''
         else if Op cond \<noteq> ''eq'' \<and> Op cond \<noteq> ''ne'' \<and> numericPlanValue (Value cond) False = None
         then Some (''jsonPath '' @ Op cond @ '' requires a numeric value'')
         else if Extract cond \<noteq> [] \<or> Regex cond \<noteq> [] \<or> Stream cond \<noteq> []
         then Some ''jsonPath does not accept extract, regex, or stream'' else None)
      else if kind = ''match'' then
        (if Stream cond \<noteq> ''stdout'' \<and> Stream cond \<noteq> ''stderr''
         then Some ''match requires stream stdout or stderr''
         else case reCompile env (Regex cond) of
           Inl err \<Rightarrow> Some (''match regex: '' @ err)
         | Inr _ \<Rightarrow> (if Op cond \<noteq> [] \<or> Value cond \<noteq> JNull \<or> Path cond \<noteq> [] \<or> Extract cond \<noteq> []
                    then Some ''match does not accept comparison fields'' else None))
      else Some (''unknown condition kind: '' @ kind))"

definition jsonValueEqual :: "textEnv \<Rightarrow> jsonValue \<Rightarrow> jsonValue \<Rightarrow> bool" where
  "jsonValueEqual env left right =
     (case (numericPlanValue left False, numericPlanValue right False) of
        (Some a, Some b) \<Rightarrow> floatEq a b
      | (None, None) \<Rightarrow>
          (case (jsonEncode env left, jsonEncode env right) of
             (Some l, Some r) \<Rightarrow> l = r | _ \<Rightarrow> False)
      | _ \<Rightarrow> False)"

text \<open>\<open>strconv.Atoi\<close> of a path segment; a number beyond int64 is an error.\<close>

definition digitsValue :: "string \<Rightarrow> nat" where
  "digitsValue s = foldl (\<lambda>n c. 10 * n + (of_char c - 48)) 0 s"

definition goAtoi :: "string \<Rightarrow> int option" where
  "goAtoi s =
     (let (neg, ds) = (case s of
           c # t \<Rightarrow> (if c = CHR ''-'' then (True, t) else if c = CHR ''+'' then (False, t) else (False, s))
         | [] \<Rightarrow> (False, [])) in
      if ds = [] \<or> \<not> list_all isDigit ds then None
      else let i = (if neg then - int (digitsValue ds) else int (digitsValue ds)) in
        if - (2 ^ 63) \<le> i \<and> i < 2 ^ 63 then Some i else None)"

fun jsonWalk :: "jsonValue \<Rightarrow> string list \<Rightarrow> jsonValue option" where
  "jsonWalk cur [] = Some cur"
| "jsonWalk cur (seg # segs) =
     (case cur of
        JObject kvs \<Rightarrow> (case map_of kvs seg of Some v \<Rightarrow> jsonWalk v segs | None \<Rightarrow> None)
      | JArray vs \<Rightarrow>
          (case goAtoi seg of
             Some i \<Rightarrow> (if i < 0 \<or> int (length vs) \<le> i then None else jsonWalk (vs ! nat i) segs)
           | None \<Rightarrow> None)
      | _ \<Rightarrow> None)"

definition leafNumber :: "jsonValue \<Rightarrow> float64 option" where
  "leafNumber v = (case v of JFloat f \<Rightarrow> Some f | JInt i \<Rightarrow> Some (float64OfInt i) | _ \<Rightarrow> None)"

text \<open>
  \<open>evaluateCondition\<close> on the last result: the error, or whether the edge is taken.  The file
  system's answer on a path is the argument \<open>pathExists\<close> (\<open>checkPath\<close> and
  \<open>rootedStat\<close>).  A \<open>return false\<close> of the code skips the negation.
\<close>

definition evaluateCondition ::
    "textEnv \<Rightarrow> (string \<Rightarrow> goError + bool) \<Rightarrow> PlanOpResult \<Rightarrow> Condition \<Rightarrow> goError + bool" where
  "evaluateCondition env pathExists lastRes cond =
     (let kind = Kind cond;
          result = (\<lambda>matched. Inr (negateCondition matched (Negate cond)));
          raw = (if Stdout lastRes = [] then Result lastRes else Stdout lastRes) in
      if kind = ''always'' then result True
      else if kind = ''exitCode'' then
        (case numericPlanValue (Value cond) True of
           None \<Rightarrow> Inl (plainError ''invalid exitCode value'')
         | Some expected \<Rightarrow> result (compareNumeric (float64OfInt (OpExitCode lastRes)) expected (Op cond)))
      else if kind = ''fileExists'' then
        (case pathExists (Path cond) of
           Inl err \<Rightarrow> Inl err
         | Inr found \<Rightarrow> result found)
      else if kind = ''match'' then
        (case reCompile env (Regex cond) of
           Inl err \<Rightarrow> Inl (plainError err)
         | Inr _ \<Rightarrow>
             (let stream = (if OpClass lastRes \<noteq> [] \<or> Stdout lastRes \<noteq> [] \<or> Stderr lastRes \<noteq> []
                            then Stdout lastRes @ Stderr lastRes else Result lastRes)
              in result (reMatch env (Regex cond) stream)))
      else if kind = ''numeric'' then
        (let source = (if Extract cond \<noteq> [] then
               (case reCompile env (Extract cond) of
                  Inl err \<Rightarrow> Inl (plainError err)
                | Inr _ \<Rightarrow> (case reSubmatch env (Extract cond) raw of
                      Some (_ # m # _) \<Rightarrow> Inr (Some m) | _ \<Rightarrow> Inr None))
               else Inr (Some (trimSpace raw))) in
         case source of
           Inl err \<Rightarrow> Inl err
         | Inr None \<Rightarrow> Inr False
         | Inr (Some s) \<Rightarrow>
             (case parseFloat env s of
                None \<Rightarrow> Inr False
              | Some val \<Rightarrow>
                 (case numericPlanValue (Value cond) False of
                    None \<Rightarrow> Inl (plainError ''invalid numeric value'')
                  | Some expected \<Rightarrow> result (compareNumeric val expected (Op cond)))))
      else if kind = ''jsonPath'' then
        (case jsonDecode env raw of
           None \<Rightarrow> Inr False
         | Some v \<Rightarrow>
            (case jsonWalk v (splitByte (Path cond) CHR ''.'') of
               None \<Rightarrow> Inr False
             | Some leaf \<Rightarrow>
                (case (leafNumber leaf, leafNumber (Value cond)) of
                   (Some a, Some b) \<Rightarrow> result (compareNumeric a b (Op cond))
                 | _ \<Rightarrow>
                   (if Op cond = ''eq'' then result (jsonValueEqual env leaf (Value cond))
                    else if Op cond = ''ne'' then result (\<not> jsonValueEqual env leaf (Value cond))
                    else Inr False))))
      else Inl (plainError (''unknown condition kind: '' @ kind)))"

section \<open>Plans\<close>

definition planHint :: string where
  "planHint = dash ''fix the plan structure and resubmit'' ''validation runs before any node executes''"

definition planInvalid :: "string \<Rightarrow> goError" where
  "planInvalid msg = ErrWithSuggestion msg planHint ''plan_invalid''"

definition validatePlanOp :: "PlanOp \<Rightarrow> string option" where
  "validatePlanOp op =
     (let hasShell = trimSpace (Shell op) \<noteq> []; hasTool = Tool op \<noteq> [] in
      if hasShell = hasTool then Some ''plan op must set exactly one non-empty shell or tool''
      else if hasTool then
        (if Tool op = webFetchTool \<or> Tool op = webSearchTool
         then Some (''tool '' @ Tool op @ '' is not permitted in run_plan'')
         else if lookupToolDescriptor (Tool op) = None then Some (''unknown tool: '' @ Tool op)
         else None)
      else None)"

fun validateCommands :: "string \<Rightarrow> nat \<Rightarrow> PlanOp list \<Rightarrow> goError option" where
  "validateCommands node i [] = None"
| "validateCommands node i (op # ops) =
     (case validatePlanOp op of
        Some err \<Rightarrow>
          Some (planInvalid (''node '' @ node @ '' command '' @ natToString i @ '': '' @ err))
      | None \<Rightarrow> validateCommands node (Suc i) ops)"

definition validateNode :: "string set \<Rightarrow> PlanNode \<Rightarrow> goError option" where
  "validateNode seen n =
     (if length (ID n) > 256 then Some (planInvalid ''node id exceeds 256 bytes'')
      else if length (Commands n) > maxPlanCommands
      then Some (planInvalid (''node '' @ ID n @ '' has too many commands (maximum '' @
             natToString maxPlanCommands @ '')''))
      else if length (Edges n) > maxPlanEdges
      then Some (planInvalid (''node '' @ ID n @ '' has too many edges (maximum '' @
             natToString maxPlanEdges @ '')''))
      else if ID n = [] then Some (planInvalid ''node id is required'')
      else if ID n \<in> seen then Some (planInvalid (''duplicate node id: '' @ ID n))
      else if Parallel n \<and> Mutates n
      then Some (ErrWithSuggestion (''node '' @ ID n @ '' cannot combine parallel and mutates'')
             (dash ''split mutating operations into serial nodes and resubmit''
                ''validation runs before any node executes'') ''plan_invalid'')
      else if Commands n = [] then Some (planInvalid (''node '' @ ID n @ '' has no commands''))
      else validateCommands (ID n) 0 (Commands n))"

fun validateNodes :: "string set \<Rightarrow> PlanNode list \<Rightarrow> goError + string set" where
  "validateNodes seen [] = Inr seen"
| "validateNodes seen (n # ns) =
     (case validateNode seen n of
        Some err \<Rightarrow> Inl err
      | None \<Rightarrow> validateNodes (insert (ID n) seen) ns)"

definition validateEdge ::
    "textEnv \<Rightarrow> string set \<Rightarrow> PlanNode list \<Rightarrow> PlanNode \<Rightarrow> PlanEdge \<Rightarrow> goError option" where
  "validateEdge env seen nodes n e =
     (case validateCondition env (When e) of
        Some err \<Rightarrow> Some (planInvalid (''edge from '' @ ID n @ '' has invalid condition: '' @ err))
      | None \<Rightarrow>
        (if To e \<notin> seen
         then Some (planInvalid (''edge from '' @ ID n @ '' targets unknown node '' @ To e))
         else if Kind (When e) \<notin> HighConfidenceKinds \<and> (\<exists>target \<in> set nodes. ID target = To e \<and> Mutates target)
         then Some (ErrWithSuggestion (''condition kind '' @ Kind (When e) @
                '' is low-confidence and cannot gate mutating node '' @ To e) planHint ''plan_invalid'')
         else None))"

text \<open>The first error of a list of checks.\<close>

fun firstError :: "('a \<Rightarrow> goError option) \<Rightarrow> 'a list \<Rightarrow> goError option" where
  "firstError check [] = None"
| "firstError check (x # xs) = (case check x of Some err \<Rightarrow> Some err | None \<Rightarrow> firstError check xs)"

definition validatePlan :: "textEnv \<Rightarrow> PlanTree \<Rightarrow> goError option" where
  "validatePlan env plan =
     (if length (Nodes plan) > maxPlanNodes
      then Some (planInvalid (''plan has '' @ natToString (length (Nodes plan)) @
             '' nodes; maximum is '' @ natToString maxPlanNodes))
      else if MaxDepth plan < 0 \<or> MaxDepth plan > maxPlanDepth
      then Some (planInvalid (''plan max_depth must be between 0 and '' @ intToString maxPlanDepth))
      else if Nodes plan = [] then Some (planInvalid ''plan has no nodes'')
      else if Root plan = [] then Some (planInvalid ''plan has no root node'')
      else case validateNodes {} (Nodes plan) of
        Inl err \<Rightarrow> Some err
      | Inr seen \<Rightarrow>
        (if Root plan \<notin> seen then Some (planInvalid (''root node '' @ Root plan @ '' not found''))
         else firstError (\<lambda>n. firstError (validateEdge env seen (Nodes plan) n) (Edges n)) (Nodes plan)))"

section \<open>Lemmas\<close>

lemma firstError_None: "firstError check xs = None \<longleftrightarrow> (\<forall>x \<in> set xs. check x = None)"
  by (induction xs) (auto split: option.splits)

lemma validateCommands_None:
  "validateCommands node i ops = None \<longleftrightarrow> (\<forall>op \<in> set ops. validatePlanOp op = None)"
  by (induction ops arbitrary: i) (auto split: option.splits)

lemma validateNodes_Inr:
  "validateNodes seen ns = Inr seen' \<Longrightarrow>
   seen' = seen \<union> ID ` set ns \<and> distinct (map ID ns) \<and> seen \<inter> ID ` set ns = {} \<and>
   (\<forall>n \<in> set ns. ID n \<noteq> [] \<and> Commands n \<noteq> [] \<and> length (Commands n) \<le> maxPlanCommands \<and>
      length (Edges n) \<le> maxPlanEdges \<and> \<not> (Parallel n \<and> Mutates n) \<and>
      (\<forall>op \<in> set (Commands n). validatePlanOp op = None))"
proof (induction ns arbitrary: seen)
  case (Cons n ns)
  from Cons.prems have n: "validateNode seen n = None"
    and rest: "validateNodes (insert (ID n) seen) ns = Inr seen'" by (auto split: option.splits)
  from n have "ID n \<notin> seen" "ID n \<noteq> []" "Commands n \<noteq> []" "length (Commands n) \<le> maxPlanCommands"
    "length (Edges n) \<le> maxPlanEdges" "\<not> (Parallel n \<and> Mutates n)"
    "\<forall>op \<in> set (Commands n). validatePlanOp op = None"
    by (auto simp: validateNode_def validateCommands_None split: if_splits)
  with Cons.IH [OF rest] show ?case by auto
qed simp

end
