(* ===== verification/PlanRun.thy ===== *)
theory PlanRun
  imports PlanCheck
begin

text \<open>
  The execution of a plan (\<open>plan_engine.go\<close>, \<open>tool_run_plan.go\<close>, the routing of
  \<open>Dispatch\<close>): contexts and budgets, the gates of read-only and mutating nodes, the loop of
  \<open>runPlanTree\<close> as a step function on its local variables, and nested plans.

  The host is the argument \<open>env\<close>: processes, files, cancellation and the tools that are no
  part of the plan engine act on a world of type \<open>'w\<close>.  \<open>ctxDone\<close> polls the context and
  may advance the world, so that a cancellation can fall between any two steps.  The order in
  which the goroutines of a parallel node take their turn is \<open>parallelOrder\<close>; one
  operation is one step.
\<close>

record Engine =
  workDir :: string
  shellMode :: ShellMode

record ToolResult =
  Text :: string
  PlanRun :: "PlanRunResult option"

record 'w hostEnv =
  textual :: textEnv
  rootedStat :: "Engine \<Rightarrow> 'w \<Rightarrow> string \<Rightarrow> goError + bool"
  evalSymlinks :: "'w \<Rightarrow> string \<Rightarrow> string + string"
  statIsDir :: "'w \<Rightarrow> string \<Rightarrow> string + bool"
  openRoot :: "'w \<Rightarrow> string \<Rightarrow> string \<Rightarrow> string option"
  ctxDone :: "'w \<Rightarrow> bool \<times> 'w"
  executeShell :: "Engine \<Rightarrow> 'w executor"
  validateToolArgs :: "string \<Rightarrow> toolArgs \<Rightarrow> goError option"
  otherTool :: "Engine \<Rightarrow> string \<Rightarrow> toolArgs \<Rightarrow> 'w \<Rightarrow> (goError + ToolResult) \<times> 'w"
  coercePlan :: "jsonValue \<Rightarrow> goError + PlanTree"
  parallelOrder :: "'w \<Rightarrow> nat \<Rightarrow> nat list"

section \<open>Contexts and budgets\<close>

record planExecutionContext =
  ctxDepth :: int
  ctxMaxDepth :: int
  dangerousAuthorized :: bool

text \<open>What a dispatch inherits: the plan it is nested in, and the authority it was given.\<close>

record planCtx =
  parent :: "planExecutionContext option"
  nestedAuthorization :: bool

text \<open>The operation budget, which an outer plan shares with the plans nested in it, and the world.\<close>

record 'w runState =
  reserved :: nat
  world :: 'w

definition planExecutionContextFor :: "planCtx \<Rightarrow> PlanTree \<Rightarrow> planExecutionContext" where
  "planExecutionContextFor ctx plan =
     (case parent ctx of
        Some p \<Rightarrow>
          (let depth = ctxDepth p + 1;
               maxDepth = (if MaxDepth plan > 0 then min (ctxMaxDepth p) (depth + MaxDepth plan)
                           else ctxMaxDepth p)
           in \<lparr>ctxDepth = depth, ctxMaxDepth = maxDepth, dangerousAuthorized = nestedAuthorization ctx\<rparr>)
      | None \<Rightarrow>
          \<lparr>ctxDepth = 0, ctxMaxDepth = (if MaxDepth plan = 0 then DefaultMaxDepth else MaxDepth plan),
           dangerousAuthorized = True\<rparr>)"

text \<open>An outermost plan starts a budget of its own.\<close>

definition planBudgetFor :: "planCtx \<Rightarrow> 'w runState \<Rightarrow> 'w runState" where
  "planBudgetFor ctx st = (case parent ctx of Some _ \<Rightarrow> st | None \<Rightarrow> st\<lparr>reserved := 0\<rparr>)"

definition reservePlanOperations :: "nat \<Rightarrow> 'w runState \<Rightarrow> bool \<times> 'w runState" where
  "reservePlanOperations count st =
     (if int count > int maxPlanOperations - int (reserved st) then (False, st)
      else (True, st\<lparr>reserved := reserved st + count\<rparr>))"

definition ctxErr :: "'w hostEnv \<Rightarrow> 'w runState \<Rightarrow> bool \<times> 'w runState" where
  "ctxErr env st = (let (stop, w) = ctxDone env (world st) in (stop, st\<lparr>world := w\<rparr>))"

section \<open>Results of operations\<close>

definition blockedPlanOp :: "string \<Rightarrow> PlanOpResult \<times> bool" where
  "blockedPlanOp message = (emptyOpResult\<lparr>Error := message, OpExitCode := 1\<rparr>, True)"

definition planRunSucceeded :: "PlanRunResult \<Rightarrow> bool" where
  "planRunSucceeded r =
     (if StoppedReason r \<noteq> StopLeaf \<or> elems (Transcript r) = [] then False
      else list_all OK (elems (Ops (last (elems (Transcript r))))))"

definition planToolResult :: "goError + ToolResult \<Rightarrow> PlanOpResult" where
  "planToolResult outcome =
     (case outcome of
        Inl err \<Rightarrow> emptyOpResult\<lparr>Error := Err err, OpExitCode := 1\<rparr>
      | Inr tr \<Rightarrow>
         (case PlanRun tr of
            None \<Rightarrow> emptyOpResult\<lparr>OK := True, Result := Text tr\<rparr>
          | Some nested \<Rightarrow>
             (if planRunSucceeded nested
              then emptyOpResult\<lparr>OK := True, Result := encodeRunResult nested\<rparr>
              else emptyOpResult\<lparr>Result := encodeRunResult nested, OpExitCode := 1,
                     Error := ''nested run_plan stopped: '' @ StopReason_string (StoppedReason nested)\<rparr>)))"

fun lastIndexStr :: "string \<Rightarrow> string \<Rightarrow> nat option" where
  "lastIndexStr [] sub = (if sub = [] then Some 0 else None)"
| "lastIndexStr (x # s) sub =
     (case lastIndexStr s sub of
        Some i \<Rightarrow> Some (Suc i)
      | None \<Rightarrow> (if hasPrefix (x # s) sub then Some 0 else None))"

definition rewritePlanShellClassification :: "string \<Rightarrow> string \<Rightarrow> string \<Rightarrow> string" where
  "rewritePlanShellClassification result classification reason =
     (case lastIndexStr result ([newline] @ ''[classification:'') of
        None \<Rightarrow> result
      | Some idx \<Rightarrow>
         (case indexByte (drop idx result) CHR '']'' of
            None \<Rightarrow> result
          | Some e \<Rightarrow> take idx result @ [newline] @ ''[classification: '' @ dash classification reason @
                       '']'' @ drop (e + idx + 1) result))"

definition metaString :: "toolArgs \<Rightarrow> string \<Rightarrow> string option" where
  "metaString meta key = (case map_of meta key of Some (JString s) \<Rightarrow> Some s | _ \<Rightarrow> None)"

definition metaInt :: "toolArgs \<Rightarrow> string \<Rightarrow> int option" where
  "metaInt meta key = (case map_of meta key of Some (JInt i) \<Rightarrow> Some i | _ \<Rightarrow> None)"

text \<open>The success of a command, or an exit code that tells its failure.\<close>

definition settleExit :: "bool \<Rightarrow> PlanOpResult \<Rightarrow> PlanOpResult" where
  "settleExit failed res =
     (if failed then (if OpExitCode res = 0 then res\<lparr>OpExitCode := 1\<rparr> else res) else res\<lparr>OK := True\<rparr>)"

lemma settleExit_nonzero: "OK (settleExit failed res) \<or> OpExitCode (settleExit failed res) \<noteq> 0"
  by (simp add: settleExit_def)

definition planShellResult :: "shellResult \<Rightarrow> string \<Rightarrow> PlanOpResult" where
  "planShellResult shellRes command =
     (let (text, meta, err) = shellRes;
          reported = strArg meta ''classification'';
          base = emptyOpResult\<lparr>Result := text, Stdout := strArg meta ''stdout'', Stderr := strArg meta ''stderr'',
                   Error := (case err of Some e \<Rightarrow> Err e | None \<Rightarrow> [])\<rparr>;
          (classification, res) =
            (case metaInt meta ''exit_code'' of
               Some v \<Rightarrow>
                 (let (class, reason0) = classifyExitCode (extractArgv0 command) v;
                      (cls, reason) = (if reported \<in> {''timeout'', ''signal'', ''resource_limit''}
                        then (reported, ''command terminated before normal completion'')
                        else (Classification_string class, reason0))
                  in (cls, base\<lparr>OpExitCode := v, OpClass := cls,
                        Result := rewritePlanShellClassification text cls reason\<rparr>))
             | None \<Rightarrow>
                 (if reported \<noteq> [] then (reported, base\<lparr>OpClass := reported\<rparr>)
                  else (''success'', base)));
          res = settleExit (err \<noteq> None \<or>
                  (classification \<noteq> ''success'' \<and> classification \<noteq> ''expected_nonzero'')) res
      in if trimSpace command \<noteq> [] then res\<lparr>OpRisk := RiskLevel_String (commandRisk command)\<rparr>
         else (case metaString meta ''risk'' of Some v \<Rightarrow> res\<lparr>OpRisk := v\<rparr> | None \<Rightarrow> res))"

section \<open>Shell operations\<close>

definition shellQuote :: "string \<Rightarrow> string" where
  "shellQuote value =
     [squote] @ concat (map (\<lambda>c. if c = squote then [squote, dquote, squote, dquote, squote] else [c]) value) @
     [squote]"

definition planShellCommand :: "string \<Rightarrow> string \<Rightarrow> string" where
  "planShellCommand cwd command = ''cd -- '' @ shellQuote cwd @ '' && '' @ command"

definition planShellArgs :: "string \<Rightarrow> string \<Rightarrow> toolArgs \<Rightarrow> bool \<Rightarrow> toolArgs" where
  "planShellArgs cwd command args force =
     setArg ''force'' (JBool force) (setArg ''command'' (JString (planShellCommand cwd command)) args)"

definition runPlanShell ::
    "'w hostEnv \<Rightarrow> Engine \<Rightarrow> string \<Rightarrow> toolArgs \<Rightarrow> bool \<Rightarrow> 'w runState \<Rightarrow> shellResult \<times> 'w runState" where
  "runPlanShell env eng command args force st =
     (let (res, w) = runShell (executeShell env eng) (shellMode eng)
                       (planShellArgs (workDir eng) command args force) (world st)
      in (res, st\<lparr>world := w\<rparr>))"

section \<open>Gates\<close>

type_synonym 'w dispatcher =
  "Engine \<Rightarrow> planCtx \<Rightarrow> string \<Rightarrow> toolArgs \<Rightarrow> 'w runState \<Rightarrow> (goError + ToolResult) \<times> 'w runState"

definition runPlanOp ::
    "'w hostEnv \<Rightarrow> 'w dispatcher \<Rightarrow> Engine \<Rightarrow> planCtx \<Rightarrow> PlanOp \<Rightarrow> 'w runState
     \<Rightarrow> (PlanOpResult \<times> bool) \<times> 'w runState" where
  "runPlanOp env disp eng ctx op st =
     (if Shell op \<noteq> [] then
        (if commandRisk (Shell op) \<noteq> RiskSafe
         then (blockedPlanOp ''blocked: shell op risk exceeds Phase 1 read-only allowance'', st)
         else let (res, st') = runPlanShell env eng (Shell op) [] False st
              in ((planShellResult res (Shell op), False), st'))
      else if Tool op \<noteq> [] then
        (if \<not> planPhase1ToolAllowed op
         then (blockedPlanOp ''blocked: tool op outside Phase 1 read-only allowlist'', st)
         else let (res, st') = disp eng ctx (Tool op) (Args op) st
              in ((planToolResult res, False), st'))
      else (blockedPlanOp ''plan op must set exactly one of shell or tool'', st))"

definition planOpRisk :: "PlanOp \<Rightarrow> goError + RiskLevel" where
  "planOpRisk op =
     (if Shell op \<noteq> [] then Inr (commandRisk (Shell op))
      else if Tool op \<noteq> [] then planToolRisk (Tool op) (Args op)
      else Inl (plainError ''plan op must set exactly one of shell or tool''))"

definition runMutatingOp ::
    "'w hostEnv \<Rightarrow> 'w dispatcher \<Rightarrow> Engine \<Rightarrow> planCtx \<Rightarrow> PlanNode \<Rightarrow> bool \<Rightarrow> PlanOp \<Rightarrow> 'w runState
     \<Rightarrow> (PlanOpResult \<times> bool) \<times> 'w runState" where
  "runMutatingOp env disp eng ctx node planForce op st =
     (case planOpRisk op of
        Inl err \<Rightarrow> (blockedPlanOp (Err err), st)
      | Inr risk \<Rightarrow>
         (if risk = RiskDangerous \<and> (\<not> planForce \<or> \<not> NodeForce node)
          then (blockedPlanOp ''blocked: dangerous mutation requires plan.force and node.force'', st)
          else if Shell op \<noteq> [] then
            (let (res, st') = runPlanShell env eng (Shell op) []
                                (risk = RiskDangerous \<and> planForce \<and> NodeForce node) st
             in ((planShellResult res (Shell op), False), st'))
          else if Tool op = ''run_shell'' then
            (let command = strArg (Args op) ''command'';
                 (res, st') = runPlanShell env eng command (Args op)
                                (risk = RiskDangerous \<and> planForce \<and> NodeForce node) st
             in ((planShellResult res command, False), st'))
          else if Tool op = ''run_plan'' then
            (let (res, st') = disp eng (ctx\<lparr>nestedAuthorization := (planForce \<and> NodeForce node)\<rparr>)
                                (Tool op) (Args op) st
             in ((planToolResult res, False), st'))
          else
            (let (res, st') = disp eng ctx (Tool op) (Args op) st
             in ((planToolResult res, False), st'))))"

section \<open>Transcripts\<close>

text \<open>\<open>utf8.RuneStart\<close>.\<close>

definition runeStart :: "char \<Rightarrow> bool" where
  "runeStart c \<longleftrightarrow> \<not> (128 \<le> (of_char c :: nat) \<and> (of_char c :: nat) < 192)"

fun trimEnd :: "string \<Rightarrow> nat \<Rightarrow> nat" where
  "trimEnd value 0 = 0"
| "trimEnd value (Suc e) = (if runeStart (value ! Suc e) then Suc e else trimEnd value e)"

definition ellipsis :: string where "ellipsis = [CHR 0xE2, CHR 0x80, CHR 0xA6]"

definition trimField :: "nat \<Rightarrow> string \<Rightarrow> string" where
  "trimField fieldLimit value =
     (if length value \<le> fieldLimit then value
      else take (trimEnd value fieldLimit) value @ ellipsis)"

definition boundPlanOpResultLimit :: "nat \<Rightarrow> PlanOpResult \<Rightarrow> PlanOpResult" where
  "boundPlanOpResultLimit limit r =
     r\<lparr>Result := trimField limit (Result r), Error := trimField limit (Error r),
       Stdout := trimField limit (Stdout r), Stderr := trimField limit (Stderr r)\<rparr>"

definition boundPlanOpResult :: "PlanOpResult \<Rightarrow> PlanOpResult" where
  "boundPlanOpResult r = boundPlanOpResultLimit 1024 r"

definition compactPlanTranscript :: "PlanNodeResult list \<Rightarrow> PlanNodeResult list" where
  "compactPlanTranscript ns =
     map (\<lambda>n. n\<lparr>Ops := map_option (map (boundPlanOpResultLimit 16)) (Ops n)\<rparr>) ns"

definition newPlanRunResult ::
    "PlanNodeResult slice \<Rightarrow> string slice \<Rightarrow> int \<Rightarrow> StopReason \<Rightarrow> nat \<Rightarrow> nat \<Rightarrow> nat \<Rightarrow> nat \<Rightarrow> PlanRunResult" where
  "newPlanRunResult transcript pathTaken depth reason evaluated matched nodes operations =
     \<lparr>Transcript = transcript, PathTaken = pathTaken, DepthReached = depth, StoppedReason = reason,
      EdgesEvaluated = evaluated, EdgesMatched = matched, executedNodes = nodes,
      executedOperations = operations\<rparr>"

definition planTranscriptWithinBudget ::
    "PlanNodeResult slice \<Rightarrow> string slice \<Rightarrow> int \<Rightarrow> nat \<Rightarrow> nat \<Rightarrow> bool" where
  "planTranscriptWithinBudget transcript pathTaken depth evaluated matched =
     (int (length (encodeRunResult
        (newPlanRunResult transcript pathTaken depth StopMutationBlocked evaluated matched 0 0)))
      \<le> maxPlanTranscript)"

fun fitLoop ::
    "PlanNodeResult list \<Rightarrow> string list \<Rightarrow> int \<Rightarrow> nat \<Rightarrow> nat \<Rightarrow> PlanNodeResult slice \<times> string slice" where
  "fitLoop transcript pathTaken depth evaluated matched =
     (if planTranscriptWithinBudget (Some transcript) (Some pathTaken) depth evaluated matched
      then (Some transcript, Some pathTaken)
      else case transcript of
        _ # ns \<Rightarrow> fitLoop ns pathTaken depth evaluated matched
      | [] \<Rightarrow> (case pathTaken of
            _ # ps \<Rightarrow> fitLoop [] ps depth evaluated matched
          | [] \<Rightarrow> (None, None)))"

declare fitLoop.simps [simp del]

definition fitPlanTranscript ::
    "PlanNodeResult list \<Rightarrow> string list \<Rightarrow> int \<Rightarrow> nat \<Rightarrow> nat \<Rightarrow> PlanNodeResult slice \<times> string slice" where
  "fitPlanTranscript transcript pathTaken depth evaluated matched =
     fitLoop (compactPlanTranscript transcript) pathTaken depth evaluated matched"

definition resultBytes :: "PlanNodeResult \<Rightarrow> nat" where
  "resultBytes n = sum_list (map (\<lambda>op. length (Result op)) (elems (Ops n)))"

definition omittedText :: string where
  "omittedText = ''[omitted: transcript cap exceeded]''"

definition omitResults :: "PlanNodeResult \<Rightarrow> PlanNodeResult" where
  "omitResults n = n\<lparr>Ops := Some (map (\<lambda>op. op\<lparr>Result := omittedText\<rparr>) (elems (Ops n)))\<rparr>"

fun shapeLoop :: "int \<Rightarrow> PlanNodeResult list \<Rightarrow> PlanNodeResult list" where
  "shapeLoop bytes [] = []"
| "shapeLoop bytes (n # ns) =
     (let bytes = bytes - int (resultBytes n) in
      omitResults n # (if bytes \<le> PlanTranscriptMaxBytes then ns else shapeLoop bytes ns))"

definition shapePlanTranscript :: "PlanNodeResult slice \<Rightarrow> PlanNodeResult slice" where
  "shapePlanTranscript nodes =
     (let bytes = int (sum_list (map resultBytes (elems nodes))) in
      if bytes \<le> PlanTranscriptMaxBytes then nodes
      else map_option (shapeLoop bytes) nodes)"

end
