(* ===== verification/GoPaths.thy ===== *)
theory GoPaths
  imports GoStrings
begin

text \<open>
  The path functions of \<open>path/filepath\<close> beyond \<open>Clean\<close> and \<open>Base\<close>, on Unix: \<open>Rel\<close>, \<open>Join\<close>, \<open>Dir\<close>.
\<close>

text \<open>\<open>filepath.Rel\<close> of two clean absolute paths.\<close>

fun dropCommon :: "string list \<Rightarrow> string list \<Rightarrow> string list \<times> string list" where
  "dropCommon (b # bs) (t # ts) = (if b = t then dropCommon bs ts else (b # bs, t # ts))"
| "dropCommon bs ts = (bs, ts)"

definition pathComponents :: "string \<Rightarrow> string list" where
  "pathComponents p = filter (\<lambda>c. c \<noteq> []) (splitByte (pathClean p) CHR ''/'')"

definition filepathRel :: "string \<Rightarrow> string \<Rightarrow> string" where
  "filepathRel base target =
     (let (bs, ts) = dropCommon (pathComponents base) (pathComponents target);
          rel = replicate (length bs) ''..'' @ ts
      in if rel = [] then ''.'' else joinStr ''/'' rel)"

definition filepathJoin :: "string \<Rightarrow> string \<Rightarrow> string" where
  "filepathJoin a b = (if a = [] then (if b = [] then [] else pathClean b)
     else pathClean (if b = [] then a else a @ ''/'' @ b))"

definition outsideWorkDir :: "string \<Rightarrow> bool" where
  "outsideWorkDir rel \<longleftrightarrow> rel = ''..'' \<or> hasPrefix rel ''../''"

text \<open>\<open>filepath.Dir\<close>: what stands before the last slash and with it, cleaned.\<close>

definition pathDir :: "string \<Rightarrow> string" where
  "pathDir p = pathClean (take (length p - length (afterLastSlash p)) p)"

section \<open>Lemmas\<close>

lemma dropCommon_append:
  "dropCommon bs ts = (b, t) \<Longrightarrow> \<exists>c. bs = c @ b \<and> ts = c @ t"
  by (induction bs ts rule: dropCommon.induct) (auto split: if_splits intro: exI [of _ "_ # _"] exI [of _ "[]"])

lemma rel_outside:
  assumes "dropCommon (pathComponents base) (pathComponents target) = (b # bs, ts)"
  shows "outsideWorkDir (filepathRel base target)"
proof -
  let ?r = "replicate (length bs) ''..'' @ ts"
  have r: "filepathRel base target = joinStr ''/'' (''..'' # ?r)" using assms by (simp add: filepathRel_def)
  show ?thesis
  proof (cases ?r)
    case Nil
    with r show ?thesis by (simp add: outsideWorkDir_def)
  next
    case (Cons x xs)
    with r have "filepathRel base target = ''../'' @ joinStr ''/'' (x # xs)" by simp
    then show ?thesis by (simp add: hasPrefix_def outsideWorkDir_def)
  qed
qed

subsection \<open>Cleaning does not lengthen\<close>

definition weight :: "string list \<Rightarrow> nat" where
  "weight cs = sum_list (map (\<lambda>c. length c + 1) cs)"

lemma weight_cleanStep: "weight (cleanStep rooted st el) \<le> weight st + (if el = [] then 0 else length el + 1)"
  by (auto simp: cleanStep_def weight_def split: list.splits)

lemma weight_cleanSteps:
  "weight (foldl (cleanStep rooted) st els) \<le> weight st + weight (filter (\<lambda>c. c \<noteq> []) els)"
proof (induction els arbitrary: st)
  case (Cons el els)
  show ?case using Cons [of "cleanStep rooted st el"] weight_cleanStep [of rooted st el]
    by (auto simp: weight_def split: if_splits)
qed (simp add: weight_def)

lemma length_joinStr: "length (joinStr ''/'' cs) = weight cs - 1"
  by (induction cs rule: induct_list012) (auto simp: weight_def)

lemma weight_append [simp]: "weight (xs @ ys) = weight xs + weight ys"
  by (simp add: weight_def)

lemma weight_Cons [simp]: "weight (c # cs) = length c + 1 + weight cs"
  by (simp add: weight_def)

lemma weight_Nil [simp]: "weight [] = 0"
  by (simp add: weight_def)

lemma weight_rev [simp]: "weight (rev cs) = weight cs"
  by (induction cs) simp_all

lemma weight_filter: "weight (filter P cs) \<le> weight cs"
  by (induction cs) simp_all

lemma weight_splitByte: "weight (splitByte p c) = length p + 1"
  by (induction p c rule: splitByte.induct) (auto split: list.splits)

lemma splitByte_snoc: "splitByte (q @ [c]) c = splitByte q c @ [[]]"
  by (induction q c rule: splitByte.induct) (auto split: list.splits)

lemma length_pathClean_weight:
  "length (pathClean p) \<le> max 1 (weight (filter (\<lambda>c. c \<noteq> []) (splitByte p CHR ''/'')) - (if hasPrefix p ''/'' then 0 else 1))"
proof -
  let ?st = "foldl (cleanStep (hasPrefix p ''/'')) [] (splitByte p CHR ''/'')"
  have "weight ?st \<le> weight (filter (\<lambda>c. c \<noteq> []) (splitByte p CHR ''/''))"
    using weight_cleanSteps [of "hasPrefix p ''/''" "[]"] by simp
  then show ?thesis by (auto simp: pathClean_def Let_def length_joinStr)
qed

lemma pathClean_trailing: "length (pathClean (q @ ''/'')) \<le> max 1 (length q)"
proof -
  let ?W = "\<lambda>p. weight (filter (\<lambda>c. c \<noteq> []) (splitByte p CHR ''/''))"
  have W: "?W (q @ ''/'') = ?W q" by (simp add: splitByte_snoc)
  have le: "?W q \<le> length q + 1"
    using weight_filter [of "\<lambda>c. c \<noteq> []" "splitByte q CHR ''/''"] by (simp add: weight_splitByte)
  have "?W q \<le> length q" if "hasPrefix q ''/''"
  proof -
    from that obtain q' where "q = CHR ''/'' # q'" by (auto simp: hasPrefix_iff)
    then show ?thesis using weight_filter [of "\<lambda>c. c \<noteq> []" "splitByte q' CHR ''/''"]
      by (simp add: weight_splitByte)
  qed
  moreover have "hasPrefix (q @ ''/'') ''/'' \<longleftrightarrow> hasPrefix q ''/'' \<or> q = []"
    by (cases q) (auto simp: hasPrefix_def)
  ultimately show ?thesis
    using length_pathClean_weight [of "q @ ''/''"] W le by (auto split: if_splits)
qed

lemma afterLastSlash_split: "\<exists>q. p = q @ afterLastSlash p \<and> (q = [] \<or> (\<exists>r. q = r @ ''/''))"
proof -
  let ?a = "takeWhile (\<lambda>c. c \<noteq> CHR ''/'') (rev p)" and ?b = "dropWhile (\<lambda>c. c \<noteq> CHR ''/'') (rev p)"
  have "rev p = ?a @ ?b" by simp
  then have p: "p = rev ?b @ afterLastSlash p" by (metis afterLastSlash_def rev_append rev_rev_ident)
  show ?thesis
  proof (cases ?b)
    case Nil
    then have "p = afterLastSlash p" using p by (metis append_Nil rev.simps(1))
    then show ?thesis by (intro exI [of _ "[]"]) simp
  next
    case (Cons c b)
    then have "c = CHR ''/''" using hd_dropWhile [of "\<lambda>c. c \<noteq> CHR ''/''" "rev p"] by auto
    then show ?thesis using p Cons by (intro exI [of _ "rev ?b"]) auto
  qed
qed

text \<open>The walk to the root by \<open>Dir\<close> ends: a directory is shorter, or it is the dot.\<close>

lemma pathDir_shorter:
  assumes "pathDir p \<noteq> p"
  shows "pathDir p = ''.'' \<or> length (pathDir p) < length p"
proof -
  obtain q a where q: "p = q @ a" "q = [] \<or> (\<exists>r. q = r @ ''/'')" and a: "a = afterLastSlash p"
    using afterLastSlash_split by blast
  have "take (length p - length a) p = q" using q(1) by simp
  then have d: "pathDir p = pathClean q" unfolding pathDir_def a by (rule arg_cong)
  show ?thesis
  proof (cases "q = []")
    case True
    moreover have "pathClean [] = ''.''" by code_simp
    ultimately show ?thesis using d by simp
  next
    case False
    then obtain r where r: "q = r @ ''/''" using q by blast
    have len: "length p = length r + 1 + length a" using q(1) r by simp
    show ?thesis
    proof (cases "r = [] \<and> a = []")
      case True
      then have "p = ''/''" using q r by simp
      moreover have "pathDir ''/'' = ''/''" by code_simp
      ultimately show ?thesis using assms by simp
    next
      case False
      then have "length r > 0 \<or> length a > 0" by auto
      moreover have "length (pathDir p) \<le> max 1 (length r)" using pathClean_trailing [of r] d r by simp
      ultimately show ?thesis using len by linarith
    qed
  qed
qed

end
