(* ===== verification/PlanLoop.thy ===== *)
theory PlanLoop
  imports PlanRun GoPaths
begin

text \<open>
  The state machine of \<open>runPlanTree\<close>: one round of its loop as a function on the loop's
  local variables, the loop, the scoping of the working directory, and the dispatch of nested
  plans.
\<close>

section \<open>The operations of a node\<close>

record nodeRun =
  nrOps :: "PlanOpResult slice"
  nrLast :: PlanOpResult
  nrBlocked :: bool
  nrExecuted :: nat

type_synonym 'w opRunner = "PlanOp \<Rightarrow> 'w runState \<Rightarrow> (PlanOpResult \<times> bool) \<times> 'w runState"

fun runSerial ::
    "'w hostEnv \<Rightarrow> 'w opRunner \<Rightarrow> PlanOp list \<Rightarrow> nodeRun \<Rightarrow> 'w runState \<Rightarrow> nodeRun \<times> 'w runState" where
  "runSerial env runOp [] acc st = (acc, st)"
| "runSerial env runOp (op # ops) acc st =
     (let (stop, st) = ctxErr env st in
      if stop then (acc, st)
      else let ((opRes, isBlocked), st) = runOp op st;
               acc = \<lparr>nrOps = appendSlice (nrOps acc) (boundPlanOpResult opRes), nrLast = opRes,
                      nrBlocked = nrBlocked acc \<or> isBlocked, nrExecuted = Suc (nrExecuted acc)\<rparr>
           in if isBlocked then (acc, st) else runSerial env runOp ops acc st)"

text \<open>The goroutines of a parallel node, in the order they take their turn.\<close>

definition parallelTurn ::
    "'w opRunner \<Rightarrow> PlanOp list \<Rightarrow> nat \<Rightarrow> (PlanOpResult \<times> bool) list \<times> 'w runState
     \<Rightarrow> (PlanOpResult \<times> bool) list \<times> 'w runState" where
  "parallelTurn runOp ops i acc =
     (if i < length ops
      then (let (res, st) = runOp (ops ! i) (snd acc) in ((fst acc)[i := res], st))
      else acc)"

definition runParallel ::
    "'w hostEnv \<Rightarrow> 'w opRunner \<Rightarrow> PlanOp list \<Rightarrow> 'w runState \<Rightarrow> nodeRun \<times> 'w runState" where
  "runParallel env runOp ops st =
     (let (results, st') = fold (parallelTurn runOp ops) (parallelOrder env (world st) (length ops))
                            (replicate (length ops) (emptyOpResult, False), st)
      in (\<lparr>nrOps = Some (map (\<lambda>(r, _). boundPlanOpResult r) results),
           nrLast = (if results = [] then emptyOpResult else fst (last results)),
           nrBlocked = list_ex snd results, nrExecuted = length ops\<rparr>, st'))"

definition runNode ::
    "'w hostEnv \<Rightarrow> 'w dispatcher \<Rightarrow> Engine \<Rightarrow> planCtx \<Rightarrow> bool \<Rightarrow> PlanNode \<Rightarrow> 'w runState
     \<Rightarrow> nodeRun \<times> 'w runState" where
  "runNode env disp eng ctx planForce node st =
     (let runOp = (if Mutates node then runMutatingOp env disp eng ctx node planForce
                   else runPlanOp env disp eng ctx) in
      if Parallel node \<and> length (Commands node) > 1
      then runParallel env runOp (Commands node) st
      else runSerial env runOp (Commands node)
             \<lparr>nrOps = None, nrLast = emptyOpResult, nrBlocked = False, nrExecuted = 0\<rparr> st)"

section \<open>Edges\<close>

datatype edgeOutcome = EdgeAborted | EdgeFailed | EdgeTaken string | EdgeNone

fun runEdges ::
    "'w hostEnv \<Rightarrow> Engine \<Rightarrow> PlanOpResult \<Rightarrow> PlanEdge list \<Rightarrow> nat \<Rightarrow> 'w runState
     \<Rightarrow> edgeOutcome \<times> nat \<times> 'w runState" where
  "runEdges env eng lastRes [] evaluated st = (EdgeNone, evaluated, st)"
| "runEdges env eng lastRes (e # es) evaluated st =
     (let (stop, st) = ctxErr env st in
      if stop then (EdgeAborted, evaluated, st)
      else case evaluateCondition (textual env) (rootedStat env eng (world st)) lastRes (When e) of
        Inl _ \<Rightarrow> (EdgeFailed, Suc evaluated, st)
      | Inr True \<Rightarrow> (EdgeTaken (To e), Suc evaluated, st)
      | Inr False \<Rightarrow> runEdges env eng lastRes es (Suc evaluated) st)"

section \<open>The loop\<close>

text \<open>The local variables of the loop.\<close>

record planLoopState =
  lsDepth :: int
  currentID :: string
  pathTaken :: "string slice"
  transcript :: "PlanNodeResult slice"
  edgesEvaluated :: nat
  edgesMatched :: nat
  lsNodes :: nat
  lsOperations :: nat

definition initialLoop :: "PlanTree \<Rightarrow> planLoopState" where
  "initialLoop plan = \<lparr>lsDepth = 0, currentID = Root plan, pathTaken = None, transcript = None,
     edgesEvaluated = 0, edgesMatched = 0, lsNodes = 0, lsOperations = 0\<rparr>"

text \<open>
  The last node with an identifier, as \<open>byID\<close> keeps it.
\<close>

definition byID :: "PlanTree \<Rightarrow> string \<Rightarrow> PlanNode option" where
  "byID plan i = map_of (rev (map (\<lambda>n. (ID n, n)) (Nodes plan))) i"

definition stopRun :: "planExecutionContext \<Rightarrow> planLoopState \<Rightarrow> StopReason \<Rightarrow> PlanRunResult" where
  "stopRun opCtx ls reason =
     newPlanRunResult (transcript ls) (pathTaken ls) (ctxDepth opCtx + lsDepth ls) reason
       (edgesEvaluated ls) (edgesMatched ls) (lsNodes ls) (lsOperations ls)"

text \<open>
  A round ends the run, goes on with new variables, or dereferences the nil pointer that an
  identifier without node gives.
\<close>

datatype roundOutcome = Stopped PlanRunResult | Continue planLoopState | NilNode

definition finishNode ::
    "'w hostEnv \<Rightarrow> Engine \<Rightarrow> planExecutionContext \<Rightarrow> PlanNode \<Rightarrow> nodeRun \<Rightarrow> planLoopState \<Rightarrow> 'w runState
     \<Rightarrow> roundOutcome \<times> 'w runState" where
  "finishNode env eng opCtx node run ls st =
     (if nrBlocked run then (Stopped (stopRun opCtx ls StopMutationBlocked), st)
      else let (outcome, evaluated, st) = runEdges env eng (nrLast run) (Edges node) (edgesEvaluated ls) st;
               ls = ls\<lparr>edgesEvaluated := evaluated\<rparr> in
        case outcome of
          EdgeAborted \<Rightarrow> (Stopped (stopRun opCtx ls StopAborted), st)
        | EdgeFailed \<Rightarrow> (Stopped (stopRun opCtx ls StopError), st)
        | EdgeTaken target \<Rightarrow>
            (Continue (ls\<lparr>edgesMatched := Suc (edgesMatched ls), currentID := target,
                         lsDepth := lsDepth ls + 1\<rparr>), st)
        | EdgeNone \<Rightarrow>
            (Stopped (stopRun opCtx ls (if Edges node = [] then StopLeaf else StopNoEdgeMatch)), st))"

text \<open>The operations of the current node, its transcript entry, and the budget of the transcript.\<close>

definition noteNode :: "planExecutionContext \<Rightarrow> nodeRun \<Rightarrow> planLoopState \<Rightarrow> planLoopState" where
  "noteNode opCtx run ls =
     ls\<lparr>lsNodes := Suc (lsNodes ls), lsOperations := lsOperations ls + nrExecuted run,
        pathTaken := appendSlice (pathTaken ls) (currentID ls),
        transcript := appendSlice (transcript ls)
          \<lparr>NodeID = currentID ls, Depth = ctxDepth opCtx + lsDepth ls, Ops = nrOps run\<rparr>\<rparr>"

definition withinBudget :: "planExecutionContext \<Rightarrow> planLoopState \<Rightarrow> bool" where
  "withinBudget opCtx ls =
     planTranscriptWithinBudget (transcript ls) (pathTaken ls) (ctxDepth opCtx + lsDepth ls)
       (edgesEvaluated ls) (edgesMatched ls)"

definition fitNode :: "planExecutionContext \<Rightarrow> planLoopState \<Rightarrow> planLoopState" where
  "fitNode opCtx ls =
     (let (tr, pt) = fitPlanTranscript (elems (transcript ls)) (elems (pathTaken ls))
                       (ctxDepth opCtx + lsDepth ls) (edgesEvaluated ls) (edgesMatched ls)
      in ls\<lparr>transcript := tr, pathTaken := pt\<rparr>)"

definition executeNode ::
    "'w hostEnv \<Rightarrow> 'w dispatcher \<Rightarrow> Engine \<Rightarrow> planExecutionContext \<Rightarrow> PlanTree \<Rightarrow> PlanNode \<Rightarrow> planLoopState
     \<Rightarrow> 'w runState \<Rightarrow> roundOutcome \<times> 'w runState" where
  "executeNode env disp eng opCtx plan node ls st =
     (let nodeCtx = \<lparr>parent = Some (opCtx\<lparr>ctxDepth := ctxDepth opCtx + lsDepth ls\<rparr>),
                     nestedAuthorization = False\<rparr>;
          (run, st) = runNode env disp eng nodeCtx (PlanForce plan \<and> dangerousAuthorized opCtx) node st;
          ls = noteNode opCtx run ls in
      if \<not> withinBudget opCtx ls
      then let (stop, st) = ctxErr env st
           in (Stopped (stopRun opCtx (fitNode opCtx ls) (if stop then StopAborted else StopResourceLimit)), st)
      else let (stop, st) = ctxErr env st in
        if stop then (Stopped (stopRun opCtx ls StopAborted), st)
        else finishNode env eng opCtx node run ls st)"

definition planRound ::
    "'w hostEnv \<Rightarrow> 'w dispatcher \<Rightarrow> Engine \<Rightarrow> planExecutionContext \<Rightarrow> PlanTree \<Rightarrow> planLoopState \<Rightarrow> 'w runState
     \<Rightarrow> roundOutcome \<times> 'w runState" where
  "planRound env disp eng opCtx plan ls st =
     (let (stop, st) = ctxErr env st in
      if stop then (Stopped (stopRun opCtx ls StopAborted), st)
      else if ctxDepth opCtx + lsDepth ls > ctxMaxDepth opCtx
      then (Stopped (stopRun opCtx ls StopMaxDepth), st)
      else case byID plan (currentID ls) of
        None \<Rightarrow> (NilNode, st)
      | Some node \<Rightarrow>
        (let (granted, st) = reservePlanOperations (length (Commands node)) st in
         if \<not> granted then (Stopped (stopRun opCtx ls StopResourceLimit), st)
         else executeNode env disp eng opCtx plan node ls st))"

lemma finishNode_Continue:
  assumes "finishNode env eng opCtx node run ls st = (Continue ls', st')"
  shows "lsDepth ls' = lsDepth ls + 1"
  using assms
  by (cases "runEdges env eng (nrLast run) (Edges node) (edgesEvaluated ls) st")
    (auto simp: finishNode_def Let_def split: if_splits edgeOutcome.splits)

lemma noteNode_depth [simp]: "lsDepth (noteNode opCtx run ls) = lsDepth ls"
  by (simp add: noteNode_def)

lemma executeNode_Continue:
  assumes "executeNode env disp eng opCtx plan node ls st = (Continue ls', st')"
  obtains run l s where "finishNode env eng opCtx node run l s = (Continue ls', st')"
    "lsDepth l = lsDepth ls"
proof -
  define ctx where "ctx = \<lparr>parent = Some (opCtx\<lparr>ctxDepth := ctxDepth opCtx + lsDepth ls\<rparr>), nestedAuthorization = False\<rparr>"
  obtain run st1 where run:
    "runNode env disp eng ctx (PlanForce plan \<and> dangerousAuthorized opCtx) node st = (run, st1)"
    by (rule prod.exhaust)
  obtain stop st2 where "ctxErr env st1 = (stop, st2)" by (rule prod.exhaust)
  with assms run have "finishNode env eng opCtx node run (noteNode opCtx run ls) st2 = (Continue ls', st')"
    by (simp add: executeNode_def Let_def ctx_def [symmetric] split: if_splits)
  then show thesis by (rule that) simp
qed

lemma planRound_Continue:
  assumes "planRound env disp eng opCtx plan ls st = (Continue ls', st')"
  shows "lsDepth ls' = lsDepth ls + 1" and "ctxDepth opCtx + lsDepth ls \<le> ctxMaxDepth opCtx"
proof -
  from assms obtain node s where "executeNode env disp eng opCtx plan node ls s = (Continue ls', st')"
    and d: "ctxDepth opCtx + lsDepth ls \<le> ctxMaxDepth opCtx"
    by (auto simp: planRound_def Let_def not_less split: if_splits prod.splits option.splits)
  then show "lsDepth ls' = lsDepth ls + 1"
    by (elim executeNode_Continue) (simp add: finishNode_Continue)
  show "ctxDepth opCtx + lsDepth ls \<le> ctxMaxDepth opCtx" by (rule d)
qed

lemma planRound_step:
  "(Continue ls', st') = planRound env disp eng opCtx plan ls st \<Longrightarrow>
   lsDepth ls' = lsDepth ls + 1 \<and> ctxDepth opCtx + lsDepth ls \<le> ctxMaxDepth opCtx"
  using planRound_Continue [OF sym] by blast

function planLoop ::
    "'w hostEnv \<Rightarrow> 'w dispatcher \<Rightarrow> Engine \<Rightarrow> planExecutionContext \<Rightarrow> PlanTree \<Rightarrow> planLoopState \<Rightarrow> 'w runState
     \<Rightarrow> PlanRunResult option \<times> 'w runState" where
  "planLoop env disp eng opCtx plan ls st =
     (case planRound env disp eng opCtx plan ls st of
        (Stopped r, st') \<Rightarrow> (Some r, st')
      | (NilNode, st') \<Rightarrow> (None, st')
      | (Continue ls', st') \<Rightarrow> planLoop env disp eng opCtx plan ls' st')"
  by pat_completeness auto
termination
  by (relation "measure (\<lambda>(env, disp, eng, opCtx, plan, ls, st).
        nat (ctxMaxDepth opCtx + 1 - (ctxDepth opCtx + lsDepth ls)))")
    (auto dest!: planRound_step)

declare planLoop.simps [simp del]

section \<open>The working directory of a plan\<close>

definition scopedPlanEngine :: "'w hostEnv \<Rightarrow> Engine \<Rightarrow> string \<Rightarrow> 'w \<Rightarrow> goError + Engine" where
  "scopedPlanEngine env eng cwd w =
     (if cwd = [] then Inr eng
      else case evalSymlinks env w (if hasPrefix cwd ''/'' then cwd else filepathJoin (workDir eng) cwd) of
        Inl err \<Rightarrow> Inl (plainError (''resolve plan cwd: '' @ err))
      | Inr resolved \<Rightarrow>
        (case statIsDir env w resolved of
           Inl err \<Rightarrow> Inl (plainError (''stat plan cwd: '' @ err))
         | Inr isDir \<Rightarrow>
           (if \<not> isDir then Inl (plainError (''plan cwd is not a directory: '' @ cwd))
            else let rel = filepathRel (workDir eng) resolved in
              if outsideWorkDir rel
              then Inl (plainError (''plan cwd is outside working directory: '' @ cwd))
              else case openRoot env w (workDir eng) rel of
                Some err \<Rightarrow> Inl (plainError (''open plan cwd root: '' @ err))
              | None \<Rightarrow> Inr (eng\<lparr>workDir := resolved\<rparr>))))"

lemma scopedPlanEngine_Inr:
  assumes "scopedPlanEngine env eng cwd w = Inr eng'" "cwd \<noteq> []"
  obtains resolved where "eng' = eng\<lparr>workDir := resolved\<rparr>"
    "\<not> outsideWorkDir (filepathRel (workDir eng) resolved)"
proof -
  define p where "p = (if hasPrefix cwd ''/'' then cwd else filepathJoin (workDir eng) cwd)"
  note A = assms(1) [unfolded scopedPlanEngine_def Let_def, folded p_def]
  from A assms(2) obtain r where e: "evalSymlinks env w p = Inr r" by (cases "evalSymlinks env w p") simp_all
  note B = A [unfolded e sum.case if_not_P [OF assms(2)]]
  then have "statIsDir env w r = Inr True"
    by (cases "statIsDir env w r") (simp_all only: sum.case sum.distinct not_False_eq_True if_True split: if_split_asm)
  note C = B [unfolded this sum.case not_True_eq_False if_False]
  show thesis
  proof (cases "outsideWorkDir (filepathRel (workDir eng) r)")
    case True
    from C [unfolded if_P [OF True]] show thesis by (simp only: sum.distinct)
  next
    case False
    from C [unfolded if_not_P [OF False]] have "eng' = eng\<lparr>workDir := r\<rparr>"
      by (cases "openRoot env w (workDir eng) (filepathRel (workDir eng) r)")
        (simp_all only: option.case sum.distinct sum.inject)
    then show thesis using False by (rule that)
  qed
qed

lemma scopedPlanEngine_mode: "scopedPlanEngine env eng cwd w = Inr eng' \<Longrightarrow> shellMode eng' = shellMode eng"
proof (cases "cwd = []")
  case True
  moreover assume "scopedPlanEngine env eng cwd w = Inr eng'"
  ultimately have "eng' = eng" by (simp only: scopedPlanEngine_def if_True sum.inject simp_thms)
  then show ?thesis by simp
next
  case False
  moreover assume "scopedPlanEngine env eng cwd w = Inr eng'"
  ultimately show ?thesis by (elim scopedPlanEngine_Inr) simp_all
qed

section \<open>Plans and nested plans\<close>

definition nilDereference :: goError where
  "nilDereference = plainError ''invalid memory address or nil pointer dereference''"

definition runPlanTree ::
    "'w hostEnv \<Rightarrow> 'w dispatcher \<Rightarrow> Engine \<Rightarrow> planCtx \<Rightarrow> PlanTree \<Rightarrow> 'w runState
     \<Rightarrow> (goError + PlanRunResult) \<times> 'w runState" where
  "runPlanTree env disp eng ctx plan st =
     (let opCtx = planExecutionContextFor ctx plan; st = planBudgetFor ctx st in
      if ctxDepth opCtx > ctxMaxDepth opCtx
      then (Inr (newPlanRunResult None None (ctxDepth opCtx) StopMaxDepth 0 0 0 0), st)
      else case scopedPlanEngine env eng (Cwd plan) (world st) of
        Inl err \<Rightarrow> (Inl err, st)
      | Inr planEngine \<Rightarrow>
        (let (r, st) = planLoop env disp planEngine opCtx plan (initialLoop plan) st in
         (case r of Some res \<Rightarrow> Inr res | None \<Rightarrow> Inl nilDereference, st)))"

definition usesShell :: "PlanTree \<Rightarrow> bool" where
  "usesShell plan \<longleftrightarrow>
     (\<exists>node \<in> set (Nodes plan). \<exists>op \<in> set (Commands node). Shell op \<noteq> [] \<or> Tool op = ''run_shell'')"

definition dispatchPlanOps ::
    "'w hostEnv \<Rightarrow> 'w dispatcher \<Rightarrow> Engine \<Rightarrow> planCtx \<Rightarrow> toolArgs \<Rightarrow> 'w runState
     \<Rightarrow> (goError + ToolResult) \<times> 'w runState" where
  "dispatchPlanOps env disp eng ctx args st =
     (case map_of args ''plan'' of
        None \<Rightarrow> (Inl (ErrWithSuggestion (''args['' @ [dquote] @ ''plan'' @ [dquote] @ ''] is required'')
                  ''provide a plan object with root and nodes'' ''invalid_args''), st)
      | Some rawPlan \<Rightarrow>
        (case coercePlan env rawPlan of
           Inl err \<Rightarrow> (Inl err, st)
         | Inr plan \<Rightarrow>
           (case validatePlan (textual env) plan of
              Some err \<Rightarrow> (Inl err, st)
            | None \<Rightarrow>
              (if shellMode eng = ShellModeDisabled \<and> usesShell plan
               then (Inl (ErrWithSuggestion ''run_plan shell operations are disabled''
                      ''restart jinn with --shell-mode=sandboxed or remove shell operations''
                      ''plan_invalid''), st)
               else let (r, st) = runPlanTree env disp eng ctx plan st in
                 (case r of
                    Inl err \<Rightarrow> Inl err
                  | Inr res \<Rightarrow> Inr \<lparr>Text = [],
                      PlanRun = Some (res\<lparr>Transcript := shapePlanTranscript (Transcript res)\<rparr>)\<rparr>, st)))))"

text \<open>\<open>Dispatch\<close>, with the dispatcher of nested plans as an argument.\<close>

definition dispatchWith :: "'w hostEnv \<Rightarrow> 'w dispatcher \<Rightarrow> 'w dispatcher" where
  "dispatchWith env disp eng ctx tool args st =
     (if engineLookupToolDescriptor (shellMode eng) tool = None
      then (Inl (plainError (''unknown tool: '' @ tool)), st)
      else case validateToolArgs env tool args of
        Some err \<Rightarrow> (Inl err, st)
      | None \<Rightarrow>
        (if tool = ''run_shell'' then
           (let ((text, _, err), w) = runShell (executeShell env eng) (shellMode eng) args (world st)
            in (case err of Some e \<Rightarrow> Inl e | None \<Rightarrow> Inr \<lparr>Text = text, PlanRun = None\<rparr>, st\<lparr>world := w\<rparr>))
         else if tool = ''run_plan'' then dispatchPlanOps env disp eng ctx args st
         else (let (r, w) = otherTool env eng tool args (world st) in (r, st\<lparr>world := w\<rparr>))))"

text \<open>
  The recursion through nested plans, cut at \<open>n\<close> levels, below which an arbitrary dispatcher
  answers.
\<close>

fun planDispatch :: "'w hostEnv \<Rightarrow> 'w dispatcher \<Rightarrow> nat \<Rightarrow> 'w dispatcher" where
  "planDispatch env bad 0 = bad"
| "planDispatch env bad (Suc n) = dispatchWith env (planDispatch env bad n)"

end
