(* ===== verification/PlanBudget.thy ===== *)
theory PlanBudget
  imports PlanLoop
begin

text \<open>
  Bounds of a run: the operation budget a plan shares with the plans nested in it, the depth of
  the nesting, and the absence of nil dereferences in validated plans.

  What the plan engine needs of the dispatcher it calls is the locale \<open>plan_dispatcher\<close>;
  it is proved once that an engine over such a dispatcher is one again, and the model's own
  dispatcher \<open>planDispatch\<close> is an instance.
\<close>

section \<open>The contract of a dispatcher\<close>

definition grantedWithin :: "'w runState \<Rightarrow> 'w runState \<Rightarrow> bool" where
  "grantedWithin st st' \<longleftrightarrow>
     (reserved st \<le> maxPlanOperations \<longrightarrow> reserved st \<le> reserved st' \<and> reserved st' \<le> maxPlanOperations)"

lemma grantedWithin_refl [simp]: "reserved st = reserved st' \<Longrightarrow> grantedWithin st st'"
  by (simp add: grantedWithin_def)

lemma grantedWithin_trans [trans]: "grantedWithin s t \<Longrightarrow> grantedWithin t u \<Longrightarrow> grantedWithin s u"
  by (auto simp: grantedWithin_def)

lemma reserved_ctxErr [simp]: "reserved (snd (ctxErr env st)) = reserved st"
  by (simp add: ctxErr_def case_prod_beta)

lemma reserved_runPlanShell [simp]: "reserved (snd (runPlanShell env eng c args f st)) = reserved st"
  by (simp add: runPlanShell_def case_prod_beta)

lemma reserve_granted:
  assumes "reservePlanOperations n st = (True, st')"
  shows "reserved st' = reserved st + n \<and> reserved st' \<le> maxPlanOperations"
  using assms by (auto simp: reservePlanOperations_def split: if_splits)

lemma reserve_refused:
  assumes "reservePlanOperations n st = (False, st')"
  shows "st' = st \<and> maxPlanOperations < reserved st + n"
  using assms by (auto simp: reservePlanOperations_def split: if_splits)

locale plan_dispatcher =
  fixes disp :: "'w dispatcher"
  assumes nested_budget: "parent ctx \<noteq> None \<Longrightarrow> grantedWithin st (snd (disp eng ctx tool args st))"
begin

lemma runPlanOp_budget: "parent ctx \<noteq> None \<Longrightarrow> grantedWithin st (snd (runPlanOp env disp eng ctx op st))"
  using nested_budget [of ctx st eng "Tool op" "Args op"]
  by (simp add: runPlanOp_def Let_def case_prod_beta)

lemma runMutatingOp_budget:
  "parent ctx \<noteq> None \<Longrightarrow> grantedWithin st (snd (runMutatingOp env disp eng ctx node force op st))"
  by (auto simp: runMutatingOp_def Let_def case_prod_beta nested_budget split: sum.split)

end

text \<open>The turns of a node keep any relation between states that is reflexive and transitive.\<close>

locale op_runner =
  fixes runOp :: "'w opRunner" and env :: "'w hostEnv" and keeps :: "'w runState \<Rightarrow> 'w runState \<Rightarrow> bool"
  assumes keeps_refl: "keeps s s"
    and keeps_trans: "keeps s t \<Longrightarrow> keeps t u \<Longrightarrow> keeps s u"
    and keeps_ctx: "keeps s (snd (ctxErr env s))"
    and keeps_op: "keeps s (snd (runOp op s))"
begin

lemma runSerial_keeps: "keeps st (snd (runSerial env runOp ops acc st))"
proof (induction ops arbitrary: acc st)
  case (Cons op ops)
  have c: "keeps st (snd (ctxErr env st))" by (rule keeps_ctx)
  have o: "keeps st (snd (runOp op (snd (ctxErr env st))))" by (rule keeps_trans [OF c keeps_op])
  from keeps_trans [OF o Cons.IH] c o show ?case
    by (simp add: Let_def case_prod_beta)
qed (simp add: keeps_refl)

lemma parallelTurn_keeps: "keeps (snd acc) (snd (parallelTurn runOp ops i acc))"
  by (simp add: parallelTurn_def Let_def case_prod_beta keeps_refl keeps_op)

lemma fold_keeps: "keeps (snd acc) (snd (fold (parallelTurn runOp ops) is acc))"
proof (induction "is" arbitrary: acc)
  case (Cons i "is")
  show ?case using keeps_trans [OF parallelTurn_keeps Cons.IH] by simp
qed (simp add: keeps_refl)

lemma runParallel_keeps: "keeps st (snd (runParallel env runOp ops st))"
  using fold_keeps [of "(replicate (length ops) (emptyOpResult, False), st)"]
  by (simp add: runParallel_def Let_def case_prod_beta)

end

text \<open>The runs of a node execute no more operations than the node has.\<close>

lemma runSerial_executed:
  "nrExecuted (fst (runSerial env runOp ops acc st)) \<le> nrExecuted acc + length ops"
proof (induction ops arbitrary: acc st)
  case (Cons op ops)
  show ?case by (auto simp: Let_def case_prod_beta intro: order_trans [OF Cons.IH])
qed simp

lemma runNode_executed: "nrExecuted (fst (runNode env disp eng ctx f node st)) \<le> length (Commands node)"
  using runSerial_executed [of env _ "Commands node" "\<lparr>nrOps = None, nrLast = emptyOpResult, nrBlocked = False, nrExecuted = 0\<rparr>" st]
  by (simp add: runNode_def runParallel_def Let_def case_prod_beta)

lemma reserved_runEdges [simp]: "reserved (snd (snd (runEdges env eng l es n st))) = reserved st"
  by (induction es arbitrary: n st)
    (auto simp: Let_def case_prod_beta split: sum.split bool.split)

lemma reserved_finishNode [simp]: "reserved (snd (finishNode env eng opCtx node run ls st)) = reserved st"
  by (cases "runEdges env eng (nrLast run) (Edges node) (edgesEvaluated ls) st")
    (use reserved_runEdges [of env eng "nrLast run" "Edges node" "edgesEvaluated ls" st] in
      \<open>auto simp: finishNode_def Let_def split: edgeOutcome.split\<close>)

section \<open>The budget of a round, a loop and a plan\<close>

text \<open>The operations a round has counted when it is over.\<close>

definition spent :: "roundOutcome \<Rightarrow> nat" where
  "spent out = (case out of Stopped r \<Rightarrow> executedOperations r | Continue ls \<Rightarrow> lsOperations ls | NilNode \<Rightarrow> 0)"

lemma executed_stopRun [simp]: "executedOperations (stopRun opCtx ls reason) = lsOperations ls"
  by (simp add: stopRun_def newPlanRunResult_def)

lemma spent_finishNode: "spent (fst (finishNode env eng opCtx node run ls st)) \<le> lsOperations ls"
  by (cases "runEdges env eng (nrLast run) (Edges node) (edgesEvaluated ls) st")
    (auto simp: finishNode_def spent_def Let_def split: edgeOutcome.split)

lemma operations_noteNode [simp]:
  "lsOperations (noteNode opCtx run ls) = lsOperations ls + nrExecuted run"
  "lsOperations (fitNode opCtx ls) = lsOperations ls"
  by (simp_all add: noteNode_def fitNode_def case_prod_beta)

lemma executeNode_outcome:
  fixes opCtx env st plan node ls
  defines "ctx \<equiv> \<lparr>parent = Some (opCtx\<lparr>ctxDepth := ctxDepth opCtx + lsDepth ls\<rparr>), nestedAuthorization = False\<rparr>"
  defines "f \<equiv> PlanForce plan \<and> dangerousAuthorized opCtx"
  shows "spent (fst (executeNode env disp eng opCtx plan node ls st)) \<le>
         lsOperations ls + nrExecuted (fst (runNode env disp eng ctx f node st))"
    and "reserved (snd (executeNode env disp eng opCtx plan node ls st)) =
         reserved (snd (runNode env disp eng ctx f node st))"
proof -
  obtain run st1 where run: "runNode env disp eng ctx f node st = (run, st1)" by (rule prod.exhaust)
  obtain stop st2 where stop: "ctxErr env st1 = (stop, st2)" by (rule prod.exhaust)
  have "reserved st2 = reserved st1" using reserved_ctxErr [of env st1] stop by simp
  with run stop show "spent (fst (executeNode env disp eng opCtx plan node ls st)) \<le>
         lsOperations ls + nrExecuted (fst (runNode env disp eng ctx f node st))"
    and "reserved (snd (executeNode env disp eng opCtx plan node ls st)) =
         reserved (snd (runNode env disp eng ctx f node st))"
    using spent_finishNode [of env eng opCtx node run "noteNode opCtx run ls" st2]
    by (auto simp: executeNode_def Let_def ctx_def f_def spent_def)
qed

text \<open>The ways a round goes.\<close>

lemma planRound_cases:
  assumes "planRound env disp eng opCtx plan ls st = (out, st')"
  obtains (ended) reason where "out = Stopped (stopRun opCtx ls reason)" "reserved st' = reserved st"
      "reason = StopAborted \<or> reason = StopMaxDepth \<or> reason = StopResourceLimit"
  | (nil) "byID plan (currentID ls) = None" "out = NilNode" "reserved st' = reserved st"
  | (node) node s where "byID plan (currentID ls) = Some node"
      "ctxDepth opCtx + lsDepth ls \<le> ctxMaxDepth opCtx"
      "reserved s = reserved st + length (Commands node)" "reserved s \<le> maxPlanOperations"
      "executeNode env disp eng opCtx plan node ls s = (out, st')"
proof -
  obtain stop s1 where c: "ctxErr env st = (stop, s1)" by (rule prod.exhaust)
  then have s1: "reserved s1 = reserved st" using reserved_ctxErr [of env st] by simp
  show thesis
  proof (cases "stop \<or> ctxDepth opCtx + lsDepth ls > ctxMaxDepth opCtx")
    case True
    with assms c s1 show thesis by (auto simp: planRound_def split: if_splits intro: ended)
  next
    case go: False
    show thesis
    proof (cases "byID plan (currentID ls)")
      case None
      with assms c s1 go show thesis by (intro nil) (auto simp: planRound_def)
    next
      case (Some n)
      obtain g s2 where g: "reservePlanOperations (length (Commands n)) s1 = (g, s2)" by (rule prod.exhaust)
      show thesis
      proof (cases g)
        case False
        then have "s2 = s1" using g reserve_refused by auto
        with False assms c s1 go Some g show thesis by (intro ended) (auto simp: planRound_def)
      next
        case True
        then have "reserved s2 = reserved s1 + length (Commands n) \<and> reserved s2 \<le> maxPlanOperations"
          using reserve_granted [of "length (Commands n)" s1 s2] g by simp
        with True assms c s1 go Some g show thesis by (intro node) (auto simp: planRound_def)
      qed
    qed
  qed
qed

abbreviation nodeCtx :: "planExecutionContext \<Rightarrow> planCtx" where
  "nodeCtx p \<equiv> \<lparr>parent = Some p, nestedAuthorization = False\<rparr>"

sublocale plan_dispatcher \<subseteq>
  mutating: op_runner "runMutatingOp env disp eng (nodeCtx p) node f" env grantedWithin for env eng p node f
  by unfold_locales (auto simp: runMutatingOp_budget intro: grantedWithin_trans)

sublocale plan_dispatcher \<subseteq>
  reading: op_runner "runPlanOp env disp eng (nodeCtx p)" env grantedWithin for env eng p
  by unfold_locales (auto simp: runPlanOp_budget intro: grantedWithin_trans)

context plan_dispatcher
begin

lemma runNode_budget: "grantedWithin st (snd (runNode env disp eng (nodeCtx p) f node st))"
  by (auto simp: runNode_def Let_def mutating.runSerial_keeps mutating.runParallel_keeps
      reading.runSerial_keeps reading.runParallel_keeps)

text \<open>A round spends what it reserves, and what it counts is reserved.\<close>

lemma planRound_budget:
  assumes "planRound env disp eng opCtx plan ls st = (out, st')" and le: "reserved st \<le> maxPlanOperations"
  shows "reserved st \<le> reserved st' \<and> reserved st' \<le> maxPlanOperations \<and>
    spent out + reserved st \<le> lsOperations ls + reserved st'"
  using assms(1)
proof (cases rule: planRound_cases)
  case (node node s)
  let ?p = "opCtx\<lparr>ctxDepth := ctxDepth opCtx + lsDepth ls\<rparr>"
  let ?n = "runNode env disp eng (nodeCtx ?p) (PlanForce plan \<and> dangerousAuthorized opCtx) node s"
  have "grantedWithin s (snd ?n)" by (rule runNode_budget)
  moreover have "nrExecuted (fst ?n) \<le> length (Commands node)" by (rule runNode_executed)
  moreover have "spent out \<le> lsOperations ls + nrExecuted (fst ?n)" "reserved st' = reserved (snd ?n)"
    using executeNode_outcome [of env disp eng opCtx plan node ls s] node(5) by simp_all
  ultimately show ?thesis using node(3,4) by (simp add: grantedWithin_def)
qed (use le in \<open>auto simp: spent_def\<close>)

lemma planLoop_budget:
  assumes "planLoop env disp eng opCtx plan ls st = (out, st')" and "reserved st \<le> maxPlanOperations"
  shows "reserved st \<le> reserved st' \<and> reserved st' \<le> maxPlanOperations \<and>
    (\<forall>r. out = Some r \<longrightarrow> executedOperations r + reserved st \<le> lsOperations ls + reserved st')"
  using assms
proof (induction "nat (ctxMaxDepth opCtx + 1 - (ctxDepth opCtx + lsDepth ls))" arbitrary: ls st rule: less_induct)
  case less
  obtain o1 s1 where r: "planRound env disp eng opCtx plan ls st = (o1, s1)" by (rule prod.exhaust)
  from planRound_budget [OF r less.prems(2)]
  have b: "reserved st \<le> reserved s1" "reserved s1 \<le> maxPlanOperations"
    "spent o1 + reserved st \<le> lsOperations ls + reserved s1" by auto
  show ?case
  proof (cases o1)
    case (Continue l)
    with r planRound_Continue have "lsDepth l = lsDepth ls + 1"
      "ctxDepth opCtx + lsDepth ls \<le> ctxMaxDepth opCtx" by blast+
    moreover from less.prems(1) r Continue have "planLoop env disp eng opCtx plan l s1 = (out, st')"
      by (simp add: planLoop.simps [of env disp eng opCtx plan ls])
    ultimately show ?thesis using less.hyps [of l s1] b Continue by (auto simp: spent_def)
  qed (use less.prems r b in \<open>auto simp: planLoop.simps [of env disp eng opCtx plan ls] spent_def\<close>)
qed

lemma runPlanTree_budget:
  assumes "runPlanTree env disp eng ctx plan st = (out, st')"
    and "reserved (planBudgetFor ctx st) \<le> maxPlanOperations"
  shows "reserved (planBudgetFor ctx st) \<le> reserved st' \<and> reserved st' \<le> maxPlanOperations \<and>
    (\<forall>r. out = Inr r \<longrightarrow> executedOperations r + reserved (planBudgetFor ctx st) \<le> reserved st')"
proof (cases "ctxDepth (planExecutionContextFor ctx plan) > ctxMaxDepth (planExecutionContextFor ctx plan)")
  case True
  with assms show ?thesis by (auto simp: runPlanTree_def Let_def newPlanRunResult_def)
next
  case go: False
  show ?thesis
  proof (cases "scopedPlanEngine env eng (Cwd plan) (world (planBudgetFor ctx st))")
    case (Inr e)
    obtain r s where r: "planLoop env disp e (planExecutionContextFor ctx plan) plan (initialLoop plan)
      (planBudgetFor ctx st) = (r, s)" by (rule prod.exhaust)
    have "lsOperations (initialLoop plan) = 0" by (simp add: initialLoop_def)
    with planLoop_budget [OF r assms(2)] go Inr r assms(1) show ?thesis
      by (auto simp: runPlanTree_def Let_def split: option.splits)
  qed (use go assms in \<open>auto simp: runPlanTree_def Let_def\<close>)
qed

lemma dispatchWith_budget:
  assumes "parent ctx \<noteq> None"
  shows "grantedWithin st (snd (dispatchWith env disp eng ctx tool args st))"
proof -
  have s: "planBudgetFor ctx st = st" using assms by (auto simp: planBudgetFor_def)
  have "grantedWithin st (snd (dispatchPlanOps env disp eng ctx args st))"
    using runPlanTree_budget [OF prod.collapse [symmetric], where env = env and eng = eng and ctx = ctx and st = st]
    by (auto simp: dispatchPlanOps_def grantedWithin_def s Let_def case_prod_beta
        split: option.split sum.split)
  then show ?thesis
    by (auto simp: dispatchWith_def Let_def case_prod_beta split: option.split)
qed

end

section \<open>The model's dispatcher\<close>

text \<open>A dispatcher that refuses every call, to close the recursion with.\<close>

definition noDispatch :: "'w dispatcher" where
  "noDispatch eng ctx tool args st = (Inl (plainError ''dispatch limit''), st)"

lemma planDispatch_contract: "plan_dispatcher bad \<Longrightarrow> plan_dispatcher (planDispatch env bad n)"
proof (induction n)
  case (Suc n)
  then have "plan_dispatcher (planDispatch env bad n)" by simp
  then show ?case by (simp add: plan_dispatcher_def plan_dispatcher.dispatchWith_budget)
qed simp

interpretation engine: plan_dispatcher "planDispatch env noDispatch n" for env :: "'w hostEnv" and n
  by (rule planDispatch_contract) (simp add: plan_dispatcher_def noDispatch_def)

end
