(* ===== verification/PlanTwin.thy ===== *)
theory PlanTwin
  imports PlanBudget
begin

text \<open>
  Runs compared: two hosts that differ at most in how they execute shell commands, and two
  dispatchers, give the same run when the operations of the nodes do.  With it, the recursion
  through nested plans is shown to be bounded, and a plan without force to execute no dangerous
  command.
\<close>

section \<open>Two hosts\<close>

locale twin_hosts =
  fixes env env' :: "'w hostEnv"
  assumes same_ctx: "ctxDone env' = ctxDone env"
    and same_text: "textual env' = textual env"
    and same_stat: "rootedStat env' = rootedStat env"
    and same_order: "parallelOrder env' = parallelOrder env"
    and same_links: "evalSymlinks env' = evalSymlinks env" "statIsDir env' = statIsDir env"
      "openRoot env' = openRoot env"
    and same_tools: "validateToolArgs env' = validateToolArgs env" "otherTool env' = otherTool env"
      "coercePlan env' = coercePlan env"
begin

lemma ctxErr_twin [simp]: "ctxErr env' st = ctxErr env st"
  by (simp add: ctxErr_def same_ctx)

lemma runEdges_twin [simp]: "runEdges env' eng l es n st = runEdges env eng l es n st"
  by (induction es arbitrary: n st)
    (auto simp: Let_def case_prod_beta same_text same_stat split: sum.split bool.split)

lemma finishNode_twin [simp]: "finishNode env' eng opCtx node run ls st = finishNode env eng opCtx node run ls st"
  by (simp add: finishNode_def)

lemma runSerial_twin:
  "(\<And>op s. op \<in> set ops \<Longrightarrow> runOp' op s = runOp op s) \<Longrightarrow>
   runSerial env' runOp' ops acc st = runSerial env runOp ops acc st"
  by (induction ops arbitrary: acc st) (simp_all add: Let_def case_prod_beta)

lemma runParallel_twin:
  assumes "\<And>op s. op \<in> set ops \<Longrightarrow> runOp' op s = runOp op s"
  shows "runParallel env' runOp' ops st = runParallel env runOp ops st"
proof -
  have "parallelTurn runOp' ops = parallelTurn runOp ops"
    by (intro ext) (simp add: parallelTurn_def assms)
  then show ?thesis by (simp add: runParallel_def same_order)
qed

lemma runNode_twin:
  assumes "\<And>op s. op \<in> set (Commands node) \<Longrightarrow> Mutates node \<Longrightarrow>
      runMutatingOp env' disp' eng ctx node f op s = runMutatingOp env disp eng ctx node f op s"
    and "\<And>op s. op \<in> set (Commands node) \<Longrightarrow> \<not> Mutates node \<Longrightarrow>
      runPlanOp env' disp' eng ctx op s = runPlanOp env disp eng ctx op s"
  shows "runNode env' disp' eng ctx f node st = runNode env disp eng ctx f node st"
  unfolding runNode_def Let_def using assms
  by (cases "Mutates node")
    (simp_all add: runSerial_twin [of "Commands node"] runParallel_twin [of "Commands node"])

end

section \<open>Two loops\<close>

text \<open>The runs of the nodes of a plan agree at every depth its loop can reach.\<close>

definition nodesAgree ::
    "'w hostEnv \<Rightarrow> 'w dispatcher \<Rightarrow> 'w hostEnv \<Rightarrow> 'w dispatcher \<Rightarrow> Engine \<Rightarrow> planExecutionContext \<Rightarrow> PlanTree \<Rightarrow> bool" where
  "nodesAgree env disp env' disp' eng opCtx plan \<longleftrightarrow>
     (\<forall>d node st. ctxDepth opCtx \<le> d \<and> d \<le> ctxMaxDepth opCtx \<and> node \<in> set (Nodes plan) \<longrightarrow>
        (let ctx = nodeCtx (opCtx\<lparr>ctxDepth := d\<rparr>); f = PlanForce plan \<and> dangerousAuthorized opCtx in
         runNode env' disp' eng ctx f node st = runNode env disp eng ctx f node st))"

lemma byID_node: "byID plan i = Some node \<Longrightarrow> node \<in> set (Nodes plan) \<and> ID node = i"
  by (auto simp: byID_def dest!: map_of_SomeD)

context twin_hosts
begin

lemma planRound_twin:
  assumes "nodesAgree env disp env' disp' eng opCtx plan" and "0 \<le> lsDepth ls"
  shows "planRound env' disp' eng opCtx plan ls st = planRound env disp eng opCtx plan ls st"
proof -
  have "executeNode env' disp' eng opCtx plan node ls s = executeNode env disp eng opCtx plan node ls s"
    if "ctxDepth opCtx + lsDepth ls \<le> ctxMaxDepth opCtx" "byID plan (currentID ls) = Some node" for node s
    using assms that byID_node [OF that(2)]
    by (simp add: executeNode_def nodesAgree_def Let_def case_prod_beta)
  then show ?thesis
    by (simp add: planRound_def Let_def case_prod_beta not_less cong: option.case_cong if_cong)
qed

lemma planLoop_twin:
  assumes "nodesAgree env disp env' disp' eng opCtx plan" and "0 \<le> lsDepth ls"
  shows "planLoop env' disp' eng opCtx plan ls st = planLoop env disp eng opCtx plan ls st"
  using assms(2)
proof (induction "nat (ctxMaxDepth opCtx + 1 - (ctxDepth opCtx + lsDepth ls))" arbitrary: ls st rule: less_induct)
  case less
  obtain out s where r: "planRound env disp eng opCtx plan ls st = (out, s)" by (rule prod.exhaust)
  show ?case
  proof (cases out)
    case (Continue l)
    with r planRound_Continue have l: "lsDepth l = lsDepth ls + 1"
      "ctxDepth opCtx + lsDepth ls \<le> ctxMaxDepth opCtx" by blast+
    with less have "planLoop env' disp' eng opCtx plan l s = planLoop env disp eng opCtx plan l s" by auto
    with Continue r show ?thesis
      using planRound_twin [OF assms(1) less.prems]
      by (simp add: planLoop.simps [of env disp eng opCtx plan ls] planLoop.simps [of env' disp' eng opCtx plan ls])
  qed (use r planRound_twin [OF assms(1) less.prems] in
      \<open>simp_all add: planLoop.simps [of env disp eng opCtx plan ls] planLoop.simps [of env' disp' eng opCtx plan ls]\<close>)
qed

lemma scoped_twin [simp]: "scopedPlanEngine env' eng cwd w = scopedPlanEngine env eng cwd w"
  unfolding scopedPlanEngine_def same_links ..

lemma runPlanTree_twin:
  assumes "\<And>e. shellMode e = shellMode eng \<Longrightarrow>
    ctxDepth (planExecutionContextFor ctx plan) \<le> ctxMaxDepth (planExecutionContextFor ctx plan) \<Longrightarrow>
    nodesAgree env disp env' disp' e (planExecutionContextFor ctx plan) plan"
  shows "runPlanTree env' disp' eng ctx plan st = runPlanTree env disp eng ctx plan st"
proof (cases "ctxDepth (planExecutionContextFor ctx plan) > ctxMaxDepth (planExecutionContextFor ctx plan)")
  case False
  show ?thesis
  proof (cases "scopedPlanEngine env eng (Cwd plan) (world (planBudgetFor ctx st))")
    case (Inr e)
    have "shellMode e = shellMode eng" by (rule scopedPlanEngine_mode [OF Inr])
    with assms False have "nodesAgree env disp env' disp' e (planExecutionContextFor ctx plan) plan" by simp
    from planLoop_twin [OF this] False Inr show ?thesis
      by (simp add: runPlanTree_def initialLoop_def Let_def)
  qed (use False in \<open>simp add: runPlanTree_def Let_def\<close>)
qed (simp add: runPlanTree_def Let_def)

lemma dispatchPlanOps_twin:
  assumes "\<And>rawPlan plan s. map_of args ''plan'' = Some rawPlan \<Longrightarrow> coercePlan env rawPlan = Inr plan \<Longrightarrow>
      validatePlan (textual env) plan = None \<Longrightarrow>
      runPlanTree env' disp' eng ctx plan s = runPlanTree env disp eng ctx plan s"
  shows "dispatchPlanOps env' disp' eng ctx args st = dispatchPlanOps env disp eng ctx args st"
  using assms
  by (simp add: dispatchPlanOps_def same_tools same_text Let_def case_prod_beta
      cong: option.case_cong sum.case_cong if_cong)

end

text \<open>Every host is its own twin.\<close>

interpretation self: twin_hosts env env for env :: "'w hostEnv"
  by unfold_locales simp_all

section \<open>The depth of nesting\<close>

definition agreeWithin :: "nat \<Rightarrow> 'w dispatcher \<Rightarrow> 'w dispatcher \<Rightarrow> bool" where
  "agreeWithin k disp disp' \<longleftrightarrow>
     (\<forall>eng ctx tool args st p. parent ctx = Some p \<and> ctxDepth p \<le> ctxMaxDepth p \<and>
        ctxMaxDepth p - ctxDepth p < int k \<longrightarrow> disp' eng ctx tool args st = disp eng ctx tool args st)"

lemma agreeWithinD:
  "agreeWithin k disp disp' \<Longrightarrow> parent ctx = Some p \<Longrightarrow> ctxDepth p \<le> ctxMaxDepth p \<Longrightarrow>
   ctxMaxDepth p - ctxDepth p < int k \<Longrightarrow> disp' eng ctx tool args st = disp eng ctx tool args st"
  by (simp add: agreeWithin_def)

lemma nodesAgree_depth:
  assumes "agreeWithin k disp disp'" and "ctxMaxDepth opCtx - ctxDepth opCtx < int k"
  shows "nodesAgree env disp env disp' eng opCtx plan"
  unfolding nodesAgree_def Let_def
proof (intro allI impI self.runNode_twin)
  fix d :: int and node op s and f :: bool
  assume d: "ctxDepth opCtx \<le> d \<and> d \<le> ctxMaxDepth opCtx \<and> node \<in> set (Nodes plan)"
  have D: "disp' eng (nodeCtx (opCtx\<lparr>ctxDepth := d\<rparr>)\<lparr>nestedAuthorization := a\<rparr>) tool args s =
      disp eng (nodeCtx (opCtx\<lparr>ctxDepth := d\<rparr>)\<lparr>nestedAuthorization := a\<rparr>) tool args s" for a tool args
    by (rule agreeWithinD [OF assms(1), where p = "opCtx\<lparr>ctxDepth := d\<rparr>"]) (use d assms(2) in auto)
  from D [of False] have D': "disp' eng (nodeCtx (opCtx\<lparr>ctxDepth := d\<rparr>)) tool args s =
      disp eng (nodeCtx (opCtx\<lparr>ctxDepth := d\<rparr>)) tool args s" for tool args by simp
  show "runMutatingOp env disp' eng (nodeCtx (opCtx\<lparr>ctxDepth := d\<rparr>)) node (PlanForce plan \<and> dangerousAuthorized opCtx) op s =
      runMutatingOp env disp eng (nodeCtx (opCtx\<lparr>ctxDepth := d\<rparr>)) node (PlanForce plan \<and> dangerousAuthorized opCtx) op s"
    unfolding runMutatingOp_def D D' ..
  show "runPlanOp env disp' eng (nodeCtx (opCtx\<lparr>ctxDepth := d\<rparr>)) op s =
      runPlanOp env disp eng (nodeCtx (opCtx\<lparr>ctxDepth := d\<rparr>)) op s"
    using D' by (simp add: runPlanOp_def)
qed

lemma dispatchWith_nested:
  assumes "agreeWithin k disp disp'"
  shows "agreeWithin (Suc k) (dispatchWith env disp) (dispatchWith env disp')"
  unfolding agreeWithin_def
proof (intro allI impI)
  fix eng and ctx :: planCtx and tool args st p
  assume p: "parent ctx = Some p \<and> ctxDepth p \<le> ctxMaxDepth p \<and> ctxMaxDepth p - ctxDepth p < int (Suc k)"
  have "runPlanTree env disp' eng ctx plan s = runPlanTree env disp eng ctx plan s" for plan s
    by (rule self.runPlanTree_twin, rule nodesAgree_depth [OF assms])
      (use p in \<open>auto simp: planExecutionContextFor_def Let_def\<close>)
  then have "dispatchPlanOps env disp' eng ctx args st = dispatchPlanOps env disp eng ctx args st"
    by (rule self.dispatchPlanOps_twin)
  then show "dispatchWith env disp' eng ctx tool args st = dispatchWith env disp eng ctx tool args st"
    by (simp add: dispatchWith_def split: option.split)
qed

lemma planDispatch_agree: "n \<le> m \<Longrightarrow> agreeWithin n (planDispatch env bad n) (planDispatch env bad' m)"
proof (induction n arbitrary: m)
  case 0
  then show ?case by (auto simp: agreeWithin_def)
next
  case (Suc n)
  then obtain m' where "m = Suc m'" "n \<le> m'" by (cases m) auto
  with Suc.IH show ?case by (simp add: dispatchWith_nested)
qed

lemma validatePlan_depth: "validatePlan te plan = None \<Longrightarrow> 0 \<le> MaxDepth plan \<and> MaxDepth plan \<le> maxPlanDepth"
  by (auto simp: validatePlan_def split: if_splits)

lemma dispatchWith_outer:
  assumes "agreeWithin k disp disp'" and "maxPlanDepth < int k" and "parent ctx = None"
  shows "dispatchWith env disp' eng ctx tool args st = dispatchWith env disp eng ctx tool args st"
proof -
  have "runPlanTree env disp' eng ctx plan s = runPlanTree env disp eng ctx plan s"
    if "validatePlan (textual env) plan = None" for plan s
  proof (rule self.runPlanTree_twin, rule nodesAgree_depth [OF assms(1)])
    show "ctxMaxDepth (planExecutionContextFor ctx plan) - ctxDepth (planExecutionContextFor ctx plan) < int k"
      using validatePlan_depth [OF that] assms(2,3) by (auto simp: planExecutionContextFor_def planLimits)
  qed
  then have "dispatchPlanOps env disp' eng ctx args st = dispatchPlanOps env disp eng ctx args st"
    by (rule self.dispatchPlanOps_twin)
  then show ?thesis by (simp add: dispatchWith_def split: option.split)
qed

section \<open>Dangerous commands\<close>

text \<open>A host that refuses to execute a command the classifier calls dangerous.\<close>

definition refusal :: shellExecution where
  "refusal = \<lparr>content = [], exitCode = 126, canceled = False, resourceLimited = False, stdout = [],
     stderr = ''refused'', durationMs = 0\<rparr>"

definition guardedHost :: "'w hostEnv \<Rightarrow> 'w hostEnv" where
  "guardedHost env = env\<lparr>executeShell := \<lambda>eng c t w.
     if commandRisk c = RiskDangerous then (refusal, w) else executeShell env eng c t w\<rparr>"

interpretation guarded: twin_hosts env "guardedHost env" for env :: "'w hostEnv"
  by unfold_locales (simp_all add: guardedHost_def)

lemma runPlanShell_guarded:
  "runPlanShell (guardedHost env) eng command args False st = runPlanShell env eng command args False st"
proof -
  have "runShell (executeShell (guardedHost env) eng) (shellMode eng) (planShellArgs (workDir eng) command args False) w =
      runShell (executeShell env eng) (shellMode eng) (planShellArgs (workDir eng) command args False) w" for w
    by (rule runShell_exec_cong) (auto dest!: admittedCommand_Some simp: guardedHost_def planShellArgs_def)
  then show ?thesis by (simp add: runPlanShell_def)
qed

definition agreeUnforced :: "'w dispatcher \<Rightarrow> 'w dispatcher \<Rightarrow> bool" where
  "agreeUnforced disp disp' \<longleftrightarrow>
     (\<forall>eng ctx tool args st. parent ctx \<noteq> None \<and> \<not> nestedAuthorization ctx \<and> tool \<noteq> ''run_shell'' \<longrightarrow>
        disp' eng ctx tool args st = disp eng ctx tool args st)"

lemma runPlanOp_guarded:
  assumes "agreeUnforced disp disp'"
  shows "runPlanOp (guardedHost env) disp' eng (nodeCtx p) op st = runPlanOp env disp eng (nodeCtx p) op st"
proof -
  have "planPhase1ToolAllowed op \<Longrightarrow> Tool op \<noteq> ''run_shell''"
    by (auto simp: planPhase1ToolAllowed_def planPhase1ToolAllowlist_def Let_def)
  with assms show ?thesis by (simp add: runPlanOp_def runPlanShell_guarded agreeUnforced_def)
qed

lemma runMutatingOp_guarded:
  assumes "agreeUnforced disp disp'" and "\<not> (f \<and> NodeForce node)"
  shows "runMutatingOp (guardedHost env) disp' eng (nodeCtx p) node f op st =
    runMutatingOp env disp eng (nodeCtx p) node f op st"
proof -
  have F: "(f \<and> NodeForce node) = False" using assms(2) by simp
  have D: "tool \<noteq> ''run_shell'' \<Longrightarrow> disp' eng (nodeCtx p) tool args st = disp eng (nodeCtx p) tool args st" for tool args
    using assms(1) by (simp add: agreeUnforced_def)
  show ?thesis unfolding runMutatingOp_def F using D
    by (cases "planOpRisk op"; cases "Tool op = ''run_shell''"; cases f)
      (use F in \<open>simp_all add: runPlanShell_guarded\<close>)
qed

lemma nodesAgree_guarded:
  assumes "agreeUnforced disp disp'"
    and "\<not> (PlanForce plan \<and> dangerousAuthorized opCtx) \<or> (\<forall>node \<in> set (Nodes plan). \<not> NodeForce node)"
  shows "nodesAgree env disp (guardedHost env) disp' eng opCtx plan"
  unfolding nodesAgree_def Let_def
  by (intro allI impI guarded.runNode_twin runPlanOp_guarded runMutatingOp_guarded assms(1))
    (use assms(2) in auto)

lemma dispatchWith_guarded:
  assumes "agreeUnforced disp disp'"
  shows "agreeUnforced (dispatchWith env disp) (dispatchWith (guardedHost env) disp')"
  unfolding agreeUnforced_def
proof (intro allI impI)
  fix eng and ctx :: planCtx and tool args st
  assume c: "parent ctx \<noteq> None \<and> \<not> nestedAuthorization ctx \<and> tool \<noteq> ''run_shell''"
  have "runPlanTree (guardedHost env) disp' eng ctx plan s = runPlanTree env disp eng ctx plan s" for plan s
    by (rule guarded.runPlanTree_twin, rule nodesAgree_guarded [OF assms])
      (use c in \<open>auto simp: planExecutionContextFor_def Let_def\<close>)
  then have "dispatchPlanOps (guardedHost env) disp' eng ctx args st = dispatchPlanOps env disp eng ctx args st"
    by (rule guarded.dispatchPlanOps_twin)
  with c show "dispatchWith (guardedHost env) disp' eng ctx tool args st = dispatchWith env disp eng ctx tool args st"
    by (simp add: dispatchWith_def guarded.same_tools split: option.split)
qed

lemma planDispatch_guarded: "agreeUnforced (planDispatch env bad n) (planDispatch (guardedHost env) bad n)"
  by (induction n) (simp_all add: dispatchWith_guarded, simp add: agreeUnforced_def)

section \<open>Disabled mode\<close>

interpretation silent: twin_hosts env "env\<lparr>executeShell := exec\<rparr>" for env :: "'w hostEnv" and exec
  by unfold_locales simp_all

lemma runShell_disabled: "runShell exec ShellModeDisabled args w = runShell exec' ShellModeDisabled args w"
  by (rule runShell_blocked(1)) (simp add: admittedCommand_def Let_def)

definition agreeDisabled :: "'w dispatcher \<Rightarrow> 'w dispatcher \<Rightarrow> bool" where
  "agreeDisabled disp disp' \<longleftrightarrow>
     (\<forall>eng ctx tool args st. shellMode eng = ShellModeDisabled \<longrightarrow>
        disp' eng ctx tool args st = disp eng ctx tool args st)"

lemma runPlanShell_silent:
  "shellMode eng = ShellModeDisabled \<Longrightarrow>
   runPlanShell (env\<lparr>executeShell := exec\<rparr>) eng c args f st = runPlanShell env eng c args f st"
  by (simp add: runPlanShell_def runShell_disabled [of "exec eng" _ _ "executeShell env eng"])

lemma nodesAgree_silent:
  assumes "agreeDisabled disp disp'" and m: "shellMode eng = ShellModeDisabled"
  shows "nodesAgree env disp (env\<lparr>executeShell := exec\<rparr>) disp' eng opCtx plan"
proof -
  have D: "disp' eng = disp eng" using assms by (intro ext) (simp add: agreeDisabled_def)
  show ?thesis unfolding nodesAgree_def Let_def
    by (intro allI impI silent.runNode_twin)
      (simp_all only: runPlanOp_def runMutatingOp_def runPlanShell_silent [OF m] D)
qed

lemma dispatchWith_silent:
  assumes "agreeDisabled disp disp'"
  shows "agreeDisabled (dispatchWith env disp) (dispatchWith (env\<lparr>executeShell := exec\<rparr>) disp')"
  unfolding agreeDisabled_def
proof (intro allI impI)
  fix eng :: Engine and ctx :: planCtx and tool args st
  assume m: "shellMode eng = ShellModeDisabled"
  have "runPlanTree (env\<lparr>executeShell := exec\<rparr>) disp' eng ctx plan s = runPlanTree env disp eng ctx plan s" for plan s
    by (rule silent.runPlanTree_twin, rule nodesAgree_silent [OF assms]) (use m in simp)
  then have "dispatchPlanOps (env\<lparr>executeShell := exec\<rparr>) disp' eng ctx args st = dispatchPlanOps env disp eng ctx args st"
    by (rule silent.dispatchPlanOps_twin)
  with m show "dispatchWith (env\<lparr>executeShell := exec\<rparr>) disp' eng ctx tool args st = dispatchWith env disp eng ctx tool args st"
    by (simp add: dispatchWith_def silent.same_tools runShell_disabled [of "exec eng" _ _ "executeShell env eng"]
        split: option.split)
qed

lemma planDispatch_silent:
  "agreeDisabled (planDispatch env bad n) (planDispatch (env\<lparr>executeShell := exec\<rparr>) bad n)"
  by (induction n) (simp_all add: dispatchWith_silent, simp add: agreeDisabled_def)

end
