(* ===== verification/PlanWalk.thy ===== *)
theory PlanWalk
  imports PlanBudget
begin

text \<open>
  The functional side of a run: the nodes it visits form a walk along the edges of the plan,
  a validated plan never leaves its nodes, and the depths stay in their bounds.
\<close>

section \<open>What validation gives\<close>

lemma validatePlan_nodes:
  assumes "validatePlan te plan = None"
  shows "validateNodes {} (Nodes plan) = Inr (ID ` set (Nodes plan))" and "Root plan \<in> ID ` set (Nodes plan)"
    and "n \<in> set (Nodes plan) \<Longrightarrow> e \<in> set (Edges n) \<Longrightarrow>
      validateEdge te (ID ` set (Nodes plan)) (Nodes plan) n e = None"
proof -
  from assms obtain seen where s: "validateNodes {} (Nodes plan) = Inr seen" "Root plan \<in> seen"
    "\<forall>n \<in> set (Nodes plan). \<forall>e \<in> set (Edges n). validateEdge te seen (Nodes plan) n e = None"
    by (auto simp: validatePlan_def firstError_None split: if_splits sum.splits)
  moreover from validateNodes_Inr [OF s(1)] have "seen = ID ` set (Nodes plan)" by simp
  ultimately show "validateNodes {} (Nodes plan) = Inr (ID ` set (Nodes plan))"
    "Root plan \<in> ID ` set (Nodes plan)"
    "n \<in> set (Nodes plan) \<Longrightarrow> e \<in> set (Edges n) \<Longrightarrow>
      validateEdge te (ID ` set (Nodes plan)) (Nodes plan) n e = None" by auto
qed

lemma validateEdge_None:
  "validateEdge te seen nodes n e = None \<Longrightarrow>
   validateCondition te (When e) = None \<and> To e \<in> seen \<and>
   (Kind (When e) \<notin> HighConfidenceKinds \<longrightarrow> (\<forall>t \<in> set nodes. ID t = To e \<longrightarrow> \<not> Mutates t))"
  by (auto simp: validateEdge_def split: option.splits if_splits)

lemma byID_Some: "i \<in> ID ` set (Nodes plan) \<Longrightarrow> \<exists>node. byID plan i = Some node"
  by (cases "byID plan i") (auto simp: byID_def map_of_eq_None_iff image_image)

lemma byID_member: "byID plan i = Some node \<Longrightarrow> node \<in> set (Nodes plan) \<and> ID node = i"
  by (auto simp: byID_def dest!: map_of_SomeD)

section \<open>Walks\<close>

text \<open>The nodes visited, in order, and the node that is current then.\<close>

inductive planWalk :: "PlanTree \<Rightarrow> string list \<Rightarrow> string \<Rightarrow> bool" for plan where
  start: "planWalk plan [] (Root plan)"
| follow: "planWalk plan visited c \<Longrightarrow> byID plan c = Some node \<Longrightarrow> e \<in> set (Edges node) \<Longrightarrow>
     planWalk plan (visited @ [c]) (To e)"

inductive_cases planWalk_snocE: "planWalk plan (visited @ [c]) d"

inductive_simps planWalk_Nil: "planWalk plan [] c"

lemma planWalk_known:
  "planWalk plan visited c \<Longrightarrow> validatePlan te plan = None \<Longrightarrow> \<exists>node. byID plan c = Some node"
proof (induction rule: planWalk.induct)
  case start
  then show ?case using validatePlan_nodes(2) byID_Some by blast
next
  case (follow visited c node e)
  from follow validatePlan_nodes(3) byID_member validateEdge_None
  have "To e \<in> ID ` set (Nodes plan)" by blast
  then show ?case by (rule byID_Some)
qed

section \<open>The ways a node ends\<close>

lemma runEdges_taken:
  "runEdges env eng l es n st = (EdgeTaken i, m, st') \<Longrightarrow> \<exists>e \<in> set es. To e = i"
  by (induction es arbitrary: n st) (auto simp: Let_def split: if_splits sum.splits bool.splits prod.splits)

lemma finishNode_cases:
  assumes "finishNode env eng opCtx node run ls st = (out, st')"
  obtains (stopped) n reason where "out = Stopped (stopRun opCtx (ls\<lparr>edgesEvaluated := n\<rparr>) reason)"
  | (taken) n e where "e \<in> set (Edges node)" "out = Continue (ls\<lparr>edgesEvaluated := n,
      edgesMatched := Suc (edgesMatched ls), currentID := To e, lsDepth := lsDepth ls + 1\<rparr>)"
proof -
  obtain o1 n s where r: "runEdges env eng (nrLast run) (Edges node) (edgesEvaluated ls) st = (o1, n, s)"
    by (rule prod_cases3)
  show thesis
  proof (cases "nrBlocked run")
    case True
    with assms have "out = Stopped (stopRun opCtx (ls\<lparr>edgesEvaluated := edgesEvaluated ls\<rparr>) StopMutationBlocked)"
      by (simp add: finishNode_def)
    then show thesis by (rule stopped)
  next
    case False
    show thesis
    proof (cases o1)
      case (EdgeTaken i)
      with r runEdges_taken obtain e where "e \<in> set (Edges node)" "i = To e" by blast
      with False r assms EdgeTaken show thesis by (intro taken) (auto simp: finishNode_def)
    qed (use False r assms in \<open>auto simp: finishNode_def intro: stopped\<close>)
  qed
qed

lemma executeNode_cases:
  assumes "executeNode env disp eng opCtx plan node ls st = (out, st')"
  obtains (fit) run reason where
      "out = Stopped (stopRun opCtx (fitNode opCtx (noteNode opCtx run ls)) reason)"
      "\<not> withinBudget opCtx (noteNode opCtx run ls)"
  | (aborted) run where "out = Stopped (stopRun opCtx (noteNode opCtx run ls) StopAborted)"
      "withinBudget opCtx (noteNode opCtx run ls)"
  | (finish) run s where "finishNode env eng opCtx node run (noteNode opCtx run ls) s = (out, st')"
      "withinBudget opCtx (noteNode opCtx run ls)"
proof -
  define ctx where "ctx = \<lparr>parent = Some (opCtx\<lparr>ctxDepth := ctxDepth opCtx + lsDepth ls\<rparr>), nestedAuthorization = False\<rparr>"
  obtain run st1 where run:
    "runNode env disp eng ctx (PlanForce plan \<and> dangerousAuthorized opCtx) node st = (run, st1)"
    by (rule prod.exhaust)
  obtain stop st2 where c: "ctxErr env st1 = (stop, st2)" by (rule prod.exhaust)
  note E = assms [unfolded executeNode_def Let_def, folded ctx_def, unfolded run, simplified case_prod_conv c]
  show thesis
  proof (cases "withinBudget opCtx (noteNode opCtx run ls)")
    case True
    with E show thesis by (cases stop) (auto intro: aborted finish)
  next
    case False
    with E show thesis by (cases stop) (auto intro: fit)
  qed
qed

section \<open>Fitting a transcript\<close>

lemma fitLoop_suffix:
  "suffix (elems (fst (fitLoop ns ps d e m))) ns \<and> suffix (elems (snd (fitLoop ns ps d e m))) ps"
proof (induction ns ps d e m rule: fitLoop.induct)
  case (1 ns ps d e m)
  show ?case
    using 1 by (subst (1 2) fitLoop.simps) (auto simp: suffix_ConsI split: list.split)
qed

lemma node_ids_compact [simp]: "map NodeID (compactPlanTranscript ns) = map NodeID ns"
  by (simp add: compactPlanTranscript_def)

lemma suffix_mapI: "suffix xs ys \<Longrightarrow> suffix (map f xs) (map f ys)"
  by (auto simp: suffix_def)

lemma fitPlanTranscript_suffix:
  assumes "fitPlanTranscript ns ps d e m = (t, p)"
  shows "suffix (map NodeID (elems t)) (map NodeID ns)" and "suffix (elems p) ps"
proof -
  from fitLoop_suffix [of "compactPlanTranscript ns" ps d e m] assms
  have "suffix (elems t) (compactPlanTranscript ns)" "suffix (elems p) ps"
    by (auto simp: fitPlanTranscript_def)
  then show "suffix (map NodeID (elems t)) (map NodeID ns)" "suffix (elems p) ps"
    using suffix_mapI [of "elems t" _ NodeID] by fastforce+
qed

section \<open>The walk of a run\<close>

definition onWalk :: "PlanTree \<Rightarrow> planLoopState \<Rightarrow> bool" where
  "onWalk plan ls \<longleftrightarrow>
     planWalk plan (elems (pathTaken ls)) (currentID ls) \<and>
     map NodeID (elems (transcript ls)) = elems (pathTaken ls) \<and>
     lsNodes ls = length (elems (pathTaken ls)) \<and> lsDepth ls = int (length (elems (pathTaken ls)))"

text \<open>
  What a result says of the walk: \<open>v\<close> are the nodes left behind and \<open>c\<close> is the node the run
  stopped at, which has been executed or not; path and transcript are the walk, or what the
  budget has left of its end.
\<close>

definition walkResult :: "planExecutionContext \<Rightarrow> PlanTree \<Rightarrow> PlanRunResult \<Rightarrow> bool" where
  "walkResult opCtx plan r \<longleftrightarrow>
     (\<exists>v c full. planWalk plan v c \<and> (full = v \<or> full = v @ [c]) \<and>
        suffix (elems (PathTaken r)) full \<and> suffix (map NodeID (elems (Transcript r))) full \<and>
        executedNodes r = length full \<and> DepthReached r = ctxDepth opCtx + int (length v) \<and>
        (full = v @ [c] \<longrightarrow> DepthReached r \<le> ctxMaxDepth opCtx))"

lemma stopRun_simps [simp]:
  "Transcript (stopRun opCtx ls reason) = transcript ls" "PathTaken (stopRun opCtx ls reason) = pathTaken ls"
  "DepthReached (stopRun opCtx ls reason) = ctxDepth opCtx + lsDepth ls"
  "StoppedReason (stopRun opCtx ls reason) = reason" "executedNodes (stopRun opCtx ls reason) = lsNodes ls"
  by (simp_all add: stopRun_def newPlanRunResult_def)

lemma walkResult_before: "onWalk plan ls \<Longrightarrow> walkResult opCtx plan (stopRun opCtx ls reason)"
  unfolding walkResult_def onWalk_def
  by (intro exI [of _ "elems (pathTaken ls)"] exI [of _ "currentID ls"]) auto

lemma walkResult_after:
  assumes "onWalk plan ls" and "ctxDepth opCtx + lsDepth ls \<le> ctxMaxDepth opCtx"
    and "suffix (elems (pathTaken l)) (elems (pathTaken ls) @ [currentID ls])"
    and "suffix (map NodeID (elems (transcript l))) (elems (pathTaken ls) @ [currentID ls])"
    and "lsNodes l = Suc (lsNodes ls)" "lsDepth l = lsDepth ls"
  shows "walkResult opCtx plan (stopRun opCtx l reason)"
  unfolding walkResult_def using assms
  by (intro exI [of _ "elems (pathTaken ls)"] exI [of _ "currentID ls"]
      exI [of _ "elems (pathTaken ls) @ [currentID ls]"]) (auto simp: onWalk_def)

lemma noteNode_walk:
  assumes "onWalk plan ls"
  shows "elems (pathTaken (noteNode opCtx run ls)) = elems (pathTaken ls) @ [currentID ls]"
    and "map NodeID (elems (transcript (noteNode opCtx run ls))) = elems (pathTaken ls) @ [currentID ls]"
    and "lsNodes (noteNode opCtx run ls) = Suc (lsNodes ls)"
  using assms by (simp_all add: noteNode_def onWalk_def)

lemma planRound_walk:
  assumes "planRound env disp eng opCtx plan ls st = (out, st')" and w: "onWalk plan ls"
  shows "case out of Stopped r \<Rightarrow> walkResult opCtx plan r | Continue l \<Rightarrow> onWalk plan l
    | NilNode \<Rightarrow> byID plan (currentID ls) = None"
  using assms(1)
proof (cases rule: planRound_cases)
  case (node node s)
  note after = walkResult_after [OF w node(2)]
  from node(5) show ?thesis
  proof (cases rule: executeNode_cases)
    case (fit run reason)
    let ?n = "noteNode opCtx run ls"
    obtain t p where f: "fitPlanTranscript (elems (transcript ?n)) (elems (pathTaken ?n))
      (ctxDepth opCtx + lsDepth ?n) (edgesEvaluated ?n) (edgesMatched ?n) = (t, p)" by (rule prod.exhaust)
    from fitPlanTranscript_suffix [OF f] noteNode_walk [OF w, of opCtx run] fit f show ?thesis
      by (auto simp: fitNode_def intro!: after)
  next
    case (aborted run)
    with noteNode_walk [OF w, of opCtx run] show ?thesis by (auto intro!: after)
  next
    case (finish run s)
    from finish(1) show ?thesis
    proof (cases rule: finishNode_cases)
      case (stopped n reason)
      with noteNode_walk [OF w, of opCtx run] show ?thesis by (auto intro!: after)
    next
      case (taken n e)
      have "planWalk plan (elems (pathTaken ls) @ [currentID ls]) (To e)"
        using w node(1) taken(1) by (auto simp: onWalk_def intro: planWalk.follow)
      with taken(2) noteNode_walk [OF w, of opCtx run] w show ?thesis
        by (simp add: onWalk_def)
    qed
  qed
qed (auto intro: walkResult_before [OF w])

lemma planLoop_walk:
  assumes "planLoop env disp eng opCtx plan ls st = (out, st')" and "onWalk plan ls"
  shows "(case out of Some r \<Rightarrow> walkResult opCtx plan r
    | None \<Rightarrow> \<exists>v c. planWalk plan v c \<and> byID plan c = None)"
  using assms
proof (induction "nat (ctxMaxDepth opCtx + 1 - (ctxDepth opCtx + lsDepth ls))" arbitrary: ls st rule: less_induct)
  case less
  obtain o1 s where r: "planRound env disp eng opCtx plan ls st = (o1, s)" by (rule prod.exhaust)
  note W = planRound_walk [OF r less.prems(2)]
  show ?case
  proof (cases o1)
    case (Continue l)
    with r planRound_Continue have "lsDepth l = lsDepth ls + 1"
      "ctxDepth opCtx + lsDepth ls \<le> ctxMaxDepth opCtx" by blast+
    moreover from less.prems(1) r Continue have "planLoop env disp eng opCtx plan l s = (out, st')"
      by (simp add: planLoop.simps [of env disp eng opCtx plan ls])
    ultimately show ?thesis using less.hyps [of l s] W Continue by auto
  next
    case (Stopped res)
    with less.prems r W show ?thesis by (auto simp: planLoop.simps [of env disp eng opCtx plan ls])
  next
    case NilNode
    with less.prems r W show ?thesis
      by (auto simp: planLoop.simps [of env disp eng opCtx plan ls] onWalk_def)
  qed
qed

lemma onWalk_initial: "onWalk plan (initialLoop plan)"
  by (simp add: onWalk_def initialLoop_def planWalk.start)

end
