(* ===== verification/PlanProperties.thy ===== *)
theory PlanProperties
  imports PlanTwin PlanWalk
begin

text \<open>
  The properties of the plan engine, the shell gate and the exit-code table, each with a
  witness at concrete plans.
\<close>

section \<open>Example plans\<close>

text \<open>A host without processes and files, for the witnesses.\<close>

definition exampleText :: textEnv where
  "exampleText = \<lparr>reCompile = \<lambda>_. Inr 0, reMatch = \<lambda>re s. containsStr s re, reSubmatch = \<lambda>_ _. None,
     parseFloat = \<lambda>_. None, jsonDecode = \<lambda>_. None, jsonEncode = \<lambda>_. None\<rparr>"

definition exampleHost :: "nat hostEnv" where
  "exampleHost = \<lparr>textual = exampleText, rootedStat = \<lambda>_ _ _. Inr False, evalSymlinks = \<lambda>_ p. Inr p,
     statIsDir = \<lambda>_ _. Inr True, openRoot = \<lambda>_ _ _. None, ctxDone = \<lambda>w. (False, w),
     executeShell = \<lambda>_ c _ w. (\<lparr>content = ''ok'', exitCode = 0, canceled = False, resourceLimited = False,
        stdout = ''ok'', stderr = [], durationMs = 1\<rparr>, Suc w),
     validateToolArgs = \<lambda>_ _. None, otherTool = \<lambda>_ _ _ w. (Inr \<lparr>Text = ''text'', PlanRun = None\<rparr>, w),
     coercePlan = \<lambda>_. Inl (plainError ''no plan''), parallelOrder = \<lambda>_ n. [0..<n]\<rparr>"

definition toolOp :: "string \<Rightarrow> PlanOp" where
  "toolOp t = \<lparr>Shell = [], Tool = t, Args = []\<rparr>"

definition shellOp :: "string \<Rightarrow> PlanOp" where
  "shellOp c = \<lparr>Shell = c, Tool = [], Args = []\<rparr>"

definition alwaysEdge :: "string \<Rightarrow> PlanEdge" where
  "alwaysEdge i = \<lparr>When = \<lparr>Kind = ''always'', Op = [], Value = JNull, Path = [], Extract = [], Regex = [],
     Stream = [], Negate = False\<rparr>, To = i\<rparr>"

definition examplePlan :: PlanTree where
  "examplePlan = \<lparr>Root = ''a'', Nodes =
     [\<lparr>ID = ''a'', Commands = [toolOp ''read_file''], Parallel = False, Mutates = False, NodeForce = False,
       Edges = [alwaysEdge ''b'']\<rparr>,
      \<lparr>ID = ''b'', Commands = [shellOp ''rm -rf x''], Parallel = False, Mutates = True, NodeForce = True,
       Edges = []\<rparr>], Cwd = [], MaxDepth = 0, PlanForce = False\<rparr>"

definition outerCtx :: planCtx where
  "outerCtx = \<lparr>parent = None, nestedAuthorization = False\<rparr>"

definition exampleEngine :: Engine where
  "exampleEngine = \<lparr>workDir = ''/w'', shellMode = ShellModeUnsafe\<rparr>"

definition exampleRun :: "(goError + PlanRunResult) \<times> nat runState" where
  "exampleRun = runPlanTree exampleHost (planDispatch exampleHost noDispatch 40) exampleEngine outerCtx examplePlan
     \<lparr>reserved = 0, world = 0\<rparr>"

lemmas example_defs = exampleText_def exampleHost_def toolOp_def shellOp_def alwaysEdge_def examplePlan_def
  outerCtx_def exampleEngine_def

lemma examplePlan_valid: "validatePlan exampleText examplePlan = None" by code_simp

section \<open>Dangerous commands\<close>

text \<open>C1: A dangerous command needs both forces.  A plan that lacks the plan's force, or whose nodes
  all lack theirs, runs exactly as on a host that refuses every dangerous command: neither its
  own operations nor those of the plans nested in it, whatever force these claim, ever get a
  dangerous command executed.\<close>

theorem dangerous_needs_double_force:
  assumes "\<not> PlanForce plan \<or> (\<forall>node \<in> set (Nodes plan). \<not> NodeForce node)"
  shows "runPlanTree (guardedHost env) (planDispatch (guardedHost env) bad n) eng ctx plan st =
    runPlanTree env (planDispatch env bad n) eng ctx plan st"
  by (rule guarded.runPlanTree_twin, rule nodesAgree_guarded [OF planDispatch_guarded])
    (use assms in auto)

theorem dangerous_needs_double_force_witness:
  "runPlanTree (guardedHost exampleHost) (planDispatch (guardedHost exampleHost) noDispatch 40) exampleEngine
     outerCtx examplePlan \<lparr>reserved = 0, world = 0\<rparr> = exampleRun \<and>
   map_sum (\<lambda>_. ()) StoppedReason (fst exampleRun) = Inr StopMutationBlocked"
proof (rule conjI)
  show "runPlanTree (guardedHost exampleHost) (planDispatch (guardedHost exampleHost) noDispatch 40) exampleEngine
     outerCtx examplePlan \<lparr>reserved = 0, world = 0\<rparr> = exampleRun"
    unfolding exampleRun_def by (rule dangerous_needs_double_force) (simp add: examplePlan_def)
  show "map_sum (\<lambda>_. ()) StoppedReason (fst exampleRun) = Inr StopMutationBlocked" by code_simp
qed

text \<open>C22: The run_shell tool never hands a dangerous command to the executor unless the request has
  force: the answer is then the same for every executor, the world is unchanged, and the error
  has the code command_blocked; nor does it in disabled mode or with dry_run.\<close>

theorem run_shell_gate:
  assumes "mode = ShellModeDisabled \<or>
    (commandRisk (strArg args ''command'') = RiskDangerous \<and> \<not> boolArg args ''force'') \<or> boolArg args ''dry_run''"
  shows "runShell exec mode args w = runShell exec' mode args w \<and> snd (runShell exec mode args w) = w \<and>
    (mode \<noteq> ShellModeDisabled \<and> trimSpace (strArg args ''command'') \<noteq> [] \<and> \<not> boolArg args ''dry_run'' \<longrightarrow>
     map_option Code (snd (snd (fst (runShell exec mode args w)))) = Some ''command_blocked'')"
proof (intro conjI impI)
  have a: "admittedCommand mode args = None" using assms by (auto simp: admittedCommand_def Let_def)
  then show "runShell exec mode args w = runShell exec' mode args w" "snd (runShell exec mode args w) = w"
    by (rule runShell_blocked)+
  assume "mode \<noteq> ShellModeDisabled \<and> trimSpace (strArg args ''command'') \<noteq> [] \<and> \<not> boolArg args ''dry_run''"
  moreover from this assms have "commandRisk (strArg args ''command'') = RiskDangerous \<and> \<not> boolArg args ''force''"
    by blast
  ultimately show "map_option Code (snd (snd (fst (runShell exec mode args w)))) = Some ''command_blocked''"
    by (simp add: runShell_def Let_def case_prod_beta ErrWithSuggestion_def)
qed

theorem run_shell_gate_witness:
  "snd (runShell (executeShell exampleHost exampleEngine) ShellModeUnsafe [(''command'', JString ''rm -rf x'')] 7) = 7"
proof -
  have "commandRisk (strArg [(''command'', JString ''rm -rf x'')] ''command'') = RiskDangerous \<and>
      \<not> boolArg [(''command'', JString ''rm -rf x'')] ''force''" by code_simp
  from run_shell_gate [OF disjI2 [OF disjI1 [OF this]], THEN conjunct2, THEN conjunct1] show ?thesis .
qed

text \<open>In disabled mode no command is executed at all: whatever tool is called and however plans nest,
  the result and the state are the same with any executor.\<close>

theorem disabled_mode_runs_nothing:
  assumes "shellMode eng = ShellModeDisabled"
  shows "planDispatch (env\<lparr>executeShell := exec\<rparr>) bad n eng ctx tool args st = planDispatch env bad n eng ctx tool args st"
  using planDispatch_silent [of env bad n exec] assms by (simp add: agreeDisabled_def)

theorem disabled_mode_runs_nothing_witness:
  "planDispatch (exampleHost\<lparr>executeShell := \<lambda>_ _ _ w. (refusal, w + 5)\<rparr>) noDispatch 40
     \<lparr>workDir = ''/w'', shellMode = ShellModeDisabled\<rparr> outerCtx ''run_shell'' [(''command'', JString ''ls'')]
     \<lparr>reserved = 0, world = 0\<rparr> =
   planDispatch exampleHost noDispatch 40 \<lparr>workDir = ''/w'', shellMode = ShellModeDisabled\<rparr>
     outerCtx ''run_shell'' [(''command'', JString ''ls'')] \<lparr>reserved = 0, world = 0\<rparr>"
  by (rule disabled_mode_runs_nothing) simp

text \<open>The sandboxed mode is never downgraded: when its validation succeeds, the shell is confined
  by a binary that is a regular file at one of the three system paths, on a system it supports;
  without such a binary the engine refuses to start.\<close>

theorem sandbox_fails_closed:
  assumes "validateShellMode goos regular ShellModeSandboxed = Inr binary"
  shows "regular binary \<and> binary \<in> {''/usr/bin/sandbox-exec'', ''/usr/bin/bwrap'', ''/bin/bwrap''} \<and>
    goos \<in> {''darwin'', ''linux''}"
proof -
  have ne: "ShellModeSandboxed \<noteq> []" "ShellModeSandboxed \<noteq> ShellModeDisabled" "ShellModeSandboxed \<noteq> ShellModeUnsafe"
    by (simp_all add: ShellModeSandboxed_def ShellModeDisabled_def ShellModeUnsafe_def)
  have f: "find P xs = Some x \<Longrightarrow> P x \<and> x \<in> set xs" for P and xs :: "string list" and x
    by (auto simp: find_Some_iff)
  consider "goos = ''darwin''" | "goos = ''linux''" "goos \<noteq> ''darwin''"
    | "goos \<noteq> ''darwin''" "goos \<noteq> ''linux''" by blast
  then show ?thesis
  proof cases
    case 1
    with assms ne show ?thesis by (cases "regular ''/usr/bin/sandbox-exec''") (simp_all add: validateShellMode_def)
  next
    case 2
    with assms ne show ?thesis
      using f [of regular "[''/usr/bin/bwrap'', ''/bin/bwrap'']"]
      by (cases "find regular [''/usr/bin/bwrap'', ''/bin/bwrap'']") (simp_all add: validateShellMode_def del: find.simps)
  next
    case 3
    with assms ne show ?thesis by (simp add: validateShellMode_def)
  qed
qed

theorem sandbox_fails_closed_witness:
  "validateShellMode ''linux'' (\<lambda>p. p = ''/bin/bwrap'') ShellModeSandboxed = Inr ''/bin/bwrap'' \<and>
   ''/bin/bwrap'' \<in> {''/usr/bin/sandbox-exec'', ''/usr/bin/bwrap'', ''/bin/bwrap''}"
proof -
  have v: "validateShellMode ''linux'' (\<lambda>p. p = ''/bin/bwrap'') ShellModeSandboxed = Inr ''/bin/bwrap''" by code_simp
  from v sandbox_fails_closed [OF v] show ?thesis by blast
qed

section \<open>Read-only nodes\<close>



text \<open>Every tool the read-only gate lets through is read-only in the tool catalogue, or the
  recall, list or preview action of memory or undo, and its risk is at most caution.\<close>

theorem allowlist_read_only:
  assumes "planPhase1ToolAllowed op"
  shows "(Tool op \<in> set ReadOnlyToolNames \<and> planToolRisk (Tool op) (Args op) = Inr RiskSafe) \<or>
    ((Tool op = ''memory'' \<or> Tool op = ''undo'') \<and> planToolRisk (Tool op) (Args op) = Inr RiskCaution)"
proof (cases "Tool op \<in> planPhase1ToolAllowlist")
  case True
  have "\<forall>t \<in> planPhase1ToolAllowlist. t \<in> set ReadOnlyToolNames \<and> t \<notin> {''run_shell'', ''memory'', ''undo'', ''write_file'',
      ''edit_file'', ''multi_edit'', ''apply_patch'', ''search_replace''} \<and>
      map_option routeRisk (lookupToolDescriptor t) = Some toolRouteRiskReadOnly" by code_simp
  then have "Tool op \<in> set ReadOnlyToolNames" "Tool op \<notin> {''run_shell'', ''memory'', ''undo'', ''write_file'',
      ''edit_file'', ''multi_edit'', ''apply_patch'', ''search_replace''}"
    "map_option routeRisk (lookupToolDescriptor (Tool op)) = Some toolRouteRiskReadOnly"
    using True by blast+
  then show ?thesis by (auto simp: planToolRisk_def Let_def)
next
  case False
  have "map_option routeRisk (lookupToolDescriptor ''memory'') = Some toolRouteRiskMutating"
    "map_option routeRisk (lookupToolDescriptor ''undo'') = Some toolRouteRiskMutating" by code_simp+
  moreover from False assms have "(Tool op = ''memory'' \<and> strArg (Args op) ''action'' \<in> {''recall'', ''list''}) \<or>
      (Tool op = ''undo'' \<and> strArg (Args op) ''action'' \<in> {''list'', ''preview''})"
    unfolding planPhase1ToolAllowed_def Let_def by (metis insertCI)
  ultimately show ?thesis
    by (elim disjE) (auto simp: planToolRisk_def Let_def)
qed

theorem allowlist_read_only_witness:
  "planToolRisk ''read_file'' [] = Inr RiskSafe"
proof -
  have "planPhase1ToolAllowed (toolOp ''read_file'')" by code_simp
  from allowlist_read_only [OF this] show ?thesis by (simp add: toolOp_def)
qed

section \<open>Bounds of a run\<close>

text \<open>C25: Nested plans cannot go deeper than the outer plan allows: from an outermost call, 34 levels of
  dispatch are enough for every plan, and what happens below is never asked for, whatever the
  plans request.\<close>

theorem nested_depth_bound:
  assumes "nat maxPlanDepth + 1 < n" and "n \<le> m" and "parent ctx = None"
  shows "planDispatch env bad n eng ctx tool args st = planDispatch env bad' m eng ctx tool args st"
proof -
  from assms(1,2) obtain n' m' where n: "n = Suc n'" "m = Suc m'" "n' \<le> m'" by (cases n; cases m) auto
  have "maxPlanDepth < int n'" using assms(1) n(1) by (simp add: planLimits)
  then show ?thesis unfolding n planDispatch.simps
    by (rule dispatchWith_outer [OF planDispatch_agree [OF n(3)] _ assms(3), symmetric])
qed

theorem nested_depth_bound_witness:
  "planDispatch exampleHost noDispatch 34 exampleEngine outerCtx ''run_plan'' [] \<lparr>reserved = 0, world = 0\<rparr> =
   planDispatch exampleHost (\<lambda>_ _ _ _ st. (Inr \<lparr>Text = ''x'', PlanRun = None\<rparr>, st)) 99 exampleEngine outerCtx ''run_plan'' []
     \<lparr>reserved = 0, world = 0\<rparr>"
  by (rule nested_depth_bound) (simp_all add: outerCtx_def planLimits)

text \<open>C21: An outer plan and all the plans nested in it together reserve at most 256 operations, and
  the outer plan never executes more than that; the nested plans cannot reset the budget.\<close>

theorem operation_budget:
  assumes "parent ctx = None"
  shows "let (out, st') = runPlanTree env (planDispatch env noDispatch n) eng ctx plan st in
    reserved st' \<le> maxPlanOperations \<and> (\<forall>r. out = Inr r \<longrightarrow> executedOperations r \<le> reserved st')"
proof -
  have z: "reserved (planBudgetFor ctx st) = 0" using assms by (simp add: planBudgetFor_def)
  show ?thesis
    using engine.runPlanTree_budget [OF prod.collapse [symmetric], where env = env and eng = eng
        and ctx = ctx and plan = plan and st = st and enva = env and n = n] z
    by (auto simp: case_prod_beta Let_def)
qed

theorem operation_budget_witness:
  "reserved (snd exampleRun) \<le> 256"
proof -
  have "parent outerCtx = None" by (simp add: outerCtx_def)
  from operation_budget [OF this, of exampleHost 40 exampleEngine examplePlan "\<lparr>reserved = 0, world = 0\<rparr>"]
  show ?thesis by (simp add: exampleRun_def case_prod_beta Let_def planLimits)
qed

section \<open>What a run does\<close>



text \<open>C24: A plan that passes validation never dereferences a missing node, whatever the operations
  do: its run ends with a result.\<close>

theorem validated_plan_no_crash:
  assumes "validatePlan te plan = None"
  shows "fst (planLoop env disp eng opCtx plan (initialLoop plan) st) \<noteq> None"
proof
  assume n: "fst (planLoop env disp eng opCtx plan (initialLoop plan) st) = None"
  from planLoop_walk [OF prod.collapse [symmetric] onWalk_initial, where env = env and disp = disp and
      eng = eng and opCtx = opCtx and plan = plan and st = st] n
  obtain v c where "planWalk plan v c" "byID plan c = None" by auto
  with planWalk_known [OF _ assms] show False by fastforce
qed

theorem validated_plan_no_crash_witness:
  "fst (planLoop exampleHost noDispatch exampleEngine (planExecutionContextFor outerCtx examplePlan) examplePlan
     (initialLoop examplePlan) \<lparr>reserved = 0, world = 0\<rparr>) \<noteq> None"
  by (rule validated_plan_no_crash [OF examplePlan_valid])

text \<open>C27: What validation accepts is well formed: distinct node identifiers, a root among them, edges
  that lead to nodes of the plan and no pattern-matching condition before a mutating node, no
  node both parallel and mutating, and every list within its limit.\<close>

theorem validation_sound:
  assumes "validatePlan te plan = None"
  shows "distinct (map ID (Nodes plan)) \<and> Root plan \<in> ID ` set (Nodes plan) \<and>
    length (Nodes plan) \<le> maxPlanNodes \<and> 0 \<le> MaxDepth plan \<and> MaxDepth plan \<le> maxPlanDepth \<and>
    (\<forall>n \<in> set (Nodes plan). Commands n \<noteq> [] \<and> length (Commands n) \<le> maxPlanCommands \<and>
       length (Edges n) \<le> maxPlanEdges \<and> \<not> (Parallel n \<and> Mutates n) \<and>
       (\<forall>e \<in> set (Edges n). To e \<in> ID ` set (Nodes plan) \<and>
          (Kind (When e) = ''match'' \<longrightarrow> (\<forall>t \<in> set (Nodes plan). ID t = To e \<longrightarrow> \<not> Mutates t))))"
proof -
  note N = validateNodes_Inr [OF validatePlan_nodes(1) [OF assms]]
  have "length (Nodes plan) \<le> maxPlanNodes" using assms by (auto simp: validatePlan_def split: if_splits)
  moreover have "''match'' \<notin> HighConfidenceKinds" by (simp add: HighConfidenceKinds_def)
  ultimately show ?thesis
    using N validatePlan_nodes(2) [OF assms] validatePlan_depth [OF assms]
      validateEdge_None [OF validatePlan_nodes(3) [OF assms]] by auto
qed

theorem validation_sound_witness: "distinct (map ID (Nodes examplePlan)) \<and> ''a'' \<in> ID ` set (Nodes examplePlan)"
  using validation_sound [OF examplePlan_valid] by (simp add: examplePlan_def)

section \<open>Results of operations\<close>

text \<open>An operation that did not succeed, for whatever reason, has a nonzero exit code, so that an
  exit-code condition never takes a failed or blocked operation for a success.\<close>

theorem failed_operation_nonzero:
  "(let r = fst (fst (runPlanOp env disp eng ctx op st)) in \<not> (\<not> OK r \<and> OpExitCode r = 0)) \<and>
   (let r = fst (fst (runMutatingOp env disp eng ctx node f op st)) in \<not> (\<not> OK r \<and> OpExitCode r = 0))"
proof -
  have t: "OK (planToolResult x) \<or> OpExitCode (planToolResult x) \<noteq> 0" for x
    by (auto simp: planToolResult_def split: sum.split option.split)
  have s: "OK (planShellResult x c) \<or> OpExitCode (planShellResult x c) \<noteq> 0" for x c
    using settleExit_nonzero
    by (simp add: planShellResult_def Let_def case_prod_beta split: option.split)
  have b: "OpExitCode (fst (blockedPlanOp m)) \<noteq> 0" for m
    by (simp add: blockedPlanOp_def)
  show ?thesis using t s b
    by (auto simp: runPlanOp_def runMutatingOp_def Let_def case_prod_beta split: sum.split)
qed

section \<open>Transcripts\<close>

lemma fitLoop_within:
  "fitLoop ns ps d e m = (t, p) \<Longrightarrow> planTranscriptWithinBudget t p d e m \<or> (t = None \<and> p = None)"
proof (induction ns ps d e m rule: fitLoop.induct)
  case (1 ns ps d e m)
  show ?case using 1
    by (subst (asm) (3) fitLoop.simps) (auto split: if_splits list.splits)
qed

lemma fitLoop_slices: "fitLoop ns ps d e m = (t, p) \<Longrightarrow> t = None \<longleftrightarrow> p = None"
proof (induction ns ps d e m rule: fitLoop.induct)
  case (1 ns ps d e m)
  show ?case using 1
    by (subst (asm) (3) fitLoop.simps) (auto split: if_splits list.splits)
qed

lemma natToString_length: "n < 10 ^ k \<Longrightarrow> 0 < k \<Longrightarrow> length (natToString n) \<le> k"
proof (induction k arbitrary: n)
  case (Suc k)
  show ?case
  proof (cases "n < 10")
    case True then show ?thesis by (simp add: natToString.simps [of n])
  next
    case False
    with Suc.prems have "n div 10 < 10 ^ k" "0 < k" by (auto intro: ccontr)
    with Suc.IH False show ?thesis by (simp add: natToString.simps [of n])
  qed
qed simp

lemma intToString_length: "0 \<le> i \<Longrightarrow> i < 10 ^ k \<Longrightarrow> 0 < k \<Longrightarrow> length (intToString i) \<le> k"
  using natToString_length [of "nat i" k] by (simp add: intToString_def nat_less_iff)

lemma empty_within:
  assumes "0 \<le> d" "d < 10 ^ 20" "e < 10 ^ 20" "m < 10 ^ 20"
  shows "planTranscriptWithinBudget (Some []) (Some []) d e m"
proof -
  have "length (intToString d) \<le> 20" "length (natToString e) \<le> 20" "length (natToString m) \<le> 20"
    using assms by (auto intro: intToString_length natToString_length)
  moreover have "length (encodeString ''mutation_blocked'') = 18" by code_simp
  ultimately show ?thesis
    by (simp add: planTranscriptWithinBudget_def encodeRunResult_def newPlanRunResult_def encodeObject_def
        encodeField_def encodeSlice_def maxPlanTranscript_def)
qed

lemma fitLoop_nonempty:
  assumes "0 \<le> d" "d < 10 ^ 20" "e < 10 ^ 20" "m < 10 ^ 20"
  shows "fitLoop ns ps d e m \<noteq> (None, None)"
  using assms
proof (induction ns ps d e m rule: fitLoop.induct)
  case (1 ns ps d e m)
  show ?case using 1 empty_within [OF "1.prems"]
    by (subst fitLoop.simps) (auto split: list.split)
qed

text \<open>C29: Fitting a transcript always ends within the budget: what it returns is encoded in at most 200
  KiB, and it never runs out of things to drop, for every counter below 10 to the 20.\<close>

theorem fitted_transcript_within_budget:
  assumes "0 \<le> depth" "depth < 10 ^ 20" "evaluated < 10 ^ 20" "matched < 10 ^ 20"
  shows "case fitPlanTranscript nodes path depth evaluated matched of (t, p) \<Rightarrow>
    t \<noteq> None \<and> p \<noteq> None \<and> planTranscriptWithinBudget t p depth evaluated matched"
proof -
  obtain t p where r: "fitLoop (compactPlanTranscript nodes) path depth evaluated matched = (t, p)"
    by (rule prod.exhaust)
  from fitLoop_within [OF r] fitLoop_nonempty [OF assms] r
  have "planTranscriptWithinBudget t p depth evaluated matched" by fastforce
  moreover have "t \<noteq> None \<and> p \<noteq> None" using r fitLoop_nonempty [OF assms] fitLoop_slices [OF r] by fastforce
  ultimately show ?thesis using r by (simp add: fitPlanTranscript_def)
qed

theorem fitted_transcript_within_budget_witness:
  "planTranscriptWithinBudget (fst (fitPlanTranscript [] [''a''] 0 0 0)) (snd (fitPlanTranscript [] [''a''] 0 0 0)) 0 0 0"
  using fitted_transcript_within_budget [of 0 0 0 "[]" "[''a'']"] by (simp add: case_prod_beta)

section \<open>Working directory\<close>

text \<open>A plan cannot leave the working directory: the engine of an accepted plan works in a directory
  whose path continues that of the engine it was started on, in the same shell mode.\<close>

theorem plan_cwd_confined:
  assumes "scopedPlanEngine env eng cwd w = Inr eng'"
  shows "(\<exists>rest. pathComponents (workDir eng') = pathComponents (workDir eng) @ rest) \<and>
    shellMode eng' = shellMode eng"
proof (cases "cwd = []")
  case True
  from assms [unfolded scopedPlanEngine_def if_P [OF True]] have "eng' = eng" by (simp only: sum.inject)
  then show ?thesis by simp
next
  case False
  from scopedPlanEngine_Inr [OF assms False] obtain resolved where r: "eng' = eng\<lparr>workDir := resolved\<rparr>"
    "\<not> outsideWorkDir (filepathRel (workDir eng) resolved)" .
  obtain b t where d: "dropCommon (pathComponents (workDir eng)) (pathComponents resolved) = (b, t)"
    by (rule prod.exhaust)
  with r(2) rel_outside have "b = []" by (cases b) blast+
  with dropCommon_append [OF d] r(1) show ?thesis by auto
qed

lemma eval_scoped: "scopedPlanEngine exampleHost exampleEngine ''sub'' 0 = Inr \<lparr>workDir = ''/w/sub'', shellMode = ShellModeUnsafe\<rparr>"
  by code_simp

theorem plan_cwd_confined_witness: "\<exists>rest. pathComponents ''/w/sub'' = pathComponents ''/w'' @ rest"
  using plan_cwd_confined [OF eval_scoped] by (simp add: exampleEngine_def)

section \<open>Quoting\<close>

definition quoteBody :: "string \<Rightarrow> string" where
  "quoteBody v = concat (map (\<lambda>c. if c = squote then [squote, dquote, squote, dquote, squote] else [c]) v)"

abbreviation inSingleState :: shellQuoteState where
  "inSingleState \<equiv> \<lparr>inSingle = True, inDouble = False, escaped = False\<rparr>"

lemma fields_quoteBody:
  "shellFieldsLoop inSingleState True cur (quoteBody v @ squote # rest) =
   shellFieldsLoop quote0 True (rev v @ cur) rest"
  by (induction v arbitrary: cur) (simp_all add: quoteBody_def quote0_def)

lemma fields_shellQuote:
  "shellFieldsLoop quote0 b [] (shellQuote v @ rest) = shellFieldsLoop quote0 True (rev v) rest"
  using fields_quoteBody [of "[]" v rest] by (simp add: shellQuote_def quoteBody_def quote0_def)

text \<open>Quoting is read back exactly: the words of a command line put together from quoted words are
  these words, whatever bytes they contain, so that the directory a plan changes to is the one
  meant.\<close>

theorem quoted_words_roundtrip: "shellFields (joinStr '' '' (map shellQuote vs)) = vs"
proof -
  have "shellFieldsLoop quote0 False [] (joinStr '' '' (map shellQuote vs)) = vs" for vs
  proof (induction vs)
    case (Cons v vs)
    have "shellFieldsLoop quote0 True (rev v) [] = [v]" by simp
    moreover have "shellFieldsLoop quote0 True (rev v) (CHR '' '' # r) = v # shellFieldsLoop quote0 False [] r" for r
      by (simp add: quote0_def isShellBlank_def)
    ultimately show ?case using Cons fields_shellQuote [of False v "[]"] fields_shellQuote [of False v]
      by (cases vs) simp_all
  qed simp
  then show ?thesis by (simp add: shellFields_def)
qed

section \<open>Exit codes\<close>

text \<open>The class of an exit code: zero is success, a negative code or one above 128 a signal, 124 a
  timeout, the codes a command is known to use as an answer (1 of grep and its kin, diff, cmp and
  test, 22 of curl) are expected, everything else is an error; only the base name of the command
  counts, in lower case.\<close>

theorem exit_code_classes:
  "fst (classifyExitCode argv0 code) =
     (if code = 0 then ClassSuccess
      else if code < 0 \<or> 128 < code then ClassSignal
      else if code = 124 then ClassTimeout
      else if expectedCode (toLower (pathBase argv0)) code then ClassExpectedNonzero
      else ClassError)"
proof -
  consider "code = 0" | "code < 0 \<or> 128 < code" | "code = 124"
    | "0 < code" "code \<le> 128" "code \<noteq> 124" by linarith
  then show ?thesis
  proof cases
    case 4
    then show ?thesis
      by (auto simp: classifyExitCode_def Let_def exitTable_def expectedCode_def exit_entry_def)
  qed (auto simp: classifyExitCode_def)
qed

text \<open>The entry of the exit table for a failed ssh connection, exit code 255, is never used: the
  code is reported as the death of a process by a signal.\<close>

theorem ssh_failure_reported_as_signal:
  "map_of exitTable ''ssh'' = Some [(255, exit_entry ClassError
     ''SSH connection or protocol error (exit 255 indicates a connection-level failure)'')] \<and>
   classifyExitCode ''ssh'' 255 = (ClassSignal, ''process was terminated by a signal'')"
  by code_simp

section \<open>Where plans fall short of their intent\<close>

text \<open>The stream a match condition names has no effect: a condition on stdout is evaluated on
  stdout and stderr together.\<close>

theorem match_ignores_stream:
  "evaluateCondition env ex r (cond\<lparr>Stream := stream\<rparr>) = evaluateCondition env ex r cond"
  by (cases cond) (simp only: evaluateCondition_def Condition.simps)

text \<open>An operation with a tool and a blank, nonempty shell field passes validation as a tool
  operation, but on a read-only node is judged as a shell command and blocked.\<close>

theorem blank_shell_masks_tool:
  assumes "Shell op \<noteq> []" and "trimSpace (Shell op) = []" and "validatePlanOp op = None"
  shows "Tool op \<noteq> [] \<and>
    runPlanOp env disp eng ctx op st = (blockedPlanOp ''blocked: shell op risk exceeds Phase 1 read-only allowance'', st)"
proof -
  have "commandRisk (Shell op) = RiskCaution"
    using assms(2) by (simp add: ClassifyCommand.simps [of "Shell op"] classifyBody_def)
  with assms show ?thesis by (auto simp: runPlanOp_def validatePlanOp_def split: if_splits)
qed

theorem blank_shell_masks_tool_witness:
  "snd (fst (runPlanOp exampleHost noDispatch exampleEngine outerCtx \<lparr>Shell = '' '', Tool = ''read_file'', Args = []\<rparr>
     \<lparr>reserved = 0, world = 0\<rparr>))"
proof -
  have "validatePlanOp \<lparr>Shell = '' '', Tool = ''read_file'', Args = []\<rparr> = None" "trimSpace '' '' = []" by code_simp+
  then have "runPlanOp exampleHost noDispatch exampleEngine outerCtx \<lparr>Shell = '' '', Tool = ''read_file'', Args = []\<rparr>
     \<lparr>reserved = 0, world = 0\<rparr> = (blockedPlanOp ''blocked: shell op risk exceeds Phase 1 read-only allowance'',
     \<lparr>reserved = 0, world = 0\<rparr>)"
    by (intro blank_shell_masks_tool [THEN conjunct2]) simp_all
  then show ?thesis by (simp add: blockedPlanOp_def)
qed

end
