(* ===== verification/GoRunes.thy ===== *)
theory GoRunes
  imports GoStrings
begin

text \<open>
  The second half of the prelude: the parts of \<open>unicode/utf8\<close> and \<open>strings\<close> the text
  editing tools use, on strings of bytes that need not be valid UTF-8.  A rune is an
  \<open>int\<close>.  \<open>decodeRune\<close> follows the acceptance ranges of \<open>utf8.DecodeRuneInString\<close>: a
  byte that starts no valid encoding is the replacement rune of width 1.
\<close>

section \<open>UTF-8\<close>

abbreviation runeError :: int where "runeError \<equiv> 0xFFFD"

definition byteVal :: "char \<Rightarrow> int" where
  "byteVal c = of_char c"

definition contByte :: "char \<Rightarrow> bool" where
  "contByte c \<longleftrightarrow> 0x80 \<le> byteVal c \<and> byteVal c \<le> 0xBF"

text \<open>The length a leading byte announces, 0 for a byte that leads nothing.\<close>

definition leadSize :: "int \<Rightarrow> nat" where
  "leadSize x =
     (if x < 0x80 then 1 else if x < 0xC2 then 0 else if x < 0xE0 then 2
      else if x < 0xF0 then 3 else if x < 0xF5 then 4 else 0)"

definition secondLow :: "int \<Rightarrow> int" where
  "secondLow x = (if x = 0xE0 then 0xA0 else if x = 0xF0 then 0x90 else 0x80)"

definition secondHigh :: "int \<Rightarrow> int" where
  "secondHigh x = (if x = 0xED then 0x9F else if x = 0xF4 then 0x8F else 0xBF)"

fun tailOK :: "int \<Rightarrow> string \<Rightarrow> bool" where
  "tailOK x [] = True"
| "tailOK x (b # bs) \<longleftrightarrow>
     secondLow x \<le> byteVal b \<and> byteVal b \<le> secondHigh x \<and> list_all contByte bs"

definition leadBits :: "int \<Rightarrow> int" where
  "leadBits x = (if x < 0x80 then x else if x < 0xE0 then x - 0xC0
                 else if x < 0xF0 then x - 0xE0 else x - 0xF0)"

definition runeValue :: "int \<Rightarrow> string \<Rightarrow> int" where
  "runeValue x bs = foldl (\<lambda>v b. v * 64 + (byteVal b - 0x80)) (leadBits x) bs"

text \<open>Does a string start with a valid encoding?\<close>

fun runeOK :: "string \<Rightarrow> bool" where
  "runeOK [] = False"
| "runeOK (a # s) =
     (let n = leadSize (byteVal a); bs = take (n - 1) s
      in n \<noteq> 0 \<and> length bs = n - 1 \<and> tailOK (byteVal a) bs)"

definition decodeRune :: "string \<Rightarrow> int \<times> nat" where
  "decodeRune s =
     (if s = [] then (runeError, 0)
      else if runeOK s
        then (let x = byteVal (hd s) in (runeValue x (take (leadSize x - 1) (tl s)), leadSize x))
      else (runeError, 1))"

definition byteOf :: "int \<Rightarrow> char" where
  "byteOf i = char_of i"

definition encodeRune :: "int \<Rightarrow> string" where
  "encodeRune r =
     (if r < 0x80 then [byteOf r]
      else if r < 0x800 then [byteOf (0xC0 + r div 64), byteOf (0x80 + r mod 64)]
      else if r < 0x10000
        then [byteOf (0xE0 + r div 4096), byteOf (0x80 + r div 64 mod 64), byteOf (0x80 + r mod 64)]
      else [byteOf (0xF0 + r div 262144), byteOf (0x80 + r div 4096 mod 64),
            byteOf (0x80 + r div 64 mod 64), byteOf (0x80 + r mod 64)])"

lemma decodeRune_size_pos: "s \<noteq> [] \<Longrightarrow> 0 < snd (decodeRune s)"
  by (cases s) (auto simp: decodeRune_def Let_def)

lemma decodeRune_size_le: "snd (decodeRune s) \<le> length s"
  by (cases s) (auto simp: decodeRune_def Let_def)

text \<open>\<open>[]rune(s)\<close>, and the same cut into the bytes of each rune.\<close>

function goRunes :: "string \<Rightarrow> int list" where
  "goRunes s =
     (if s = [] then []
      else let (r, n) = decodeRune s in r # goRunes (drop n s))"
  by pat_completeness auto
termination
proof (relation "measure length")
  fix s :: string and p r n
  assume "s \<noteq> []" "p = decodeRune s" "(r, n) = p"
  then show "(drop n s, s) \<in> measure length"
    using decodeRune_size_pos [of s] by (cases s) (auto simp: prod_eq_iff)
qed simp

declare goRunes.simps [simp del]

lemma goRunes_Nil [simp]: "goRunes [] = []"
  by (simp add: goRunes.simps)

lemma goRunes_step:
  "s \<noteq> [] \<Longrightarrow> goRunes s = fst (decodeRune s) # goRunes (drop (snd (decodeRune s)) s)"
  by (subst goRunes.simps) (simp add: case_prod_beta Let_def)

definition runeCount :: "string \<Rightarrow> nat" where
  "runeCount s = length (goRunes s)"

text \<open>Valid UTF-8, the form of every string that comes out of a JSON decoder.\<close>

function validUTF8 :: "string \<Rightarrow> bool" where
  "validUTF8 s =
     (if s = [] then True else if \<not> runeOK s then False else validUTF8 (drop (snd (decodeRune s)) s))"
  by pat_completeness auto
termination
proof (relation "measure length")
  fix s :: string assume "s \<noteq> []" then show "(drop (snd (decodeRune s)) s, s) \<in> measure length"
    using decodeRune_size_pos [of s] by (cases s) auto
qed simp

declare validUTF8.simps [simp del]

section \<open>More of the strings package\<close>

text \<open>\<open>strings.ReplaceAll\<close> with a non-empty search string.\<close>

function replaceAll :: "string \<Rightarrow> string \<Rightarrow> string \<Rightarrow> string" where
  "replaceAll [] old new = []"
| "replaceAll (c # s) old new =
     (if old \<noteq> [] \<and> hasPrefix (c # s) old
      then new @ replaceAll (drop (length old) (c # s)) old new
      else c # replaceAll s old new)"
  by pat_completeness auto
termination
  by (relation "measure (\<lambda>(s, _). length s)") auto

text \<open>\<open>strings.Count\<close>: occurrences that do not overlap; of the empty string, one more than the runes.\<close>

function countFrom :: "string \<Rightarrow> string \<Rightarrow> nat" where
  "countFrom [] sub = 0"
| "countFrom (c # s) sub =
     (if sub \<noteq> [] \<and> hasPrefix (c # s) sub then Suc (countFrom (drop (length sub) (c # s)) sub)
      else countFrom s sub)"
  by pat_completeness auto
termination
  by (relation "measure (\<lambda>(s, _). length s)") auto

definition countStr :: "string \<Rightarrow> string \<Rightarrow> nat" where
  "countStr s sub = (if sub = [] then Suc (runeCount s) else countFrom s sub)"

text \<open>One after the last index of a byte, 0 when there is none: \<open>strings.LastIndex(s, c) + 1\<close>.\<close>

definition afterLast :: "string \<Rightarrow> char \<Rightarrow> nat" where
  "afterLast s c = length s - length (takeWhile (\<lambda>x. x \<noteq> c) (rev s))"

section \<open>Lemmas\<close>

lemma byteVal_range [simp]: "0 \<le> byteVal c" "byteVal c < 256"
  by (simp_all add: byteVal_def of_char_def)

lemma byteOf_byteVal [simp]: "byteOf (byteVal c) = c"
  by (simp add: byteOf_def byteVal_def)

lemma tailOK_ge: "tailOK x bs \<Longrightarrow> b \<in> set bs \<Longrightarrow> contByte b"
  by (cases bs)
    (auto simp: list_all_iff secondLow_def secondHigh_def contByte_def split: if_splits)

lemma runeOK_Cons:
  "runeOK (a # s) \<longleftrightarrow> leadSize (byteVal a) \<noteq> 0 \<and> leadSize (byteVal a) - 1 \<le> length s \<and>
     tailOK (byteVal a) (take (leadSize (byteVal a) - 1) s)"
  by (auto simp: Let_def min_def)

declare runeOK.simps(2) [simp del]

lemma decodeRune_ok:
  "runeOK (a # s) \<Longrightarrow> decodeRune (a # s) =
     (runeValue (byteVal a) (take (leadSize (byteVal a) - 1) s), leadSize (byteVal a))"
  by (simp add: decodeRune_def Let_def)

lemma decodeRune_bad: "s \<noteq> [] \<Longrightarrow> \<not> runeOK s \<Longrightarrow> decodeRune s = (runeError, 1)"
  by (simp add: decodeRune_def)

lemma leadSize_ascii [simp]: "byteVal a < 128 \<Longrightarrow> leadSize (byteVal a) = 1"
  by (simp add: leadSize_def)

lemma runeOK_ascii: "byteVal a < 128 \<Longrightarrow> runeOK (a # s)"
  by (simp add: runeOK_Cons)

lemma decodeRune_ascii: "byteVal a < 128 \<Longrightarrow> decodeRune (a # s) = (byteVal a, 1)"
  by (simp add: decodeRune_ok runeOK_ascii runeValue_def leadBits_def)

lemma contByte_ge: "contByte c \<Longrightarrow> 128 \<le> byteVal c"
  by (simp add: contByte_def)

text \<open>An encoding never reaches past an ASCII byte.\<close>

lemma runeOK_before_ascii:
  assumes "byteVal c < 128"
  shows "runeOK (a # s @ c # t) \<longleftrightarrow> runeOK (a # s)"
    and "runeOK (a # s) \<Longrightarrow> take (leadSize (byteVal a) - 1) (s @ c # t) = take (leadSize (byteVal a) - 1) s"
proof -
  let ?k = "leadSize (byteVal a) - 1"
  have "\<not> tailOK (byteVal a) (take ?k (s @ c # t))" if "length s < ?k"
  proof
    assume "tailOK (byteVal a) (take ?k (s @ c # t))"
    moreover have "c \<in> set (take ?k (s @ c # t))"
      using that by (cases "?k - length s") auto
    ultimately have "contByte c" by (rule tailOK_ge)
    with assms show False by (simp add: contByte_def)
  qed
  then show "runeOK (a # s @ c # t) \<longleftrightarrow> runeOK (a # s)"
    by (cases "length s < ?k") (auto simp: runeOK_Cons)
  show "take ?k (s @ c # t) = take ?k s" if "runeOK (a # s)"
    using that by (auto simp: runeOK_Cons)
qed

lemma decodeRune_before_ascii:
  fixes s :: string
  shows "s \<noteq> [] \<Longrightarrow> byteVal c < 128 \<Longrightarrow> decodeRune (s @ c # t) = decodeRune s"
  using runeOK_before_ascii(2) [of c "hd s" "tl s" t] runeOK_before_ascii(1) [of c "hd s" "tl s" t]
  by (cases s) (auto simp: decodeRune_def Let_def)

lemma goRunes_split_ascii:
  assumes c: "byteVal c < 128"
  shows "goRunes (s @ c # t) = goRunes s @ byteVal c # goRunes t"
proof (induction s rule: length_induct)
  case (1 s)
  show ?case
  proof (cases "s = []")
    case True
    then show ?thesis using goRunes_step [of "c # t"] by (simp add: decodeRune_ascii c)
  next
    case False
    let ?n = "snd (decodeRune s)"
    have "goRunes (s @ c # t) = fst (decodeRune s) # goRunes (drop ?n (s @ c # t))"
      using goRunes_step [of "s @ c # t"] decodeRune_before_ascii [OF False c, of t] by simp
    also have "drop ?n (s @ c # t) = drop ?n s @ c # t"
      using decodeRune_size_le [of s] by simp
    also have "goRunes (drop ?n s @ c # t) = goRunes (drop ?n s) @ byteVal c # goRunes t"
      using 1 False decodeRune_size_pos [OF False] by simp
    finally show ?thesis using goRunes_step [OF False] by simp
  qed
qed

lemma validUTF8_Nil [simp]: "validUTF8 []"
  by (simp add: validUTF8.simps)

lemma validUTF8_step:
  "s \<noteq> [] \<Longrightarrow> validUTF8 s \<longleftrightarrow> runeOK s \<and> validUTF8 (drop (snd (decodeRune s)) s)"
  by (subst validUTF8.simps) simp

lemma validUTF8_split_ascii:
  assumes c: "byteVal c < 128"
  shows "validUTF8 (s @ c # t) \<longleftrightarrow> validUTF8 s \<and> validUTF8 t"
proof (induction s rule: length_induct)
  case (1 s)
  show ?case
  proof (cases s)
    case Nil
    then show ?thesis using validUTF8_step [of "c # t"] by (simp add: runeOK_ascii decodeRune_ascii c)
  next
    case (Cons a s')
    let ?n = "snd (decodeRune s)"
    have "runeOK (s @ c # t) = runeOK s"
      using runeOK_before_ascii(1) [OF c] Cons by simp
    moreover have "drop ?n (s @ c # t) = drop ?n s @ c # t"
      using decodeRune_size_le [of s] by simp
    moreover have "length (drop ?n s) < length s"
      using decodeRune_size_pos [of s] Cons by simp
    moreover have "validUTF8 (s @ c # t) \<longleftrightarrow>
        runeOK (s @ c # t) \<and> validUTF8 (drop (snd (decodeRune (s @ c # t))) (s @ c # t))"
      by (rule validUTF8_step) simp
    moreover have "validUTF8 s \<longleftrightarrow> runeOK s \<and> validUTF8 (drop ?n s)"
      using Cons by (intro validUTF8_step) simp
    ultimately show ?thesis
      using 1 Cons decodeRune_before_ascii [of s c t] c by (metis list.discI)
  qed
qed


subsection \<open>Encoding what was decoded\<close>

lemma cont_parts:
  "contByte b \<Longrightarrow> 0 \<le> byteVal b - 128 \<and> byteVal b - 128 < 64"
  by (simp add: contByte_def)

lemma byteOf_eq: "i = byteVal c \<Longrightarrow> byteOf i = c"
  by simp

lemma digit64:
  fixes y b :: int
  assumes "0 \<le> b" "b < 64"
  shows "(y * 64 + b) div 64 = y" "(y * 64 + b) mod 64 = b"
  using assms by simp_all

lemma div_4096: "(v :: int) div 4096 = v div 64 div 64"
  using zdiv_zmult2_eq [of 64 v 64] by simp

lemma div_262144: "(v :: int) div 262144 = v div 64 div 64 div 64"
  using zdiv_zmult2_eq [of 64 v 4096] div_4096 [of v] by simp

lemma encode_two:
  assumes "128 \<le> v" "v < 2048" "v div 64 = x - 192" "v mod 64 = b"
  shows "encodeRune v = [byteOf x, byteOf (128 + b)]"
  using assms by (simp add: encodeRune_def)

lemma encode_three:
  assumes "2048 \<le> v" "v < 65536" "v div 64 = w" "v mod 64 = c" "w div 64 = x - 224" "w mod 64 = b"
  shows "encodeRune v = [byteOf x, byteOf (128 + b), byteOf (128 + c)]"
proof -
  have "\<not> v < 0x80" "\<not> v < 0x800" "v < 0x10000" "0xE0 + (x - 224) = x"
    using assms(1,2) by simp_all
  then show ?thesis
    by (simp only: encodeRune_def div_4096 assms(3-) if_True if_False)
qed

lemma encode_four:
  assumes "65536 \<le> v" "v div 64 = w" "v mod 64 = d" "w div 64 = u" "w mod 64 = c"
    "u div 64 = x - 240" "u mod 64 = b"
  shows "encodeRune v = [byteOf x, byteOf (128 + b), byteOf (128 + c), byteOf (128 + d)]"
proof -
  have "\<not> v < 0x80" "\<not> v < 0x800" "\<not> v < 0x10000" "0xF0 + (x - 240) = x"
    using assms(1) by simp_all
  then show ?thesis
    by (simp only: encodeRune_def div_4096 div_262144 assms(2-) if_True if_False)
qed

lemma leadSize_cases:
  obtains "leadSize x = 0" | "leadSize x = 1" "x < 128" | "leadSize x = 2" "194 \<le> x" "x < 224"
  | "leadSize x = 3" "224 \<le> x" "x < 240" | "leadSize x = 4" "240 \<le> x" "x < 245"
proof -
  consider "x < 128" | "128 \<le> x" "x < 194" | "194 \<le> x" "x < 224" | "224 \<le> x" "x < 240"
    | "240 \<le> x" "x < 245" | "245 \<le> x"
    by linarith
  then show thesis by cases (rule that; simp add: leadSize_def)+
qed

lemma take_Suc_eq: "n \<le> length s \<Longrightarrow> n = Suc m \<Longrightarrow> take n s = hd s # take m (tl s)"
  by (cases s) auto

lemma encode_decode:
  assumes "runeOK s"
  shows "encodeRune (fst (decodeRune s)) = take (snd (decodeRune s)) s"
proof (cases s)
  case (Cons a t)
  let ?x = "byteVal a"
  have ok: "leadSize ?x - 1 \<le> length t" "tailOK ?x (take (leadSize ?x - 1) t)" "leadSize ?x \<noteq> 0"
    using assms Cons by (auto simp: runeOK_Cons)
  have v: "decodeRune s = (runeValue ?x (take (leadSize ?x - 1) t), leadSize ?x)"
    using assms Cons by (simp add: decodeRune_ok)
  show ?thesis
  proof (cases rule: leadSize_cases [of ?x])
    case 1
    then show ?thesis using ok by simp
  next
    case 2
    then show ?thesis using v Cons by (simp add: runeValue_def leadBits_def encodeRune_def)
  next
    case 3
    then obtain b where b: "take 1 t = [b]" using ok by (cases t) auto
    then have "contByte b" using 3 ok tailOK_ge [OF ok(2), of b] by simp
    with 3 have "encodeRune ((?x - 192) * 64 + (byteVal b - 128)) =
        [byteOf ?x, byteOf (128 + (byteVal b - 128))]"
      using cont_parts [of b] by (intro encode_two digit64) auto
    then show ?thesis
      using 3 v Cons b by (simp add: runeValue_def leadBits_def)
  next
    case 4
    then obtain b c where bc: "take 2 t = [b, c]"
      using ok by (cases t; cases "tl t") (auto simp: numeral_2_eq_2)
    then have cb: "contByte b" "contByte c" and "?x = 224 \<Longrightarrow> 160 \<le> byteVal b"
      using 4 ok by (auto simp: secondLow_def secondHigh_def contByte_def split: if_splits)
    with 4 have "encodeRune (((?x - 224) * 64 + (byteVal b - 128)) * 64 + (byteVal c - 128)) =
        [byteOf ?x, byteOf (128 + (byteVal b - 128)), byteOf (128 + (byteVal c - 128))]"
      using cont_parts [of b] cont_parts [of c]
      by (intro encode_three [where w = "(?x - 224) * 64 + (byteVal b - 128)"] digit64) (auto, linarith)
    then show ?thesis
      using 4 v Cons bc by (simp add: runeValue_def leadBits_def)
  next
    case 5
    then obtain b c d where bcd: "take 3 t = [b, c, d]"
      using ok by (cases t; cases "tl t"; cases "tl (tl t)") (auto simp: numeral_3_eq_3)
    then have cb: "contByte b" "contByte c" "contByte d" and "?x = 240 \<Longrightarrow> 144 \<le> byteVal b"
      using 5 ok by (auto simp: secondLow_def secondHigh_def contByte_def split: if_splits)
    with 5 have "encodeRune ((((?x - 240) * 64 + (byteVal b - 128)) * 64 + (byteVal c - 128)) * 64
          + (byteVal d - 128)) =
        [byteOf ?x, byteOf (128 + (byteVal b - 128)), byteOf (128 + (byteVal c - 128)),
         byteOf (128 + (byteVal d - 128))]"
      using cont_parts [of b] cont_parts [of c] cont_parts [of d]
      by (intro encode_four [where w = "((?x - 240) * 64 + (byteVal b - 128)) * 64 + (byteVal c - 128)"
            and u = "(?x - 240) * 64 + (byteVal b - 128)"] digit64) (auto, linarith)
    then show ?thesis
      using 5 v Cons bcd by (simp add: runeValue_def leadBits_def)
  qed
qed (use assms in simp)

lemma encode_runes: "validUTF8 s \<Longrightarrow> concat (map encodeRune (goRunes s)) = s"
proof (induction s rule: length_induct)
  case (1 s)
  show ?case
  proof (cases "s = []")
    case False
    let ?n = "snd (decodeRune s)"
    have "runeOK s" "validUTF8 (drop ?n s)"
      using 1 False validUTF8_step [OF False] by auto
    moreover have "length (drop ?n s) < length s"
      using decodeRune_size_pos [OF False] False by simp
    ultimately show ?thesis
      using 1 goRunes_step [OF False] encode_decode [of s] by (metis (no_types, lifting)
          append_take_drop_id concat.simps(2) list.simps(9))
  qed simp
qed

end
