(* ===== verification/EditText.thy ===== *)
theory EditText
  imports GoRunes GoValues
begin

text \<open>
  Text normalisation for the editing tools: \<open>normalize.go\<close> and \<open>mapNormalizedText\<close> of
  \<open>edit_apply.go\<close>.  An edit is matched on a normalised copy of the file (line endings
  become LF; in the fuzzy mode trailing blanks go and typographic characters become ASCII)
  and applied to the original bytes; the map keeps, for every position of the copy, the
  byte of the original it ends at.
\<close>

section \<open>normalize.go\<close>

abbreviation blanks :: string where "blanks \<equiv> [CHR '' '', tab]"
abbreviation crlf :: string where "crlf \<equiv> [creturn, newline]"

text \<open>The best-scoring line so far: its score, its index and its text.\<close>

type_synonym scoredLine = "rat \<times> nat \<times> string"

text \<open>The runes of the needle, each counted once, that occur in the line.\<close>

fun sharedRunes :: "int list \<Rightarrow> int list \<Rightarrow> int list \<Rightarrow> nat" where
  "sharedRunes hay seen [] = 0"
| "sharedRunes hay seen (r # rs) =
     (if r \<in> set hay \<and> r \<notin> set seen then Suc (sharedRunes hay (r # seen) rs)
      else sharedRunes hay seen rs)"

text \<open>
  The score of a line.  The quotient of two lengths below \<open>2 ^ 26\<close> is compared as a float64 in
  the code; two different such quotients differ by more than the rounding, so the exact
  quotients compare alike.
\<close>

definition lineScore :: "int list \<Rightarrow> string \<Rightarrow> rat" where
  "lineScore needles line =
     (let haystack = goRunes line;
          shared = sharedRunes haystack [] needles;
          maxRunes = max (length needles) (length haystack)
      in of_nat shared / of_nat maxRunes)"

fun closestFrom :: "int list \<Rightarrow> nat \<Rightarrow> string list \<Rightarrow> scoredLine \<Rightarrow> scoredLine" where
  "closestFrom needles i [] best = best"
| "closestFrom needles i (line # rest) (bestScore, bestIdx, bestText) =
     (let score = lineScore needles line in
      closestFrom needles (Suc i) rest
        (if bestScore < score then (score, i, line) else (bestScore, bestIdx, bestText)))"

definition closestLine :: "string \<Rightarrow> string \<Rightarrow> nat \<times> string" where
  "closestLine oldText content =
     (let firstLine = trimSpace (hd (splitByte oldText newline)) in
      if firstLine = [] then (0, [])
      else let (_, bestIdx, bestText) =
             closestFrom (goRunes firstLine) 0 (splitByte content newline) (- 1, 0, [])
           in (bestIdx + 1, bestText))"

definition bomPrefix :: string where
  "bomPrefix = [CHR 0xEF, CHR 0xBB, CHR 0xBF]"

definition stripBom :: "string \<Rightarrow> string \<times> string" where
  "stripBom s = (if hasPrefix s bomPrefix then (drop 3 s, take 3 s) else (s, []))"

definition detectLineEnding :: "string \<Rightarrow> string" where
  "detectLineEnding s =
     (case (indexByte s newline, indexStr s crlf) of
        (Some lfIdx, Some crlfIdx) \<Rightarrow> (if crlfIdx < lfIdx then crlf else [newline])
      | _ \<Rightarrow> [newline])"

definition normalizeToLF :: "string \<Rightarrow> string" where
  "normalizeToLF s = replaceAll (replaceAll s crlf [newline]) [creturn] [newline]"

definition restoreLineEndings :: "string \<Rightarrow> string \<Rightarrow> string" where
  "restoreLineEndings s ending = (if ending = crlf then replaceAll s [newline] crlf else s)"

definition runeASCIIMap :: "(int \<times> char) list" where
  "runeASCIIMap =
     [(0x2018, squote), (0x2019, squote), (0x201A, squote), (0x201B, squote),
      (0x201C, dquote), (0x201D, dquote), (0x201E, dquote), (0x201F, dquote),
      (0x2010, CHR ''-''), (0x2011, CHR ''-''), (0x2012, CHR ''-''), (0x2013, CHR ''-''),
      (0x2014, CHR ''-''), (0x2015, CHR ''-''), (0x2212, CHR ''-''),
      (0x00A0, CHR '' ''), (0x202F, CHR '' ''), (0x205F, CHR '' ''), (0x3000, CHR '' '')]"

definition normalizeRune :: "int \<Rightarrow> char option" where
  "normalizeRune r =
     (case map_of runeASCIIMap r of
        Some b \<Rightarrow> Some b
      | None \<Rightarrow> (if 0x2002 \<le> r \<and> r \<le> 0x200A then Some (CHR '' '') else None))"

definition foldRune :: "int \<Rightarrow> string" where
  "foldRune r = (case normalizeRune r of Some ascii \<Rightarrow> [ascii] | None \<Rightarrow> encodeRune r)"

definition normalizeForFuzzyMatch :: "string \<Rightarrow> string" where
  "normalizeForFuzzyMatch s =
     (let s' = joinStr [newline] (map (\<lambda>l. trimRight l blanks) (splitByte s newline))
      in concat (map foldRune (goRunes s')))"

section \<open>The map from the normalised text to the original\<close>

record normalizedTextMap =
  text_of :: string
  boundaries :: "nat list"

text \<open>\<open>appendMapped\<close>: every byte of the piece maps to the end of its source.\<close>

definition appendMapped :: "string \<Rightarrow> nat \<Rightarrow> normalizedTextMap \<Rightarrow> normalizedTextMap" where
  "appendMapped piece e m =
     \<lparr>text_of = text_of m @ piece, boundaries = boundaries m @ replicate (length piece) e\<rparr>"

definition isEOLByte :: "char \<Rightarrow> bool" where
  "isEOLByte c \<longleftrightarrow> c = newline \<or> c = creturn"

text \<open>What one rune of a line contributes.\<close>

definition mapRune :: "bool \<Rightarrow> string \<Rightarrow> string" where
  "mapRune fuzzy s =
     (let (r, size) = decodeRune s in
      if fuzzy then (case normalizeRune r of Some ascii \<Rightarrow> [ascii] | None \<Rightarrow> take size s)
      else take size s)"

text \<open>The inner loop, over the content of one line; \<open>pos\<close> is its offset in the file.\<close>

function mapContent :: "bool \<Rightarrow> string \<Rightarrow> nat \<Rightarrow> normalizedTextMap \<Rightarrow> normalizedTextMap" where
  "mapContent fuzzy s pos m =
     (if s = [] then m
      else let size = snd (decodeRune s) in
        mapContent fuzzy (drop size s) (pos + size) (appendMapped (mapRune fuzzy s) (pos + size) m))"
  by pat_completeness auto
termination
proof (relation "measure (\<lambda>(_, s, _). length s)")
  fix fuzzy :: bool and s :: string and pos :: nat and m :: normalizedTextMap and x
  assume "s \<noteq> []" "x = snd (decodeRune s)"
  then show "((fuzzy, drop x s, pos + x, appendMapped (mapRune fuzzy s) (pos + x) m), fuzzy, s, pos, m)
      \<in> measure (\<lambda>(_, s, _). length s)"
    using decodeRune_size_pos [of s] by (cases s) auto
qed simp

declare mapContent.simps [simp del]

text \<open>Blanks trimmed off a line belong to the last byte kept.\<close>

definition absorbBlanks :: "nat \<Rightarrow> normalizedTextMap \<Rightarrow> normalizedTextMap" where
  "absorbBlanks lineEnd m =
     (if boundaries m \<noteq> [] then m\<lparr>boundaries := butlast (boundaries m) @ [lineEnd]\<rparr> else m)"

definition eolLen :: "string \<Rightarrow> nat" where
  "eolLen rest = (if take 2 rest = crlf then 2 else 1)"

definition lineOf :: "string \<Rightarrow> string" where
  "lineOf s = takeWhile (\<lambda>c. \<not> isEOLByte c) s"

definition mapLine :: "bool \<Rightarrow> string \<Rightarrow> nat \<Rightarrow> normalizedTextMap \<Rightarrow> normalizedTextMap" where
  "mapLine fuzzy line offset m =
     (let content = (if fuzzy then trimRight line blanks else line);
          m' = mapContent fuzzy content offset m
      in if fuzzy \<and> length content < length line then absorbBlanks (offset + length line) m' else m')"

text \<open>The outer loop, over the lines.\<close>

function mapLines :: "bool \<Rightarrow> string \<Rightarrow> nat \<Rightarrow> normalizedTextMap \<Rightarrow> normalizedTextMap" where
  "mapLines fuzzy s offset m =
     (if s = [] then m
      else let line = lineOf s; rest = drop (length line) s; lineEnd = offset + length line;
               m' = mapLine fuzzy line offset m
        in if rest = [] then m'
           else let newlineEnd = lineEnd + eolLen rest in
             mapLines fuzzy (drop (eolLen rest) rest) newlineEnd (appendMapped [newline] newlineEnd m'))"
  by pat_completeness auto
termination
  by (relation "measure (\<lambda>(_, s, _). length s)") (auto simp: eolLen_def)

declare mapLines.simps [simp del]

definition mapNormalizedText :: "string \<Rightarrow> bool \<Rightarrow> normalizedTextMap" where
  "mapNormalizedText input fuzzy = mapLines fuzzy input 0 \<lparr>text_of = [], boundaries = [0]\<rparr>"


section \<open>Lemmas\<close>

subsection \<open>Line endings\<close>

lemma normalizeToLF_Nil [simp]: "normalizeToLF [] = []"
  by (simp add: normalizeToLF_def)

lemma normalizeToLF_crlf [simp]: "normalizeToLF (creturn # newline # s) = newline # normalizeToLF s"
  by (simp add: normalizeToLF_def hasPrefix_def)

lemma normalizeToLF_cr [simp]:
  "\<not> hasPrefix s [newline] \<Longrightarrow> normalizeToLF (creturn # s) = newline # normalizeToLF s"
  by (cases s) (auto simp: normalizeToLF_def hasPrefix_def)

lemma normalizeToLF_other [simp]:
  "c \<noteq> creturn \<Longrightarrow> normalizeToLF (c # s) = c # normalizeToLF s"
  by (simp add: normalizeToLF_def hasPrefix_def)

lemma normalizeToLF_induct [case_names Nil crlf cr other]:
  assumes "P []" "\<And>s. P s \<Longrightarrow> P (creturn # newline # s)"
    "\<And>s. \<not> hasPrefix s [newline] \<Longrightarrow> P s \<Longrightarrow> P (creturn # s)"
    "\<And>c s. c \<noteq> creturn \<Longrightarrow> P s \<Longrightarrow> P (c # s)"
  shows "P s"
proof (induction s rule: length_induct)
  case (1 s)
  then show ?case
    using assms by (cases s; cases "tl s"; cases "hd s = creturn"; cases "hd (tl s) = newline")
      (auto simp: hasPrefix_def)
qed

lemma normalizeToLF_no_cr: "creturn \<notin> set (normalizeToLF s)"
  by (induction s rule: normalizeToLF_induct) auto

lemma normalizeToLF_id: "creturn \<notin> set s \<Longrightarrow> normalizeToLF s = s"
  by (induction s) auto

lemma normalizeToLF_append:
  "\<not> (hasSuffix a [creturn] \<and> hasPrefix b [newline]) \<Longrightarrow>
   normalizeToLF (a @ b) = normalizeToLF a @ normalizeToLF b"
proof (induction a rule: normalizeToLF_induct)
  case (cr s)
  then show ?case
    by (cases s) (auto simp: hasSuffix_def hasPrefix_def suffix_Cons)
qed (auto simp: hasSuffix_def suffix_Cons)

lemma replaceAll_newline_crlf:
  "replaceAll (c # s) [newline] crlf = (if c = newline then crlf else [c]) @ replaceAll s [newline] crlf"
  by (simp add: hasPrefix_def)

lemma normalizeToLF_restore:
  "creturn \<notin> set s \<Longrightarrow> normalizeToLF (restoreLineEndings s ending) = s"
proof -
  assume "creturn \<notin> set s"
  then have "normalizeToLF (replaceAll s [newline] crlf) = s"
    by (induction s) (auto simp: replaceAll_newline_crlf simp del: replaceAll.simps(2))
  with \<open>creturn \<notin> set s\<close> show ?thesis
    by (simp add: restoreLineEndings_def normalizeToLF_id)
qed

text \<open>Every CR is followed by LF and every LF preceded by CR.\<close>

fun pureCRLF :: "string \<Rightarrow> bool" where
  "pureCRLF [] = True"
| "pureCRLF [c] = (c \<noteq> creturn \<and> c \<noteq> newline)"
| "pureCRLF (c # d # s) =
     (if c = creturn then d = newline \<and> pureCRLF s else c \<noteq> newline \<and> pureCRLF (d # s))"

lemma restore_pureCRLF: "pureCRLF s \<Longrightarrow> replaceAll (normalizeToLF s) [newline] crlf = s"
  by (induction s rule: pureCRLF.induct)
    (auto simp: replaceAll_newline_crlf simp del: replaceAll.simps(2) split: if_splits)


subsection \<open>Shape of the map\<close>

text \<open>What the loops keep: one boundary per position, in order, none beyond the bytes read.\<close>

definition mapOK :: "nat \<Rightarrow> normalizedTextMap \<Rightarrow> bool" where
  "mapOK e m \<longleftrightarrow> length (boundaries m) = Suc (length (text_of m)) \<and> sorted (boundaries m) \<and>
     set (boundaries m) \<subseteq> {0..e}"

lemma mapOK_mono: "mapOK e m \<Longrightarrow> e \<le> e' \<Longrightarrow> mapOK e' m"
  unfolding mapOK_def by force

lemma mapOK_append: "mapOK e m \<Longrightarrow> e \<le> e' \<Longrightarrow> mapOK e' (appendMapped piece e' m)"
  unfolding mapOK_def appendMapped_def by (auto simp: sorted_append subset_iff)

lemma mapOK_absorb: "mapOK e m \<Longrightarrow> e \<le> e' \<Longrightarrow> mapOK e' (absorbBlanks e' m)"
  unfolding mapOK_def absorbBlanks_def
  by (auto simp: sorted_append sorted_butlast subset_iff dest!: in_set_butlastD)

lemma mapOK_content: "mapOK pos m \<Longrightarrow> mapOK (pos + length s) (mapContent fuzzy s pos m)"
proof (induction fuzzy s pos m rule: mapContent.induct)
  case (1 fuzzy s pos m)
  show ?case
  proof (cases "s = []")
    case False
    let ?n = "snd (decodeRune s)"
    have "mapOK (pos + ?n) (appendMapped (mapRune fuzzy s) (pos + ?n) m)"
      using "1.prems" by (rule mapOK_append) simp
    then have "mapOK (pos + ?n + length (drop ?n s))
        (mapContent fuzzy (drop ?n s) (pos + ?n) (appendMapped (mapRune fuzzy s) (pos + ?n) m))"
      using 1 False by blast
    then show ?thesis
      using False decodeRune_size_le [of s] by (subst mapContent.simps) (simp add: Let_def)
  qed (use 1 in \<open>simp add: mapContent.simps\<close>)
qed

lemma trimRight_parts: "\<exists>b. s = trimRight s cs @ b \<and> set b \<subseteq> set cs"
  unfolding trimRight_def
  by (metis dropWhile_eq_Nil_conv rev_append rev_rev_ident set_rev set_takeWhileD subsetI takeWhile_dropWhile_id)

lemma mapOK_line: "mapOK offset m \<Longrightarrow> mapOK (offset + length line) (mapLine fuzzy line offset m)"
  using mapOK_content [of offset m line False] mapOK_content [of offset m "trimRight line blanks" True]
    trimRight_length [of line blanks]
  by (auto simp: mapLine_def Let_def intro: mapOK_absorb mapOK_mono)

lemma length_lineOf: "length (lineOf s) \<le> length s"
  by (simp add: lineOf_def length_takeWhile_le)

lemma eolLen_le: "rest \<noteq> [] \<Longrightarrow> eolLen rest \<le> length rest"
  by (cases rest; cases "tl rest") (auto simp: eolLen_def)

lemma mapOK_lines: "mapOK offset m \<Longrightarrow> mapOK (offset + length s) (mapLines fuzzy s offset m)"
proof (induction fuzzy s offset m rule: mapLines.induct)
  case (1 fuzzy s offset m)
  let ?line = "lineOf s"
  let ?rest = "drop (length ?line) s"
  let ?m = "mapLine fuzzy ?line offset m"
  show ?case
  proof (cases "s = []")
    case False
    have m: "mapOK (offset + length ?line) ?m" by (rule mapOK_line) (rule "1.prems")
    show ?thesis
    proof (cases "?rest = []")
      case True
      then show ?thesis
        using m False length_lineOf [of s] by (subst mapLines.simps) (auto simp: Let_def intro: mapOK_mono)
    next
      case rest: False
      let ?e = "offset + length ?line + eolLen ?rest"
      have "mapOK ?e (appendMapped [newline] ?e ?m)" using m by (rule mapOK_append) simp
      then have "mapOK (?e + length (drop (eolLen ?rest) ?rest))
          (mapLines fuzzy (drop (eolLen ?rest) ?rest) ?e (appendMapped [newline] ?e ?m))"
        using 1 False rest by metis
      moreover have "?e + length (drop (eolLen ?rest) ?rest) = offset + length s"
        using eolLen_le [OF rest] length_lineOf [of s] by simp
      ultimately show ?thesis
        using False rest by (subst mapLines.simps) (simp add: Let_def)
    qed
  qed (use 1 in \<open>simp add: mapLines.simps\<close>)
qed

lemma mapNormalizedText_ok: "mapOK (length s) (mapNormalizedText s fuzzy)"
proof -
  have "mapOK 0 \<lparr>text_of = [], boundaries = [0]\<rparr>" by (simp add: mapOK_def)
  from mapOK_lines [OF this] show ?thesis by (simp add: mapNormalizedText_def)
qed

subsection \<open>The pieces of the exact map\<close>

text \<open>The pieces the loops cut the input into: the source bytes and what they become.\<close>

type_synonym piece = "string \<times> string"

function contentPieces :: "bool \<Rightarrow> string \<Rightarrow> piece list" where
  "contentPieces fuzzy s =
     (if s = [] then []
      else (take (snd (decodeRune s)) s, mapRune fuzzy s) # contentPieces fuzzy (drop (snd (decodeRune s)) s))"
  by pat_completeness auto
termination
proof (relation "measure (\<lambda>(_, s). length s)")
  fix fuzzy :: bool and s :: string
  assume "s \<noteq> []"
  then show "((fuzzy, drop (snd (decodeRune s)) s), fuzzy, s) \<in> measure (\<lambda>(_, s). length s)"
    using decodeRune_size_pos [of s] by (cases s) auto
qed simp

declare contentPieces.simps [simp del]

function linePieces :: "string \<Rightarrow> piece list" where
  "linePieces s =
     (if s = [] then []
      else let rest = drop (length (lineOf s)) s in
        contentPieces False (lineOf s) @
        (if rest = [] then []
         else (take (eolLen rest) rest, [newline]) # linePieces (drop (eolLen rest) rest)))"
  by pat_completeness auto
termination
  by (relation "measure length") (auto simp: eolLen_def)

declare linePieces.simps [simp del]

fun endsOf :: "piece list \<Rightarrow> nat \<Rightarrow> nat list" where
  "endsOf [] pos = []"
| "endsOf ((src, out) # ps) pos = replicate (length out) (pos + length src) @ endsOf ps (pos + length src)"

definition addPieces :: "piece list \<Rightarrow> nat \<Rightarrow> normalizedTextMap \<Rightarrow> normalizedTextMap" where
  "addPieces ps pos m =
     \<lparr>text_of = text_of m @ concat (map snd ps), boundaries = boundaries m @ endsOf ps pos\<rparr>"

lemma endsOf_append: "endsOf (ps @ qs) pos = endsOf ps pos @ endsOf qs (pos + length (concat (map fst ps)))"
  by (induction ps pos rule: endsOf.induct) (auto simp: add.assoc)

lemma addPieces_Nil [simp]: "addPieces [] pos m = m"
  by (simp add: addPieces_def)

lemma addPieces_Cons:
  "addPieces ((src, out) # ps) pos m = addPieces ps (pos + length src) (appendMapped out (pos + length src) m)"
  by (simp add: addPieces_def appendMapped_def)

lemma addPieces_append:
  "addPieces (ps @ qs) pos m = addPieces qs (pos + length (concat (map fst ps))) (addPieces ps pos m)"
  by (simp add: addPieces_def endsOf_append)

lemma contentPieces_src: "concat (map fst (contentPieces fuzzy s)) = s"
proof (induction fuzzy s rule: contentPieces.induct)
  case (1 fuzzy s)
  then show ?case by (subst contentPieces.simps) simp
qed

lemma mapContent_pieces: "mapContent fuzzy s pos m = addPieces (contentPieces fuzzy s) pos m"
proof (induction fuzzy s pos m rule: mapContent.induct)
  case (1 fuzzy s pos m)
  then show ?case
    using decodeRune_size_le [of s]
    by (subst mapContent.simps, subst contentPieces.simps) (simp add: Let_def addPieces_Cons)
qed

lemma mapLines_pieces: "mapLines False s pos m = addPieces (linePieces s) pos m"
proof -
  have "\<not> fuzzy \<Longrightarrow> mapLines fuzzy s pos m = addPieces (linePieces s) pos m" for fuzzy
  proof (induction fuzzy s pos m rule: mapLines.induct)
    case (1 fuzzy s pos m)
    let ?line = "lineOf s"
    let ?rest = "drop (length ?line) s"
    have line: "mapLine fuzzy ?line pos m = addPieces (contentPieces False ?line) pos m"
      using "1.prems" by (simp add: mapLine_def mapContent_pieces Let_def)
    show ?case
    proof (cases "s = [] \<or> ?rest = []")
      case True
      then show ?thesis
        using line by (subst mapLines.simps, subst linePieces.simps) (auto simp: Let_def)
    next
      case False
      then have "eolLen ?rest \<le> length ?rest" by (intro eolLen_le) simp
      then have "addPieces ((take (eolLen ?rest) ?rest, [newline]) # linePieces (drop (eolLen ?rest) ?rest))
            (pos + length ?line) m' =
          mapLines fuzzy (drop (eolLen ?rest) ?rest) (pos + length ?line + eolLen ?rest)
            (appendMapped [newline] (pos + length ?line + eolLen ?rest) m')"
        if "m' = mapLine fuzzy ?line pos m" for m'
        using 1 False that by (simp add: addPieces_Cons Let_def)
      with False line show ?thesis
        by (subst mapLines.simps, subst linePieces.simps)
          (simp add: Let_def addPieces_append contentPieces_src)
    qed
  qed
  then show ?thesis by blast
qed

lemma lineOf_rest: "lineOf s @ drop (length (lineOf s)) s = s"
  unfolding lineOf_def by (metis append_eq_conv_conj takeWhile_dropWhile_id)

lemma linePieces_src: "concat (map fst (linePieces s)) = s"
proof (induction s rule: linePieces.induct)
  case (1 s)
  let ?rest = "drop (length (lineOf s)) s"
  show ?case
  proof (cases "s = [] \<or> ?rest = []")
    case True
    then show ?thesis
      using lineOf_rest [of s] by (subst linePieces.simps) (auto simp: Let_def contentPieces_src)
  next
    case False
    then have "concat (map fst (linePieces (drop (eolLen ?rest) ?rest))) = drop (eolLen ?rest) ?rest"
      using 1 by blast
    with False have "concat (map fst (linePieces s)) =
        lineOf s @ take (eolLen ?rest) ?rest @ drop (eolLen ?rest) ?rest"
      by (subst linePieces.simps) (simp add: Let_def contentPieces_src del: drop_drop append_take_drop_id)
    then show ?thesis using lineOf_rest [of s] by (simp only: append_take_drop_id)
  qed
qed

lemma exact_text: "text_of (mapNormalizedText s False) = concat (map snd (linePieces s))"
  and exact_boundaries: "boundaries (mapNormalizedText s False) = 0 # endsOf (linePieces s) 0"
  by (simp_all add: mapNormalizedText_def mapLines_pieces addPieces_def)


subsection \<open>Pieces are runes and line ends\<close>

definition runePiece :: "string \<Rightarrow> bool" where
  "runePiece src \<longleftrightarrow> src \<noteq> [] \<and> set src \<inter> {newline, creturn} = {} \<and>
     (length src = 1 \<or> (length src = leadSize (byteVal (hd src)) \<and> list_all contByte (tl src)))"

definition pieceOK :: "piece \<Rightarrow> bool" where
  "pieceOK p \<longleftrightarrow> (fst p = snd p \<and> runePiece (fst p)) \<or>
     (snd p = [newline] \<and> fst p \<in> {crlf, [creturn], [newline]})"

fun goodPieces :: "piece list \<Rightarrow> bool" where
  "goodPieces [] = True"
| "goodPieces (p # ps) \<longleftrightarrow> pieceOK p \<and> goodPieces ps \<and>
     (fst p = [creturn] \<longrightarrow> \<not> hasPrefix (concat (map fst ps)) [newline])"

lemma goodPieces_append: "goodPieces (ps @ qs) \<Longrightarrow> goodPieces ps \<and> goodPieces qs"
  by (induction ps) (auto simp: hasPrefix_def)

lemma pieceOK_out: "pieceOK p \<Longrightarrow> snd p \<noteq> []"
  by (auto simp: pieceOK_def runePiece_def)

lemma goodPieces_normal:
  "goodPieces ps \<Longrightarrow> normalizeToLF (concat (map fst ps)) = concat (map snd ps)"
proof (induction ps)
  case (Cons p ps)
  have IH: "normalizeToLF (concat (map fst ps)) = concat (map snd ps)" using Cons by simp
  from Cons.prems have "pieceOK p" by simp
  then consider (rune) "fst p = snd p" "runePiece (fst p)" | (crlf) "fst p = crlf" "snd p = [newline]"
    | (cr) "fst p = [creturn]" "snd p = [newline]" | (lf) "fst p = [newline]" "snd p = [newline]"
    by (auto simp: pieceOK_def)
  then show ?case
  proof cases
    case rune
    then have "creturn \<notin> set (fst p)" "fst p \<noteq> []" by (auto simp: runePiece_def)
    then have "\<not> hasSuffix (fst p) [creturn]" by (auto simp: hasSuffix_def suffix_def)
    then show ?thesis
      using rune IH \<open>creturn \<notin> set (fst p)\<close> by (simp add: normalizeToLF_append normalizeToLF_id)
  qed (use IH Cons.prems in auto)
qed simp

lemma rune_piece:
  assumes "s \<noteq> []" "set s \<inter> {newline, creturn} = {}"
  shows "runePiece (take (snd (decodeRune s)) s)"
proof (cases "runeOK s")
  case False
  then show ?thesis
    using assms by (cases s) (auto simp: decodeRune_bad runePiece_def)
next
  case True
  obtain a t where s: "s = a # t" using assms by (cases s) auto
  let ?n = "leadSize (byteVal a)"
  have n: "snd (decodeRune s) = ?n" "?n \<noteq> 0" "?n - 1 \<le> length t" "tailOK (byteVal a) (take (?n - 1) t)"
    using True s by (auto simp: decodeRune_ok runeOK_Cons)
  then have "list_all contByte (take (?n - 1) t)"
    using tailOK_ge [OF n(4)] by (simp add: list_all_iff)
  moreover have "set (take (snd (decodeRune s)) s) \<subseteq> set s" by (rule set_take_subset)
  moreover have "take ?n s = a # take (?n - 1) t"
    using n(2) s by (cases ?n) auto
  ultimately show ?thesis
    using assms n by (auto simp: runePiece_def min_def)
qed

lemma mapRune_exact: "mapRune False s = take (snd (decodeRune s)) s"
  by (simp add: mapRune_def case_prod_beta)

lemma goodPieces_content:
  "goodPieces qs \<Longrightarrow> set s \<inter> {newline, creturn} = {} \<Longrightarrow> goodPieces (contentPieces False s @ qs)"
proof (induction s rule: length_induct)
  case (1 s)
  show ?case
  proof (cases "s = []")
    case False
    let ?n = "snd (decodeRune s)"
    have "set (drop ?n s) \<subseteq> set s" by (rule set_drop_subset)
    then have "goodPieces (contentPieces False (drop ?n s) @ qs)"
      using 1 False decodeRune_size_pos [OF False] by (simp add: disjoint_iff subset_iff)
    moreover have "runePiece (take ?n s)" using 1 False by (intro rune_piece) auto
    moreover from this have "take ?n s \<noteq> [creturn]" by (auto simp: runePiece_def)
    ultimately show ?thesis
      using False by (subst contentPieces.simps) (simp add: pieceOK_def mapRune_exact)
  qed (use 1 in \<open>simp add: contentPieces.simps\<close>)
qed

lemma lineOf_clean: "set (lineOf s) \<inter> {newline, creturn} = {}"
  by (auto simp: lineOf_def isEOLByte_def dest: set_takeWhileD)

lemma rest_eol: "drop (length (lineOf s)) s = rest \<Longrightarrow> rest \<noteq> [] \<Longrightarrow> isEOLByte (hd rest)"
  unfolding lineOf_def by (metis dropWhile_eq_drop hd_dropWhile)

lemma eol_piece:
  assumes "rest \<noteq> []" "isEOLByte (hd rest)"
  shows "pieceOK (take (eolLen rest) rest, [newline])"
    and "take (eolLen rest) rest = [creturn] \<Longrightarrow> \<not> hasPrefix (drop (eolLen rest) rest) [newline]"
  using assms by (cases rest; cases "tl rest";
      auto simp: eolLen_def pieceOK_def isEOLByte_def hasPrefix_def numeral_2_eq_2)+

lemma goodPieces_line: "goodPieces (linePieces s)"
proof (induction s rule: linePieces.induct)
  case (1 s)
  let ?rest = "drop (length (lineOf s)) s"
  show ?case
  proof (cases "s = [] \<or> ?rest = []")
    case True
    then show ?thesis
      using goodPieces_content [of "[]" "lineOf s"] lineOf_clean [of s]
      by (subst linePieces.simps) (auto simp: Let_def)
  next
    case False
    have "goodPieces (linePieces (drop (eolLen ?rest) ?rest))" using 1 False by blast
    then have "goodPieces ((take (eolLen ?rest) ?rest, [newline]) # linePieces (drop (eolLen ?rest) ?rest))"
      using eol_piece [of ?rest] rest_eol [of s ?rest] False
      by (simp add: linePieces_src del: drop_drop)
    then show ?thesis
      using goodPieces_content [OF _ lineOf_clean] False
      by (subst linePieces.simps) (simp add: Let_def del: drop_drop)
  qed
qed

lemma mapNormalizedText_exact: "text_of (mapNormalizedText s False) = normalizeToLF s"
  using goodPieces_normal [OF goodPieces_line [of s]] by (simp add: exact_text linePieces_src)

subsection \<open>Matches fall on piece boundaries\<close>

lemma split_pieces:
  assumes "concat (map snd ps) = x @ w"
  obtains (aligned) ps1 ps2 where "ps = ps1 @ ps2" "concat (map snd ps1) = x" "concat (map snd ps2) = w"
  | (inside) ps1 p ps2 y z where "ps = ps1 @ p # ps2" "x = concat (map snd ps1) @ y" "snd p = y @ z"
      "y \<noteq> []" "z \<noteq> []" "w = z @ concat (map snd ps2)"
proof -
  have "(\<exists>ps1 ps2. ps = ps1 @ ps2 \<and> concat (map snd ps1) = x \<and> concat (map snd ps2) = w) \<or>
    (\<exists>ps1 p ps2 y z. ps = ps1 @ p # ps2 \<and> x = concat (map snd ps1) @ y \<and> snd p = y @ z \<and> y \<noteq> [] \<and>
       z \<noteq> [] \<and> w = z @ concat (map snd ps2))"
    using assms
  proof (induction ps arbitrary: x)
    case (Cons p ps)
    then consider u where "snd p = x @ u" "u @ concat (map snd ps) = w"
      | u where "snd p @ u = x" "concat (map snd ps) = u @ w"
      by (auto simp: append_eq_append_conv2)
    then show ?case
    proof cases
      case 1
      show ?thesis
      proof (cases "x = []")
        case True
        then show ?thesis
          using Cons.prems by (intro disjI1 exI [of _ "[]"] exI [of _ "p # ps"]) simp
      next
        case False
        show ?thesis
        proof (cases "u = []")
          case True
          then show ?thesis using 1 by (intro disjI1 exI [of _ "[p]"] exI [of _ ps]) simp
        next
          case u: False
          then show ?thesis
            using 1 False by (intro disjI2 exI [of _ "[]"] exI [of _ p] exI [of _ ps] exI [of _ x] exI [of _ u]) simp
        qed
      qed
    next
      case 2
      from Cons.IH [OF 2(2)] show ?thesis
      proof (elim disjE exE conjE)
        fix ps1 ps2 assume "ps = ps1 @ ps2" "concat (map snd ps1) = u" "concat (map snd ps2) = w"
        then show ?thesis using 2 by (intro disjI1 exI [of _ "p # ps1"] exI [of _ ps2]) simp
      next
        fix ps1 q ps2 y z
        assume "ps = ps1 @ q # ps2" "u = concat (map snd ps1) @ y" "snd q = y @ z" "y \<noteq> []" "z \<noteq> []"
          "w = z @ concat (map snd ps2)"
        then show ?thesis
          using 2 by (intro disjI2 exI [of _ "p # ps1"] exI [of _ q] exI [of _ ps2] exI [of _ y] exI [of _ z]) simp
      qed
    qed
  qed simp
  then show thesis using that by blast
qed

lemma pieceOK_inside:
  assumes "pieceOK p" "snd p = y @ z" "y \<noteq> []" "z \<noteq> []"
  shows "contByte (hd z)" "leadSize (byteVal (hd y)) = length y + length z"
proof -
  have "length (snd p) \<noteq> 1" using assms by (cases y; cases z) auto
  then have r: "leadSize (byteVal (hd (snd p))) = length (snd p)" "list_all contByte (tl (snd p))"
    using assms(1) by (auto simp: pieceOK_def runePiece_def)
  then show "contByte (hd z)" using assms by (cases y; cases z) auto
  show "leadSize (byteVal (hd y)) = length y + length z" using r assms by (cases y) auto
qed

text \<open>In valid UTF-8 the first byte continues nothing and no leading byte lacks its tail.\<close>

lemma leadSize_cont: "contByte c \<Longrightarrow> leadSize (byteVal c) = 0"
  by (simp add: contByte_def leadSize_def)

lemma validUTF8_lead:
  assumes "validUTF8 m" "m = a @ l # b"
  shows "leadSize (byteVal l) \<le> Suc (length b)" and "a = [] \<Longrightarrow> \<not> contByte l"
proof -
  have "leadSize (byteVal l) \<le> Suc (length b) \<and> (a = [] \<longrightarrow> \<not> contByte l)"
    using assms
  proof (induction m arbitrary: a rule: length_induct)
    case (1 m)
    have "m \<noteq> []" using 1 by simp
    then obtain c t where m: "m = c # t" by (cases m) auto
    let ?n = "snd (decodeRune m)"
    have ok: "runeOK m" "validUTF8 (drop ?n m)" using 1 validUTF8_step [of m] m by auto
    have n: "?n = leadSize (byteVal c)" "?n \<noteq> 0" "?n - 1 \<le> length t" "tailOK (byteVal c) (take (?n - 1) t)"
      using ok m by (auto simp: decodeRune_ok runeOK_Cons)
    show ?case
    proof (cases "a = []")
      case True
      then show ?thesis using 1 m n leadSize_cont [of c] by auto
    next
      case False
      then obtain a' where a: "a = c # a'" and t: "t = a' @ l # b" using 1 m by (cases a) auto
      show ?thesis
      proof (cases "length a' < ?n - 1")
        case True
        then have "l \<in> set (take (?n - 1) t)"
          using t by (cases "?n - 1 - length a'") auto
        then have "contByte l" using n(4) tailOK_ge by blast
        then show ?thesis using False leadSize_cont [of l] by simp
      next
        case far: False
        then have "drop ?n m = drop (?n - 1) a' @ l # b"
          using m t n(2) by (cases ?n) auto
        moreover have "length (drop ?n m) < length m" using n(2) m by simp
        ultimately show ?thesis using 1 ok(2) False by blast
      qed
    qed
  qed
  then show "leadSize (byteVal l) \<le> Suc (length b)" "a = [] \<Longrightarrow> \<not> contByte l" by auto
qed

lemma goodPieces_elem: "goodPieces ps \<Longrightarrow> p \<in> set ps \<Longrightarrow> pieceOK p"
  by (induction ps) auto

lemma match_pieces:
  assumes ps: "goodPieces ps" and eq: "concat (map snd ps) = u @ m @ v"
    and m: "validUTF8 m" "m \<noteq> []"
  obtains ps1 ps2 ps3 where "ps = ps1 @ ps2 @ ps3" "concat (map snd ps1) = u"
    "concat (map snd ps2) = m" "concat (map snd ps3) = v"
  using eq
proof (cases rule: split_pieces)
  case (inside ps1 p ps2 y z)
  then have "pieceOK p" using goodPieces_elem [OF ps, of p] by simp
  then have "contByte (hd z)" using inside by (intro pieceOK_inside(1))
  moreover have "hd z = hd m" using inside m by (metis hd_append)
  ultimately show ?thesis using validUTF8_lead(2) [of m "[]" "hd m" "tl m"] m by simp
next
  case (aligned ps1 qs)
  from aligned(3) show ?thesis
  proof (cases rule: split_pieces)
    case (inside qs1 p ps2 y z)
    have "pieceOK p" using goodPieces_elem [OF ps, of p] aligned inside by simp
    then have "leadSize (byteVal (hd y)) = length y + length z" using pieceOK_inside(2) inside by blast
    moreover have "leadSize (byteVal (hd y)) \<le> Suc (length (tl y))"
      using validUTF8_lead(1) [OF m(1), of "concat (map snd qs1)" "hd y" "tl y"] inside by simp
    ultimately show ?thesis using inside by (cases y; cases z) auto
  next
    case inner: (aligned ps2 ps3)
    then show ?thesis using that aligned by blast
  qed
qed

lemma length_endsOf: "length (endsOf ps pos) = length (concat (map snd ps))"
  by (induction ps pos rule: endsOf.induct) auto

lemma boundary_at:
  "goodPieces ps \<Longrightarrow>
   (pos # endsOf (ps @ qs) pos) ! length (concat (map snd ps)) = pos + length (concat (map fst ps))"
proof (induction ps arbitrary: pos)
  case (Cons p ps)
  obtain src out where p: "p = (src, out)" by (cases p)
  have "out \<noteq> []" using Cons.prems pieceOK_out p by force
  then obtain k where k: "length out = Suc k" by (cases out) auto
  let ?r = "length (concat (map snd ps))"
  have "(pos # endsOf ((p # ps) @ qs) pos) ! length (concat (map snd (p # ps))) =
      (replicate k (pos + length src) @ (pos + length src) # endsOf (ps @ qs) (pos + length src)) ! (k + ?r)"
    using k p by (simp add: replicate_app_Cons_same)
  also have "\<dots> = ((pos + length src) # endsOf (ps @ qs) (pos + length src)) ! ?r"
    by (simp add: nth_append)
  finally show ?case using Cons p by simp
qed simp


subsection \<open>The text of the fuzzy map\<close>

definition foldText :: "string \<Rightarrow> string" where
  "foldText s = concat (map foldRune (goRunes s))"

lemma foldText_Nil [simp]: "foldText [] = []"
  by (simp add: foldText_def)

lemma foldText_split_newline: "foldText (a @ newline # b) = foldText a @ newline # foldText b"
proof -
  have "foldRune (byteVal newline) = [newline]" by code_simp
  moreover have "byteVal newline < 128" by code_simp
  ultimately show ?thesis by (simp add: foldText_def goRunes_split_ascii)
qed

lemma fold_pieces: "validUTF8 s \<Longrightarrow> concat (map snd (contentPieces True s)) = foldText s"
proof (induction s rule: length_induct)
  case (1 s)
  show ?case
  proof (cases "s = []")
    case False
    let ?n = "snd (decodeRune s)"
    have ok: "runeOK s" "validUTF8 (drop ?n s)" using 1 False validUTF8_step by auto
    have "mapRune True s = foldRune (fst (decodeRune s))"
      using encode_decode [OF ok(1)] by (simp add: mapRune_def foldRune_def case_prod_beta split: option.split)
    then show ?thesis
      using 1 ok False decodeRune_size_pos [OF False] goRunes_step [OF False]
      by (subst contentPieces.simps) (simp add: foldText_def)
  qed (simp add: contentPieces.simps)
qed

lemma normalizeForFuzzyMatch_fold:
  "normalizeForFuzzyMatch s = foldText (joinStr [newline] (map (\<lambda>l. trimRight l blanks) (splitByte s newline)))"
  by (simp add: normalizeForFuzzyMatch_def foldText_def)

lemma normalizeForFuzzyMatch_line:
  "newline \<notin> set l \<Longrightarrow> normalizeForFuzzyMatch l = foldText (trimRight l blanks)"
  by (simp add: normalizeForFuzzyMatch_fold splitByte_single)

lemma normalizeForFuzzyMatch_lines:
  "newline \<notin> set l \<Longrightarrow>
   normalizeForFuzzyMatch (l @ newline # t) = foldText (trimRight l blanks) @ newline # normalizeForFuzzyMatch t"
  by (simp add: normalizeForFuzzyMatch_fold splitByte_app joinStr_Cons foldText_split_newline)

lemma normalizeToLF_eol:
  assumes "rest \<noteq> []" "isEOLByte (hd rest)"
  shows "normalizeToLF rest = newline # normalizeToLF (drop (eolLen rest) rest)"
  using assms by (cases rest; cases "tl rest"; auto simp: eolLen_def isEOLByte_def hasPrefix_def numeral_2_eq_2)

lemma normalizeToLF_line:
  "set l \<inter> {newline, creturn} = {} \<Longrightarrow> normalizeToLF (l @ t) = l @ normalizeToLF t"
  by (induction l) auto

lemma normalizeToLF_lineOf:
  assumes "drop (length (lineOf s)) s = rest" "rest \<noteq> []"
  shows "normalizeToLF s = lineOf s @ newline # normalizeToLF (drop (eolLen rest) rest)"
  using normalizeToLF_line [OF lineOf_clean, of s rest] lineOf_rest [of s]
    normalizeToLF_eol [OF assms(2) rest_eol [OF assms]] assms(1) by simp

lemma validUTF8_lineOf:
  assumes "validUTF8 s" "drop (length (lineOf s)) s = rest" "rest \<noteq> []"
  shows "validUTF8 (lineOf s)" "validUTF8 (drop (eolLen rest) rest)"
proof -
  have eol: "isEOLByte (hd rest)" using assms by (intro rest_eol)
  then have ascii: "byteVal (hd rest) < 128" by (auto simp: isEOLByte_def byteVal_def)
  have "s = lineOf s @ hd rest # tl rest" using assms lineOf_rest [of s] by simp
  then have v: "validUTF8 (lineOf s)" "validUTF8 (tl rest)"
    using assms(1) validUTF8_split_ascii [OF ascii, of "lineOf s" "tl rest"] by auto
  show "validUTF8 (lineOf s)" by (rule v)
  show "validUTF8 (drop (eolLen rest) rest)"
  proof (cases "take 2 rest = crlf")
    case True
    then have "tl rest = [] @ newline # drop 2 rest" by (cases rest; cases "tl rest") auto
    moreover have "byteVal newline < 128" by code_simp
    ultimately have "validUTF8 (drop 2 rest)" using v(2) validUTF8_split_ascii [of newline "[]"] by metis
    with True show ?thesis by (simp add: eolLen_def)
  next
    case False
    then show ?thesis using v(2) assms(3) by (simp add: eolLen_def drop_Suc)
  qed
qed

lemma normalizeToLF_valid: "validUTF8 s \<Longrightarrow> validUTF8 (normalizeToLF s)"
proof (induction s rule: length_induct)
  case (1 s)
  let ?rest = "drop (length (lineOf s)) s"
  show ?case
  proof (cases "?rest = []")
    case True
    then have "creturn \<notin> set s" using lineOf_rest [of s] lineOf_clean [of s] by auto
    with 1 show ?thesis by (simp add: normalizeToLF_id)
  next
    case False
    have ascii: "byteVal newline < 128" by code_simp
    have "length (drop (eolLen ?rest) ?rest) < length s"
      using False by (auto simp: eolLen_def)
    then have "validUTF8 (normalizeToLF (drop (eolLen ?rest) ?rest))"
      using 1 validUTF8_lineOf(2) [OF "1.prems" refl False] by blast
    then show ?thesis
      using validUTF8_lineOf(1) [OF "1.prems" refl False] validUTF8_split_ascii [OF ascii]
      by (simp add: normalizeToLF_lineOf [OF refl False])
  qed
qed

lemma normalizeToLF_eq_Nil [simp]: "normalizeToLF s = [] \<longleftrightarrow> s = []"
  by (induction s rule: normalizeToLF_induct) auto

lemma validUTF8_trimRight: "validUTF8 l \<Longrightarrow> validUTF8 (trimRight l blanks)"
proof -
  obtain b where b: "l = trimRight l blanks @ b" "set b \<subseteq> set blanks" using trimRight_parts by blast
  show "validUTF8 l \<Longrightarrow> validUTF8 (trimRight l blanks)"
  proof (cases b)
    case (Cons c t)
    then have "byteVal c < 128" using b(2) by (auto simp: byteVal_def)
    then show "validUTF8 l \<Longrightarrow> validUTF8 (trimRight l blanks)"
      using validUTF8_split_ascii [of c "trimRight l blanks" t] b(1) Cons by simp
  qed (use b in simp)
qed

lemma absorbBlanks_text [simp]: "text_of (absorbBlanks e m) = text_of m"
  by (simp add: absorbBlanks_def)

lemma mapLine_text:
  "validUTF8 l \<Longrightarrow> text_of (mapLine True l pos m) = text_of m @ foldText (trimRight l blanks)"
  by (simp add: mapLine_def Let_def mapContent_pieces addPieces_def fold_pieces validUTF8_trimRight)

lemma mapLines_fuzzy:
  "validUTF8 s \<Longrightarrow> text_of (mapLines True s pos m) = text_of m @ normalizeForFuzzyMatch (normalizeToLF s)"
proof -
  have "fuzzy \<Longrightarrow> validUTF8 s \<Longrightarrow>
      text_of (mapLines fuzzy s pos m) = text_of m @ normalizeForFuzzyMatch (normalizeToLF s)" for fuzzy
  proof (induction fuzzy s pos m rule: mapLines.induct)
    case (1 fuzzy s pos m)
    let ?line = "lineOf s"
    let ?rest = "drop (length ?line) s"
    have nl: "newline \<notin> set ?line" using lineOf_clean [of s] by auto
    show ?case
    proof (cases "s = []")
      case True
      then show ?thesis by (simp add: mapLines.simps normalizeForFuzzyMatch_line trimRight_def)
    next
      case s: False
      show ?thesis
      proof (cases "?rest = []")
        case True
        then have "s = ?line" using lineOf_rest [of s] by simp
        moreover from this have "normalizeToLF s = s"
          using lineOf_clean [of s] by (intro normalizeToLF_id) auto
        moreover have "text_of (mapLines fuzzy s pos m) = text_of (mapLine True ?line pos m)"
          using "1.prems" s True by (subst mapLines.simps) (simp add: Let_def)
        ultimately show ?thesis
          using "1.prems" nl mapLine_text [of s pos m] normalizeForFuzzyMatch_line [of s] by metis
      next
        case rest: False
        let ?e = "pos + length ?line + eolLen ?rest"
        have "text_of (mapLines fuzzy s pos m) =
            text_of (mapLines fuzzy (drop (eolLen ?rest) ?rest) ?e
              (appendMapped [newline] ?e (mapLine fuzzy ?line pos m)))"
          using s rest by (subst mapLines.simps) (simp add: Let_def)
        also have "\<dots> = text_of (appendMapped [newline] ?e (mapLine fuzzy ?line pos m)) @
            normalizeForFuzzyMatch (normalizeToLF (drop (eolLen ?rest) ?rest))"
          by (rule "1.IH" [OF s refl refl refl refl rest refl "1.prems"(1)
                validUTF8_lineOf(2) [OF "1.prems"(2) refl rest]])
        also have "\<dots> = text_of m @ normalizeForFuzzyMatch
            (?line @ newline # normalizeToLF (drop (eolLen ?rest) ?rest))"
          using "1.prems" nl validUTF8_lineOf(1) [OF "1.prems"(2) refl rest]
          by (simp add: appendMapped_def mapLine_text normalizeForFuzzyMatch_lines)
        finally show ?thesis using normalizeToLF_lineOf [OF refl rest] by simp
      qed
    qed
  qed
  from this [OF TrueI] show
    "validUTF8 s \<Longrightarrow> text_of (mapLines True s pos m) = text_of m @ normalizeForFuzzyMatch (normalizeToLF s)" .
qed

lemma mapNormalizedText_fuzzy:
  "validUTF8 s \<Longrightarrow> text_of (mapNormalizedText s True) = normalizeForFuzzyMatch (normalizeToLF s)"
  by (simp add: mapNormalizedText_def mapLines_fuzzy)


subsection \<open>Files with CRLF endings\<close>

lemma pureCRLF_append: "pureCRLF a \<Longrightarrow> pureCRLF b \<Longrightarrow> pureCRLF (a @ b)"
proof (induction a rule: pureCRLF.induct)
  case (2 c)
  then show ?case by (cases b) auto
next
  case (3 c d s)
  then show ?case by (cases "c = creturn") auto
qed simp

lemma pureCRLF_split:
  "pureCRLF (a @ b) \<Longrightarrow> \<not> (hasSuffix a [creturn] \<and> hasPrefix b [newline]) \<Longrightarrow> pureCRLF a \<and> pureCRLF b"
proof (induction a rule: pureCRLF.induct)
  case (2 c)
  then show ?case by (cases b) (auto simp: hasSuffix_def hasPrefix_def split: if_splits)
next
  case (3 c d s)
  then show ?case by (cases "c = creturn") (auto simp: hasSuffix_def suffix_Cons)
qed simp

lemma pureCRLF_restored: "creturn \<notin> set s \<Longrightarrow> pureCRLF (replaceAll s [newline] crlf)"
proof (induction s)
  case (Cons c s)
  then have "pureCRLF (if c = newline then crlf else [c])" by auto
  with Cons show ?case by (auto simp: replaceAll_newline_crlf pureCRLF_append simp del: replaceAll.simps)
qed simp

lemma pureCRLF_first: "pureCRLF s \<Longrightarrow> indexByte s newline = Some j \<Longrightarrow> \<exists>k < j. indexStr s crlf = Some k"
proof (induction s arbitrary: j rule: pureCRLF.induct)
  case (3 c d s)
  then show ?case
    by (cases "c = creturn") (auto simp: hasPrefix_def split: if_splits)
qed (auto split: if_splits)

lemma detectLineEnding_crlf: "pureCRLF s \<Longrightarrow> newline \<in> set s \<Longrightarrow> detectLineEnding s = crlf"
  using pureCRLF_first [of s] indexByte_None [of s newline]
  by (cases "indexByte s newline") (auto simp: detectLineEnding_def)

lemma detectLineEnding_lf: "creturn \<notin> set s \<Longrightarrow> detectLineEnding s = [newline]"
proof -
  assume "creturn \<notin> set s"
  then have "\<not> containsStr s crlf" by (auto simp: containsStr_iff)
  then show ?thesis by (simp add: containsStr_def detectLineEnding_def split: option.split)
qed

lemma pureCRLF_cr: "pureCRLF s \<Longrightarrow> creturn \<in> set s \<Longrightarrow> newline \<in> set s"
  by (induction s rule: pureCRLF.induct) (auto split: if_splits)

lemma hasSuffix_last: "b \<noteq> [] \<Longrightarrow> hasSuffix (a @ b) [c] = hasSuffix b [c]"
  by (cases b rule: rev_cases) (auto simp: hasSuffix_def suffix_def)

lemma goodPieces_boundary:
  "goodPieces (ps @ qs) \<Longrightarrow>
   \<not> (hasSuffix (concat (map fst ps)) [creturn] \<and> hasPrefix (concat (map fst qs)) [newline])"
proof (induction ps)
  case (Cons p ps)
  show ?case
  proof (cases "concat (map fst ps) = []")
    case False
    then show ?thesis using Cons hasSuffix_last [OF False, of "fst p"] by simp
  next
    case True
    have p: "pieceOK p" "fst p = [creturn] \<Longrightarrow> \<not> hasPrefix (concat (map fst qs)) [newline]"
      using Cons.prems True by auto
    have "fst p = [creturn]" if "hasSuffix (fst p) [creturn]"
      using p(1) that by (auto simp: pieceOK_def runePiece_def hasSuffix_def suffix_def)
    moreover have "concat (map fst (p # ps)) = fst p" using True by simp
    ultimately show ?thesis using p(2) by metis
  qed
qed (simp add: hasSuffix_def)

end
