(* ===== verification/EditApply.thy ===== *)
theory EditApply
  imports EditText
begin

text \<open>
  Applying one edit: \<open>edit_apply.go\<close> and the error and result formatting of \<open>tool_edit.go\<close>.
  \<open>applyEdit\<close> is a function of the file's bytes and the edit; what it returns in Go is
  the sum of an error and the new content, the fuzzy flag and the match's lines.
\<close>

section \<open>Messages of tool\_edit.go\<close>

record matchInfo =
  startLine :: nat
  endLine :: nat

text \<open>
  The loop of \<open>collectMatchLines\<close>.  An empty needle matches at every position without
  advancing it, so the loop need not end: \<open>None\<close> is the call that does not return.
\<close>

partial_function (option) matchLines :: "string \<Rightarrow> string \<Rightarrow> nat \<Rightarrow> nat list option" where
  "matchLines haystack needle pos =
     (case indexStr (drop pos haystack) needle of
        None \<Rightarrow> Some []
      | Some idx \<Rightarrow>
          (let absIdx = pos + idx; pos' = absIdx + length needle;
               lineNum = countStr (take absIdx haystack) [newline] + 1
           in if length haystack \<le> pos' then Some [lineNum]
              else Option.bind (matchLines haystack needle pos') (\<lambda>ls. Some (lineNum # ls))))"

text \<open>The lines of the first matches and the number of those beyond.\<close>

definition collectMatchLines :: "string \<Rightarrow> string \<Rightarrow> nat \<Rightarrow> (nat list \<times> nat) option" where
  "collectMatchLines haystack needle maxMatches =
     map_option (\<lambda>found. (take maxMatches found, length found - length (take maxMatches found)))
       (matchLines haystack needle 0)"

definition multiMatchError :: "nat \<Rightarrow> string \<Rightarrow> string \<Rightarrow> goError option" where
  "multiMatchError count haystack needle =
     map_option
       (\<lambda>(shown, overflow). plainError
          (''old_text matches '' @ natToString count @ '' locations (lines: '' @
           joinStr '', '' (map natToString shown) @ '')'' @
           (if overflow > 0 then '' ... and '' @ natToString overflow @ '' more'' else []) @
           '' '' @ emdash @ '' must be unique. Add surrounding context to disambiguate''))
       (collectMatchLines haystack needle 10)"

text \<open>What a fallible call comes to: \<open>None\<close> when it never returns, an error or a result otherwise.\<close>

type_synonym 'a run = "(goError + 'a) option"

section \<open>edit\_apply.go\<close>

definition matchLeadingIndent :: "string \<Rightarrow> nat \<Rightarrow> string" where
  "matchLeadingIndent raw idx =
     takeWhile (\<lambda>ch. ch = CHR '' '' \<or> ch = tab)
       (splitByte raw newline ! countStr (take idx raw) [newline])"

text \<open>The least indentation of the lines that are not blank; \<open>None\<close> is the code's \<open>-1\<close>.\<close>

fun minIndentOf :: "string list \<Rightarrow> nat option \<Rightarrow> nat option" where
  "minIndentOf [] acc = acc"
| "minIndentOf (l # ls) acc =
     (if trimSpace l = [] then minIndentOf ls acc
      else let indent = length l - length (trimLeft l blanks) in
        minIndentOf ls
          (case acc of None \<Rightarrow> Some indent | Some m \<Rightarrow> if indent < m then Some indent else acc))"

definition reindentLine :: "nat \<Rightarrow> string \<Rightarrow> string \<Rightarrow> string" where
  "reindentLine minIndent leading l =
     (if trimSpace l = [] then []
      else if minIndent \<le> length l then leading @ drop minIndent l
      else leading @ l)"

definition reindentNewText :: "string \<Rightarrow> string \<Rightarrow> string" where
  "reindentNewText newText leading =
     (case minIndentOf (splitByte newText newline) None of
        None \<Rightarrow> newText
      | Some minIndent \<Rightarrow>
          joinStr [newline] (map (reindentLine minIndent leading) (splitByte newText newline)))"

definition slice :: "string \<Rightarrow> nat \<Rightarrow> nat \<Rightarrow> string" where
  "slice s a b = take (b - a) (drop a s)"

text \<open>The text the edit inserts, before its line endings are restored.\<close>

definition insertedText :: "normalizedTextMap \<Rightarrow> nat \<Rightarrow> string \<Rightarrow> bool \<Rightarrow> string" where
  "insertedText mapped idx newText fuzzyIndent =
     (let newText' = normalizeToLF newText;
          lineStart = afterLast (take idx (text_of mapped)) newline
      in if fuzzyIndent \<and> trimBoth (slice (text_of mapped) lineStart idx) blanks = []
         then reindentNewText newText' (matchLeadingIndent (text_of mapped) idx) else newText')"

text \<open>The line ending of the region replaced, or of the file when the region has none.\<close>

definition endingFor :: "string \<Rightarrow> string \<Rightarrow> string" where
  "endingFor raw region =
     (if \<not> containsStr region [newline] \<and> \<not> containsStr region [creturn]
      then detectLineEnding raw else detectLineEnding region)"

text \<open>The exact map when it has a match, the fuzzy one otherwise, with the text searched for.\<close>

definition selectMap :: "string \<Rightarrow> string \<Rightarrow> normalizedTextMap \<times> string \<times> nat \<times> bool" where
  "selectMap raw oldText =
     (let mapped = mapNormalizedText raw False; matchText = normalizeToLF oldText;
          count = countStr (text_of mapped) matchText
      in if count = 0
         then (let mapped' = mapNormalizedText raw True; matchText' = normalizeForFuzzyMatch matchText;
                   count' = countStr (text_of mapped') matchText'
               in (mapped', matchText', count', count' > 0))
         else (mapped, matchText, count, False))"

text \<open>The edit at the only match.\<close>

definition editAt :: "string \<Rightarrow> string \<Rightarrow> normalizedTextMap \<Rightarrow> string \<Rightarrow> string \<Rightarrow> bool \<Rightarrow> string \<times> matchInfo" where
  "editAt raw bom mapped matchText newText fuzzyIndent =
     (let idx = the (indexStr (text_of mapped) matchText);
          startByte = boundaries mapped ! idx;
          endByte = boundaries mapped ! (idx + length matchText);
          sl = countStr (take idx (text_of mapped)) [newline] + 1;
          info = \<lparr>startLine = sl, endLine = sl + countStr matchText [newline]\<rparr>;
          newText' = insertedText mapped idx newText fuzzyIndent;
          replacement = restoreLineEndings newText' (endingFor raw (slice raw startByte endByte))
      in (bom @ take startByte raw @ replacement @ drop endByte raw, info))"

definition applyEdit :: "string \<Rightarrow> string \<Rightarrow> string \<Rightarrow> bool \<Rightarrow> (string \<times> bool \<times> matchInfo) run" where
  "applyEdit content oldText newText fuzzyIndent =
     (let (raw, bom) = stripBom content;
          (mapped, matchText, count, fuzzy) = selectMap raw oldText
      in if count = 0 then Some (Inl (plainError ''old_text not found in file''))
         else if count > 1 then map_option Inl (multiMatchError count (text_of mapped) matchText)
         else
           (let (updated, info) = editAt raw bom mapped matchText newText fuzzyIndent
            in Some (Inr (updated, fuzzy, info))))"

definition countLines :: "string \<Rightarrow> nat" where
  "countLines s =
     (let n = countStr s [newline] in if n > 0 \<and> hasSuffix s [newline] then n else n + 1)"

section \<open>Results and errors of tool\_edit.go\<close>

record editDetails =
  Diff :: string
  FirstChangedLine :: nat
  LastChangedLine :: nat
  MatchType :: string
  FuzzyNormalized :: string

definition mapApplyEditError :: "goError \<Rightarrow> string \<Rightarrow> string \<Rightarrow> string \<Rightarrow> goError" where
  "mapApplyEditError err path oldText data =
     (if containsStr (Err err) ''old_text not found''
      then (let raw = normalizeToLF (fst (stripBom data)); (lineNum, lineText) = closestLine oldText raw;
                head = ''old_text not found in '' @ path @ '' ('' @ natToString (countLines raw) @ '' lines)''
            in ErrWithSuggestion
              (if lineNum > 0
               then dash (head @ ''. Nearest match at line '' @ natToString lineNum @ '': '' @ goQuote lineText)
                      ''did you mean this?''
               else head)
              ''re-read the file to get current content, then retry with exact text'' ''edit_not_found'')
      else if containsStr (Err err) ''matches'' \<and> containsStr (Err err) ''locations''
      then ErrWithSuggestion (Err err)
             ''add more surrounding lines to old_text to disambiguate the match'' ''edit_not_unique''
      else err)"

definition singleEditDetails :: "string \<Rightarrow> matchInfo \<Rightarrow> bool \<Rightarrow> string \<Rightarrow> editDetails" where
  "singleEditDetails diff info fuzzy newText =
     \<lparr>Diff = diff, FirstChangedLine = startLine info,
      LastChangedLine = startLine info + (countStr newText [newline] + 1) - 1,
      MatchType = (if fuzzy then ''fuzzy'' else ''exact''),
      FuzzyNormalized = (if fuzzy then ''whitespace_and_quotes'' else [])\<rparr>"

text \<open>\<open>%*d\<close>: a number padded on the left to a width.\<close>

definition padLeft :: "nat \<Rightarrow> string \<Rightarrow> string" where
  "padLeft width s = replicate (width - length s) (CHR '' '') @ s"

text \<open>\<open>formatEditContext\<close>: the numbered lines around the edit, the new ones marked.\<close>

definition formatEditContext :: "string \<Rightarrow> matchInfo \<Rightarrow> nat \<Rightarrow> nat \<Rightarrow> string" where
  "formatEditContext content info newLines showContext =
     (let ls = splitByte content newline;
          n = (if ls ! (length ls - 1) = [] then length ls - 1 else length ls);
          width = length (natToString n);
          start = max 1 (startLine info - showContext);
          stop = min n (startLine info + newLines - 1 + showContext)
      in concat (map (\<lambda>i. padLeft width (natToString i) @
             (if startLine info \<le> i \<and> i < startLine info + newLines then ''* '' else '' '') @
             ''| '' @ ls ! (i - 1) @ [newline]) [start..<Suc stop]))"


section \<open>Lemmas\<close>

subsection \<open>Counting\<close>

lemma countFrom_0: "sub \<noteq> [] \<Longrightarrow> countFrom s sub = 0 \<longleftrightarrow> indexStr s sub = None"
  by (induction s sub rule: countFrom.induct) auto

lemma indexStr_empty [simp]: "indexStr s [] = Some 0"
  by (cases s) (auto simp: hasPrefix_def)

lemma countStr_0: "countStr s sub = 0 \<longleftrightarrow> indexStr s sub = None"
  by (auto simp: countStr_def countFrom_0)

lemma runeCount_0: "runeCount s = 0 \<longleftrightarrow> s = []"
  by (cases "s = []") (simp_all add: runeCount_def goRunes_step)

subsection \<open>When the listing of matches returns\<close>

lemma matchLines_returns: "needle \<noteq> [] \<Longrightarrow> \<exists>ls. matchLines haystack needle pos = Some ls"
proof (induction "length haystack - pos" arbitrary: pos rule: less_induct)
  case less
  show ?case
  proof (cases "indexStr (drop pos haystack) needle")
    case (Some idx)
    let ?p = "pos + idx + length needle"
    have "length haystack \<le> ?p \<or> (\<exists>ls. matchLines haystack needle ?p = Some ls)"
    proof (cases "length haystack \<le> ?p")
      case False
      moreover have "0 < length needle" using less.prems by simp
      ultimately have "length haystack - ?p < length haystack - pos" by linarith
      then show ?thesis using less by blast
    qed simp
    then show ?thesis using Some by (subst matchLines.simps) (auto simp: Let_def)
  qed (subst matchLines.simps, simp)
qed

lemma matchLines_empty: "matchLines haystack [] pos = Some ls \<Longrightarrow> length haystack \<le> pos"
proof -
  have "matchLines haystack needle pos = Some ls \<Longrightarrow> needle = [] \<longrightarrow> length haystack \<le> pos" for needle
  proof (rule matchLines.raw_induct [of "\<lambda>h n p _. n = [] \<longrightarrow> length h \<le> p"])
    fix f :: "string \<Rightarrow> string \<Rightarrow> nat \<Rightarrow> nat list option" and h n p r
    assume "\<And>h n p r. f h n p = Some r \<Longrightarrow> n = [] \<longrightarrow> length h \<le> p"
      "(case indexStr (drop p h) n of None \<Rightarrow> Some []
        | Some idx \<Rightarrow>
            let absIdx = p + idx; pos' = absIdx + length n; lineNum = countStr (take absIdx h) [newline] + 1
            in if length h \<le> pos' then Some [lineNum]
               else Option.bind (f h n pos') (\<lambda>ls. Some (lineNum # ls))) = Some r"
    then show "n = [] \<longrightarrow> length h \<le> p"
      by (auto simp: Let_def bind_eq_Some_conv split: if_splits)
  qed
  then show "matchLines haystack [] pos = Some ls \<Longrightarrow> length haystack \<le> pos" by simp
qed

lemma matchLines_hangs: "matchLines haystack needle 0 = None \<longleftrightarrow> needle = [] \<and> haystack \<noteq> []"
proof -
  have "matchLines haystack [] 0 = None" if "haystack \<noteq> []"
    using that matchLines_empty [of haystack 0] by (cases "matchLines haystack [] 0") auto
  moreover have "matchLines [] [] 0 \<noteq> None" by (subst matchLines.simps) simp
  moreover have "matchLines haystack needle 0 \<noteq> None" if "needle \<noteq> []"
    using matchLines_returns [OF that] by simp
  ultimately show ?thesis by (cases "needle = []"; cases "haystack = []") simp_all
qed

lemma multiMatchError_hangs: "multiMatchError n haystack needle = None \<longleftrightarrow> needle = [] \<and> haystack \<noteq> []"
  by (simp add: multiMatchError_def collectMatchLines_def matchLines_hangs)

subsection \<open>The region an edit replaces\<close>

lemma stripBom_parts: "stripBom s = (raw, bom) \<Longrightarrow> s = bom @ raw \<and> (bom = [] \<or> bom = bomPrefix)"
  by (auto simp: stripBom_def hasPrefix_def bomPrefix_def prefix_def split: if_splits)

lemma indexStr_split:
  "indexStr s sub = Some i \<Longrightarrow> s = take i s @ sub @ drop (i + length sub) s"
  using indexStr_Some [of s sub i] by (auto simp: hasPrefix_iff) (metis append_eq_conv_conj append_take_drop_id drop_drop add.commute)

lemma editAt_parts:
  assumes "editAt raw bom mapped mt new fi = (updated, info)" "idx = the (indexStr (text_of mapped) mt)"
    "a = boundaries mapped ! idx" "b = boundaries mapped ! (idx + length mt)"
  shows "updated = bom @ take a raw @
      restoreLineEndings (insertedText mapped idx new fi) (endingFor raw (slice raw a b)) @ drop b raw"
    "startLine info = countStr (take idx (text_of mapped)) [newline] + 1"
    "endLine info = startLine info + countStr mt [newline]"
  using assms by (auto simp: editAt_def Let_def)

lemma region_split: "a \<le> b \<Longrightarrow> b \<le> length raw \<Longrightarrow> raw = take a raw @ slice raw a b @ drop b raw"
  unfolding slice_def by (metis append_take_drop_id drop_drop le_add_diff_inverse2)

lemma applyEdit_cases:
  assumes "applyEdit content old new fi = Some (Inr (updated, fuzzy, info))"
  obtains raw bom mapped mt idx where "stripBom content = (raw, bom)"
    "selectMap raw old = (mapped, mt, 1, fuzzy)" "indexStr (text_of mapped) mt = Some idx"
    "editAt raw bom mapped mt new fi = (updated, info)"
proof -
  obtain raw bom where 1: "stripBom content = (raw, bom)" by force
  obtain mapped mt n f where 2: "selectMap raw old = (mapped, mt, n, f)" by (metis prod_cases4)
  have 3: "n = 1" "f = fuzzy" "editAt raw bom mapped mt new fi = (updated, info)"
    using assms 1 2 by (auto simp: applyEdit_def Let_def split: if_splits prod.splits)
  moreover have "n = countStr (text_of mapped) mt"
    using 2 by (auto simp: selectMap_def Let_def split: if_splits)
  ultimately obtain idx where "indexStr (text_of mapped) mt = Some idx"
    using countStr_0 [of "text_of mapped" mt] by auto
  then show thesis using that 1 2 3 by simp
qed

lemma selectMap_ok: "selectMap raw old = (mapped, mt, n, f) \<Longrightarrow> mapOK (length raw) mapped"
  by (auto simp: selectMap_def Let_def mapNormalizedText_ok split: if_splits)

lemma selectMap_exact:
  "selectMap raw old = (mapped, mt, Suc n, False) \<Longrightarrow>
   mapped = mapNormalizedText raw False \<and> mt = normalizeToLF old"
  by (auto simp: selectMap_def Let_def split: if_splits)

lemma boundaries_range:
  assumes "mapOK e m" "indexStr (text_of m) mt = Some idx"
  shows "boundaries m ! idx \<le> boundaries m ! (idx + length mt)" "boundaries m ! (idx + length mt) \<le> e"
proof -
  have lt: "idx + length mt < length (boundaries m)"
    using assms indexStr_Some [OF assms(2)] by (simp add: mapOK_def)
  show "boundaries m ! idx \<le> boundaries m ! (idx + length mt)"
    using assms(1) lt by (intro sorted_nth_mono) (auto simp: mapOK_def)
  show "boundaries m ! (idx + length mt) \<le> e"
    using assms(1) nth_mem [OF lt] by (auto simp: mapOK_def)
qed

lemma exact_boundaries_at:
  assumes "indexStr (normalizeToLF raw) mt = Some idx" "validUTF8 mt" "mt \<noteq> []"
  obtains a m b where "raw = a @ m @ b" "normalizeToLF a = take idx (normalizeToLF raw)"
    "normalizeToLF m = mt" "boundaries (mapNormalizedText raw False) ! idx = length a"
    "boundaries (mapNormalizedText raw False) ! (idx + length mt) = length (a @ m)"
    "\<not> (hasSuffix a [creturn] \<and> hasPrefix (m @ b) [newline])"
    "\<not> (hasSuffix m [creturn] \<and> hasPrefix b [newline])"
proof -
  let ?t = "normalizeToLF raw"
  have good: "goodPieces (linePieces raw)" by (rule goodPieces_line)
  have "concat (map snd (linePieces raw)) = take idx ?t @ mt @ drop (idx + length mt) ?t"
    using indexStr_split [OF assms(1)] exact_text mapNormalizedText_exact by simp
  from match_pieces [OF good this assms(2,3)] obtain ps1 ps2 ps3 where
    ps: "linePieces raw = ps1 @ ps2 @ ps3" "concat (map snd ps1) = take idx ?t" "concat (map snd ps2) = mt"
    by metis
  let ?src = "\<lambda>ps :: piece list. concat (map fst ps)"
  have g: "goodPieces ps1" "goodPieces ps2" "goodPieces (ps1 @ ps2)"
    using good ps(1) goodPieces_append by (metis, metis, metis append_assoc)
  have idx: "length (concat (map snd ps1)) = idx"
    using ps(2) indexStr_Some [OF assms(1)] by (auto simp: min_def)
  show thesis
  proof (rule that)
    show "raw = ?src ps1 @ ?src ps2 @ ?src ps3" using linePieces_src [of raw] ps(1) by simp
    show "normalizeToLF (?src ps1) = take idx ?t" using goodPieces_normal [OF g(1)] ps by simp
    show "normalizeToLF (?src ps2) = mt" using goodPieces_normal [OF g(2)] ps by simp
    show "boundaries (mapNormalizedText raw False) ! idx = length (?src ps1)"
      using boundary_at [OF g(1), of 0 "ps2 @ ps3"] idx by (simp add: exact_boundaries ps(1))
    show "boundaries (mapNormalizedText raw False) ! (idx + length mt) = length (?src ps1 @ ?src ps2)"
      using boundary_at [OF g(3), of 0 ps3] idx ps(3) by (simp add: exact_boundaries ps(1))
    show "\<not> (hasSuffix (?src ps1) [creturn] \<and> hasPrefix (?src ps2 @ ?src ps3) [newline])"
      using goodPieces_boundary [of ps1 "ps2 @ ps3"] good ps(1) by simp
    show "\<not> (hasSuffix (?src ps2) [creturn] \<and> hasPrefix (?src ps3) [newline])"
      using goodPieces_boundary [of ps2 ps3] goodPieces_append good ps(1) by metis
  qed
qed


subsection \<open>When an edit returns\<close>

lemma applyEdit_hangs:
  assumes "old \<noteq> []"
  shows "applyEdit content old new fi = None \<longleftrightarrow>
    (let raw = fst (stripBom content) in
     \<not> containsStr (normalizeToLF raw) (normalizeToLF old) \<and>
     normalizeForFuzzyMatch (normalizeToLF old) = [] \<and> text_of (mapNormalizedText raw True) \<noteq> [])"
proof -
  let ?raw = "fst (stripBom content)"
  let ?fz = "text_of (mapNormalizedText ?raw True)"
  let ?mt = "normalizeForFuzzyMatch (normalizeToLF old)"
  have exact: "countStr (normalizeToLF ?raw) (normalizeToLF old) = 0 \<longleftrightarrow>
      \<not> containsStr (normalizeToLF ?raw) (normalizeToLF old)"
    by (simp add: countStr_0 containsStr_def)
  have "Suc 0 < countStr ?fz [] \<longleftrightarrow> ?fz \<noteq> []"
    using runeCount_0 [of ?fz] by (auto simp: countStr_def)
  moreover have "\<exists>z. multiMatchError k h (normalizeToLF old) = Some z" for k h
    using assms multiMatchError_hangs [of k h "normalizeToLF old"] by simp
  ultimately show ?thesis
    using exact
    by (cases "countStr (normalizeToLF ?raw) (normalizeToLF old) = 0")
      (auto simp: applyEdit_def selectMap_def Let_def case_prod_beta mapNormalizedText_exact multiMatchError_hangs)
qed

subsection \<open>Line endings an edit leaves behind\<close>

lemma stripBom_pure: "pureCRLF content \<Longrightarrow> stripBom content = (raw, bom) \<Longrightarrow> pureCRLF raw \<and> pureCRLF bom"
  using stripBom_parts [of content raw bom] pureCRLF_split [of bom raw]
  by (auto simp: bomPrefix_def hasSuffix_def suffix_def)

lemma insertedText_no_cr: "creturn \<notin> set (insertedText mapped idx new False)"
  by (simp add: insertedText_def normalizeToLF_no_cr)

lemma endingFor_crlf:
  assumes "pureCRLF raw" "pureCRLF region" "newline \<in> set raw"
  shows "endingFor raw region = crlf"
proof -
  have c: "containsStr region [c] \<longleftrightarrow> c \<in> set region" for c
    by (auto simp: containsStr_iff in_set_conv_decomp)
  show ?thesis
    using assms pureCRLF_cr [of region] by (auto simp: endingFor_def c detectLineEnding_crlf)
qed

lemma exact_edit_pureCRLF:
  assumes "applyEdit content old new False = Some (Inr (updated, False, info))"
    and old: "validUTF8 old" "old \<noteq> []" and crlf: "pureCRLF content" "newline \<in> set content"
  shows "pureCRLF updated"
proof -
  from applyEdit_cases [OF assms(1)] obtain raw bom mapped mt idx where
    s: "stripBom content = (raw, bom)" "selectMap raw old = (mapped, mt, 1, False)"
      "indexStr (text_of mapped) mt = Some idx" "editAt raw bom mapped mt new False = (updated, info)" .
  have m: "mapped = mapNormalizedText raw False" "mt = normalizeToLF old"
    using selectMap_exact [of raw old mapped mt 0] s by simp_all
  have v: "validUTF8 mt" "mt \<noteq> []" using m old normalizeToLF_valid by auto
  have "indexStr (normalizeToLF raw) mt = Some idx" using s(3) m mapNormalizedText_exact by simp
  then obtain a n b where r: "raw = a @ n @ b" "boundaries mapped ! idx = length a"
      "boundaries mapped ! (idx + length mt) = length (a @ n)"
      "\<not> (hasSuffix a [creturn] \<and> hasPrefix (n @ b) [newline])"
      "\<not> (hasSuffix n [creturn] \<and> hasPrefix b [newline])"
    using exact_boundaries_at v m by metis
  have raw: "pureCRLF raw" "pureCRLF bom" using stripBom_pure [OF crlf(1) s(1)] by auto
  have nl: "newline \<in> set raw"
    using crlf(2) stripBom_parts [OF s(1)] by (auto simp: bomPrefix_def)
  have parts: "pureCRLF a" "pureCRLF n" "pureCRLF b"
    using pureCRLF_split [of a "n @ b"] pureCRLF_split [of n b] raw r by auto
  have "slice raw (length a) (length (a @ n)) = n" using r(1) by (simp add: slice_def)
  then have "updated = bom @ a @ replaceAll (insertedText mapped idx new False) [newline] crlf @ b"
    using editAt_parts(1) [OF s(4)] s(3) r endingFor_crlf [OF raw(1) parts(2) nl]
    by (simp add: restoreLineEndings_def)
  then show ?thesis using parts raw by (simp add: pureCRLF_append pureCRLF_restored insertedText_no_cr)
qed

lemma edit_no_cr:
  assumes "applyEdit content old new False = Some (Inr (updated, fuzzy, info))" "creturn \<notin> set content"
  shows "creturn \<notin> set updated"
proof -
  from applyEdit_cases [OF assms(1)] obtain raw bom mapped mt idx where
    s: "stripBom content = (raw, bom)" "editAt raw bom mapped mt new False = (updated, info)" .
  have cr: "creturn \<notin> set raw" "creturn \<notin> set bom" using assms(2) stripBom_parts [OF s(1)] by auto
  have "creturn \<notin> set (slice raw x y)" for x y
    using cr(1) by (auto simp: slice_def dest: in_set_takeD in_set_dropD)
  then have "endingFor raw (slice raw x y) = [newline]" for x y
    using cr by (simp add: endingFor_def detectLineEnding_lf)
  then have "updated = bom @ take (boundaries mapped ! the (indexStr (text_of mapped) mt)) raw @
      insertedText mapped (the (indexStr (text_of mapped) mt)) new False @
      drop (boundaries mapped ! (the (indexStr (text_of mapped) mt) + length mt)) raw"
    using editAt_parts(1) [OF s(2)] by (simp add: restoreLineEndings_def)
  then show ?thesis
    using cr insertedText_no_cr by (auto dest: in_set_takeD in_set_dropD)
qed

end
