(* ===== verification/Diff.thy ===== *)
theory Diff
  imports EditApply
begin

text \<open>
  The unified diffs the tools return: the edit script of \<open>diff.go\<close> from a table of longest
  common subsequences, its hunks and their rendering, and the single-region diff of
  \<open>diff_edit_fast.go\<close>.
\<close>

section \<open>Lines and edit scripts\<close>

definition splitDiffLines :: "string \<Rightarrow> string list" where
  "splitDiffLines content =
     (if content = [] then []
      else let ls = splitByte content newline in
        if ls \<noteq> [] \<and> last ls = [] \<and> hasSuffix content [newline] then butlast ls else ls)"

record diffOp =
  tag :: char
  dvalue :: string

abbreviation keepOp :: "string \<Rightarrow> diffOp" where "keepOp l \<equiv> \<lparr>tag = CHR '' '', dvalue = l\<rparr>"
abbreviation addOp :: "string \<Rightarrow> diffOp" where "addOp l \<equiv> \<lparr>tag = CHR ''+'', dvalue = l\<rparr>"
abbreviation delOp :: "string \<Rightarrow> diffOp" where "delOp l \<equiv> \<lparr>tag = CHR ''-'', dvalue = l\<rparr>"

text \<open>
  One row of the table from the row above it: \<open>up\<close> starts with \<open>dp[i-1][j-1]\<close>, \<open>left\<close>
  is \<open>dp[i][j-1]\<close>.
\<close>

fun nextRow :: "string \<Rightarrow> string list \<Rightarrow> nat list \<Rightarrow> nat \<Rightarrow> nat list" where
  "nextRow x (y # ys) (d # u # up) left =
     (let v = (if x = y then d + 1 else if left \<le> u then u else left) in v # nextRow x ys (u # up) v)"
| "nextRow x _ _ left = []"

fun tableFrom :: "string list \<Rightarrow> string list \<Rightarrow> nat list \<Rightarrow> nat list list" where
  "tableFrom [] new row = [row]"
| "tableFrom (x # old) new row = row # tableFrom old new (0 # nextRow x new row 0)"

definition lcsTable :: "string list \<Rightarrow> string list \<Rightarrow> nat list list" where
  "lcsTable old new = tableFrom old new (replicate (length new + 1) 0)"

text \<open>The walk from the last cell back to the first; the operations come out last first.\<close>

function backtrack :: "nat list list \<Rightarrow> string list \<Rightarrow> string list \<Rightarrow> nat \<Rightarrow> nat \<Rightarrow> diffOp list" where
  "backtrack dp old new i j =
     (if i = 0 \<and> j = 0 then []
      else if i > 0 \<and> j > 0 \<and> old ! (i - 1) = new ! (j - 1)
        then keepOp (old ! (i - 1)) # backtrack dp old new (i - 1) (j - 1)
      else if j > 0 \<and> (i = 0 \<or> dp ! (i - 1) ! j \<le> dp ! i ! (j - 1))
        then addOp (new ! (j - 1)) # backtrack dp old new i (j - 1)
      else delOp (old ! (i - 1)) # backtrack dp old new (i - 1) j)"
  by pat_completeness auto
termination
  by (relation "measure (\<lambda>(_, _, _, i, j). i + j)") auto

declare backtrack.simps [simp del]

definition backtrackEditScript :: "nat list list \<Rightarrow> string list \<Rightarrow> string list \<Rightarrow> diffOp list" where
  "backtrackEditScript dp old new = rev (backtrack dp old new (length old) (length new))"

definition computeEditScript :: "string \<Rightarrow> string \<Rightarrow> diffOp list" where
  "computeEditScript old newText =
     (let oldLines = splitDiffLines old; newLines = splitDiffLines newText
      in backtrackEditScript (lcsTable oldLines newLines) oldLines newLines)"

section \<open>Hunks\<close>

record hunkRange =
  hstart :: nat
  hend :: nat

definition isChange :: "diffOp \<Rightarrow> bool" where
  "isChange s \<longleftrightarrow> tag s = CHR ''-'' \<or> tag s = CHR ''+''"

text \<open>The loop of \<open>computeHunks\<close> at index \<open>idx\<close>; \<open>cur\<close> is the start of the hunk it is in.\<close>

fun hunksFrom :: "nat \<Rightarrow> nat \<Rightarrow> nat option \<Rightarrow> diffOp list \<Rightarrow> hunkRange list" where
  "hunksFrom ctx idx cur [] =
     (case cur of Some s \<Rightarrow> [\<lparr>hstart = s, hend = idx\<rparr>] | None \<Rightarrow> [])"
| "hunksFrom ctx idx cur (s # rest) =
     (if isChange s
      then hunksFrom ctx (Suc idx) (case cur of None \<Rightarrow> Some idx | Some st \<Rightarrow> Some st) rest
      else case cur of
        None \<Rightarrow> hunksFrom ctx (Suc idx) None rest
      | Some st \<Rightarrow>
          (if length (takeWhile (\<lambda>s'. tag s' = CHR '' '') (s # rest)) > 2 * ctx
           then \<lparr>hstart = st, hend = idx\<rparr> # hunksFrom ctx (Suc idx) None rest
           else hunksFrom ctx (Suc idx) (Some st) rest))"

definition computeHunks :: "diffOp list \<Rightarrow> nat \<Rightarrow> hunkRange list" where
  "computeHunks script contextLines = hunksFrom contextLines 0 None script"

record hunkBounds =
  bstart :: nat
  bend :: nat
  oldOffset :: nat
  newOffset :: nat
  oldCount :: nat
  newCount :: nat

definition inOld :: "diffOp \<Rightarrow> bool" where
  "inOld s \<longleftrightarrow> tag s = CHR '' '' \<or> tag s = CHR ''-''"

definition inNew :: "diffOp \<Rightarrow> bool" where
  "inNew s \<longleftrightarrow> tag s = CHR '' '' \<or> tag s = CHR ''+''"

definition computeHunkBounds :: "diffOp list \<Rightarrow> hunkRange \<Rightarrow> nat \<Rightarrow> hunkBounds" where
  "computeHunkBounds script h contextLines =
     (let start = hstart h - contextLines; stop = min (hend h + contextLines) (length script);
          before = take start script; span = take (stop - start) (drop start script)
      in \<lparr>bstart = start, bend = stop,
          oldOffset = length (filter inOld before), newOffset = length (filter inNew before),
          oldCount = length (filter inOld span), newCount = length (filter inNew span)\<rparr>)"

definition firstChangeNewLine :: "diffOp list \<Rightarrow> hunkBounds \<Rightarrow> nat \<Rightarrow> nat" where
  "firstChangeNewLine script bounds k =
     (if \<not> isChange (script ! k) then 0
      else newOffset bounds + 1 +
        length (filter inNew (take (k - bstart bounds) (drop (bstart bounds) script))))"

definition renderOp :: "diffOp \<Rightarrow> string" where
  "renderOp s = [tag s, CHR '' ''] @ dvalue s @ [newline]"

definition hunkHeader :: "nat \<Rightarrow> nat \<Rightarrow> nat \<Rightarrow> nat \<Rightarrow> string" where
  "hunkHeader oldStart oldN newStart newN =
     ''@@ -'' @ natToString oldStart @ '','' @ natToString oldN @ '' +'' @
     natToString newStart @ '','' @ natToString newN @ '' @@'' @ [newline]"

text \<open>The first line number that is not 0.\<close>

fun firstNonZero :: "nat list \<Rightarrow> nat" where
  "firstNonZero [] = 0"
| "firstNonZero (n # ns) = (if n = 0 then firstNonZero ns else n)"

definition renderHunk :: "diffOp list \<Rightarrow> hunkBounds \<Rightarrow> string \<times> nat" where
  "renderHunk script b =
     (hunkHeader (oldOffset b + 1) (oldCount b) (newOffset b + 1) (newCount b) @
      concat (map (\<lambda>k. renderOp (script ! k)) [bstart b..<bend b]),
      firstNonZero (map (firstChangeNewLine script b) [bstart b..<bend b]))"

definition formatHunks :: "diffOp list \<Rightarrow> hunkRange list \<Rightarrow> nat \<Rightarrow> string \<times> nat" where
  "formatHunks script hunks contextLines =
     (let rs = map (\<lambda>h. renderHunk script (computeHunkBounds script h contextLines)) hunks
      in (concat (map fst rs), firstNonZero (map snd rs)))"

text \<open>\<open>None\<close> when there is nothing to show.\<close>

definition renderDiffBody :: "string \<Rightarrow> string \<Rightarrow> nat \<Rightarrow> (string \<times> nat) option" where
  "renderDiffBody old newText contextLines =
     (if old = newText then None
      else let script = computeEditScript old newText; hunks = computeHunks script contextLines
        in if hunks = [] then None else Some (formatHunks script hunks contextLines))"

record DiffResult =
  diffText :: string
  firstChanged :: nat

definition diffLabel :: "string \<Rightarrow> string" where
  "diffLabel label = ''--- '' @ label @ [newline] @ ''+++ '' @ label @ [newline]"

definition generateDiff :: "string \<Rightarrow> string \<Rightarrow> string \<Rightarrow> nat \<Rightarrow> DiffResult" where
  "generateDiff old newText label contextLines =
     (case renderDiffBody old newText contextLines of
        None \<Rightarrow> \<lparr>diffText = [], firstChanged = 0\<rparr>
      | Some (body, first) \<Rightarrow>
          \<lparr>diffText = trimRight (diffLabel label @ body) [newline], firstChanged = first\<rparr>)"

definition unifiedDiff :: "string \<Rightarrow> string \<Rightarrow> string \<Rightarrow> string" where
  "unifiedDiff old newText label =
     (case renderDiffBody old newText 3 of
        None \<Rightarrow> ''[dry-run] no changes''
      | Some (body, _) \<Rightarrow> ''[dry-run] diff for '' @ label @ '':'' @ [newline] @ body)"

definition formatEditPreview :: "string \<Rightarrow> string \<Rightarrow> string \<Rightarrow> bool \<Rightarrow> string" where
  "formatEditPreview old updated path fuzzy =
     unifiedDiff old updated path @ (if fuzzy then '' (fuzzy match)'' @ [newline] else [])"

section \<open>The diff of one region\<close>

record editRegion =
  rstart :: nat
  rOld :: nat
  rNew :: nat
  rContext :: nat

definition buildEditScript :: "string list \<Rightarrow> string list \<Rightarrow> editRegion \<Rightarrow> diffOp list \<times> nat" where
  "buildEditScript old new r =
     (let start = rstart r; oldEnd = start + rOld r; newEnd = start + rNew r;
          ctxStart = start - rContext r;
          trailingEnd = min (oldEnd + rContext r) (length old)
      in (map (\<lambda>i. keepOp (old ! i)) [ctxStart..<start] @
          map (\<lambda>i. delOp (old ! i)) [start..<min oldEnd (length old)] @
          map (\<lambda>i. addOp (new ! i)) [start..<min newEnd (length new)] @
          map (\<lambda>i. keepOp (new ! (newEnd + (i - oldEnd))))
            (filter (\<lambda>i. newEnd + (i - oldEnd) < length new) [oldEnd..<trailingEnd]),
          ctxStart))"

text \<open>The new-file line of the first change, walking the script from line \<open>n\<close>.\<close>

fun firstChangeFrom :: "nat \<Rightarrow> diffOp list \<Rightarrow> nat" where
  "firstChangeFrom n [] = 0"
| "firstChangeFrom n (s # rest) =
     (if isChange s then n else firstChangeFrom (if inNew s then Suc n else n) rest)"

definition renderEditScript :: "diffOp list \<Rightarrow> nat \<Rightarrow> string \<Rightarrow> string \<times> nat" where
  "renderEditScript script offset label =
     (diffLabel label @
      hunkHeader (offset + 1) (length (filter inOld script)) (offset + 1) (length (filter inNew script)) @
      concat (map renderOp script),
      firstChangeFrom (offset + 1) script)"

text \<open>The number of leading lines two lists share.\<close>

fun commonPrefix :: "string list \<Rightarrow> string list \<Rightarrow> nat" where
  "commonPrefix (x # xs) (y # ys) = (if x = y then Suc (commonPrefix xs ys) else 0)"
| "commonPrefix _ _ = 0"

text \<open>The region between the shared leading and the shared trailing lines.\<close>

definition changedRegion :: "string list \<Rightarrow> string list \<Rightarrow> nat \<Rightarrow> editRegion" where
  "changedRegion old new contextLines =
     (let start = commonPrefix old new;
          k = commonPrefix (rev (drop start old)) (rev (drop start new))
      in \<lparr>rstart = start, rOld = length old - k - start, rNew = length new - k - start,
          rContext = contextLines\<rparr>)"

definition generateEditDiff :: "string \<Rightarrow> string \<Rightarrow> string \<Rightarrow> nat \<Rightarrow> DiffResult" where
  "generateEditDiff oldContent newContent label contextLines =
     (if oldContent = newContent then \<lparr>diffText = [], firstChanged = 0\<rparr>
      else let old = splitDiffLines oldContent; new = splitDiffLines newContent;
               r = changedRegion old new contextLines
        in if rOld r = 0 \<and> rNew r = 0 then generateDiff oldContent newContent label contextLines
           else let (script, offset) = buildEditScript old new r in
             if script = [] then \<lparr>diffText = [], firstChanged = 0\<rparr>
             else let (out, first) = renderEditScript script offset label
               in \<lparr>diffText = trimRight out [newline], firstChanged = first\<rparr>)"


section \<open>Lemmas\<close>

subsection \<open>The table\<close>

text \<open>The recurrence the table tabulates.\<close>

function lcsLen :: "string list \<Rightarrow> string list \<Rightarrow> nat \<Rightarrow> nat \<Rightarrow> nat" where
  "lcsLen old new i j =
     (if i = 0 \<or> j = 0 then 0
      else if old ! (i - 1) = new ! (j - 1) then lcsLen old new (i - 1) (j - 1) + 1
      else max (lcsLen old new (i - 1) j) (lcsLen old new i (j - 1)))"
  by pat_completeness auto
termination
  by (relation "measure (\<lambda>(_, _, i, j). i + j)") auto

declare lcsLen.simps [simp del]

lemma lcsLen_0 [simp]: "lcsLen old new 0 j = 0" "lcsLen old new i 0 = 0"
  by (simp_all add: lcsLen.simps)

lemma lcsLen_Suc:
  "lcsLen old new (Suc i) (Suc j) =
     (if old ! i = new ! j then lcsLen old new i j + 1
      else max (lcsLen old new i (Suc j)) (lcsLen old new (Suc i) j))"
  by (subst lcsLen.simps) simp

definition lcsRow :: "string list \<Rightarrow> string list \<Rightarrow> nat \<Rightarrow> nat \<Rightarrow> nat list" where
  "lcsRow old new i k = map (lcsLen old new i) [k..<Suc (length new)]"

lemma lcsRow_Cons: "k \<le> length new \<Longrightarrow> lcsRow old new i k = lcsLen old new i k # lcsRow old new i (Suc k)"
  by (simp add: lcsRow_def upt_conv_Cons del: upt_Suc)

lemma nextRow_lcs:
  "k \<le> length new \<Longrightarrow>
   nextRow (old ! i) (drop k new) (lcsRow old new i k) (lcsLen old new (Suc i) k) = lcsRow old new (Suc i) (Suc k)"
proof (induction "length new - k" arbitrary: k)
  case 0
  then show ?case by (simp add: lcsRow_def)
next
  case (Suc n)
  then have k: "k < length new" by simp
  have "drop k new = new ! k # drop (Suc k) new" using k by (simp add: Cons_nth_drop_Suc)
  moreover have "lcsRow old new i k = lcsLen old new i k # lcsLen old new i (Suc k) # lcsRow old new i (Suc (Suc k))"
    using k lcsRow_Cons [of k] lcsRow_Cons [of "Suc k"] by simp
  moreover have "lcsRow old new i (Suc k) = lcsLen old new i (Suc k) # lcsRow old new i (Suc (Suc k))"
    using k lcsRow_Cons [of "Suc k"] by simp
  moreover have "lcsRow old new (Suc i) (Suc k) =
      lcsLen old new (Suc i) (Suc k) # lcsRow old new (Suc i) (Suc (Suc k))"
    using k lcsRow_Cons [of "Suc k"] by simp
  moreover have "(if old ! i = new ! k then lcsLen old new i k + 1
      else if lcsLen old new (Suc i) k \<le> lcsLen old new i (Suc k) then lcsLen old new i (Suc k)
      else lcsLen old new (Suc i) k) = lcsLen old new (Suc i) (Suc k)"
    by (simp add: lcsLen_Suc max_def)
  ultimately show ?case
    using Suc.hyps(1) [of "Suc k"] Suc.hyps(2) k by (simp add: Let_def)
qed

lemma tableFrom_lcs:
  "i \<le> length old \<Longrightarrow> tableFrom (drop i old) new (lcsRow old new i 0) =
    map (\<lambda>i'. lcsRow old new i' 0) [i..<Suc (length old)]"
proof (induction "length old - i" arbitrary: i)
  case 0
  then show ?case by simp
next
  case (Suc n)
  then have i: "i < length old" by simp
  have "0 # nextRow (old ! i) new (lcsRow old new i 0) 0 = lcsRow old new (Suc i) 0"
    using nextRow_lcs [of 0 new old i] lcsRow_Cons [of 0 new old "Suc i"] by simp
  moreover have "drop i old = old ! i # drop (Suc i) old" using i by (simp add: Cons_nth_drop_Suc)
  ultimately show ?case
    using Suc.hyps(1) [of "Suc i"] Suc.hyps(2) i by (simp add: upt_rec [of i])
qed

lemma lcsTable_cell:
  assumes "i \<le> length old" "j \<le> length new"
  shows "lcsTable old new ! i ! j = lcsLen old new i j"
proof -
  have "lcsRow old new 0 0 = map (\<lambda>_. 0) [0..<Suc (length new)]" by (simp add: lcsRow_def)
  then have "replicate (length new + 1) 0 = lcsRow old new 0 0"
    by (simp add: map_replicate_trivial del: upt_Suc)
  then have "lcsTable old new = map (\<lambda>i'. lcsRow old new i' 0) [0..<Suc (length old)]"
    using tableFrom_lcs [of 0 old new] by (simp add: lcsTable_def)
  then have "lcsTable old new ! i = lcsRow old new i 0"
    using assms(1) by (simp del: upt_Suc)
  then show ?thesis using assms(2) by (simp add: lcsRow_def del: upt_Suc)
qed

subsection \<open>The script\<close>

text \<open>What a script says of the old and of the new file, and the lines it keeps.\<close>

definition oldSide :: "diffOp list \<Rightarrow> string list" where
  "oldSide script = map dvalue (filter inOld script)"

definition newSide :: "diffOp list \<Rightarrow> string list" where
  "newSide script = map dvalue (filter inNew script)"

definition kept :: "diffOp list \<Rightarrow> string list" where
  "kept script = map dvalue (filter (\<lambda>s. inOld s \<and> inNew s) script)"

named_theorems script_sides \<open>the two sides of an edit script\<close>

lemma sides_Nil [script_sides]: "oldSide [] = []" "newSide [] = []" "kept [] = []"
  by (simp_all add: oldSide_def newSide_def kept_def)

lemma sides_append [script_sides]:
  "oldSide (a @ b) = oldSide a @ oldSide b" "newSide (a @ b) = newSide a @ newSide b" "kept (a @ b) = kept a @ kept b"
  by (simp_all add: oldSide_def newSide_def kept_def)

lemma sides_single [script_sides]:
  "oldSide [keepOp l] = [l]" "newSide [keepOp l] = [l]" "kept [keepOp l] = [l]"
  "oldSide [addOp l] = []" "newSide [addOp l] = [l]" "kept [addOp l] = []"
  "oldSide [delOp l] = [l]" "newSide [delOp l] = []" "kept [delOp l] = []"
  by (simp_all add: oldSide_def newSide_def kept_def inOld_def inNew_def)

lemma kept_sides: "subseq (kept s) (oldSide s)" "subseq (kept s) (newSide s)"
  by (induction s) (auto simp: kept_def oldSide_def newSide_def)

lemma take_last: "0 < i \<Longrightarrow> i \<le> length xs \<Longrightarrow> take i xs = take (i - 1) xs @ [xs ! (i - 1)]"
  by (metis Suc_diff_1 Suc_le_lessD take_Suc_conv_app_nth)

lemma backtrack_sides:
  "i \<le> length old \<Longrightarrow> j \<le> length new \<Longrightarrow>
   oldSide (rev (backtrack dp old new i j)) = take i old \<and> newSide (rev (backtrack dp old new i j)) = take j new"
proof (induction dp old new i j rule: backtrack.induct)
  case (1 dp old new i j)
  consider "i = 0" "j = 0" | "0 < i" "0 < j" "old ! (i - 1) = new ! (j - 1)"
    | "\<not> (i > 0 \<and> j > 0 \<and> old ! (i - 1) = new ! (j - 1))" "j > 0" "i = 0 \<or> dp ! (i - 1) ! j \<le> dp ! i ! (j - 1)"
    | "\<not> (i > 0 \<and> j > 0 \<and> old ! (i - 1) = new ! (j - 1))" "0 < i"
      "\<not> (j > 0 \<and> (i = 0 \<or> dp ! (i - 1) ! j \<le> dp ! i ! (j - 1)))"
    by blast
  then show ?case
  proof cases
    case 2
    then show ?thesis
      using 1 take_last [of i old] take_last [of j new]
      by (subst (1 2) backtrack.simps) (simp add: script_sides)
  next
    case 3
    then show ?thesis
      using 1 take_last [of j new] by (subst (1 2) backtrack.simps) (auto simp: script_sides)
  next
    case 4
    then show ?thesis
      using 1 take_last [of i old] by (subst (1 2) backtrack.simps) (auto simp: script_sides)
  qed (simp add: backtrack.simps script_sides)
qed

lemma backtrack_kept:
  assumes dp: "\<And>i j. i \<le> length old \<Longrightarrow> j \<le> length new \<Longrightarrow> dp ! i ! j = lcsLen old new i j"
  shows "i \<le> length old \<Longrightarrow> j \<le> length new \<Longrightarrow>
    length (kept (rev (backtrack dp old new i j))) = lcsLen old new i j"
proof (induction "i + j" arbitrary: i j rule: less_induct)
  case less
  have cell: "lcsLen old new i j = (if old ! (i - 1) = new ! (j - 1) then lcsLen old new (i - 1) (j - 1) + 1
      else max (lcsLen old new (i - 1) j) (lcsLen old new i (j - 1)))" if "0 < i" "0 < j"
    using that lcsLen_Suc [of old new "i - 1" "j - 1"] by simp
  consider "i = 0" "j = 0" | "0 < i" "0 < j" "old ! (i - 1) = new ! (j - 1)"
    | "\<not> (i > 0 \<and> j > 0 \<and> old ! (i - 1) = new ! (j - 1))" "j > 0" "i = 0 \<or> dp ! (i - 1) ! j \<le> dp ! i ! (j - 1)"
    | "\<not> (i > 0 \<and> j > 0 \<and> old ! (i - 1) = new ! (j - 1))" "0 < i"
      "\<not> (j > 0 \<and> (i = 0 \<or> dp ! (i - 1) ! j \<le> dp ! i ! (j - 1)))"
    by blast
  then show ?case
  proof cases
    case 2
    then show ?thesis
      using less.hyps [of "i - 1" "j - 1"] less.prems cell
      by (subst backtrack.simps) (simp add: script_sides)
  next
    case 3
    then show ?thesis
      using less.hyps [of i "j - 1"] less.prems cell dp [of "i - 1" j] dp [of i "j - 1"]
      by (subst backtrack.simps, cases "i = 0") (auto simp: script_sides max_def)
  next
    case 4
    then show ?thesis
      using less.hyps [of "i - 1" j] less.prems cell dp [of "i - 1" j] dp [of i "j - 1"]
      by (subst backtrack.simps, cases "j = 0") (auto simp: script_sides max_def)
  qed (simp add: backtrack.simps script_sides)
qed

lemma subseq_snoc:
  assumes "subseq (z @ [l]) (ys @ [x])"
  shows "subseq z ys" "l \<noteq> x \<Longrightarrow> subseq (z @ [l]) ys"
proof -
  obtain a b where ab: "z @ [l] = a @ b" "subseq a ys" "subseq b [x]"
    using assms by (auto simp: subseq_append_iff)
  then consider "b = []" | "b = [x]"
    by (cases b) (auto split: if_splits)
  then have "subseq z ys \<and> (l \<noteq> x \<longrightarrow> subseq (z @ [l]) ys)"
  proof cases
    case 1
    then have l: "subseq (z @ [l]) ys" using ab by simp
    have "subseq z (z @ [l])" by (simp add: subseq_rev_drop_many)
    then have "subseq z ys" using l by (rule subseq_order.order_trans)
    with l show ?thesis by blast
  next
    case 2
    then show ?thesis using ab by simp
  qed
  then show "subseq z ys" "l \<noteq> x \<Longrightarrow> subseq (z @ [l]) ys" by auto
qed

lemma lcsLen_bound:
  "i \<le> length old \<Longrightarrow> j \<le> length new \<Longrightarrow> subseq zs (take i old) \<Longrightarrow> subseq zs (take j new) \<Longrightarrow>
   length zs \<le> lcsLen old new i j"
proof (induction "i + j" arbitrary: i j zs rule: less_induct)
  case less
  show ?case
  proof (cases "zs = [] \<or> i = 0 \<or> j = 0")
    case True
    then show ?thesis using less.prems by auto
  next
    case False
    then obtain z l where zs: "zs = z @ [l]" by (cases zs rule: rev_cases) auto
    let ?x = "old ! (i - 1)" and ?y = "new ! (j - 1)"
    have ts: "take i old = take (i - 1) old @ [?x]" "take j new = take (j - 1) new @ [?y]"
      using False less.prems take_last by auto
    note o = subseq_snoc [of z l "take (i - 1) old" ?x] and n = subseq_snoc [of z l "take (j - 1) new" ?y]
    have cell: "lcsLen old new i j = (if ?x = ?y then lcsLen old new (i - 1) (j - 1) + 1
        else max (lcsLen old new (i - 1) j) (lcsLen old new i (j - 1)))"
      using False lcsLen_Suc [of old new "i - 1" "j - 1"] by simp
    consider "?x = ?y" | "?x \<noteq> ?y" "l \<noteq> ?x" | "?x \<noteq> ?y" "l \<noteq> ?y" by blast
    then show ?thesis
    proof cases
      case 1
      then show ?thesis
        using less.hyps [of "i - 1" "j - 1" z] less.prems False zs ts o(1) n(1) cell by auto
    next
      case 2
      then show ?thesis
        using less.hyps [of "i - 1" j zs] less.prems False zs ts o(2) cell by (auto simp: le_max_iff_disj)
    next
      case 3
      then show ?thesis
        using less.hyps [of i "j - 1" zs] less.prems False zs ts n(2) cell by (auto simp: le_max_iff_disj)
    qed
  qed
qed

lemma script_sides_of:
  "oldSide (computeEditScript old new) = splitDiffLines old"
  "newSide (computeEditScript old new) = splitDiffLines new"
  by (simp_all add: computeEditScript_def Let_def backtrackEditScript_def backtrack_sides)

lemma script_kept_most:
  assumes "subseq zs (splitDiffLines old)" "subseq zs (splitDiffLines new)"
  shows "length zs \<le> length (kept (computeEditScript old new))"
  using assms lcsLen_bound [of "length (splitDiffLines old)" "splitDiffLines old"
      "length (splitDiffLines new)" "splitDiffLines new" zs]
  by (simp add: computeEditScript_def Let_def backtrackEditScript_def backtrack_kept lcsTable_cell)

subsection \<open>Hunks\<close>

lemma hunksFrom_start:
  "h \<in> set (hunksFrom ctx idx None rest) \<Longrightarrow> idx + length (takeWhile (\<lambda>s. tag s = CHR '' '') rest) \<le> hstart h"
proof -
  have later: "h \<in> set (hunksFrom ctx idx cur rest) \<Longrightarrow> (case cur of None \<Rightarrow> idx | Some s \<Rightarrow> min s idx) \<le> hstart h"
    for idx cur rest
    by (induction ctx idx cur rest rule: hunksFrom.induct)
      (auto split: if_splits option.splits simp del: takeWhile.simps)
  show "h \<in> set (hunksFrom ctx idx None rest) \<Longrightarrow> idx + length (takeWhile (\<lambda>s. tag s = CHR '' '') rest) \<le> hstart h"
  proof (induction rest arbitrary: idx)
    case (Cons s rest)
    show ?case
    proof (cases "tag s = CHR '' ''")
      case True
      then have "\<not> isChange s" by (simp add: isChange_def)
      then show ?thesis using Cons.IH [of "Suc idx"] Cons.prems True by simp
    next
      case False
      then show ?thesis using later [OF Cons.prems] by simp
    qed
  qed simp
qed

lemma hunksFrom_spec:
  "(case cur of None \<Rightarrow> True | Some s \<Rightarrow> s < idx) \<Longrightarrow>
   sorted_wrt (\<lambda>a b. hend a + 2 * ctx < hstart b) (hunksFrom ctx idx cur rest) \<and>
   (\<forall>h \<in> set (hunksFrom ctx idx cur rest). hstart h < hend h \<and> idx \<le> hend h \<and> hend h \<le> idx + length rest) \<and>
   (\<forall>s. cur = Some s \<longrightarrow> (\<exists>h \<in> set (hunksFrom ctx idx cur rest). hstart h = s)) \<and>
   (\<forall>q < length rest. isChange (rest ! q) \<longrightarrow>
      (\<exists>h \<in> set (hunksFrom ctx idx cur rest). hstart h \<le> idx + q \<and> idx + q < hend h))"
proof (induction ctx idx cur rest rule: hunksFrom.induct)
  case (1 ctx idx cur)
  then show ?case by (auto split: option.splits)
next
  case (2 ctx idx cur s rest)
  show ?case
  proof (cases "isChange s")
    case True
    let ?st = "case cur of None \<Rightarrow> idx | Some st \<Rightarrow> st"
    let ?hs = "hunksFrom ctx (Suc idx) (Some ?st) rest"
    have eq: "hunksFrom ctx idx cur (s # rest) = ?hs" using True by (simp split: option.split)
    have st: "?st \<le> idx" using "2.prems" by (auto split: option.splits)
    then have IH: "sorted_wrt (\<lambda>a b. hend a + 2 * ctx < hstart b) ?hs"
      "\<forall>h \<in> set ?hs. hstart h < hend h \<and> Suc idx \<le> hend h \<and> hend h \<le> Suc idx + length rest"
      "\<exists>h \<in> set ?hs. hstart h = ?st"
      "\<forall>q < length rest. isChange (rest ! q) \<longrightarrow>
         (\<exists>h \<in> set ?hs. hstart h \<le> Suc idx + q \<and> Suc idx + q < hend h)"
      using "2.IH"(1) [OF True] by (auto split: option.splits)
    obtain h where h: "h \<in> set ?hs" "hstart h = ?st" using IH(3) by blast
    have "\<exists>h \<in> set ?hs. hstart h \<le> idx + q \<and> idx + q < hend h"
      if "q < length (s # rest)" "isChange ((s # rest) ! q)" for q
    proof (cases q)
      case 0
      have "hstart h \<le> idx + q" "idx + q < hend h" using h IH(2) st 0 by force+
      then show ?thesis using h(1) by blast
    next
      case (Suc q')
      then show ?thesis using IH(4) that by auto
    qed
    moreover have "\<forall>h \<in> set ?hs. hstart h < hend h \<and> idx \<le> hend h \<and> hend h \<le> idx + length (s # rest)"
      using IH(2) by force
    moreover have "\<forall>s'. cur = Some s' \<longrightarrow> (\<exists>h \<in> set ?hs. hstart h = s')"
      using h by auto
    ultimately show ?thesis
      unfolding eq using IH(1) by blast
  next
    case keep: False
    show ?thesis
    proof (cases cur)
      case None
      then have IH: "sorted_wrt (\<lambda>a b. hend a + 2 * ctx < hstart b) (hunksFrom ctx (Suc idx) None rest)"
        "\<forall>h \<in> set (hunksFrom ctx (Suc idx) None rest).
           hstart h < hend h \<and> Suc idx \<le> hend h \<and> hend h \<le> Suc idx + length rest"
        "\<forall>q < length rest. isChange (rest ! q) \<longrightarrow>
           (\<exists>h \<in> set (hunksFrom ctx (Suc idx) None rest). hstart h \<le> Suc idx + q \<and> Suc idx + q < hend h)"
        using "2.IH"(2) [OF keep None] by simp_all
      have eq: "hunksFrom ctx idx cur (s # rest) = hunksFrom ctx (Suc idx) None rest"
        using keep None by simp
      have "\<exists>h \<in> set (hunksFrom ctx (Suc idx) None rest). hstart h \<le> idx + q \<and> idx + q < hend h"
        if "q < length (s # rest)" "isChange ((s # rest) ! q)" for q
        using that keep IH(3) by (cases q) auto
      then show ?thesis unfolding eq using IH None by fastforce
    next
      case (Some st)
      have st: "st < idx" using "2.prems" Some by simp
      let ?n = "length (takeWhile (\<lambda>s'. tag s' = CHR '' '') (s # rest))"
      show ?thesis
      proof (cases "2 * ctx < ?n")
        case True
        let ?h = "\<lparr>hstart = st, hend = idx\<rparr>"
        let ?hs = "hunksFrom ctx (Suc idx) None rest"
        have IH: "sorted_wrt (\<lambda>a b. hend a + 2 * ctx < hstart b) ?hs"
          "\<forall>h \<in> set ?hs. hstart h < hend h \<and> Suc idx \<le> hend h \<and> hend h \<le> Suc idx + length rest"
          "\<forall>q < length rest. isChange (rest ! q) \<longrightarrow>
             (\<exists>h \<in> set ?hs. hstart h \<le> Suc idx + q \<and> Suc idx + q < hend h)"
          using "2.IH"(3) [OF keep Some True] by simp_all
        have eq: "hunksFrom ctx idx cur (s # rest) = ?h # ?hs" using keep Some True by simp
        have "idx + ?n \<le> hstart h" if "h \<in> set ?hs" for h
          using hunksFrom_start [of h ctx idx "s # rest"] that keep by simp
        then have "sorted_wrt (\<lambda>a b. hend a + 2 * ctx < hstart b) (?h # ?hs)"
          using IH(1) True by fastforce
        moreover have "\<exists>h \<in> set ?hs. hstart h \<le> idx + q \<and> idx + q < hend h"
          if "q < length (s # rest)" "isChange ((s # rest) ! q)" for q
          using that keep IH(3) by (cases q) auto
        ultimately show ?thesis unfolding eq using IH(2) Some st by fastforce
      next
        case False
        let ?hs = "hunksFrom ctx (Suc idx) (Some st) rest"
        have IH: "sorted_wrt (\<lambda>a b. hend a + 2 * ctx < hstart b) ?hs"
          "\<forall>h \<in> set ?hs. hstart h < hend h \<and> Suc idx \<le> hend h \<and> hend h \<le> Suc idx + length rest"
          "\<exists>h \<in> set ?hs. hstart h = st"
          "\<forall>q < length rest. isChange (rest ! q) \<longrightarrow>
             (\<exists>h \<in> set ?hs. hstart h \<le> Suc idx + q \<and> Suc idx + q < hend h)"
          using "2.IH"(4) [OF keep Some False] st by simp_all
        have eq: "hunksFrom ctx idx cur (s # rest) = ?hs" using keep Some False by simp
        have "\<exists>h \<in> set ?hs. hstart h \<le> idx + q \<and> idx + q < hend h"
          if "q < length (s # rest)" "isChange ((s # rest) ! q)" for q
          using that keep IH(4) by (cases q) auto
        then show ?thesis unfolding eq using IH Some by fastforce
      qed
    qed
  qed
qed

lemma bounds_window:
  "bstart (computeHunkBounds script h ctx) = hstart h - ctx"
  "bend (computeHunkBounds script h ctx) = min (hend h + ctx) (length script)"
  by (simp_all add: computeHunkBounds_def Let_def)

lemma hunk_windows:
  assumes "hs = map (\<lambda>h. computeHunkBounds script h ctx) (computeHunks script ctx)"
  shows "sorted_wrt (\<lambda>a b. bend a \<le> bstart b) hs"
    and "b \<in> set hs \<Longrightarrow> bstart b < bend b \<and> bend b \<le> length script"
    and "k < length script \<Longrightarrow> isChange (script ! k) \<Longrightarrow> \<exists>b \<in> set hs. bstart b \<le> k \<and> k < bend b"
proof -
  note spec = hunksFrom_spec [where cur = None and idx = 0 and ctx = ctx and rest = script, simplified,
      folded computeHunks_def]
  have "sorted_wrt (\<lambda>a b. hend a + ctx \<le> hstart b - ctx) (computeHunks script ctx)"
    using spec by (intro sorted_wrt_mono_rel [OF _ conjunct1 [OF spec]]) auto
  then have "sorted_wrt (\<lambda>a b. bend (computeHunkBounds script a ctx) \<le> bstart (computeHunkBounds script b ctx))
      (computeHunks script ctx)"
    by (rule sorted_wrt_mono_rel [rotated]) (simp add: bounds_window)
  then show "sorted_wrt (\<lambda>a b. bend a \<le> bstart b) hs"
    using assms by (simp add: sorted_wrt_map)
  show "bstart b < bend b \<and> bend b \<le> length script" if "b \<in> set hs"
    using that assms spec by (force simp: bounds_window)
  show "\<exists>b \<in> set hs. bstart b \<le> k \<and> k < bend b" if k: "k < length script" "isChange (script ! k)"
  proof -
    obtain h where "h \<in> set (computeHunks script ctx)" "hstart h \<le> k" "k < hend h"
      using spec k by blast
    then show ?thesis using assms k(1) by (auto simp: bounds_window intro!: bexI [of _ h])
  qed
qed

subsection \<open>The region diff\<close>

lemma commonPrefix_le: "commonPrefix xs ys \<le> length xs" "commonPrefix xs ys \<le> length ys"
  by (induction xs ys rule: commonPrefix.induct) auto

lemma commonPrefix_take: "take (commonPrefix xs ys) xs = take (commonPrefix xs ys) ys"
  by (induction xs ys rule: commonPrefix.induct) auto

lemma drop_common_suffix:
  assumes "take k (rev xs) = take k (rev ys)"
  shows "drop (length xs - k) xs = drop (length ys - k) ys"
  using assms by (metis rev_rev_ident take_rev)

text \<open>The region keeps the lines before and after it.\<close>

lemma changedRegion_spec:
  assumes "r = changedRegion old new c"
  shows "take (rstart r) old = take (rstart r) new"
    and "rstart r + rOld r \<le> length old" "rstart r + rNew r \<le> length new"
    and "drop (rstart r + rOld r) old = drop (rstart r + rNew r) new" "rContext r = c"
proof -
  let ?s = "commonPrefix old new"
  let ?k = "commonPrefix (rev (drop ?s old)) (rev (drop ?s new))"
  have r: "rstart r = ?s" "rOld r = length old - ?k - ?s" "rNew r = length new - ?k - ?s" "rContext r = c"
    using assms by (simp_all add: changedRegion_def Let_def)
  have k: "?k \<le> length old - ?s" "?k \<le> length new - ?s" "?s \<le> length old" "?s \<le> length new"
    using commonPrefix_le by (metis length_drop length_rev)+
  show "take (rstart r) old = take (rstart r) new" using r commonPrefix_take by simp
  show "rContext r = c" by (rule r)
  have e: "rstart r + rOld r = ?s + (length (drop ?s old) - ?k)"
    "rstart r + rNew r = ?s + (length (drop ?s new) - ?k)" using r by simp_all
  show "rstart r + rOld r \<le> length old" "rstart r + rNew r \<le> length new" using e k by simp_all
  have "drop (length (drop ?s old) - ?k) (drop ?s old) = drop (length (drop ?s new) - ?k) (drop ?s new)"
    by (rule drop_common_suffix) (rule commonPrefix_take)
  then show "drop (rstart r + rOld r) old = drop (rstart r + rNew r) new"
    using e by (simp add: add.commute)
qed

lemma map_nth_range: "b \<le> length xs \<Longrightarrow> map ((!) xs) [a..<b] = take (b - a) (drop a xs)"
  by (rule nth_equalityI) auto

lemma sides_map [script_sides]:
  "oldSide (map (\<lambda>i. keepOp (f i)) is) = map f is" "newSide (map (\<lambda>i. keepOp (f i)) is) = map f is"
  "oldSide (map (\<lambda>i. delOp (f i)) is) = map f is" "newSide (map (\<lambda>i. delOp (f i)) is) = []"
  "oldSide (map (\<lambda>i. addOp (f i)) is) = []" "newSide (map (\<lambda>i. addOp (f i)) is) = map f is"
  by (induction "is") (simp_all add: oldSide_def newSide_def inOld_def inNew_def)

lemma buildEditScript_sides:
  assumes "r = changedRegion old new c" "buildEditScript old new r = (script, off)"
    "te = min (rstart r + rOld r + c) (length old)"
  shows "off = rstart r - c" "oldSide script = take (te - off) (drop off old)"
    "newSide script = take (te + rNew r - rOld r - off) (drop off new)"
proof -
  let ?s = "rstart r" and ?oe = "rstart r + rOld r" and ?ne = "rstart r + rNew r"
  note spec = changedRegion_spec [OF assms(1)]
  have len: "length old - ?oe = length new - ?ne" using spec(4) by (metis length_drop)
  have nth: "new ! (?ne + (i - ?oe)) = old ! i" if "?oe \<le> i" "i < length old" for i
    using that spec(4) nth_drop [of ?oe old "i - ?oe"] nth_drop [of ?ne new "i - ?oe"] spec(2,3) by simp
  have flt: "filter (\<lambda>i. ?ne + (i - ?oe) < length new) [?oe..<te] = [?oe..<te]"
    using len assms(3) spec by (intro filter_True) auto
  have tr: "map (\<lambda>i. new ! (?ne + (i - ?oe))) [?oe..<te] = map ((!) old) [?oe..<te]"
    using nth assms(3) by (intro map_cong) auto
  have tr': "map (\<lambda>i. new ! (?ne + (i - ?oe))) [?oe..<te] = map ((!) new) [?ne..<?ne + (te - ?oe)]"
    by (rule nth_equalityI) auto
  have pre: "map ((!) old) [?s - c..<?s] = map ((!) new) [?s - c..<?s]"
    using spec(1) by (intro map_cong refl) (metis atLeastLessThan_iff nth_take set_upt)
  have s: "script = map (\<lambda>i. keepOp (old ! i)) [?s - c..<?s] @ map (\<lambda>i. delOp (old ! i)) [?s..<?oe] @
      map (\<lambda>i. addOp (new ! i)) [?s..<?ne] @ map (\<lambda>i. keepOp (new ! (?ne + (i - ?oe)))) [?oe..<te]"
    and off: "off = ?s - c"
    using assms(2) flt spec(2,3,5) assms(3) [symmetric]
    by (auto simp: buildEditScript_def Let_def min_absorb1)
  show "off = rstart r - c" by (rule off)
  have upt: "[a..<b] @ [b..<d] = [a..<d]" if "a \<le> b" "b \<le> d" for a b d :: nat
    using that by (metis le_add_diff_inverse upt_add_eq_append)
  have te: "?oe \<le> te" using spec(2) assms(3) by simp
  have "oldSide script = map ((!) old) ([?s - c..<?s] @ [?s..<?oe] @ [?oe..<te])"
    using s tr by (simp add: script_sides)
  also have "[?s - c..<?s] @ [?s..<?oe] @ [?oe..<te] = [?s - c..<te]"
    using te upt [of ?s ?oe te] upt [of "?s - c" ?s te] by simp
  finally show "oldSide script = take (te - off) (drop off old)"
    using off assms(3) by (simp add: map_nth_range)
  have "newSide script = map ((!) new) ([?s - c..<?s] @ [?s..<?ne] @ [?ne..<?ne + (te - ?oe)])"
    using s tr' pre by (simp add: script_sides)
  also have "[?s - c..<?s] @ [?s..<?ne] @ [?ne..<?ne + (te - ?oe)] = [?s - c..<?ne + (te - ?oe)]"
    using upt [of ?s ?ne "?ne + (te - ?oe)"] upt [of "?s - c" ?s "?ne + (te - ?oe)"] by simp
  finally show "newSide script = take (te + rNew r - rOld r - off) (drop off new)"
    using off te len assms(3) spec(3) by (simp add: map_nth_range add.commute)
qed

lemma splice_id: "a \<le> b \<Longrightarrow> take a xs @ take (b - a) (drop a xs) @ drop b xs = xs"
proof -
  assume "a \<le> b"
  then have "drop b xs = drop (b - a) (drop a xs)" by simp
  then show ?thesis by (simp only: append_take_drop_id)
qed

lemma region_script_applies:
  assumes "buildEditScript old new (changedRegion old new c) = (script, off)"
  shows "take off old @ oldSide script @ drop (off + length (oldSide script)) old = old"
    and "take off old @ newSide script @ drop (off + length (oldSide script)) old = new"
proof -
  define r where "r = changedRegion old new c"
  define te where "te = min (rstart r + rOld r + c) (length old)"
  note spec = changedRegion_spec [OF r_def] and sides = buildEditScript_sides [OF r_def assms [folded r_def] te_def]
  have te: "off \<le> te" "te \<le> length old" "rstart r + rOld r \<le> te"
    using spec(2) sides(1) by (auto simp: te_def)
  then have n: "off + length (oldSide script) = te" using sides(2) by simp
  show "take off old @ oldSide script @ drop (off + length (oldSide script)) old = old"
    unfolding n unfolding sides(2) using te(1) by (rule splice_id)
  have "take off old = take off new"
    using spec(1) sides(1) by (metis diff_le_self min_absorb1 take_take)
  moreover have "drop te old = drop (te + rNew r - rOld r) new"
  proof -
    have "drop te old = drop (te - (rstart r + rOld r)) (drop (rstart r + rOld r) old)" using te by simp
    also have "\<dots> = drop (te - (rstart r + rOld r)) (drop (rstart r + rNew r) new)" using spec(4) by simp
    also have "\<dots> = drop (te - (rstart r + rOld r) + (rstart r + rNew r)) new" by simp
    also have "te - (rstart r + rOld r) + (rstart r + rNew r) = te + rNew r - rOld r" using te by linarith
    finally show ?thesis .
  qed
  moreover have "off \<le> te + rNew r - rOld r" using te sides(1) by linarith
  ultimately show "take off old @ newSide script @ drop (off + length (oldSide script)) old = new"
    unfolding n unfolding sides(3) using splice_id [of off "te + rNew r - rOld r" new] by simp
qed

end
