(* ===== verification/MultiEdit.thy ===== *)
theory MultiEdit
  imports Diff "HOL-Library.Multiset"
begin

text \<open>
  Batches of edits: the records of \<open>tool_multi_edit.go\<close>, the overlap check and the
  reordering of \<open>multi_edit_overlap.go\<close>, and the validation phase of
  \<open>multi_edit_apply.go\<close>, which applies the edits one after the other to the text
  accumulated for each file before anything is written.

  What the model takes from Go's runtime as a parameter: the order in which a map is
  iterated, and what \<open>sort.SliceStable\<close> does with more than one block of 20 elements.
\<close>

section \<open>Records\<close>

record rawEntry =
  enIdx :: nat
  enPath :: string
  enResolved :: string
  enOldText :: string
  enNewText :: string
  enFuzzyIndent :: bool
  enShowContext :: nat
  enOrigData :: string

record pendingEdit =
  pePath :: string
  peResolved :: string
  peOldText :: string
  peNewText :: string
  peUpdated :: string
  peFuzzy :: bool
  peMatchInfo :: matchInfo
  peShowContext :: nat
  pePreContent :: string

record editStatus =
  stFile :: string
  stEditIndex :: nat
  stErrorCode :: string
  stError :: string

record offsetEntry =
  editIdx :: nat
  matchOffset :: nat
  matchLength :: nat

section \<open>Overlaps\<close>

text \<open>Where an edit's search text lies in the file as it is on disk, exactly or else fuzzily.\<close>

definition locateEdit :: "string \<Rightarrow> rawEntry \<Rightarrow> offsetEntry option" where
  "locateEdit original re =
     (let mapped = mapNormalizedText original False; oldNorm = normalizeToLF (enOldText re);
          place = (\<lambda>m needle offset.
            (let start = boundaries m ! offset; stop = boundaries m ! (offset + length needle)
             in \<lparr>editIdx = enIdx re, matchOffset = start, matchLength = stop - start\<rparr>))
      in case indexStr (text_of mapped) oldNorm of
           Some offset \<Rightarrow> Some (place mapped oldNorm offset)
         | None \<Rightarrow>
             (let mapped' = mapNormalizedText original True; oldNorm' = normalizeForFuzzyMatch oldNorm
              in map_option (place mapped' oldNorm') (indexStr (text_of mapped') oldNorm')))"

text \<open>\<open>append(m[key], v)\<close> on a map from files to their offsets, the files in order of insertion.\<close>

fun appendOffset :: "string \<Rightarrow> offsetEntry \<Rightarrow> (string \<times> offsetEntry list) list \<Rightarrow> (string \<times> offsetEntry list) list" where
  "appendOffset key v [] = [(key, [v])]"
| "appendOffset key v ((k, vs) # m) =
     (if k = key then (k, vs @ [v]) # m else (k, vs) # appendOffset key v m)"

definition computeFileOffsets :: "rawEntry list \<Rightarrow> (string \<Rightarrow> string) \<Rightarrow> (string \<times> offsetEntry list) list" where
  "computeFileOffsets entries original =
     foldl (\<lambda>m re. case locateEdit (original (enResolved re)) re of
              Some oe \<Rightarrow> appendOffset (enResolved re) oe m | None \<Rightarrow> m) [] entries"

definition buildEditPairLookup :: "rawEntry list \<Rightarrow> nat \<Rightarrow> string" where
  "buildEditPairLookup entries i =
     (case map_of (rev (map (\<lambda>re. (enIdx re, enOldText re @ [CHR 0x00] @ enNewText re)) entries)) i of
        Some s \<Rightarrow> s | None \<Rightarrow> [])"

text \<open>
  The exchange sort of \<open>sortOffsetsAscending\<close>: the inner loop compares the element at \<open>a\<close>
  with each later one and swaps them when it is the greater.
\<close>

fun exchangePass :: "offsetEntry \<Rightarrow> offsetEntry list \<Rightarrow> offsetEntry \<times> offsetEntry list" where
  "exchangePass x [] = (x, [])"
| "exchangePass x (y # ys) =
     (if matchOffset x > matchOffset y
      then (let (z, zs) = exchangePass y ys in (z, x # zs))
      else (let (z, zs) = exchangePass x ys in (z, y # zs)))"

lemma exchangePass_length [termination_simp]: "(z, zs) = exchangePass x xs \<Longrightarrow> length zs = length xs"
  by (induction x xs arbitrary: z zs rule: exchangePass.induct) (auto split: if_splits prod.splits)

fun sortOffsetsAscending :: "offsetEntry list \<Rightarrow> offsetEntry list" where
  "sortOffsetsAscending [] = []"
| "sortOffsetsAscending (x # xs) = (let (z, zs) = exchangePass x xs in z # sortOffsetsAscending zs)"

definition overlapError :: "nat \<Rightarrow> nat \<Rightarrow> goError" where
  "overlapError i j =
     ErrWithSuggestion
       (''edits['' @ natToString (min i j) @ ''] and edits['' @ natToString (max i j) @
        ''] target overlapping regions'')
       ''split into separate multi_edit calls, or combine into a single edit covering the full region''
       ''edit_overlap''"

fun checkFileOverlaps :: "offsetEntry list \<Rightarrow> (nat \<Rightarrow> string) \<Rightarrow> goError option" where
  "checkFileOverlaps (prev # nxt # rest) editPair =
     (if editPair (editIdx prev) = editPair (editIdx nxt) then checkFileOverlaps (nxt # rest) editPair
      else if matchOffset prev + matchLength prev > matchOffset nxt
        then Some (overlapError (editIdx prev) (editIdx nxt))
      else checkFileOverlaps (nxt # rest) editPair)"
| "checkFileOverlaps _ editPair = None"

section \<open>Positional order\<close>

text \<open>The position of an edit; what is not in the original sorts last, at the greatest int.\<close>

definition editPosition :: "(string \<times> offsetEntry list) list \<Rightarrow> nat \<Rightarrow> nat" where
  "editPosition fileOffsets i =
     (case map_of (concat (map (\<lambda>(_, es). map (\<lambda>e. (editIdx e, matchOffset e)) es) fileOffsets)) i of
        Some p \<Rightarrow> p | None \<Rightarrow> 2 ^ 63 - 1)"

definition positionLess :: "(string \<times> offsetEntry list) list \<Rightarrow> rawEntry \<Rightarrow> rawEntry \<Rightarrow> bool" where
  "positionLess fileOffsets reA reB =
     (if enResolved reA \<noteq> enResolved reB then False
      else editPosition fileOffsets (enIdx reA) < editPosition fileOffsets (enIdx reB))"

text \<open>
  \<open>insertionSortLessFunc\<close> of package sort: the new element moves left while it is less than its
  left neighbour.  The sorted part is kept last element first.
\<close>

fun sinkIn :: "('a \<Rightarrow> 'a \<Rightarrow> bool) \<Rightarrow> 'a \<Rightarrow> 'a list \<Rightarrow> 'a list" where
  "sinkIn lt x [] = [x]"
| "sinkIn lt x (y # ys) = (if lt x y then y # sinkIn lt x ys else x # y # ys)"

definition insertionSort :: "('a \<Rightarrow> 'a \<Rightarrow> bool) \<Rightarrow> 'a list \<Rightarrow> 'a list" where
  "insertionSort lt xs = rev (foldl (\<lambda>acc x. sinkIn lt x acc) [] xs)"

definition sliceStable ::
  "(('a \<Rightarrow> 'a \<Rightarrow> bool) \<Rightarrow> 'a list \<Rightarrow> 'a list) \<Rightarrow> ('a \<Rightarrow> 'a \<Rightarrow> bool) \<Rightarrow> 'a list \<Rightarrow> 'a list" where
  "sliceStable mergeBlocks lt xs =
     (if length xs \<le> 20 then insertionSort lt xs else mergeBlocks lt xs)"

type_synonym mergeSort = "(rawEntry \<Rightarrow> rawEntry \<Rightarrow> bool) \<Rightarrow> rawEntry list \<Rightarrow> rawEntry list"

definition sortRawEntriesPositional ::
  "mergeSort \<Rightarrow> rawEntry list \<Rightarrow> (string \<times> offsetEntry list) list \<Rightarrow> rawEntry list" where
  "sortRawEntriesPositional mergeBlocks entries fileOffsets =
     sliceStable mergeBlocks (positionLess fileOffsets) entries"

text \<open>The first overlap error over the files, visited in the order of the map's iteration.\<close>

fun firstOverlap :: "(nat \<Rightarrow> string) \<Rightarrow> (string \<times> offsetEntry list) list \<Rightarrow> goError option" where
  "firstOverlap editPair [] = None"
| "firstOverlap editPair ((_, es) # m) =
     (case checkFileOverlaps (sortOffsetsAscending es) editPair of
        Some e \<Rightarrow> Some e | None \<Rightarrow> firstOverlap editPair m)"

type_synonym mapOrder = "(string \<times> offsetEntry list) list \<Rightarrow> (string \<times> offsetEntry list) list"

definition detectOverlaps ::
  "mapOrder \<Rightarrow> mergeSort \<Rightarrow> rawEntry list \<Rightarrow> (string \<Rightarrow> string) \<Rightarrow> goError + rawEntry list" where
  "detectOverlaps order mergeBlocks entries original =
     (let fileOffsets = computeFileOffsets entries original; editPair = buildEditPairLookup entries
      in case firstOverlap editPair (order fileOffsets) of
           Some e \<Rightarrow> Inl e
         | None \<Rightarrow> Inr (sortRawEntriesPositional mergeBlocks entries fileOffsets))"

section \<open>Applying the edits in memory\<close>

text \<open>The state of the loop of \<open>applyPendingEdits\<close>.\<close>

record pendingState =
  accumulated :: "(string \<times> string) list"
  appliedPairs :: "(string \<times> string \<times> string) list"
  pendings :: "pendingEdit list"
  statuses :: "editStatus list"

definition isRedundantNotFound :: "goError \<Rightarrow> pendingState \<Rightarrow> rawEntry \<Rightarrow> bool" where
  "isRedundantNotFound err st re \<longleftrightarrow>
     containsStr (Err err) ''old_text not found'' \<and>
     (enResolved re, enOldText re, enNewText re) \<in> set (appliedPairs st)"

definition currentData :: "pendingState \<Rightarrow> rawEntry \<Rightarrow> string" where
  "currentData st re =
     (case map_of (accumulated st) (enResolved re) of Some s \<Rightarrow> s | None \<Rightarrow> enOrigData re)"

definition failStatus :: "rawEntry \<Rightarrow> string \<Rightarrow> string \<Rightarrow> pendingState \<Rightarrow> pendingState" where
  "failStatus re code msg st = st\<lparr>statuses := statuses st @
     [\<lparr>stFile = enPath re, stEditIndex = enIdx re, stErrorCode = code, stError = msg\<rparr>]\<rparr>"

text \<open>One turn of the loop; \<open>None\<close> when \<open>applyEdit\<close> does not return.\<close>

definition applyEntry :: "rawEntry \<Rightarrow> pendingState \<Rightarrow> pendingState option" where
  "applyEntry re st =
     (let data = currentData st re in
      case applyEdit data (enOldText re) (enNewText re) (enFuzzyIndent re) of
        None \<Rightarrow> None
      | Some (Inl err) \<Rightarrow>
          Some (if isRedundantNotFound err st re then st
                else failStatus re ''edit_not_found'' (Err err) st)
      | Some (Inr (updated, fuzzy, info)) \<Rightarrow>
          Some (if updated = data
                then failStatus re ''edit_no_change''
                  (''edits['' @ natToString (enIdx re) @ ''] '' @ enPath re @ '': edit produced no changes'') st
                else st\<lparr>appliedPairs := (enResolved re, enOldText re, enNewText re) # appliedPairs st,
                        accumulated := (enResolved re, updated) # accumulated st,
                        pendings := pendings st @
                          [\<lparr>pePath = enPath re, peResolved = enResolved re, peOldText = enOldText re,
                            peNewText = enNewText re, peUpdated = updated, peFuzzy = fuzzy,
                            peMatchInfo = info, peShowContext = enShowContext re,
                            pePreContent = data\<rparr>]\<rparr>))"

fun applyEntries :: "rawEntry list \<Rightarrow> pendingState \<Rightarrow> pendingState option" where
  "applyEntries [] st = Some st"
| "applyEntries (re # rest) st = Option.bind (applyEntry re st) (applyEntries rest)"

definition startState :: pendingState where
  "startState = \<lparr>accumulated = [], appliedPairs = [], pendings = [], statuses = []\<rparr>"

definition validationError :: "editStatus list \<Rightarrow> nat \<Rightarrow> goError" where
  "validationError sts n =
     ErrWithSuggestion
       (natToString (length sts) @ '' of '' @ natToString n @ '' edits failed validation:'' @ [newline] @
        joinStr [newline] (map (\<lambda>s. ''  edits['' @ natToString (stEditIndex s) @ ''] '' @ stFile s @ '': '' @ stError s) sts))
       (dash ''fix the reported edit(s) and retry'' ''other edits in the batch were skipped'')
       ''edit_not_found''"

definition applyPendingEdits :: "rawEntry list \<Rightarrow> pendingEdit list run" where
  "applyPendingEdits entries =
     map_option
       (\<lambda>st. if statuses st \<noteq> [] then Inl (validationError (statuses st) (length entries))
             else Inr (pendings st))
       (applyEntries entries startState)"

section \<open>Grouping the edits of a file into one write\<close>

record preparedWrite =
  pwResolved :: string
  pwPath :: string
  pwPreContent :: string
  pwUpdated :: string

text \<open>
  The loop of \<open>writePendingEdits\<close> that builds \<open>grouped\<close> and \<open>order\<close>: the last edit of a file
  with the content from before the first one.
\<close>

fun groupEdit :: "pendingEdit \<Rightarrow> pendingEdit list \<Rightarrow> pendingEdit list" where
  "groupEdit ed [] = [ed]"
| "groupEdit ed (g # gs) =
     (if peResolved g = peResolved ed then ed\<lparr>pePreContent := pePreContent g\<rparr> # gs
      else g # groupEdit ed gs)"

definition groupEdits :: "pendingEdit list \<Rightarrow> pendingEdit list" where
  "groupEdits edits = foldl (\<lambda>gs ed. groupEdit ed gs) [] edits"

definition preparedWrites :: "pendingEdit list \<Rightarrow> preparedWrite list" where
  "preparedWrites edits =
     map (\<lambda>ed. \<lparr>pwResolved = peResolved ed, pwPath = pePath ed, pwPreContent = pePreContent ed,
                pwUpdated = peUpdated ed\<rparr>) (groupEdits edits)"

definition pendingDiff :: "pendingEdit \<Rightarrow> DiffResult" where
  "pendingDiff ed = generateEditDiff (pePreContent ed) (peUpdated ed) (pePath ed) 3"

definition allDiffs :: "pendingEdit list \<Rightarrow> string list" where
  "allDiffs edits = filter (\<lambda>d. d \<noteq> []) (map (\<lambda>ed. diffText (pendingDiff ed)) edits)"

definition firstLineOf :: "pendingEdit list \<Rightarrow> nat" where
  "firstLineOf edits =
     foldl (\<lambda>first ed. if first = 0 \<or> startLine (peMatchInfo ed) < first
                       then startLine (peMatchInfo ed) else first) 0 edits"

definition dryRunText :: "pendingEdit list \<Rightarrow> string" where
  "dryRunText edits =
     ''[dry-run] '' @ natToString (length edits) @ '' edits validated:'' @ [newline] @
     joinStr [newline] (allDiffs edits)"

definition buildEditDetails :: "pendingEdit list \<Rightarrow> nat \<Rightarrow> string list \<Rightarrow> editDetails" where
  "buildEditDetails edits firstLine diffTexts =
     \<lparr>Diff = joinStr [newline] diffTexts, FirstChangedLine = firstLine,
      LastChangedLine = foldl (\<lambda>m ed.
        max m (startLine (peMatchInfo ed) + (countStr (peNewText ed) [newline] + 1) - 1)) 0 edits,
      MatchType = foldl (\<lambda>t ed. if peFuzzy ed then ''fuzzy'' else if t = [] then ''exact'' else t) [] edits,
      FuzzyNormalized = (if list_ex peFuzzy edits then ''whitespace_and_quotes'' else [])\<rparr>"


section \<open>Lemmas\<close>

subsection \<open>The exchange sort\<close>

lemma exchangePass_mset: "exchangePass x xs = (z, zs) \<Longrightarrow> add_mset z (mset zs) = add_mset x (mset xs)"
  by (induction x xs arbitrary: z zs rule: exchangePass.induct) (auto split: if_splits prod.splits)

lemma exchangePass_min:
  "exchangePass x xs = (z, zs) \<Longrightarrow> matchOffset z \<le> matchOffset x \<and> (\<forall>y \<in> set zs. matchOffset z \<le> matchOffset y)"
  by (induction x xs arbitrary: z zs rule: exchangePass.induct) (force split: if_splits prod.splits)+

lemma sortOffsets_mset: "mset (sortOffsetsAscending xs) = mset xs"
  by (induction xs rule: sortOffsetsAscending.induct)
    (auto split: prod.splits dest: exchangePass_mset)

lemma sortOffsets_set: "set (sortOffsetsAscending xs) = set xs"
  using sortOffsets_mset by (metis set_mset_mset)

lemma sortOffsets_sorted: "sorted (map matchOffset (sortOffsetsAscending xs))"
  by (induction xs rule: sortOffsetsAscending.induct)
    (auto simp: sortOffsets_set split: prod.splits dest: exchangePass_min)

subsection \<open>What the overlap check accepts\<close>

abbreviation endOf :: "offsetEntry \<Rightarrow> nat" where "endOf e \<equiv> matchOffset e + matchLength e"

lemma sorted_wrt_pair:
  "sorted_wrt P xs \<Longrightarrow> x \<in> set xs \<Longrightarrow> y \<in> set xs \<Longrightarrow> x = y \<or> P x y \<or> P y x"
  by (induction xs) auto

lemma checkFileOverlaps_accepts:
  "checkFileOverlaps es pair = None \<Longrightarrow> sorted (map matchOffset es) \<Longrightarrow>
   \<forall>a \<in> set es. \<forall>b \<in> set es. pair (editIdx a) = pair (editIdx b) \<longrightarrow> matchOffset a = matchOffset b \<and> endOf a = endOf b \<Longrightarrow>
   sorted_wrt (\<lambda>a b. pair (editIdx a) = pair (editIdx b) \<or> endOf a \<le> matchOffset b) es"
proof (induction es pair rule: checkFileOverlaps.induct)
  case (1 a b rest pair)
  have none: "checkFileOverlaps (b # rest) pair = None" using "1.prems"(1) by (simp split: if_splits)
  have srt: "sorted (map matchOffset (b # rest))" using "1.prems"(2) by simp
  note same' = "1.prems"(3)
  have same: "\<forall>a \<in> set (b # rest). \<forall>c \<in> set (b # rest). pair (editIdx a) = pair (editIdx c) \<longrightarrow>
      matchOffset a = matchOffset c \<and> endOf a = endOf c"
    using same' by (meson list.set_intros(2))
  have IH: "sorted_wrt (\<lambda>a b. pair (editIdx a) = pair (editIdx b) \<or> endOf a \<le> matchOffset b) (b # rest)"
  proof (cases "pair (editIdx a) = pair (editIdx b)")
    case True
    show ?thesis by (rule "1.IH"(1) [OF True none srt same])
  next
    case False
    have "\<not> matchOffset b < endOf a" using "1.prems"(1) False by (simp split: if_splits)
    then show ?thesis using "1.IH"(2) [OF False _ none srt same] by blast
  qed
  have "pair (editIdx a) = pair (editIdx c) \<or> endOf a \<le> matchOffset c" if c: "c \<in> set (b # rest)" for c
  proof (cases "pair (editIdx a) = pair (editIdx b)")
    case True
    then have ends: "endOf a = endOf b" using same' by (meson list.set_intros)
    show ?thesis
    proof (cases "c = b")
      case False
      then have "pair (editIdx b) = pair (editIdx c) \<or> endOf b \<le> matchOffset c" using IH c by auto
      then show ?thesis using True ends by simp
    qed (use True in simp)
  next
    case False
    then have "endOf a \<le> matchOffset b" using "1.prems"(1) by (simp split: if_splits)
    moreover have "matchOffset b \<le> matchOffset c" using "1.prems"(2) c by auto
    ultimately show ?thesis by simp
  qed
  then show ?case using IH by simp
next
  case "2_1"
  show ?case by simp
next
  case "2_2"
  show ?case by simp
qed

definition offsetsOf :: "(string \<times> offsetEntry list) list \<Rightarrow> string \<Rightarrow> offsetEntry list" where
  "offsetsOf m f = (case map_of m f of Some es \<Rightarrow> es | None \<Rightarrow> [])"

lemma offsetsOf_append: "offsetsOf (appendOffset k v m) f = (if f = k then offsetsOf m f @ [v] else offsetsOf m f)"
  by (induction k v m rule: appendOffset.induct) (auto simp: offsetsOf_def)

lemma computeFileOffsets_append:
  "computeFileOffsets (es @ [re]) original =
     (case locateEdit (original (enResolved re)) re of
        Some oe \<Rightarrow> appendOffset (enResolved re) oe (computeFileOffsets es original)
      | None \<Rightarrow> computeFileOffsets es original)"
  unfolding computeFileOffsets_def by (simp split: option.split)

lemma computeFileOffsets_elem:
  "oe \<in> set (offsetsOf (computeFileOffsets es original) f) \<longleftrightarrow>
   (\<exists>re \<in> set es. enResolved re = f \<and> locateEdit (original f) re = Some oe)"
proof (induction es rule: rev_induct)
  case Nil
  then show ?case by (simp add: computeFileOffsets_def offsetsOf_def)
next
  case (snoc re es)
  then show ?case
    by (auto simp: computeFileOffsets_append offsetsOf_append split: option.splits if_splits)
qed

lemma firstOverlap_None:
  "firstOverlap pair m = None \<Longrightarrow> (k, es) \<in> set m \<Longrightarrow> checkFileOverlaps (sortOffsetsAscending es) pair = None"
  by (induction m) (auto split: option.splits)

text \<open>The signature of a replacement, as \<open>buildEditPairLookup\<close> forms it.\<close>

definition signature :: "rawEntry \<Rightarrow> string" where
  "signature re = enOldText re @ [CHR 0x00] @ enNewText re"

lemma buildEditPairLookup_sig:
  assumes "distinct (map enIdx entries)" "re \<in> set entries"
  shows "buildEditPairLookup entries (enIdx re) = signature re"
proof -
  let ?l = "rev (map (\<lambda>re. (enIdx re, signature re)) entries)"
  have "map fst ?l = rev (map enIdx entries)" by (simp add: rev_map comp_def)
  then have "distinct (map fst ?l)" using assms(1) by simp
  moreover have "(enIdx re, signature re) \<in> set ?l" using assms(2) by auto
  ultimately have "map_of ?l (enIdx re) = Some (signature re)" by (rule map_of_is_SomeI)
  then show ?thesis by (simp add: buildEditPairLookup_def signature_def)
qed

lemma signature_inj:
  assumes "signature a = signature b" "CHR 0x00 \<notin> set (enOldText a)" "CHR 0x00 \<notin> set (enOldText b)"
  shows "enOldText a = enOldText b \<and> enNewText a = enNewText b"
proof -
  have split: "takeWhile (\<lambda>c. c \<noteq> CHR 0x00) (signature re) = enOldText re \<and>
      dropWhile (\<lambda>c. c \<noteq> CHR 0x00) (signature re) = CHR 0x00 # enNewText re"
    if "CHR 0x00 \<notin> set (enOldText re)" for re
    using that by (auto simp: signature_def takeWhile_append dropWhile_append)
  then show ?thesis using assms by (metis list.inject)
qed

lemma locateEdit_idx: "locateEdit original re = Some oe \<Longrightarrow> editIdx oe = enIdx re"
  by (auto simp: locateEdit_def Let_def split: option.splits)

lemma locateEdit_same:
  assumes "locateEdit original a = Some x" "locateEdit original b = Some y" "enOldText a = enOldText b"
  shows "matchOffset x = matchOffset y \<and> matchLength x = matchLength y"
  using assms by (auto simp: locateEdit_def Let_def split: option.splits)

lemma detectOverlaps_accepts:
  assumes "detectOverlaps order mergeBlocks entries original = Inr ordered"
    and "set (order (computeFileOffsets entries original)) = set (computeFileOffsets entries original)"
    and "distinct (map enIdx entries)" and nul: "\<forall>re \<in> set entries. CHR 0x00 \<notin> set (enOldText re)"
    and ab: "a \<in> set entries" "b \<in> set entries" "enResolved a = enResolved b"
    and x: "locateEdit (original (enResolved a)) a = Some x" and y: "locateEdit (original (enResolved b)) b = Some y"
  shows "(enOldText a = enOldText b \<and> enNewText a = enNewText b) \<or> endOf x \<le> matchOffset y \<or> endOf y \<le> matchOffset x"
proof -
  let ?m = "computeFileOffsets entries original" and ?pair = "buildEditPairLookup entries"
  let ?f = "enResolved a"
  have none: "firstOverlap ?pair (order ?m) = None"
    using assms(1) by (simp add: detectOverlaps_def Let_def split: option.splits)
  have xy: "x \<in> set (offsetsOf ?m ?f)" "y \<in> set (offsetsOf ?m ?f)"
    using ab x y by (auto simp: computeFileOffsets_elem)
  then obtain es where es: "map_of ?m ?f = Some es" "x \<in> set es" "y \<in> set es"
    by (cases "map_of ?m ?f") (simp_all add: offsetsOf_def)
  let ?s = "sortOffsetsAscending es"
  have ok: "checkFileOverlaps ?s ?pair = None"
    using none es(1) assms(2) by (intro firstOverlap_None [of _ "order ?m" ?f]) (auto dest: map_of_SomeD)
  have from_entry: "\<exists>re \<in> set entries. enResolved re = ?f \<and> locateEdit (original ?f) re = Some oe" if "oe \<in> set ?s" for oe
    using that es(1) computeFileOffsets_elem [of oe entries original ?f] by (simp add: sortOffsets_set offsetsOf_def)
  have pair: "?pair (editIdx oe) = signature re" if "re \<in> set entries" "locateEdit (original ?f) re = Some oe" for oe re
    using that locateEdit_idx buildEditPairLookup_sig [OF assms(3)] by metis
  have same: "matchOffset u = matchOffset v \<and> endOf u = endOf v"
    if uv: "u \<in> set ?s" "v \<in> set ?s" "?pair (editIdx u) = ?pair (editIdx v)" for u v
  proof -
    obtain p q where pq: "p \<in> set entries" "locateEdit (original ?f) p = Some u"
      "q \<in> set entries" "locateEdit (original ?f) q = Some v" using from_entry uv by metis
    then have "enOldText p = enOldText q" using uv(3) pair signature_inj nul by metis
    then show ?thesis using locateEdit_same [OF pq(2,4)] by simp
  qed
  have "sorted_wrt (\<lambda>a b. ?pair (editIdx a) = ?pair (editIdx b) \<or> endOf a \<le> matchOffset b) ?s"
    by (rule checkFileOverlaps_accepts [OF ok sortOffsets_sorted]) (intro ballI impI, rule same)
  moreover have "x \<in> set ?s" "y \<in> set ?s" using es by (simp_all add: sortOffsets_set)
  ultimately have "x = y \<or> ?pair (editIdx x) = ?pair (editIdx y) \<or> endOf x \<le> matchOffset y \<or>
      endOf y \<le> matchOffset x"
    using sorted_wrt_pair [of _ ?s x y] by fastforce
  moreover have "?pair (editIdx x) = signature a" "?pair (editIdx y) = signature b"
    using pair [OF ab(1) x] pair [OF ab(2)] y ab(3) by simp_all
  ultimately have "signature a = signature b \<or> endOf x \<le> matchOffset y \<or> endOf y \<le> matchOffset x"
    by auto
  then show ?thesis using signature_inj nul ab by metis
qed

subsection \<open>The positional order\<close>

lemma sinkIn_mset: "mset (sinkIn lt x ys) = add_mset x (mset ys)"
  by (induction lt x ys rule: sinkIn.induct) auto

lemma foldl_sinkIn_mset: "mset (foldl (\<lambda>acc x. sinkIn lt x acc) ys xs) = mset xs + mset ys"
  by (induction xs arbitrary: ys) (auto simp: sinkIn_mset)

lemma insertionSort_mset: "mset (insertionSort lt xs) = mset xs"
  by (simp add: insertionSort_def foldl_sinkIn_mset)

lemma sinkIn_sorted:
  fixes key :: "'a \<Rightarrow> nat"
  assumes "\<forall>y \<in> set ys. lt x y = (key x < key y)" "sorted (map key (rev ys))"
  shows "sorted (map key (rev (sinkIn lt x ys)))"
  using assms
proof (induction lt x ys rule: sinkIn.induct)
  case (2 lt x y ys)
  have "set (sinkIn lt x ys) = insert x (set ys)" using sinkIn_mset [of lt x ys] by (metis set_mset_add_mset_insert set_mset_mset)
  with 2 show ?case by (auto simp: sorted_append)
qed simp

lemma insertionSort_sorted:
  fixes key :: "'a \<Rightarrow> nat"
  assumes "\<forall>x \<in> set xs. \<forall>y \<in> set xs. lt x y = (key x < key y)"
  shows "sorted (map key (insertionSort lt xs))"
  using assms
proof (induction xs rule: rev_induct)
  case (snoc x xs)
  let ?acc = "foldl (\<lambda>acc x. sinkIn lt x acc) [] xs"
  have "set ?acc = set xs" using foldl_sinkIn_mset [of lt "[]" xs] by (metis add.right_neutral mset.simps(1) set_mset_mset)
  with snoc show ?case
    unfolding insertionSort_def by (simp add: sinkIn_sorted)
qed (simp add: insertionSort_def)

subsection \<open>The effect of a batch on one file\<close>

text \<open>
  The specification: the edits of one file applied in order to its content, alone.  An edit
  that is not found is skipped when the same replacement was made before; every other failure,
  and an edit that changes nothing, is a failure of the batch.
\<close>

fun replay :: "rawEntry list \<Rightarrow> (string \<times> string) list \<Rightarrow> string \<Rightarrow> string option" where
  "replay [] seen s = Some s"
| "replay (re # rest) seen s =
     (case applyEdit s (enOldText re) (enNewText re) (enFuzzyIndent re) of
        Some (Inr (u, _, _)) \<Rightarrow>
          (if u = s then None else replay rest ((enOldText re, enNewText re) # seen) u)
      | Some (Inl err) \<Rightarrow>
          (if containsStr (Err err) ''old_text not found'' \<and> (enOldText re, enNewText re) \<in> set seen
           then replay rest seen s else None)
      | None \<Rightarrow> None)"

definition contentOf :: "(string \<Rightarrow> string) \<Rightarrow> pendingState \<Rightarrow> string \<Rightarrow> string" where
  "contentOf orig st f = (case map_of (accumulated st) f of Some s \<Rightarrow> s | None \<Rightarrow> orig f)"

definition seenOf :: "pendingState \<Rightarrow> string \<Rightarrow> (string \<times> string) list" where
  "seenOf st f = map snd (filter (\<lambda>p. fst p = f) (appliedPairs st))"

lemma applyEntry_cases:
  assumes "applyEntry re st = Some st'"
  obtains (skip) err where "applyEdit (currentData st re) (enOldText re) (enNewText re) (enFuzzyIndent re) = Some (Inl err)"
      "isRedundantNotFound err st re" "st' = st"
  | (fail) "statuses st' \<noteq> []"
  | (applied) u fz info where "applyEdit (currentData st re) (enOldText re) (enNewText re) (enFuzzyIndent re) = Some (Inr (u, fz, info))"
      "u \<noteq> currentData st re"
      "st' = st\<lparr>appliedPairs := (enResolved re, enOldText re, enNewText re) # appliedPairs st,
                accumulated := (enResolved re, u) # accumulated st,
                pendings := pendings st @
                  [\<lparr>pePath = enPath re, peResolved = enResolved re, peOldText = enOldText re,
                    peNewText = enNewText re, peUpdated = u, peFuzzy = fz,
                    peMatchInfo = info, peShowContext = enShowContext re,
                    pePreContent = currentData st re\<rparr>]\<rparr>"
proof (cases "applyEdit (currentData st re) (enOldText re) (enNewText re) (enFuzzyIndent re)")
  case None
  then show thesis using assms by (simp add: applyEntry_def)
next
  case (Some r)
  note eq = assms [unfolded applyEntry_def Let_def Some]
  show thesis
  proof (cases r)
    case (Inl err)
    show thesis
    proof (cases "isRedundantNotFound err st re")
      case True
      then have "st' = st" using eq Inl by simp
      with Some Inl True show thesis by (intro skip) simp_all
    next
      case False
      then have "st' = failStatus re ''edit_not_found'' (Err err) st" using eq Inl by simp
      then show thesis by (intro fail) (simp add: failStatus_def)
    qed
  next
    case (Inr p)
    obtain u fz info where p: "p = (u, fz, info)" by (cases p)
    show thesis
    proof (cases "u = currentData st re")
      case True
      then have "statuses st' \<noteq> []" using eq Inr p by (auto simp: failStatus_def)
      then show thesis by (rule fail)
    next
      case False
      show thesis
        by (rule applied [of u fz info]) (use False eq Some Inr p in simp_all)
    qed
  qed
qed

lemma applyEntry_statuses: "applyEntry re st = Some st' \<Longrightarrow> statuses st \<noteq> [] \<Longrightarrow> statuses st' \<noteq> []"
  by (erule applyEntry_cases) auto

lemma applyEntries_statuses: "applyEntries es st = Some st' \<Longrightarrow> statuses st' = [] \<Longrightarrow> statuses st = []"
  by (induction es arbitrary: st) (auto simp: bind_eq_Some_conv dest: applyEntry_statuses)

lemma currentData_orig: "enOrigData re = orig (enResolved re) \<Longrightarrow> currentData st re = contentOf orig st (enResolved re)"
  by (simp add: currentData_def contentOf_def split: option.split)

lemma applyEntries_replay:
  assumes "applyEntries es st = Some st'" "statuses st' = []" "\<forall>re \<in> set es. enOrigData re = orig (enResolved re)"
  shows "replay (filter (\<lambda>re. enResolved re = f) es) (seenOf st f) (contentOf orig st f) = Some (contentOf orig st' f)"
  using assms
proof (induction es arbitrary: st)
  case (Cons re es)
  from Cons.prems obtain st1 where st1: "applyEntry re st = Some st1" "applyEntries es st1 = Some st'"
    by (auto simp: bind_eq_Some_conv)
  have data: "currentData st re = contentOf orig st (enResolved re)"
    using Cons.prems by (simp add: currentData_orig)
  have IH: "replay (filter (\<lambda>re. enResolved re = f) es) (seenOf st1 f) (contentOf orig st1 f) = Some (contentOf orig st' f)"
    using Cons st1 by simp
  from st1(1) show ?case
  proof (cases rule: applyEntry_cases)
    case (skip err)
    then show ?thesis
      using IH data by (force simp: isRedundantNotFound_def seenOf_def)
  next
    case fail
    then show ?thesis using applyEntries_statuses [OF st1(2)] Cons.prems by simp
  next
    case (applied u fz info)
    then show ?thesis using IH data by (auto simp: contentOf_def seenOf_def)
  qed
qed simp

definition groupOf :: "pendingEdit list \<Rightarrow> string \<Rightarrow> pendingEdit option" where
  "groupOf gs f = find (\<lambda>g. peResolved g = f) gs"

lemma groupOf_groupEdit:
  "groupOf (groupEdit ed gs) f =
     (if peResolved ed = f
      then Some (case groupOf gs f of None \<Rightarrow> ed | Some g \<Rightarrow> ed\<lparr>pePreContent := pePreContent g\<rparr>)
      else groupOf gs f)"
  by (induction ed gs rule: groupEdit.induct) (auto simp: groupOf_def)

lemma groupEdit_resolved:
  "map peResolved (groupEdit ed gs) =
     (if peResolved ed \<in> set (map peResolved gs) then map peResolved gs else map peResolved gs @ [peResolved ed])"
  by (induction ed gs rule: groupEdit.induct) auto

lemma groupEdits_append: "groupEdits (eds @ [ed]) = groupEdit ed (groupEdits eds)"
  by (simp add: groupEdits_def)

lemma groupEdits_distinct: "distinct (map peResolved (groupEdits eds))"
proof (induction eds rule: rev_induct)
  case (snoc ed eds)
  then show ?case by (auto simp: groupEdits_append groupEdit_resolved simp del: set_map)
qed (simp add: groupEdits_def)

text \<open>The invariant of the loop: the group of a file goes from its original to its current content.\<close>

definition groupsOK :: "(string \<Rightarrow> string) \<Rightarrow> pendingState \<Rightarrow> bool" where
  "groupsOK orig st \<longleftrightarrow>
     (\<forall>f. case groupOf (groupEdits (pendings st)) f of
        None \<Rightarrow> map_of (accumulated st) f = None
      | Some g \<Rightarrow> map_of (accumulated st) f = Some (peUpdated g) \<and> pePreContent g = orig f)"

lemma groupsOK_entry:
  assumes "applyEntry re st = Some st'" "groupsOK orig st" "enOrigData re = orig (enResolved re)"
  shows "groupsOK orig st' \<or> statuses st' \<noteq> []"
  using assms(1)
proof (cases rule: applyEntry_cases)
  case (applied u fz info)
  let ?f = "enResolved re" and ?gs = "groupEdits (pendings st)"
  have pre: "contentOf orig st ?f = orig ?f" if "groupOf ?gs ?f = None"
    using that assms(2) by (auto simp: groupsOK_def contentOf_def dest!: spec [of _ ?f])
  have "case groupOf (groupEdits (pendings st')) f of None \<Rightarrow> map_of (accumulated st') f = None
      | Some g \<Rightarrow> map_of (accumulated st') f = Some (peUpdated g) \<and> pePreContent g = orig f" for f
  proof (cases "f = ?f")
    case True
    have data: "currentData st re = contentOf orig st ?f" by (rule currentData_orig) (rule assms(3))
    show ?thesis
    proof (cases "groupOf ?gs f")
      case None
      then show ?thesis using applied(3) data pre True by (simp add: groupEdits_append groupOf_groupEdit)
    next
      case (Some g)
      then have "pePreContent g = orig f" using assms(2) by (auto simp: groupsOK_def dest!: spec [of _ f])
      then show ?thesis using applied(3) Some True by (simp add: groupEdits_append groupOf_groupEdit)
    qed
  next
    case False
    then have "groupOf (groupEdits (pendings st')) f = groupOf ?gs f"
      "map_of (accumulated st') f = map_of (accumulated st) f"
      using applied(3) by (simp_all add: groupEdits_append groupOf_groupEdit)
    then show ?thesis
      using assms(2) [unfolded groupsOK_def, rule_format, of f] by (simp split: option.splits)
  qed
  then show ?thesis by (simp add: groupsOK_def)
qed (use assms in auto)

lemma groupsOK_entries:
  "applyEntries es st = Some st' \<Longrightarrow> statuses st' = [] \<Longrightarrow> groupsOK orig st \<Longrightarrow>
   \<forall>re \<in> set es. enOrigData re = orig (enResolved re) \<Longrightarrow> groupsOK orig st'"
proof (induction es arbitrary: st)
  case (Cons re es)
  then obtain st1 where st1: "applyEntry re st = Some st1" "applyEntries es st1 = Some st'"
    by (auto simp: bind_eq_Some_conv)
  then have "groupsOK orig st1"
    using groupsOK_entry [OF st1(1)] Cons.prems applyEntries_statuses [OF st1(2)] by auto
  then show ?case using Cons st1 by simp
qed simp

lemma groupsOK_start: "groupsOK orig startState"
  by (simp add: groupsOK_def startState_def groupEdits_def groupOf_def)

lemma batch_replay:
  assumes "applyPendingEdits entries = Some (Inr eds)" "\<forall>re \<in> set entries. enOrigData re = orig (enResolved re)"
  shows "replay (filter (\<lambda>re. enResolved re = f) entries) [] (orig f) =
    Some (case groupOf (groupEdits eds) f of None \<Rightarrow> orig f | Some g \<Rightarrow> peUpdated g)"
    and "groupOf (groupEdits eds) f = Some g \<Longrightarrow> pePreContent g = orig f"
proof -
  obtain st where st: "applyEntries entries startState = Some st" "statuses st = []" "eds = pendings st"
    using assms(1) by (auto simp: applyPendingEdits_def split: if_splits)
  have ok: "groupsOK orig st" by (rule groupsOK_entries [OF st(1,2) groupsOK_start assms(2)])
  have "replay (filter (\<lambda>re. enResolved re = f) entries) [] (orig f) = Some (contentOf orig st f)"
    using applyEntries_replay [OF st(1,2) assms(2), of f] by (simp add: startState_def seenOf_def contentOf_def)
  moreover have "contentOf orig st f = (case groupOf (groupEdits eds) f of None \<Rightarrow> orig f | Some g \<Rightarrow> peUpdated g)"
    using ok st(3) unfolding groupsOK_def contentOf_def by (auto split: option.splits dest: spec [of _ f])
  ultimately show "replay (filter (\<lambda>re. enResolved re = f) entries) [] (orig f) =
    Some (case groupOf (groupEdits eds) f of None \<Rightarrow> orig f | Some g \<Rightarrow> peUpdated g)" by simp
  show "groupOf (groupEdits eds) f = Some g \<Longrightarrow> pePreContent g = orig f"
    using ok st(3) unfolding groupsOK_def by (auto split: option.splits dest: spec [of _ f])
qed

lemma groupOf_elem: "g \<in> set gs \<Longrightarrow> distinct (map peResolved gs) \<Longrightarrow> groupOf gs (peResolved g) = Some g"
  by (induction gs) (auto simp: groupOf_def)

lemma preparedWrites_find:
  "find (\<lambda>w. pwResolved w = f) (preparedWrites eds) =
     map_option (\<lambda>ed. \<lparr>pwResolved = peResolved ed, pwPath = pePath ed, pwPreContent = pePreContent ed,
       pwUpdated = peUpdated ed\<rparr>) (groupOf (groupEdits eds) f)"
proof -
  have "find (\<lambda>w. pwResolved w = f) (map (\<lambda>ed. \<lparr>pwResolved = peResolved ed, pwPath = pePath ed,
      pwPreContent = pePreContent ed, pwUpdated = peUpdated ed\<rparr>) gs) =
    map_option (\<lambda>ed. \<lparr>pwResolved = peResolved ed, pwPath = pePath ed, pwPreContent = pePreContent ed,
       pwUpdated = peUpdated ed\<rparr>) (groupOf gs f)" for gs
    by (induction gs) (simp_all add: groupOf_def)
  then show ?thesis by (simp add: preparedWrites_def)
qed

end
