(* ===== verification/PatchParse.thy ===== *)
theory PatchParse
  imports EditText
begin

text \<open>
  The parser of \<open>patch.go\<close> for Codex-style patches.  The code walks an index over the lines
  between the first and the last; the model walks the list of the lines that are left, so
  the index of the first unconsumed line becomes the rest of the list.
\<close>

section \<open>Operations and hunks\<close>

record updateChunk =
  chunkContext :: string
  oldLines :: "string list"
  newLines :: "string list"
  isEOF :: bool

record patchOperation =
  opKind :: string
  opPath :: string
  opContents :: string
  opChunks :: "updateChunk list"

type_synonym 'a parsed = "goError + 'a"

section \<open>Added files\<close>

fun addFileLines :: "string list \<Rightarrow> (string list \<times> string list) parsed" where
  "addFileLines [] = Inr ([], [])"
| "addFileLines (l # ls) =
     (if hasPrefix (trimSpace l) ''*** '' then Inr ([], l # ls)
      else if l = [] \<or> hd l \<noteq> CHR ''+''
        then Inl (plainError (''invalid add-file line '' @ goQuote l @ ''. Add file lines must start with '' @
               [squote, CHR ''+'', squote]))
      else (case addFileLines ls of
              Inl e \<Rightarrow> Inl e
            | Inr (content, rest) \<Rightarrow> Inr (tl l # content, rest)))"

definition parseAddFile :: "string \<Rightarrow> string list \<Rightarrow> (patchOperation \<times> string list) parsed" where
  "parseAddFile header ls =
     (let path = drop (length ''*** Add File: '') (trimSpace header) in
      case addFileLines ls of
        Inl e \<Rightarrow> Inl e
      | Inr (content, rest) \<Rightarrow>
          Inr (\<lparr>opKind = ''add'', opPath = path,
                opContents = (if content \<noteq> [] then joinStr [newline] content @ [newline] else []),
                opChunks = []\<rparr>, rest))"

section \<open>Hunks of an update\<close>

definition noLinesError :: goError where
  "noLinesError = plainError ''update hunk does not contain any lines''"

text \<open>
  The lines of one hunk: \<open>parsed\<close> of them so far, \<open>old\<close> and \<open>new\<close> what they said.  The
  result is the two sides, whether the end-of-file marker closed it, and the lines left.
\<close>

fun hunkLines ::
  "nat \<Rightarrow> string list \<Rightarrow> string list \<Rightarrow> string list \<Rightarrow> (string list \<times> string list \<times> bool \<times> string list) parsed" where
  "hunkLines parsed old new [] =
     (if parsed = 0 then Inl noLinesError else Inr (old, new, False, []))"
| "hunkLines parsed old new (l # ls) =
     (let trimmed = trimRight l blanks in
      if trimmed = ''*** End of File''
      then (if parsed = 0 then Inl noLinesError else Inr (old, new, True, ls))
      else if parsed > 0 \<and> (hasPrefix trimmed ''@@'' \<or> hasPrefix trimmed ''*** '')
        then Inr (old, new, False, l # ls)
      else if l = [] then hunkLines (Suc parsed) (old @ [[]]) (new @ [[]]) ls
      else if hd l = CHR '' '' then hunkLines (Suc parsed) (old @ [tl l]) (new @ [tl l]) ls
      else if hd l = CHR ''-'' then hunkLines (Suc parsed) (old @ [tl l]) new ls
      else if hd l = CHR ''+'' then hunkLines (Suc parsed) old (new @ [tl l]) ls
      else if parsed = 0
        then Inl (plainError (''unexpected line in update hunk: '' @ goQuote l @
               ''. Every line should start with '' @ [squote, CHR '' '', squote] @ '', '' @
               [squote, CHR ''+'', squote] @ '', or '' @ [squote, CHR ''-'', squote]))
      else Inr (old, new, False, l # ls))"

definition parseUpdateChunk :: "bool \<Rightarrow> string list \<Rightarrow> (updateChunk \<times> string list) parsed" where
  "parseUpdateChunk allowMissingContext ls =
     (let l = hd ls; first = trimRight l blanks;
          body = (\<lambda>ctx rest.
            (case hunkLines 0 [] [] rest of
               Inl e \<Rightarrow> Inl e
             | Inr (old, new, eof, rest') \<Rightarrow>
                 Inr (\<lparr>chunkContext = ctx, oldLines = old, newLines = new, isEOF = eof\<rparr>, rest')))
      in if first = ''@@'' then body [] (tl ls)
         else if hasPrefix first ''@@ '' then body (drop 3 first) (tl ls)
         else if \<not> allowMissingContext
           then Inl (plainError (''expected update hunk to start with @@ context marker, got: '' @ goQuote l))
         else body [] ls)"

lemma hunkLines_rest:
  "hunkLines parsed old new ls = Inr (o', n', eof, rest) \<Longrightarrow>
   length rest + (if parsed = 0 then 1 else 0) \<le> length ls"
proof (induction parsed old new ls rule: hunkLines.induct)
  case (2 parsed old new l ls)
  show ?case
    using "2.prems" "2.IH"
    by (auto simp: Let_def split: if_splits)
qed (auto split: if_splits)

lemma parseUpdateChunk_rest:
  "parseUpdateChunk b ls = Inr (c, rest) \<Longrightarrow> ls \<noteq> [] \<Longrightarrow> length rest < length ls"
  by (cases ls)
    (auto simp: parseUpdateChunk_def Let_def split: if_splits sum.splits prod.splits dest!: hunkLines_rest)

text \<open>\<open>collectUpdateChunks\<close>: \<open>n\<close> hunks of the file are parsed already.\<close>

function collectUpdateChunks :: "nat \<Rightarrow> string list \<Rightarrow> (updateChunk list \<times> string list) parsed" where
  "collectUpdateChunks n ls =
     (case ls of
        [] \<Rightarrow> Inr ([], [])
      | l # rest \<Rightarrow>
          (if trimSpace l = [] then collectUpdateChunks n rest
           else if hasPrefix (trimSpace l) ''*** '' then Inr ([], ls)
           else (case parseUpdateChunk (n = 0) ls of
                   Inl e \<Rightarrow> Inl e
                 | Inr (chunk, rest') \<Rightarrow>
                     (case collectUpdateChunks (Suc n) rest' of
                        Inl e \<Rightarrow> Inl e
                      | Inr (chunks, rest'') \<Rightarrow> Inr (chunk # chunks, rest'')))))"
  by pat_completeness auto
termination
  by (relation "measure (\<lambda>(n, ls). length ls)") (auto dest: parseUpdateChunk_rest)

declare collectUpdateChunks.simps [simp del]

definition parseUpdateFile :: "string \<Rightarrow> string list \<Rightarrow> (patchOperation \<times> string list) parsed" where
  "parseUpdateFile header ls =
     (let path = drop (length ''*** Update File: '') (trimSpace header) in
      if ls \<noteq> [] \<and> hasPrefix (trimSpace (hd ls)) ''*** Move to: ''
      then Inl (plainError ''patch move operations (*** Move to:) are not supported'')
      else (case collectUpdateChunks 0 ls of
              Inl e \<Rightarrow> Inl (plainError (''update '' @ path @ '': '' @ Err e))
            | Inr (chunks, rest) \<Rightarrow>
                (if chunks = [] then Inl (plainError (''update file hunk for path '' @ goQuote path @ '' is empty''))
                 else Inr (\<lparr>opKind = ''update'', opPath = path, opContents = [], opChunks = chunks\<rparr>, rest))))"

section \<open>The patch\<close>

lemma addFileLines_rest: "addFileLines ls = Inr (c, rest) \<Longrightarrow> length rest \<le> length ls"
  by (induction ls arbitrary: c) (auto split: if_splits sum.splits prod.splits)

lemma parseAddFile_rest: "parseAddFile h ls = Inr (op, rest) \<Longrightarrow> length rest \<le> length ls"
  by (auto simp: parseAddFile_def Let_def split: sum.splits prod.splits dest: addFileLines_rest)

lemma collectUpdateChunks_rest: "collectUpdateChunks n ls = Inr (cs, rest) \<Longrightarrow> length rest \<le> length ls"
proof (induction n ls arbitrary: cs rest rule: collectUpdateChunks.induct)
  case (1 n ls)
  show ?case
    using "1.prems" "1.IH" parseUpdateChunk_rest [of "n = 0" ls]
    by (subst (asm) collectUpdateChunks.simps)
      (fastforce split: list.splits if_splits sum.splits prod.splits)
qed

lemma parseUpdateFile_rest: "parseUpdateFile h ls = Inr (op, rest) \<Longrightarrow> length rest \<le> length ls"
  by (auto simp: parseUpdateFile_def Let_def split: sum.splits prod.splits if_splits dest: collectUpdateChunks_rest)

text \<open>One operation: its header line and the lines after it.\<close>

definition parseOp :: "string \<Rightarrow> string list \<Rightarrow> (patchOperation \<times> string list) parsed" where
  "parseOp l ls =
     (let line = trimSpace l in
      if hasPrefix line ''*** Add File: '' then parseAddFile l ls
      else if hasPrefix line ''*** Delete File: ''
        then Inr (\<lparr>opKind = ''delete'', opPath = drop (length ''*** Delete File: '') line,
                   opContents = [], opChunks = []\<rparr>, ls)
      else if hasPrefix line ''*** Update File: '' then parseUpdateFile l ls
      else Inl (plainError (goQuote line @ '' is not a valid hunk header. Valid headers: '' @
             [squote] @ ''*** Add File:'' @ [squote] @ '', '' @ [squote] @ ''*** Delete File:'' @ [squote] @
             '', '' @ [squote] @ ''*** Update File:'' @ [squote])))"

lemma parseOp_rest: "parseOp l ls = Inr (op, rest) \<Longrightarrow> length rest \<le> length ls"
  by (auto simp: parseOp_def Let_def split: if_splits dest: parseAddFile_rest parseUpdateFile_rest)

text \<open>The loop of \<open>parsePatch\<close> over the lines between the first and the last.\<close>

function parseOps :: "string list \<Rightarrow> patchOperation list parsed" where
  "parseOps [] = Inr []"
| "parseOps (l # ls) =
     (if trimSpace l = [] then parseOps ls
      else case parseOp l ls of
        Inl e \<Rightarrow> Inl e
      | Inr (op, rest) \<Rightarrow> (case parseOps rest of Inl e \<Rightarrow> Inl e | Inr ops \<Rightarrow> Inr (op # ops)))"
  by pat_completeness auto
termination
  by (relation "measure length") (auto dest: parseOp_rest)

definition parsePatch :: "string \<Rightarrow> patchOperation list parsed" where
  "parsePatch txt =
     (let ls = splitByte (normalizeToLF (trimSpace txt)) newline in
      if length ls < 2 then Inl (plainError ''patch is empty or invalid'')
      else if trimSpace (hd ls) \<noteq> ''*** Begin Patch''
        then Inl (plainError (''the first line of the patch must be '' @ [squote] @ ''*** Begin Patch'' @ [squote]))
      else if trimSpace (last ls) \<noteq> ''*** End Patch''
        then Inl (plainError (''the last line of the patch must be '' @ [squote] @ ''*** End Patch'' @ [squote]))
      else (case parseOps (butlast (tl ls)) of
              Inl e \<Rightarrow> Inl e
            | Inr ops \<Rightarrow> (if ops = [] then Inl (plainError ''patch contains no operations'') else Inr ops)))"


section \<open>Printing a patch, and reading it back\<close>

definition printChunk :: "updateChunk \<Rightarrow> string list" where
  "printChunk c =
     (if chunkContext c = [] then ''@@'' else ''@@ '' @ chunkContext c) #
     map ((#) CHR ''-'') (oldLines c) @ map ((#) CHR ''+'') (newLines c) @
     (if isEOF c then [''*** End of File''] else [])"

definition contentLines :: "string \<Rightarrow> string list" where
  "contentLines s = (if s = [] then [] else butlast (splitByte s newline))"

definition printOp :: "patchOperation \<Rightarrow> string list" where
  "printOp op =
     (if opKind op = ''add'' then (''*** Add File: '' @ opPath op) # map ((#) CHR ''+'') (contentLines (opContents op))
      else if opKind op = ''delete'' then [''*** Delete File: '' @ opPath op]
      else (''*** Update File: '' @ opPath op) # concat (map printChunk (opChunks op)))"

definition printPatch :: "patchOperation list \<Rightarrow> string" where
  "printPatch ops =
     joinStr [newline] (''*** Begin Patch'' # concat (map printOp ops) @ [''*** End Patch''])"

text \<open>What can be written in a patch: no line breaks in lines, no blank at the end of a path or context.\<close>

definition solid :: "char \<Rightarrow> bool" where
  "solid c \<longleftrightarrow> byteVal c < 128 \<and> \<not> isASCIISpace c"

definition plainLine :: "string \<Rightarrow> bool" where
  "plainLine l \<longleftrightarrow> newline \<notin> set l \<and> creturn \<notin> set l"

definition wfPath :: "string \<Rightarrow> bool" where
  "wfPath p \<longleftrightarrow> p \<noteq> [] \<and> solid (last p) \<and> plainLine p"

definition wfChunk :: "updateChunk \<Rightarrow> bool" where
  "wfChunk c \<longleftrightarrow> (chunkContext c = [] \<or> last (chunkContext c) \<notin> set blanks) \<and> plainLine (chunkContext c) \<and>
     list_all plainLine (oldLines c) \<and> list_all plainLine (newLines c) \<and> oldLines c @ newLines c \<noteq> []"

definition wfOp :: "patchOperation \<Rightarrow> bool" where
  "wfOp op \<longleftrightarrow> wfPath (opPath op) \<and>
     (if opKind op = ''add''
      then opChunks op = [] \<and> creturn \<notin> set (opContents op) \<and> (opContents op = [] \<or> last (opContents op) = newline)
      else if opKind op = ''delete'' then opChunks op = [] \<and> opContents op = []
      else opKind op = ''update'' \<and> opContents op = [] \<and> opChunks op \<noteq> [] \<and> list_all wfChunk (opChunks op))"

subsection \<open>Trimming\<close>

lemma spaceSeq_high:
  "isSpaceSeq2 a b \<Longrightarrow> 128 \<le> byteVal a \<and> 128 \<le> byteVal b"
  "isSpaceSeq3 a b c \<Longrightarrow> 128 \<le> byteVal a \<and> 128 \<le> byteVal b \<and> 128 \<le> byteVal c"
  by (auto simp: isSpaceSeq2_def isSpaceSeq3_def byteVal_def)

lemma solid_ends: "solid c \<Longrightarrow> spaceLen (c # s) = 0" "solid c \<Longrightarrow> spaceLenRev (c # s) = 0"
proof -
  assume "solid c"
  then have c: "\<not> isASCIISpace c" "\<not> isSpaceSeq2 c x" "\<not> isSpaceSeq3 c x y" "\<not> isSpaceSeq2 x c"
    "\<not> isSpaceSeq3 y x c" for x y
    using spaceSeq_high(1) [of c x] spaceSeq_high(2) [of c x y] spaceSeq_high(1) [of x c]
      spaceSeq_high(2) [of y x c]
    by (auto simp: solid_def)
  show "spaceLen (c # s) = 0" "spaceLenRev (c # s) = 0"
    using c by (simp_all split: list.split)
qed

lemma trimSpace_solid:
  assumes "solid c" "solid d"
  shows "trimSpace (c # m @ [d]) = c # m @ [d]"
proof -
  have "trimSpaceLeft (c # m @ [d]) = c # m @ [d]"
    using solid_ends(1) [OF assms(1)] by (subst trimSpaceLeft.simps) simp
  moreover have "trimSpaceRev (d # rev m @ [c]) = d # rev m @ [c]"
    using solid_ends(2) [OF assms(2)] by (subst trimSpaceRev.simps) simp
  ultimately show ?thesis by (simp add: trimSpace_def)
qed

lemma trimSpace_ends: "s \<noteq> [] \<Longrightarrow> length s > 1 \<Longrightarrow> solid (hd s) \<Longrightarrow> solid (last s) \<Longrightarrow> trimSpace s = s"
  using trimSpace_solid [of "hd s" "last s" "butlast (tl s)"]
  by (cases s; cases "tl s" rule: rev_cases) auto

lemma trimSpace_head: "\<not> spaceByte c \<Longrightarrow> \<exists>t. trimSpace (c # s) = c # t"
proof -
  assume c: "\<not> spaceByte c"
  obtain a b where ab: "c # s = a @ trimSpace (c # s) @ b" "\<forall>x \<in> set a. spaceByte x" "\<forall>x \<in> set b. spaceByte x"
    using trimSpace_parts by blast
  have "a = []" using ab c by (cases a) auto
  then show ?thesis using ab c by (cases "trimSpace (c # s)") auto
qed

lemma trimRight_id: "s = [] \<or> last s \<notin> set cs \<Longrightarrow> trimRight s cs = s"
  by (cases s rule: rev_cases) (auto simp: trimRight_def)

lemma trimRight_head: "c \<notin> set cs \<Longrightarrow> \<exists>t. trimRight (c # s) cs = c # t"
proof -
  assume c: "c \<notin> set cs"
  obtain b where "c # s = trimRight (c # s) cs @ b" "set b \<subseteq> set cs" using trimRight_parts by blast
  then show ?thesis using c by (cases "trimRight (c # s) cs") auto
qed

text \<open>A line that ends a section: a header.\<close>

definition stopLine :: "string \<Rightarrow> bool" where
  "stopLine l \<longleftrightarrow> hasPrefix (trimSpace l) ''*** '' \<and> hasPrefix (trimRight l blanks) ''*** ''"

lemma header_line:
  assumes "wfPath p" "h \<noteq> []" "solid (hd h)" "hasPrefix h ''*** ''"
  shows "trimSpace (h @ p) = h @ p" "stopLine (h @ p)"
proof -
  have p: "p \<noteq> []" "solid (last p)" using assms(1) by (auto simp: wfPath_def)
  show t: "trimSpace (h @ p) = h @ p"
    by (rule trimSpace_ends) (use assms p in \<open>auto simp: neq_Nil_conv\<close>)
  have "last (h @ p) \<notin> set blanks" using p by (auto simp: solid_def isASCIISpace_def)
  then show "stopLine (h @ p)"
    using t assms(4) by (auto simp: stopLine_def trimRight_id hasPrefix_iff)
qed

subsection \<open>Reading back\<close>

lemma plus_not_header: "\<not> hasPrefix (trimSpace (CHR ''+'' # l)) ''*** ''"
proof -
  have "\<not> spaceByte CHR ''+''" by code_simp
  then obtain t where "trimSpace (CHR ''+'' # l) = CHR ''+'' # t" using trimSpace_head by blast
  then show ?thesis by (simp add: hasPrefix_def)
qed

lemma addFileLines_render:
  "rest = [] \<or> stopLine (hd rest) \<Longrightarrow> addFileLines (map ((#) CHR ''+'') ls @ rest) = Inr (ls, rest)"
proof (induction ls)
  case Nil
  then show ?case by (cases rest) (auto simp: stopLine_def)
qed (simp add: plus_not_header)

lemma hunkLines_marker:
  assumes "c = CHR ''-'' \<or> c = CHR ''+''"
  shows "hunkLines k o' n ((c # l) # ls) =
    (if c = CHR ''-'' then hunkLines (Suc k) (o' @ [l]) n ls else hunkLines (Suc k) o' (n @ [l]) ls)"
proof -
  have "c \<notin> set blanks" using assms by auto
  then obtain t where "trimRight (c # l) blanks = c # t" using trimRight_head by blast
  then show ?thesis using assms by (auto simp: Let_def hasPrefix_def)
qed

lemma hunkLines_old:
  "hunkLines k o' n (map ((#) CHR ''-'') os @ ls) = hunkLines (k + length os) (o' @ os) n ls"
  by (induction os arbitrary: k o') (simp_all add: hunkLines_marker del: hunkLines.simps)

lemma hunkLines_new:
  "hunkLines k o' n (map ((#) CHR ''+'') ns @ ls) = hunkLines (k + length ns) o' (n @ ns) ls"
  by (induction ns arbitrary: k n) (simp_all add: hunkLines_marker del: hunkLines.simps)

lemma hunkLines_eof: "k > 0 \<Longrightarrow> hunkLines k o' n (''*** End of File'' # ls) = Inr (o', n, True, ls)"
  by (simp add: Let_def trimRight_id)

text \<open>A line that ends a hunk.\<close>

definition hunkStop :: "string \<Rightarrow> bool" where
  "hunkStop l \<longleftrightarrow> (hasPrefix (trimRight l blanks) ''@@'' \<or> hasPrefix (trimRight l blanks) ''*** '') \<and>
     trimRight l blanks \<noteq> ''*** End of File''"

lemma hunkLines_stop:
  "k > 0 \<Longrightarrow> rest = [] \<or> hunkStop (hd rest) \<Longrightarrow> hunkLines k o' n rest = Inr (o', n, False, rest)"
  by (cases rest) (auto simp: hunkStop_def Let_def)

lemma hunkLines_render:
  assumes "os @ ns \<noteq> []" "eof \<or> rest = [] \<or> hunkStop (hd rest)"
  shows "hunkLines 0 [] [] (map ((#) CHR ''-'') os @ map ((#) CHR ''+'') ns @
    (if eof then [''*** End of File''] else []) @ rest) = Inr (os, ns, eof, rest)"
  using assms by (cases eof) (auto simp: hunkLines_old hunkLines_new hunkLines_eof hunkLines_stop simp del: hunkLines.simps)

lemma chunk_header:
  assumes "wfChunk c"
  shows "trimRight (hd (printChunk c)) blanks = hd (printChunk c)"
    and "\<exists>t. trimSpace (hd (printChunk c)) = CHR ''@'' # t"
proof -
  have "last (hd (printChunk c)) \<notin> set blanks" using assms by (auto simp: printChunk_def wfChunk_def)
  then show "trimRight (hd (printChunk c)) blanks = hd (printChunk c)" by (intro trimRight_id) simp
  have "\<not> spaceByte CHR ''@''" by code_simp
  then show "\<exists>t. trimSpace (hd (printChunk c)) = CHR ''@'' # t"
    using trimSpace_head [of "CHR ''@''"] by (simp add: printChunk_def)
qed

lemma parseUpdateChunk_render:
  assumes "wfChunk c" "isEOF c \<or> rest = [] \<or> hunkStop (hd rest)"
  shows "parseUpdateChunk b (printChunk c @ rest) = Inr (c, rest)"
proof -
  let ?body = "map ((#) CHR ''-'') (oldLines c) @ map ((#) CHR ''+'') (newLines c) @
    (if isEOF c then [''*** End of File''] else []) @ rest"
  have l: "printChunk c @ rest = hd (printChunk c) # ?body" by (simp add: printChunk_def)
  have h: "hunkLines 0 [] [] ?body = Inr (oldLines c, newLines c, isEOF c, rest)"
    using assms by (intro hunkLines_render) (auto simp: wfChunk_def)
  show ?thesis
    using chunk_header(1) [OF assms(1)] h
    unfolding l by (cases c) (auto simp: parseUpdateChunk_def Let_def printChunk_def hasPrefix_def)
qed

lemma printChunk_stop: "wfChunk c \<Longrightarrow> hunkStop (hd (printChunk c))"
  using chunk_header(1) [of c]
  by (simp add: hunkStop_def) (simp add: printChunk_def hasPrefix_def split: if_split)

lemma hd_chunks:
  "list_all wfChunk cs \<Longrightarrow> rest = [] \<or> hunkStop (hd rest) \<Longrightarrow>
   concat (map printChunk cs) @ rest = [] \<or> hunkStop (hd (concat (map printChunk cs) @ rest))"
proof (cases cs)
  case (Cons c cs')
  assume "list_all wfChunk cs"
  then have "hunkStop (hd (printChunk c))" using Cons printChunk_stop by simp
  moreover have "printChunk c \<noteq> []" by (simp add: printChunk_def)
  ultimately show ?thesis using Cons by simp
qed simp

lemma collectUpdateChunks_render:
  assumes "list_all wfChunk cs" "rest = [] \<or> (stopLine (hd rest) \<and> hunkStop (hd rest))"
  shows "collectUpdateChunks n (concat (map printChunk cs) @ rest) = Inr (cs, rest)"
  using assms(1)
proof (induction cs arbitrary: n)
  case Nil
  show ?case
  proof (cases rest)
    case (Cons l ls)
    then have "hasPrefix (trimSpace l) ''*** ''" using assms(2) by (simp add: stopLine_def)
    moreover from this have "trimSpace l \<noteq> []" by (auto simp: hasPrefix_def)
    ultimately show ?thesis using Cons by (subst collectUpdateChunks.simps) simp
  qed (simp add: collectUpdateChunks.simps)
next
  case (Cons c cs)
  let ?tail = "concat (map printChunk cs) @ rest"
  have c: "wfChunk c" "list_all wfChunk cs" using Cons.prems by simp_all
  have "?tail = [] \<or> hunkStop (hd ?tail)" using hd_chunks [OF c(2)] assms(2) by blast
  then have p: "parseUpdateChunk (n = 0) (printChunk c @ ?tail) = Inr (c, ?tail)"
    using parseUpdateChunk_render [OF c(1)] by blast
  obtain t where t: "trimSpace (hd (printChunk c)) = CHR ''@'' # t" using chunk_header(2) [OF c(1)] by blast
  obtain h r where r: "printChunk c = h # r" by (simp add: printChunk_def)
  have "collectUpdateChunks n (h # r @ ?tail) = Inr (c # cs, rest)"
    using p t r Cons.IH [OF c(2), of "Suc n"]
    by (subst collectUpdateChunks.simps) (simp add: hasPrefix_def)
  then show ?case using r by simp
qed

lemma contentLines_back:
  assumes "s = [] \<or> last s = newline"
  shows "(if contentLines s \<noteq> [] then joinStr [newline] (contentLines s) @ [newline] else []) = s"
proof (cases s rule: rev_cases)
  case (snoc t c)
  then have s: "s = t @ [newline]" using assms by simp
  have "splitByte (t @ [newline]) newline = splitByte t newline @ [[]]"
    by (induction t) (auto split: list.split)
  then have "contentLines s = splitByte t newline" using s by (simp add: contentLines_def)
  then show ?thesis using s by (simp add: joinStr_splitByte)
qed (simp add: contentLines_def)

lemma hd_printOp:
  obtains h where "hd (printOp op) = h @ opPath op" "h \<noteq> []" "solid (hd h)" "hasPrefix h ''*** ''"
    "hasPrefix h ''*** A'' \<or> hasPrefix h ''*** D'' \<or> hasPrefix h ''*** U''"
proof -
  have s: "solid CHR ''*''" by code_simp
  consider "opKind op = ''add''" | "opKind op = ''delete''" | "opKind op \<noteq> ''add''" "opKind op \<noteq> ''delete''" by blast
  then show thesis
  proof cases
    case 1
    show thesis by (rule that [of "''*** Add File: ''"]) (simp_all add: printOp_def 1 s hasPrefix_def)
  next
    case 2
    show thesis by (rule that [of "''*** Delete File: ''"]) (simp_all add: printOp_def 2 s hasPrefix_def)
  next
    case 3
    show thesis by (rule that [of "''*** Update File: ''"]) (simp_all add: printOp_def 3 s hasPrefix_def)
  qed
qed

lemma header_stop:
  assumes "wfOp op"
  shows "stopLine (hd (printOp op)) \<and> hunkStop (hd (printOp op))"
proof -
  have p: "wfPath (opPath op)" using assms by (simp add: wfOp_def)
  obtain h where h: "hd (printOp op) = h @ opPath op" "h \<noteq> []" "solid (hd h)" "hasPrefix h ''*** ''"
    "hasPrefix h ''*** A'' \<or> hasPrefix h ''*** D'' \<or> hasPrefix h ''*** U''" by (rule hd_printOp)
  have stop: "stopLine (hd (printOp op))" using header_line(2) [OF p h(2-4)] h(1) by simp
  have "last (h @ opPath op) \<notin> set blanks"
    using p by (auto simp: wfPath_def solid_def isASCIISpace_def)
  then have "trimRight (hd (printOp op)) blanks = hd (printOp op)"
    unfolding h(1) by (intro trimRight_id) simp
  moreover have "hd (printOp op) \<noteq> ''*** End of File''"
    unfolding h(1) using h(5) by (auto simp: hasPrefix_iff)
  ultimately show ?thesis using stop by (auto simp: hunkStop_def stopLine_def)
qed

lemma parseOp_render:
  assumes "wfOp op" "rest = [] \<or> (stopLine (hd rest) \<and> hunkStop (hd rest))"
  shows "parseOp (hd (printOp op)) (tl (printOp op) @ rest) = Inr (op, rest)"
proof -
  have p: "wfPath (opPath op)" using assms by (simp add: wfOp_def)
  have h: "trimSpace (hd (printOp op)) = hd (printOp op)"
    using header_line(1) [OF p] by (metis hd_printOp)
  consider (add) "opKind op = ''add''" | (delete) "opKind op = ''delete''" | (update) "opKind op = ''update''"
    using assms(1) unfolding wfOp_def by meson
  then show ?thesis
  proof cases
    case add
    then have l: "hd (printOp op) = ''*** Add File: '' @ opPath op"
      "tl (printOp op) = map ((#) CHR ''+'') (contentLines (opContents op))" by (simp_all add: printOp_def)
    have "addFileLines (tl (printOp op) @ rest) = Inr (contentLines (opContents op), rest)"
      unfolding l(2) using assms(2) by (intro addFileLines_render) blast
    moreover have "opContents op = [] \<or> last (opContents op) = newline" "opChunks op = []"
      using assms(1) add by (auto simp: wfOp_def)
    ultimately have "parseAddFile (hd (printOp op)) (tl (printOp op) @ rest) =
        Inr (\<lparr>opKind = ''add'', opPath = opPath op, opContents = opContents op, opChunks = opChunks op\<rparr>, rest)"
      using h contentLines_back [of "opContents op"] unfolding parseAddFile_def l(1) by (simp add: Let_def)
    then have "parseAddFile (hd (printOp op)) (tl (printOp op) @ rest) = Inr (op, rest)"
      using add by (cases op) simp
    then show ?thesis
      using h by (simp add: parseOp_def l(1) hasPrefix_def)
  next
    case delete
    moreover from this have "printOp op = [''*** Delete File: '' @ opPath op]" by (simp add: printOp_def)
    ultimately show ?thesis
      using h assms(1) by (cases op) (auto simp: parseOp_def Let_def hasPrefix_def wfOp_def)
  next
    case update
    then have l: "hd (printOp op) = ''*** Update File: '' @ opPath op"
      "tl (printOp op) = concat (map printChunk (opChunks op))" by (simp_all add: printOp_def)
    have cs: "opChunks op \<noteq> []" "list_all wfChunk (opChunks op)" "opContents op = []"
      using assms(1) update by (auto simp: wfOp_def)
    have "collectUpdateChunks 0 (tl (printOp op) @ rest) = Inr (opChunks op, rest)"
      unfolding l using cs(2) assms(2) by (rule collectUpdateChunks_render)
    moreover have "\<not> hasPrefix (trimSpace (hd (tl (printOp op) @ rest))) ''*** Move to: ''"
    proof -
      obtain c cs' where c: "opChunks op = c # cs'" using cs(1) by (cases "opChunks op") auto
      then have "wfChunk c" using cs(2) by simp
      then obtain t where "trimSpace (hd (printChunk c)) = CHR ''@'' # t" using chunk_header(2) by blast
      moreover have "hd (tl (printOp op) @ rest) = hd (printChunk c)"
        using c l(2) by (simp add: printChunk_def)
      ultimately show ?thesis by (simp add: hasPrefix_def)
    qed
    ultimately show ?thesis
      using h l(1) update cs
      by (cases op) (auto simp: parseOp_def parseUpdateFile_def Let_def hasPrefix_def)
  qed
qed

lemma printOp_Cons: "printOp op = hd (printOp op) # tl (printOp op)"
  by (simp add: printOp_def)

lemma parseOps_render: "list_all wfOp ops \<Longrightarrow> parseOps (concat (map printOp ops)) = Inr ops"
proof (induction ops)
  case (Cons op ops)
  let ?tail = "concat (map printOp ops)"
  have "?tail = [] \<or> (stopLine (hd ?tail) \<and> hunkStop (hd ?tail))"
  proof (cases ops)
    case (Cons op' ops')
    then have "stopLine (hd (printOp op')) \<and> hunkStop (hd (printOp op'))"
      using \<open>list_all wfOp (op # ops)\<close> header_stop by simp
    then show ?thesis using Cons printOp_Cons [of op'] by (metis append_Cons concat.simps(2) list.sel(1) list.simps(9))
  qed simp
  then have p: "parseOp (hd (printOp op)) (tl (printOp op) @ ?tail) = Inr (op, ?tail)"
    using Cons.prems parseOp_render by simp
  have "stopLine (hd (printOp op))" using header_stop Cons.prems by simp
  then have "trimSpace (hd (printOp op)) \<noteq> []" by (auto simp: stopLine_def hasPrefix_def)
  then have "parseOps (hd (printOp op) # tl (printOp op) @ ?tail) = Inr (op # ops)"
    using p Cons by simp
  then show ?case using printOp_Cons [of op] by (metis append_Cons concat.simps(2) list.simps(9))
qed simp

lemma plainLine_render: "wfOp op \<Longrightarrow> list_all plainLine (printOp op)"
proof -
  assume op: "wfOp op"
  have content: "list_all plainLine (contentLines s)" if "creturn \<notin> set s" for s
  proof -
    have "plainLine l" if l: "l \<in> set (splitByte s newline)" for l
      using splitByte_no_sep [OF l] splitByte_sub [OF l] \<open>creturn \<notin> set s\<close> by (auto simp: plainLine_def)
    then show ?thesis by (auto simp: contentLines_def list_all_iff dest: in_set_butlastD)
  qed
  have chunk: "list_all plainLine (printChunk c)" if "wfChunk c" for c
    using that by (auto simp: wfChunk_def printChunk_def plainLine_def list_all_iff)
  have "plainLine (opPath op)" using op by (simp add: wfOp_def wfPath_def)
  then show ?thesis
    using op content [of "opContents op"] chunk
    by (auto simp: wfOp_def printOp_def plainLine_def list_all_iff split: if_splits)
qed

lemma parsePatch_render:
  assumes "ops \<noteq> []" "list_all wfOp ops"
  shows "parsePatch (printPatch ops) = Inr ops"
proof -
  let ?ls = "''*** Begin Patch'' # concat (map printOp ops) @ [''*** End Patch'']"
  have plain: "list_all plainLine ?ls"
    using plainLine_render assms(2) by (auto simp: list_all_iff plainLine_def)
  have "creturn \<notin> set (joinStr [newline] ?ls)"
    using plain joinStr_chars [of creturn "[newline]" ?ls] by (auto simp: list_all_iff plainLine_def)
  moreover have "trimSpace (printPatch ops) = printPatch ops"
  proof (rule trimSpace_ends)
    obtain m where m: "printPatch ops = ''*** Begin Patch'' @ m @ ''*** End Patch''"
      unfolding printPatch_def using joinStr_ends [of "[newline]" "''*** Begin Patch''" "concat (map printOp ops)" "''*** End Patch''"]
      by blast
    show "printPatch ops \<noteq> []" "length (printPatch ops) > 1" using m by simp_all
    show "solid (hd (printPatch ops))" "solid (last (printPatch ops))"
      unfolding m by (simp_all add: solid_def byteVal_def isASCIISpace_def)
  qed
  ultimately have "normalizeToLF (trimSpace (printPatch ops)) = joinStr [newline] ?ls"
    by (simp add: printPatch_def normalizeToLF_id)
  moreover have "splitByte (joinStr [newline] ?ls) newline = ?ls"
    using plain by (intro splitByte_joinStr) (auto simp: list_all_iff plainLine_def)
  moreover have "trimSpace ''*** Begin Patch'' = ''*** Begin Patch''" "trimSpace ''*** End Patch'' = ''*** End Patch''"
    by (rule trimSpace_ends; simp add: solid_def byteVal_def isASCIISpace_def)+
  ultimately show ?thesis
    using parseOps_render [OF assms(2)] assms(1) by (simp add: parsePatch_def Let_def)
qed

end
