(* ===== verification/EditProperties.thy ===== *)
theory EditProperties
  imports MultiEdit PatchParse
begin

text \<open>
  The properties of the text editing core: what an edit changes and what it leaves alone,
  when it returns, and the laws of the normalisation it matches on.
\<close>







text \<open>C36: With a non-empty search text an edit returns a result or an error, except in one
  case: when the search text has no exact match and consists of blanks only, so that its fuzzy
  form is empty, and the file is not empty.  Then the listing of the matches never ends.\<close>

theorem edit_returns:
  assumes "old \<noteq> []"
  shows "applyEdit content old new fuzzyIndent = None \<longleftrightarrow>
    (let raw = fst (stripBom content) in
     \<not> containsStr (normalizeToLF raw) (normalizeToLF old) \<and>
     normalizeForFuzzyMatch (normalizeToLF old) = [] \<and> text_of (mapNormalizedText raw True) \<noteq> [])"
  using assms by (rule applyEdit_hangs)

theorem edit_returns_witness:
  "applyEdit ''ab'' ''  '' ''x'' False = None \<longleftrightarrow>
    (let raw = fst (stripBom ''ab'') in
     \<not> containsStr (normalizeToLF raw) (normalizeToLF ''  '') \<and>
     normalizeForFuzzyMatch (normalizeToLF ''  '') = [] \<and> text_of (mapNormalizedText raw True) \<noteq> [])"
  by (rule edit_returns) simp

text \<open>The one case of the claim above is reached: two blanks searched in a file without two blanks.\<close>

lemma blank_edit_hangs: "applyEdit ''ab'' ''  '' ''x'' False = None"
proof -
  have "\<not> containsStr (normalizeToLF (fst (stripBom ''ab''))) (normalizeToLF ''  '')"
    "normalizeForFuzzyMatch (normalizeToLF ''  '') = []"
    "text_of (mapNormalizedText (fst (stripBom ''ab'')) True) \<noteq> []"
    by code_simp+
  then show ?thesis by (simp add: applyEdit_hangs Let_def)
qed

text \<open>C38: The edit script of a diff says what the two files are: the lines it keeps or removes
  are the lines of the old file, those it keeps or adds the lines of the new one, and it keeps a
  longest common subsequence, so that no script changes fewer lines.\<close>

theorem diff_script_minimal:
  "oldSide (computeEditScript old new) = splitDiffLines old \<and>
   newSide (computeEditScript old new) = splitDiffLines new \<and>
   Max (length ` {zs. subseq zs (splitDiffLines old) \<and> subseq zs (splitDiffLines new)}) =
     length (kept (computeEditScript old new))"
proof (intro conjI script_sides_of Max_eqI)
  show "finite (length ` {zs. subseq zs (splitDiffLines old) \<and> subseq zs (splitDiffLines new)})"
    by (rule finite_subset [of _ "{0..length (splitDiffLines old)}"]) (auto dest: list_emb_length)
  show "n \<le> length (kept (computeEditScript old new))"
    if "n \<in> length ` {zs. subseq zs (splitDiffLines old) \<and> subseq zs (splitDiffLines new)}" for n
    using that script_kept_most by auto
  have "subseq (kept s) (oldSide s)" "subseq (kept s) (newSide s)" for s
    by (simp_all add: kept_sides)
  then show "length (kept (computeEditScript old new)) \<in>
      length ` {zs. subseq zs (splitDiffLines old) \<and> subseq zs (splitDiffLines new)}"
    using script_sides_of by (metis (mono_tags, lifting) image_eqI mem_Collect_eq)
qed

text \<open>The windows a diff shows lie in order without overlap, none is empty or reaches
  past the script, and every line that changes is in one of them.\<close>

theorem diff_windows_cover:
  "let hs = map (\<lambda>h. computeHunkBounds script h ctx) (computeHunks script ctx) in
   sorted_wrt (\<lambda>a b. bend a \<le> bstart b) hs \<and>
   list_all (\<lambda>b. bstart b < bend b \<and> bend b \<le> length script) hs \<and>
   {k. k < length script \<and> isChange (script ! k)} \<subseteq> (\<Union>b \<in> set hs. {bstart b..<bend b})"
  using hunk_windows [OF refl, where script = script and ctx = ctx]
  unfolding Let_def list_all_iff by (intro conjI) auto

text \<open>The diff of an edit is a patch for it: at the offset it reports, its old side is
  what stands in the old file, and putting its new side there gives the new file.\<close>

theorem edit_diff_applies:
  assumes "buildEditScript old new (changedRegion old new contextLines) = (script, offset)"
  shows "take offset old @ oldSide script @ drop (offset + length (oldSide script)) old = old \<and>
    take offset old @ newSide script @ drop (offset + length (oldSide script)) old = new"
  using region_script_applies [OF assms] by blast

theorem edit_diff_applies_witness:
  "take 1 [''a'', ''b'', ''c''] @ oldSide [keepOp ''b'', delOp ''c'', addOp ''d''] @
     drop (1 + length (oldSide [keepOp ''b'', delOp ''c'', addOp ''d''])) [''a'', ''b'', ''c''] = [''a'', ''b'', ''c''] \<and>
   take 1 [''a'', ''b'', ''c''] @ newSide [keepOp ''b'', delOp ''c'', addOp ''d''] @
     drop (1 + length (oldSide [keepOp ''b'', delOp ''c'', addOp ''d''])) [''a'', ''b'', ''c''] = [''a'', ''b'', ''d'']"
  by (rule edit_diff_applies [where contextLines = 1]) code_simp


definition sampleEntry :: "nat \<Rightarrow> string \<Rightarrow> string \<Rightarrow> string \<Rightarrow> string \<Rightarrow> rawEntry" where
  "sampleEntry i f old new orig =
     \<lparr>enIdx = i, enPath = f, enResolved = f, enOldText = old, enNewText = new,
      enFuzzyIndent = False, enShowContext = 0, enOrigData = orig\<rparr>"


text \<open>A batch that validates refines the edits taken file by file: every file gets at
  most one write, from its content on disk to the result of applying its own edits to it in order,
  alone; a file without a write is one its edits leave as it was.\<close>

theorem batch_refines_replay:
  assumes "applyPendingEdits entries = Some (Inr eds)"
    and "\<forall>re \<in> set entries. enOrigData re = orig (enResolved re)"
  shows "distinct (map pwResolved (preparedWrites eds)) \<and>
    list_all (\<lambda>w. pwPreContent w = orig (pwResolved w)) (preparedWrites eds) \<and>
    replay (filter (\<lambda>re. enResolved re = f) entries) [] (orig f) =
      Some (case find (\<lambda>w. pwResolved w = f) (preparedWrites eds) of
              None \<Rightarrow> orig f | Some w \<Rightarrow> pwUpdated w)"
proof (intro conjI)
  show "distinct (map pwResolved (preparedWrites eds))"
    using groupEdits_distinct [of eds] by (simp add: preparedWrites_def comp_def)
  have "pePreContent g = orig (peResolved g)" if "g \<in> set (groupEdits eds)" for g
  proof -
    have "groupOf (groupEdits eds) (peResolved g) = Some g"
      using that groupEdits_distinct by (rule groupOf_elem)
    then show ?thesis by (rule batch_replay(2) [OF assms])
  qed
  then show "list_all (\<lambda>w. pwPreContent w = orig (pwResolved w)) (preparedWrites eds)"
    by (simp add: preparedWrites_def list_all_iff)
  show "replay (filter (\<lambda>re. enResolved re = f) entries) [] (orig f) =
      Some (case find (\<lambda>w. pwResolved w = f) (preparedWrites eds) of None \<Rightarrow> orig f | Some w \<Rightarrow> pwUpdated w)"
    using batch_replay(1) [OF assms, of f]
    by (simp add: preparedWrites_find split: option.splits)
qed

theorem batch_refines_replay_witness:
  "\<exists>eds. distinct (map pwResolved (preparedWrites eds)) \<and>
    list_all (\<lambda>w. pwPreContent w = ''abc'') (preparedWrites eds) \<and>
    replay (filter (\<lambda>re. enResolved re = ''f'') [sampleEntry 0 ''f'' ''ab'' ''x'' ''abc'', sampleEntry 1 ''f'' ''xc'' ''y'' ''abc'']) [] ''abc'' =
      Some (case find (\<lambda>w. pwResolved w = ''f'') (preparedWrites eds) of
              None \<Rightarrow> ''abc'' | Some w \<Rightarrow> pwUpdated w)"
proof -
  let ?es = "[sampleEntry 0 ''f'' ''ab'' ''x'' ''abc'', sampleEntry 1 ''f'' ''xc'' ''y'' ''abc'']"
  have "\<exists>eds. applyPendingEdits ?es = Some (Inr eds)"
    by (rule exI [of _ "pendings (the (applyEntries ?es startState))"]) code_simp
  then obtain eds where "applyPendingEdits ?es = Some (Inr eds)" by blast
  then show ?thesis
    using batch_refines_replay [of ?es eds "\<lambda>_. ''abc''" "''f''"] by (auto simp: sampleEntry_def)
qed

text \<open>A batch of at most 20 edits of one file is processed from the top of the file to
  its bottom, the edits that are not in the file on disk last, and none is lost or repeated.\<close>

theorem single_file_batch_positional:
  assumes "detectOverlaps order mergeBlocks entries original = Inr ordered"
    and "length entries \<le> 20" and "\<forall>re \<in> set entries. enResolved re = f"
  shows "mset ordered = mset entries \<and>
    sorted (map (\<lambda>re. editPosition (computeFileOffsets entries original) (enIdx re)) ordered)"
proof -
  let ?m = "computeFileOffsets entries original"
  have "ordered = insertionSort (positionLess ?m) entries"
    using assms(1,2)
    by (auto simp: detectOverlaps_def sortRawEntriesPositional_def sliceStable_def Let_def split: option.splits)
  moreover have "sorted (map (\<lambda>re. editPosition ?m (enIdx re)) (insertionSort (positionLess ?m) entries))"
    by (rule insertionSort_sorted) (use assms(3) in \<open>simp add: positionLess_def\<close>)
  ultimately show ?thesis by (simp add: insertionSort_mset)
qed

theorem single_file_batch_positional_witness:
  "mset [sampleEntry 1 ''f'' ''a'' ''x'' ''abc'', sampleEntry 0 ''f'' ''c'' ''y'' ''abc''] =
     mset [sampleEntry 0 ''f'' ''c'' ''y'' ''abc'', sampleEntry 1 ''f'' ''a'' ''x'' ''abc''] \<and>
   sorted (map (\<lambda>re. editPosition (computeFileOffsets
       [sampleEntry 0 ''f'' ''c'' ''y'' ''abc'', sampleEntry 1 ''f'' ''a'' ''x'' ''abc''] (\<lambda>_. ''abc'')) (enIdx re))
     [sampleEntry 1 ''f'' ''a'' ''x'' ''abc'', sampleEntry 0 ''f'' ''c'' ''y'' ''abc''])"
  by (rule single_file_batch_positional
      [where order = "\<lambda>m. m" and mergeBlocks = "\<lambda>_ es. es" and f = "''f''"]; code_simp)

text \<open>
  With an edit of another file between them two edits of one file are not brought into
  positional order: the comparison calls edits of different files equal, so the sort never
  compares the two.
\<close>

lemma positional_order_missed:
  "detectOverlaps (\<lambda>m. m) (\<lambda>_ es. es)
     [sampleEntry 0 ''f'' ''c'' ''y'' ''abc'', sampleEntry 1 ''g'' ''a'' ''x'' ''abc'',
      sampleEntry 2 ''f'' ''a'' ''x'' ''abc''] (\<lambda>_. ''abc'') =
   Inr [sampleEntry 0 ''f'' ''c'' ''y'' ''abc'', sampleEntry 1 ''g'' ''a'' ''x'' ''abc'',
      sampleEntry 2 ''f'' ''a'' ''x'' ''abc'']"
  by code_simp

text \<open>C34: Every non-empty list of operations that can be written in a patch is read back from its
  printed form: paths end in a visible character, lines contain no line break, added content
  ends with a line feed, a hunk has lines.\<close>

theorem patch_roundtrip:
  assumes "ops \<noteq> []" "list_all wfOp ops"
  shows "parsePatch (printPatch ops) = Inr ops"
  using assms by (rule parsePatch_render)

theorem patch_roundtrip_witness:
  "parsePatch (printPatch
     [\<lparr>opKind = ''add'', opPath = ''a b'', opContents = ''x'' @ [newline], opChunks = []\<rparr>,
      \<lparr>opKind = ''update'', opPath = ''c'', opContents = [],
       opChunks = [\<lparr>chunkContext = ''f'', oldLines = [''p''], newLines = [''q'', []], isEOF = True\<rparr>]\<rparr>,
      \<lparr>opKind = ''delete'', opPath = ''d'', opContents = [], opChunks = []\<rparr>]) =
   Inr [\<lparr>opKind = ''add'', opPath = ''a b'', opContents = ''x'' @ [newline], opChunks = []\<rparr>,
      \<lparr>opKind = ''update'', opPath = ''c'', opContents = [],
       opChunks = [\<lparr>chunkContext = ''f'', oldLines = [''p''], newLines = [''q'', []], isEOF = True\<rparr>]\<rparr>,
      \<lparr>opKind = ''delete'', opPath = ''d'', opContents = [], opChunks = []\<rparr>]"
  by (rule patch_roundtrip; code_simp)

end
