(* ===== verification/PatchApply.thy ===== *)
theory PatchApply
  imports PatchParse
begin

text \<open>
  Application of the hunks of a patch to a file: \<open>patch_apply.go\<close>.  Every hunk is resolved to a
  replacement of lines against the original lines; then the replacements are applied to the
  line records from the last to the first.  Go panics where an index lies outside a slice; that
  is the value \<open>None\<close> of \<open>deriveUpdatedContent\<close>.
\<close>

section \<open>Line records\<close>

record lineRecord =
  lineText :: string
  lineEnding :: string

text \<open>A record is a line with what ended it: CRLF, CR, LF or nothing at the end of the file.\<close>

function splitLineRecords :: "string \<Rightarrow> lineRecord list" where
  "splitLineRecords raw =
     (if raw = [] then []
      else let t = lineOf raw; rest = drop (length t) raw; n = (if rest = [] then 0 else eolLen rest)
        in \<lparr>lineText = t, lineEnding = take n rest\<rparr> # splitLineRecords (drop n rest))"
  by pat_completeness auto
termination
proof (relation "measure length")
  fix raw t rest n
  assume a: "raw \<noteq> []" "t = lineOf raw" "rest = drop (length t) raw" "n = (if rest = [] then 0 else eolLen rest)"
  show "(drop n rest, raw) \<in> measure length"
  proof (cases "rest = []")
    case False
    then have "n > 0" using a by (simp add: eolLen_def)
    then show ?thesis using a False by auto
  qed (use a in simp)
qed simp

declare splitLineRecords.simps [simp del]

definition renderRecords :: "lineRecord list \<Rightarrow> string" where
  "renderRecords records = concat (map (\<lambda>r. lineText r @ lineEnding r) records)"

section \<open>Finding the lines of a hunk\<close>

text \<open>The comparisons of \<open>seekSequence\<close>, from the strictest to the most tolerant.\<close>

definition eqPasses :: "(string \<Rightarrow> string \<Rightarrow> bool) list" where
  "eqPasses =
     [(=),
      (\<lambda>a b. trimRight a blanks = trimRight b blanks),
      (\<lambda>a b. trimSpace a = trimSpace b),
      (\<lambda>a b. normalizeForFuzzyMatch a = normalizeForFuzzyMatch b)]"

definition matchesAt :: "(string \<Rightarrow> string \<Rightarrow> bool) \<Rightarrow> string list \<Rightarrow> string list \<Rightarrow> nat \<Rightarrow> bool" where
  "matchesAt eq ls pattern i = list_all2 eq (take (length pattern) (drop i ls)) pattern"

definition seekPass :: "(string \<Rightarrow> string \<Rightarrow> bool) \<Rightarrow> string list \<Rightarrow> string list \<Rightarrow> nat \<Rightarrow> nat option" where
  "seekPass eq ls pattern searchStart =
     find (matchesAt eq ls pattern) [searchStart..<Suc (length ls - length pattern)]"

fun seekPasses :: "(string \<Rightarrow> string \<Rightarrow> bool) list \<Rightarrow> string list \<Rightarrow> string list \<Rightarrow> nat \<Rightarrow> nat option" where
  "seekPasses [] ls pattern searchStart = None"
| "seekPasses (eq # eqs) ls pattern searchStart =
     (case seekPass eq ls pattern searchStart of
        Some i \<Rightarrow> Some i | None \<Rightarrow> seekPasses eqs ls pattern searchStart)"

definition seekSequence :: "string list \<Rightarrow> string list \<Rightarrow> nat \<Rightarrow> bool \<Rightarrow> nat option" where
  "seekSequence ls pattern start eof =
     (if pattern = [] then Some start
      else if length pattern > length ls then None
      else seekPasses eqPasses ls pattern (if eof then length ls - length pattern else start))"

section \<open>Resolving a hunk\<close>

record lineReplacement =
  rstartLine :: nat
  oldLen :: nat
  newSeg :: "string list"

text \<open>A pattern that is not found is tried again without its last line when that is empty.\<close>

definition dropLastEmpty :: "string list \<Rightarrow> string list" where
  "dropLastEmpty ls = (if ls \<noteq> [] \<and> last ls = [] then butlast ls else ls)"

definition locateLines :: "string list \<Rightarrow> updateChunk \<Rightarrow> nat \<Rightarrow> (nat \<times> string list \<times> string list) option" where
  "locateLines ls chunk lineIndex =
     (case seekSequence ls (oldLines chunk) lineIndex (isEOF chunk) of
        Some found \<Rightarrow> Some (found, oldLines chunk, newLines chunk)
      | None \<Rightarrow>
          (if oldLines chunk \<noteq> [] \<and> last (oldLines chunk) = []
           then map_option (\<lambda>found. (found, butlast (oldLines chunk), dropLastEmpty (newLines chunk)))
                  (seekSequence ls (butlast (oldLines chunk)) lineIndex (isEOF chunk))
           else None))"

definition resolveChunk ::
  "string list \<Rightarrow> updateChunk \<Rightarrow> nat \<Rightarrow> string \<Rightarrow> goError + (lineReplacement \<times> nat)" where
  "resolveChunk ls chunk lineIndex filePath =
     (case (if chunkContext chunk \<noteq> [] then seekSequence ls [chunkContext chunk] lineIndex False
            else Some lineIndex) of
        None \<Rightarrow> Inl (plainError (''failed to find context '' @ goQuote (chunkContext chunk) @ '' in '' @ filePath))
      | Some lineIndex' \<Rightarrow>
          (if oldLines chunk = []
           then Inr (\<lparr>rstartLine = length ls, oldLen = 0, newSeg = newLines chunk\<rparr>, lineIndex')
           else case locateLines ls chunk lineIndex' of
             None \<Rightarrow> Inl (plainError (''failed to find expected lines in '' @ filePath @ '':'' @ [newline] @
                       joinStr [newline] (oldLines chunk)))
           | Some (found, pattern, newSlice) \<Rightarrow>
               Inr (\<lparr>rstartLine = found, oldLen = length pattern, newSeg = newSlice\<rparr>, found + length pattern)))"

fun resolveChunks ::
  "string list \<Rightarrow> updateChunk list \<Rightarrow> nat \<Rightarrow> string \<Rightarrow> goError + lineReplacement list" where
  "resolveChunks ls [] lineIndex filePath = Inr []"
| "resolveChunks ls (chunk # chunks) lineIndex filePath =
     (case resolveChunk ls chunk lineIndex filePath of
        Inl err \<Rightarrow> Inl err
      | Inr (r, nextIndex) \<Rightarrow> map_sum id (Cons r) (resolveChunks ls chunks nextIndex filePath))"

section \<open>Applying the replacements\<close>

text \<open>The ending of the new lines: that of the first line replaced, or the file's.\<close>

definition endingOf :: "string \<Rightarrow> lineRecord list \<Rightarrow> lineReplacement \<Rightarrow> string" where
  "endingOf defaultEnding records r =
     (if rstartLine r < length records \<and> lineEnding (records ! rstartLine r) \<noteq> []
      then lineEnding (records ! rstartLine r) else defaultEnding)"

text \<open>The ending of the last line replaced; empty when there is none.\<close>

definition lastEndingOf :: "lineRecord list \<Rightarrow> lineReplacement \<Rightarrow> string" where
  "lastEndingOf records r =
     (if oldLen r > 0 \<and> rstartLine r + oldLen r - 1 < length records
      then lineEnding (records ! (rstartLine r + oldLen r - 1)) else [])"

definition newRecordsOf :: "string \<Rightarrow> lineRecord list \<Rightarrow> lineReplacement \<Rightarrow> lineRecord list" where
  "newRecordsOf defaultEnding records r =
     (let ending = endingOf defaultEnding records r; lastEnding = lastEndingOf records r;
          news = map (\<lambda>t. \<lparr>lineText = t, lineEnding = ending\<rparr>) (newSeg r)
      in if news \<noteq> []
         then butlast news @ [(last news)\<lparr>lineEnding := (if lastEnding \<noteq> [] then lastEnding else ending)\<rparr>]
         else news)"

text \<open>
  One turn of the loop over the replacements; \<open>None\<close> where \<open>records[r.start-1]\<close> or
  \<open>records[r.start+r.oldLen:]\<close> is out of range.
\<close>

definition applyReplacement :: "string \<Rightarrow> lineReplacement \<Rightarrow> lineRecord list \<Rightarrow> lineRecord list option" where
  "applyReplacement defaultEnding r records =
     (let news = newRecordsOf defaultEnding records r;
          extending = oldLen r = 0 \<and> rstartLine r > 0 \<and> news \<noteq> []
      in if extending \<and> length records \<le> rstartLine r - 1 then None
         else
           (let records' =
                 (if extending \<and> lineEnding (records ! (rstartLine r - 1)) = []
                  then records[rstartLine r - 1 :=
                         (records ! (rstartLine r - 1))\<lparr>lineEnding := endingOf defaultEnding records r\<rparr>]
                  else records)
            in if length records' < rstartLine r + oldLen r then None
               else Some (take (rstartLine r) records' @ news @ drop (rstartLine r + oldLen r) records')))"

text \<open>The loop from the last replacement to the first.\<close>

fun applyReplacements :: "string \<Rightarrow> lineReplacement list \<Rightarrow> lineRecord list \<Rightarrow> lineRecord list option" where
  "applyReplacements defaultEnding [] records = Some records"
| "applyReplacements defaultEnding (r # rs) records =
     Option.bind (applyReplacements defaultEnding rs records) (applyReplacement defaultEnding r)"

definition deriveUpdatedContent ::
  "string \<Rightarrow> string \<Rightarrow> updateChunk list \<Rightarrow> (goError + string) option" where
  "deriveUpdatedContent filePath content chunks =
     (let (raw, bom) = stripBom content; records = splitLineRecords raw in
      case resolveChunks (map lineText records) chunks 0 filePath of
        Inl err \<Rightarrow> Some (Inl err)
      | Inr replacements \<Rightarrow>
          map_option (\<lambda>records'. Inr (bom @ renderRecords records'))
            (applyReplacements (detectLineEnding raw) replacements records))"

section \<open>What a resolved hunk says\<close>

lemma find_upt_bounds: "find P [a..<b] = Some i \<Longrightarrow> a \<le> i \<and> i < b \<and> P i"
  by (auto simp: find_Some_iff)

lemma seekPass_Some:
  "seekPass eq ls pattern k = Some i \<Longrightarrow> k \<le> i \<and> i \<le> length ls - length pattern \<and> matchesAt eq ls pattern i"
  unfolding seekPass_def by (drule find_upt_bounds) auto

lemma seekPasses_Some:
  "seekPasses eqs ls pattern k = Some i \<Longrightarrow>
     k \<le> i \<and> i \<le> length ls - length pattern \<and> (\<exists>eq \<in> set eqs. matchesAt eq ls pattern i)"
  by (induction eqs) (auto split: option.splits dest!: seekPass_Some)

lemma seekSequence_Some:
  assumes "seekSequence ls pattern start eof = Some i" "pattern \<noteq> []"
  shows "i + length pattern \<le> length ls \<and> (\<not> eof \<longrightarrow> start \<le> i) \<and>
    (\<exists>eq \<in> set eqPasses. matchesAt eq ls pattern i)"
  using assms by (auto simp: seekSequence_def split: if_splits dest!: seekPasses_Some)

lemma seekSequence_empty [simp]: "seekSequence ls [] start eof = Some start"
  by (simp add: seekSequence_def)

text \<open>The place of a hunk without end-of-file mark: behind the hunks before it, within the file.\<close>

lemma locateLines_bounds:
  assumes "locateLines ls chunk k = Some (found, pattern, newSlice)" "\<not> isEOF chunk" "k \<le> length ls"
  shows "k \<le> found \<and> found + length pattern \<le> length ls"
proof (cases "pattern = []")
  case True
  then show ?thesis using assms
    by (auto simp: locateLines_def split: option.splits if_splits)
next
  case False
  then have "seekSequence ls pattern k (isEOF chunk) = Some found"
    using assms(1) by (auto simp: locateLines_def split: option.splits if_splits)
  from seekSequence_Some [OF this False] show ?thesis using assms by simp
qed

lemma resolveChunk_Inr:
  assumes "resolveChunk ls chunk k f = Inr (r, j)" "\<not> isEOF chunk" "k \<le> length ls"
  shows "k \<le> rstartLine r \<and> rstartLine r + oldLen r \<le> length ls \<and> j \<le> length ls \<and>
    (if oldLines chunk = [] then rstartLine r = length ls \<and> oldLen r = 0
     else j = rstartLine r + oldLen r)"
proof -
  obtain k' where k: "(if chunkContext chunk \<noteq> [] then seekSequence ls [chunkContext chunk] k False
      else Some k) = Some k'"
    using assms(1) by (auto simp: resolveChunk_def split: option.splits)
  have k': "k \<le> k' \<and> k' \<le> length ls"
    using k assms(3) seekSequence_Some [of ls "[chunkContext chunk]" k False k'] by (auto split: if_splits)
  show ?thesis
  proof (cases "oldLines chunk = []")
    case True
    then show ?thesis using assms(1) k k' by (auto simp: resolveChunk_def)
  next
    case False
    then obtain found pattern newSlice where l: "locateLines ls chunk k' = Some (found, pattern, newSlice)"
        "r = \<lparr>rstartLine = found, oldLen = length pattern, newSeg = newSlice\<rparr>" "j = found + length pattern"
      using assms(1) k by (auto simp: resolveChunk_def split: option.splits)
    show ?thesis using locateLines_bounds [OF l(1) assms(2)] k' l False by simp
  qed
qed

section \<open>The splice a patch means\<close>

text \<open>Replacements in order, without overlap, from line \<open>pos\<close> on and within \<open>n\<close> lines.\<close>

fun orderedFrom :: "nat \<Rightarrow> nat \<Rightarrow> lineReplacement list \<Rightarrow> bool" where
  "orderedFrom pos n [] = (pos \<le> n)"
| "orderedFrom pos n (r # rs) = (pos \<le> rstartLine r \<and> orderedFrom (rstartLine r + oldLen r) n rs)"

text \<open>All replacements made at once on the lines from \<open>pos\<close> on.\<close>

fun spliceWith :: "(lineReplacement \<Rightarrow> 'a list) \<Rightarrow> nat \<Rightarrow> 'a list \<Rightarrow> lineReplacement list \<Rightarrow> 'a list" where
  "spliceWith f pos xs [] = xs"
| "spliceWith f pos xs (r # rs) =
     take (rstartLine r - pos) xs @ f r @
     spliceWith f (rstartLine r + oldLen r) (drop (rstartLine r + oldLen r - pos) xs) rs"

lemma orderedFrom_le: "orderedFrom pos n rs \<Longrightarrow> pos \<le> n"
  by (induction pos n rs rule: orderedFrom.induct) auto

lemma map_spliceWith: "map g (spliceWith f pos xs rs) = spliceWith (\<lambda>r. map g (f r)) pos (map g xs) rs"
  by (induction f pos xs rs rule: spliceWith.induct) (simp_all add: take_map drop_map)

lemma spliceWith_cong:
  "(\<And>r. r \<in> set rs \<Longrightarrow> f r = g r) \<Longrightarrow> spliceWith f pos xs rs = spliceWith g pos xs rs"
  by (induction rs arbitrary: pos xs) simp_all

lemma resolveChunks_Cons:
  "resolveChunks ls (c # cs) k f = Inr rs \<longleftrightarrow>
     (\<exists>r j rs'. resolveChunk ls c k f = Inr (r, j) \<and> resolveChunks ls cs j f = Inr rs' \<and> rs = r # rs')"
  by (cases "resolveChunk ls c k f"; cases "resolveChunks ls cs (snd (projr (resolveChunk ls c k f))) f")
    (auto split: prod.splits)

lemma resolveChunks_ordered:
  assumes "resolveChunks ls chunks k f = Inr rs" "k \<le> length ls"
    and "list_all (\<lambda>c. \<not> isEOF c) chunks" "list_all (\<lambda>c. oldLines c \<noteq> []) (butlast chunks)"
  shows "orderedFrom k (length ls) rs"
  using assms
proof (induction chunks arbitrary: k rs)
  case (Cons chunk chunks)
  from Cons.prems(1) obtain r j rs' where r: "resolveChunk ls chunk k f = Inr (r, j)"
      "resolveChunks ls chunks j f = Inr rs'" "rs = r # rs'"
    unfolding resolveChunks_Cons by blast
  have b: "k \<le> rstartLine r" "rstartLine r + oldLen r \<le> length ls" "j \<le> length ls"
      "oldLines chunk \<noteq> [] \<Longrightarrow> j = rstartLine r + oldLen r"
    using resolveChunk_Inr [OF r(1)] Cons.prems by auto
  show ?case
  proof (cases "chunks = []")
    case True
    then show ?thesis using r b by simp
  next
    case False
    then have "orderedFrom j (length ls) rs'" "oldLines chunk \<noteq> []"
      using Cons.IH [OF r(2) b(3)] Cons.prems by auto
    then show ?thesis using b r by simp
  qed
qed simp

lemma newRecordsOf_texts [simp]: "map lineText (newRecordsOf d records r) = newSeg r"
  by (cases "newSeg r" rule: rev_cases) (simp_all add: newRecordsOf_def Let_def comp_def)

text \<open>One turn of the loop keeps the texts of all other lines.\<close>

lemma applyReplacement_texts:
  assumes "rstartLine r + oldLen r \<le> length records"
  obtains records' where "applyReplacement d r records = Some records'"
    and "map lineText records' = take (rstartLine r) (map lineText records) @ newSeg r @
      drop (rstartLine r + oldLen r) (map lineText records)"
proof -
  let ?news = "newRecordsOf d records r"
  let ?ext = "oldLen r = 0 \<and> rstartLine r > 0 \<and> ?news \<noteq> []"
  let ?recs = "if ?ext \<and> lineEnding (records ! (rstartLine r - 1)) = []
    then records[rstartLine r - 1 :=
      (records ! (rstartLine r - 1))\<lparr>lineEnding := endingOf d records r\<rparr>] else records"
  have up: "map lineText (records[k := (records ! k)\<lparr>lineEnding := e\<rparr>]) = map lineText records" for k e
    by (cases "k < length records") (simp_all add: map_update list_update_same_conv list_update_beyond)
  then have t: "map lineText ?recs = map lineText records" by simp
  then have l: "length ?recs = length records" by (metis length_map)
  have "\<not> (?ext \<and> length records \<le> rstartLine r - 1)" using assms by auto
  moreover have "\<not> length ?recs < rstartLine r + oldLen r" using l assms by simp
  ultimately have "applyReplacement d r records =
      Some (take (rstartLine r) ?recs @ ?news @ drop (rstartLine r + oldLen r) ?recs)"
    unfolding applyReplacement_def Let_def by presburger
  then show ?thesis by (rule that) (simp only: map_append take_map [symmetric] drop_map [symmetric] t newRecordsOf_texts)
qed

lemma applyReplacements_texts:
  assumes "orderedFrom pos (length records) rs"
  shows "\<exists>records'. applyReplacements d rs records = Some records' \<and>
    map lineText records' = take pos (map lineText records) @
      spliceWith newSeg pos (drop pos (map lineText records)) rs"
  using assms
proof (induction rs arbitrary: pos)
  case (Cons r rs)
  let ?e = "rstartLine r + oldLen r" and ?ls = "map lineText records"
  from Cons obtain recs where recs: "applyReplacements d rs records = Some recs"
      "map lineText recs = take ?e ?ls @ spliceWith newSeg ?e (drop ?e ?ls) rs" by fastforce
  have le: "pos \<le> rstartLine r" "?e \<le> length records" using Cons.prems orderedFrom_le by auto
  have "length recs = length (map lineText recs)" by simp
  also have "\<dots> \<ge> ?e" using recs(2) le by simp
  finally obtain records' where r: "applyReplacement d r recs = Some records'"
      "map lineText records' = take (rstartLine r) (map lineText recs) @ newSeg r @ drop ?e (map lineText recs)"
    using applyReplacement_texts by blast
  have "take (rstartLine r) ?ls = take pos ?ls @ take (rstartLine r - pos) (drop pos ?ls)"
    using le by (metis le_add_diff_inverse take_add)
  then show ?case using r recs le by (simp add: min_def)
qed simp

text \<open>A replacement of at least one line sees the file's own records.\<close>

lemma newRecordsOf_cong:
  assumes "take (rstartLine r + oldLen r) xs = take (rstartLine r + oldLen r) ys" "0 < oldLen r"
    and "rstartLine r + oldLen r \<le> length xs" "rstartLine r + oldLen r \<le> length ys"
  shows "newRecordsOf d xs r = newRecordsOf d ys r"
proof -
  have "xs ! k = ys ! k" if "k < rstartLine r + oldLen r" for k
    using assms(1) that by (metis nth_take)
  then show ?thesis using assms(2-)
    by (simp add: newRecordsOf_def endingOf_def lastEndingOf_def Let_def)
qed

lemma applyReplacement_exact:
  "0 < oldLen r \<Longrightarrow> rstartLine r + oldLen r \<le> length xs \<Longrightarrow>
   applyReplacement d r xs =
     Some (take (rstartLine r) xs @ newRecordsOf d xs r @ drop (rstartLine r + oldLen r) xs)"
  by (simp add: applyReplacement_def Let_def)

lemma applyReplacements_exact:
  assumes "orderedFrom pos (length records) rs" "list_all (\<lambda>r. 0 < oldLen r) rs"
  shows "applyReplacements d rs records =
    Some (take pos records @ spliceWith (newRecordsOf d records) pos (drop pos records) rs)"
  using assms
proof (induction rs arbitrary: pos)
  case (Cons r rs)
  let ?e = "rstartLine r + oldLen r" and ?f = "newRecordsOf d records"
  let ?recs = "take ?e records @ spliceWith ?f ?e (drop ?e records) rs"
  have le: "pos \<le> rstartLine r" "?e \<le> length records" "0 < oldLen r"
    using Cons.prems orderedFrom_le by auto
  then have "applyReplacement d r ?recs =
      Some (take (rstartLine r) ?recs @ newRecordsOf d ?recs r @ drop ?e ?recs)"
    by (intro applyReplacement_exact) simp_all
  moreover have "newRecordsOf d ?recs r = ?f r"
    by (rule newRecordsOf_cong) (use le in simp_all)
  moreover have "take (rstartLine r) records = take pos records @ take (rstartLine r - pos) (drop pos records)"
    using le by (metis le_add_diff_inverse take_add)
  ultimately show ?case using Cons le by (simp add: min_def)
qed simp

section \<open>Lines that stand in the file\<close>

definition occursAt :: "string list \<Rightarrow> string list \<Rightarrow> nat \<Rightarrow> bool" where
  "occursAt ls pattern i = (take (length pattern) (drop i ls) = pattern)"

lemma occursAt_le: "occursAt ls pattern i \<Longrightarrow> pattern \<noteq> [] \<Longrightarrow> i + length pattern \<le> length ls"
  unfolding occursAt_def by (drule arg_cong [of _ _ length]) (cases pattern; simp add: min_def split: if_splits)

lemma matchesAt_eq: "matchesAt (=) ls pattern = occursAt ls pattern"
  by (intro ext) (simp add: matchesAt_def occursAt_def list.rel_eq)

text \<open>The exact pass comes first and finds the first occurrence.\<close>

lemma find_upt_least:
  assumes "P i" "a \<le> i" "i < b"
  obtains j where "find P [a..<b] = Some j" "a \<le> j" "j \<le> i" "P j"
proof (cases "find P [a..<b]")
  case None
  then show ?thesis using assms by (auto simp: find_None_iff)
next
  case (Some j)
  then obtain n where n: "n < length [a..<b]" "P ([a..<b] ! n)" "j = [a..<b] ! n" "\<forall>m<n. \<not> P ([a..<b] ! m)"
    by (auto simp: find_Some_iff)
  have "n \<le> i - a"
  proof (rule ccontr)
    assume "\<not> n \<le> i - a"
    then have "\<not> P ([a..<b] ! (i - a))" using n(4) by simp
    then show False using assms by simp
  qed
  then show ?thesis using that Some n assms by simp
qed

lemma seekSequence_exact:
  assumes "occursAt ls pattern i" "pattern \<noteq> []" "k \<le> i"
  obtains j where "seekSequence ls pattern k False = Some j" "k \<le> j" "j \<le> i" "occursAt ls pattern j"
proof -
  have le: "i + length pattern \<le> length ls" using occursAt_le assms by blast
  then have "i < Suc (length ls - length pattern)" by simp
  then obtain j where "find (occursAt ls pattern) [k..<Suc (length ls - length pattern)] = Some j"
      "k \<le> j" "j \<le> i" "occursAt ls pattern j"
    using find_upt_least [of "occursAt ls pattern" i k] assms by metis
  then show ?thesis using that assms(2) le
    by (simp add: seekSequence_def eqPasses_def seekPass_def matchesAt_eq del: upt_Suc)
qed

text \<open>Hunks whose context and old lines stand in the file in this order, at the given places.\<close>

fun laidOut :: "string list \<Rightarrow> nat \<Rightarrow> (updateChunk \<times> nat \<times> nat) list \<Rightarrow> bool" where
  "laidOut ls pos [] = True"
| "laidOut ls pos ((c, i, j) # rest) =
     (pos \<le> i \<and> i \<le> j \<and> \<not> isEOF c \<and> (chunkContext c = [] \<or> occursAt ls [chunkContext c] i) \<and>
      oldLines c \<noteq> [] \<and> occursAt ls (oldLines c) j \<and> laidOut ls (j + length (oldLines c)) rest)"

definition exactFor :: "string list \<Rightarrow> updateChunk \<Rightarrow> lineReplacement \<Rightarrow> bool" where
  "exactFor ls c r \<longleftrightarrow>
     occursAt ls (oldLines c) (rstartLine r) \<and> oldLen r = length (oldLines c) \<and> newSeg r = newLines c"

lemma resolveChunk_exact:
  assumes "laidOut ls pos [(c, i, j)]" "k \<le> pos"
  obtains r where "resolveChunk ls c k f = Inr (r, rstartLine r + oldLen r)" "exactFor ls c r"
    "k \<le> rstartLine r" "rstartLine r \<le> j"
proof -
  obtain k' where k': "(if chunkContext c \<noteq> [] then seekSequence ls [chunkContext c] k False
      else Some k) = Some k'" "k \<le> k'" "k' \<le> i"
  proof (cases "chunkContext c = []")
    case True
    then show ?thesis using that assms by simp
  next
    case False
    then show ?thesis using that assms seekSequence_exact [of ls "[chunkContext c]" i k] by auto
  qed
  have "occursAt ls (oldLines c) j" "oldLines c \<noteq> []" "k' \<le> j" using assms k' by auto
  then obtain m where m: "seekSequence ls (oldLines c) k' False = Some m" "k' \<le> m" "m \<le> j" "occursAt ls (oldLines c) m"
    using seekSequence_exact by metis
  then have "locateLines ls c k' = Some (m, oldLines c, newLines c)"
    using assms by (simp add: locateLines_def)
  then show ?thesis
    using k' m assms by (intro that [of "\<lparr>rstartLine = m, oldLen = length (oldLines c), newSeg = newLines c\<rparr>"])
      (simp_all add: resolveChunk_def exactFor_def)
qed

lemma resolveChunks_exact:
  assumes "laidOut ls pos places" "k \<le> pos"
  shows "\<exists>rs. resolveChunks ls (map fst places) k f = Inr rs \<and> list_all2 (exactFor ls) (map fst places) rs"
  using assms
proof (induction places arbitrary: pos k)
  case (Cons p rest)
  obtain c i j where p: "p = (c, i, j)" by (cases p)
  with Cons.prems have l: "laidOut ls pos [(c, i, j)]" "laidOut ls (j + length (oldLines c)) rest" by auto
  obtain r where r: "resolveChunk ls c k f = Inr (r, rstartLine r + oldLen r)" "exactFor ls c r"
      "k \<le> rstartLine r" "rstartLine r \<le> j" using resolveChunk_exact [OF l(1) Cons.prems(2)] .
  then have "rstartLine r + oldLen r \<le> j + length (oldLines c)" by (simp add: exactFor_def)
  from Cons.IH [OF l(2) this] obtain rs where
    "resolveChunks ls (map fst rest) (rstartLine r + oldLen r) f = Inr rs"
    "list_all2 (exactFor ls) (map fst rest) rs" by blast
  then show ?case using r p by (intro exI [of _ "r # rs"]) (simp add: resolveChunks_Cons)
qed simp

end
