(* ===== verification/PatchProperties.thy ===== *)
theory PatchProperties
  imports PatchApply
begin

text \<open>
  The properties of patch application: the line records lose nothing, hunks whose lines stand in
  the file replace those lines and no other byte, tolerant hunks make one splice, and where Go
  panics.
\<close>

section \<open>Line records\<close>

definition recordOK :: "lineRecord \<Rightarrow> bool" where
  "recordOK r \<longleftrightarrow> list_all (\<lambda>c. \<not> isEOLByte c) (lineText r) \<and> lineEnding r \<in> {crlf, [creturn], [newline]}"

lemma eolByte_cases: "isEOLByte c \<longleftrightarrow> c = newline \<or> c = creturn"
  by (auto simp: isEOLByte_def)

lemma afterLine_eol: "drop (length (lineOf s)) s = c # t \<Longrightarrow> isEOLByte c"
  by (metis dropWhile_eq_drop hd_dropWhile lineOf_def list.discI list.sel(1))

lemma take_eolLen:
  assumes "rest = c # t" "isEOLByte c"
  shows "take (eolLen rest) rest \<in> {crlf, [creturn], [newline]}"
  using assms by (auto simp: eolLen_def eolByte_cases)

lemma splitLineRecords_ok:
  "renderRecords (splitLineRecords raw) = raw \<and> list_all recordOK (butlast (splitLineRecords raw)) \<and>
   (splitLineRecords raw \<noteq> [] \<longrightarrow> recordOK (last (splitLineRecords raw)) \<or>
      lineEnding (last (splitLineRecords raw)) = [] \<and>
      list_all (\<lambda>c. \<not> isEOLByte c) (lineText (last (splitLineRecords raw))))"
proof (induction raw rule: splitLineRecords.induct)
  case (1 raw)
  show ?case
  proof (cases "raw = []")
    case True
    then show ?thesis by (simp add: splitLineRecords.simps renderRecords_def)
  next
    case False
    obtain rest where rest: "rest = drop (length (lineOf raw)) raw" by simp
    obtain n where n: "n = (if rest = [] then 0 else eolLen rest)" by simp
    obtain r where r: "r = \<lparr>lineText = lineOf raw, lineEnding = take n rest\<rparr>" by simp
    have s: "splitLineRecords raw = r # splitLineRecords (drop n rest)"
      using False rest n r by (subst splitLineRecords.simps) (simp add: Let_def)
    have raw: "lineOf raw @ rest = raw" using lineOf_rest [of raw] rest by simp
    have t: "list_all (\<lambda>c. \<not> isEOLByte c) (lineOf raw)"
      unfolding lineOf_def list_all_iff by (blast dest: set_takeWhileD)
    show ?thesis
    proof (cases rest)
      case Nil
      then show ?thesis using t s r raw by (simp add: splitLineRecords.simps renderRecords_def)
    next
      case (Cons c u)
      then have "take n rest \<in> {crlf, [creturn], [newline]}"
        using take_eolLen [OF Cons] afterLine_eol [of raw c u] rest n by simp
      then have "recordOK r" using t r by (simp add: recordOK_def)
      moreover have "lineText r @ lineEnding r @ drop n rest = raw" using raw r by simp
      ultimately show ?thesis using 1 [OF False refl rest n] s by (auto simp: renderRecords_def)
    qed
  qed
qed

text \<open>C39: The line records of a file hold all of it: rendered they are its bytes, no text contains
  a byte of a line ending, and only the last may lack an ending.\<close>

theorem line_records_lossless:
  "let records = splitLineRecords raw in
   renderRecords records = raw \<and> list_all recordOK (butlast records) \<and>
   list_all (\<lambda>r. list_all (\<lambda>c. \<not> isEOLByte c) (lineText r)) records"
proof -
  let ?rs = "splitLineRecords raw"
  have "list_all (\<lambda>r. list_all (\<lambda>c. \<not> isEOLByte c) (lineText r)) ?rs"
  proof (cases ?rs rule: rev_cases)
    case (snoc rs r)
    then show ?thesis using splitLineRecords_ok [of raw] by (auto simp: recordOK_def list_all_iff)
  qed simp
  then show ?thesis using splitLineRecords_ok [of raw] by (simp add: Let_def)
qed

section \<open>Hunks\<close>

text \<open>What a resolved hunk may be: lines of the file that agree with its old lines, without a last
  empty one if need be, under one of the four comparisons; or an append.\<close>

definition placedFor :: "string list \<Rightarrow> updateChunk \<Rightarrow> lineReplacement \<Rightarrow> bool" where
  "placedFor ls c r \<longleftrightarrow>
     (if oldLines c = [] then r = \<lparr>rstartLine = length ls, oldLen = 0, newSeg = newLines c\<rparr>
      else (\<exists>(pattern, news) \<in> {(oldLines c, newLines c), (butlast (oldLines c), dropLastEmpty (newLines c))}.
              oldLen r = length pattern \<and> newSeg r = news \<and>
              (\<exists>eq \<in> set eqPasses. matchesAt eq ls pattern (rstartLine r))))"

lemma resolveChunk_placed:
  assumes "resolveChunk ls c k f = Inr (r, j)"
  shows "placedFor ls c r"
proof (cases "oldLines c = []")
  case True
  then show ?thesis using assms by (auto simp: resolveChunk_def placedFor_def split: option.splits if_splits)
next
  case False
  then obtain k' found pattern news where l: "locateLines ls c k' = Some (found, pattern, news)"
      "r = \<lparr>rstartLine = found, oldLen = length pattern, newSeg = news\<rparr>"
    using assms by (auto simp: resolveChunk_def split: option.splits)
  have "(pattern, news) \<in> {(oldLines c, newLines c), (butlast (oldLines c), dropLastEmpty (newLines c))}"
    and s: "seekSequence ls pattern k' (isEOF c) = Some found"
    using l(1) by (auto simp: locateLines_def split: option.splits if_splits)
  moreover have "\<exists>eq \<in> set eqPasses. matchesAt eq ls pattern found"
  proof (cases "pattern = []")
    case True
    then show ?thesis by (auto simp: eqPasses_def matchesAt_def)
  next
    case False
    then show ?thesis using seekSequence_Some [OF s] by blast
  qed
  ultimately show ?thesis using False l(2) unfolding placedFor_def by auto
qed

lemma resolveChunks_placed:
  "resolveChunks ls cs k f = Inr rs \<Longrightarrow> list_all2 (placedFor ls) cs rs"
proof (induction cs arbitrary: k rs)
  case (Cons c cs)
  from Cons.prems obtain r j rs' where "resolveChunk ls c k f = Inr (r, j)" "resolveChunks ls cs j f = Inr rs'"
      "rs = r # rs'"
    unfolding resolveChunks_Cons by blast
  then show ?case using Cons.IH resolveChunk_placed by simp
qed simp

section \<open>A small file for the witnesses\<close>

definition sampleText :: string where
  "sampleText = [CHR ''a'', creturn, newline, CHR ''b'', newline, CHR ''c'', newline, CHR ''d'']"

definition sampleHunk :: "string \<Rightarrow> string list \<Rightarrow> string list \<Rightarrow> updateChunk" where
  "sampleHunk ctx olds news = \<lparr>chunkContext = ctx, oldLines = olds, newLines = news, isEOF = False\<rparr>"

text \<open>Hunks that resolve make one splice.  When no hunk is marked as the end of the file and only
  the last one may be without old lines, the update returns, and the lines of the new file are those
  of the old one with the lines found for every hunk replaced by its new lines, all at once; the lines
  found are in order and do not overlap.\<close>

theorem patch_is_one_splice:
  assumes "stripBom content = (raw, bom)"
    and "resolveChunks (map lineText (splitLineRecords raw)) chunks 0 path = Inr rs"
    and "list_all (\<lambda>c. \<not> isEOF c) chunks" "list_all (\<lambda>c. oldLines c \<noteq> []) (butlast chunks)"
  shows "list_all2 (placedFor (map lineText (splitLineRecords raw))) chunks rs \<and>
    orderedFrom 0 (length (splitLineRecords raw)) rs \<and>
    (\<exists>records'. deriveUpdatedContent path content chunks = Some (Inr (bom @ renderRecords records')) \<and>
       map lineText records' = spliceWith newSeg 0 (map lineText (splitLineRecords raw)) rs)"
proof -
  have o: "orderedFrom 0 (length (splitLineRecords raw)) rs"
    using resolveChunks_ordered [OF assms(2) _ assms(3,4)] by simp
  from applyReplacements_texts [OF this, of "detectLineEnding raw"] obtain records' where
    "applyReplacements (detectLineEnding raw) rs (splitLineRecords raw) = Some records'"
    "map lineText records' = spliceWith newSeg 0 (map lineText (splitLineRecords raw)) rs" by auto
  then show ?thesis
    using o assms(1,2) resolveChunks_placed [OF assms(2)] by (auto simp: deriveUpdatedContent_def)
qed

theorem patch_is_one_splice_witness:
  "let hunks = [sampleHunk [] [''b '', ''c''] [''B''], sampleHunk [] [] [''e'']];
       rs = [\<lparr>rstartLine = 1, oldLen = 2, newSeg = [''B'']\<rparr>, \<lparr>rstartLine = 4, oldLen = 0, newSeg = [''e'']\<rparr>] in
    list_all2 (placedFor (map lineText (splitLineRecords sampleText))) hunks rs \<and>
    orderedFrom 0 (length (splitLineRecords sampleText)) rs \<and>
    (\<exists>records'. deriveUpdatedContent ''f'' sampleText hunks = Some (Inr ([] @ renderRecords records')) \<and>
       map lineText records' = spliceWith newSeg 0 (map lineText (splitLineRecords sampleText)) rs)"
  unfolding Let_def
  by (rule patch_is_one_splice [where raw = sampleText]) code_simp+



section \<open>Hunks that do not resolve to a splice\<close>

text \<open>
  A hunk without old lines appends, but leaves the search position where it was.  A later hunk
  is applied first, and the place of the append is not corrected for it: when the later hunk
  deletes lines, Go panics; when it adds lines, the append lands between them.
\<close>

lemma append_before_delete_panics:
  "deriveUpdatedContent ''f'' sampleText [sampleHunk [] [] [''e''], sampleHunk [] [''b'', ''c''] []] = None"
  by code_simp

lemma append_before_growth_misplaced:
  "deriveUpdatedContent ''f'' [CHR ''a'', newline, CHR ''b'', newline]
     [sampleHunk [] [] [''e''], sampleHunk [] [''b''] [''x'', ''y'']] =
   Some (Inr [CHR ''a'', newline, CHR ''x'', newline, CHR ''e'', newline, CHR ''y'', newline])"
  by code_simp

text \<open>
  A hunk marked as the end of the file is looked for from the end on, before the lines of
  the hunks in front of it if there are not enough: both may then take the same line.
\<close>

lemma eof_hunk_overlaps:
  "deriveUpdatedContent ''f'' [CHR ''a'', newline, CHR ''b'', newline]
     [sampleHunk [] [''a'', ''b''] [''x'', ''y''], \<lparr>chunkContext = [], oldLines = [''b''], newLines = [''z''], isEOF = True\<rparr>] =
   Some (Inr [CHR ''x'', newline, CHR ''y'', newline])"
  by code_simp

end
