(* ===== verification/PathGuard.thy ===== *)
theory PathGuard
  imports GoPaths GoValues
begin

text \<open>
  Confinement of paths to the workspace: \<open>security.go\<close>.  What the file system says of symbolic
  links is the record \<open>linkEnv\<close>; the files themselves are in \<open>FileStore\<close>.
\<close>

section \<open>What the operating system answers\<close>

datatype linkTarget = RealPath string | NoPath | LinkFails goError

text \<open>\<open>Lstat\<close> of an entry: whether it is a symbolic link, that there is none, or an error.\<close>

datatype entryKind = EntryLink | EntryPlain | NoEntry | EntryFails goError

record linkEnv =
  userHomeDir :: "goError + string"
  tempDir :: string
  evalSymlinks :: "string \<Rightarrow> linkTarget"
  lstatEntry :: "string \<Rightarrow> entryKind"
  registeredSpill :: "string \<Rightarrow> bool"

section \<open>Sensitive paths\<close>

definition sensitiveSegments :: "string list" where
  "sensitiveSegments = [''/.git/'', ''/.ssh/'', ''/.aws/'', ''/.gnupg/'']"

definition sensitiveDirs :: "string list" where
  "sensitiveDirs = [''.git'', ''.ssh'', ''.aws'', ''.gnupg'']"

definition sensitivePathErr :: "string \<Rightarrow> goError" where
  "sensitivePathErr p =
     ErrWithSuggestion (''sensitive path: '' @ p)
       ''this path is blocked for security; request the specific field or artifact from the user instead''
       ''path_outside_sandbox''"

definition hasSensitivePathSegment :: "string \<Rightarrow> bool" where
  "hasSensitivePathSegment p =
     (let clean = pathClean p; base = pathBase clean in
      if list_ex (containsStr clean) sensitiveSegments then True
      else if list_ex (\<lambda>dir. base = dir) sensitiveDirs then True
      else base = ''.env'' \<or> hasPrefix base ''.env.'')"

section \<open>Resolution\<close>

definition rootRelative :: "string \<Rightarrow> string \<Rightarrow> goError + string" where
  "rootRelative workDir resolved =
     (let rel = filepathRel workDir resolved in
      if outsideWorkDir rel then Inl (plainError (''path is outside workspace root: '' @ resolved))
      else Inr rel)"

definition resolvePath :: "linkEnv \<Rightarrow> string \<Rightarrow> string \<Rightarrow> goError + string" where
  "resolvePath env workDir p =
     (case (if p = ''~'' \<or> hasPrefix p ''~/''
            then (case userHomeDir env of
                    Inl err \<Rightarrow> Inl (err\<lparr>Err := ''expand ~: '' @ Err err\<rparr>)
                  | Inr home \<Rightarrow> Inr (home @ drop 1 p))
            else Inr p) of
        Inl err \<Rightarrow> Inl err
      | Inr p' \<Rightarrow> Inr (pathClean (if hasPrefix p' ''/'' then p' else filepathJoin workDir p')))"

text \<open>
  The loop of \<open>resolveExistingPrefix\<close>: upwards to the first directory that exists; \<open>missing\<close>
  holds the components passed, the topmost first.
\<close>

function existingPrefix :: "linkEnv \<Rightarrow> string \<Rightarrow> string list \<Rightarrow> string \<Rightarrow> goError + string" where
  "existingPrefix env path missing current =
     (let parent = pathDir current in
      if parent = current then Inr (pathClean path)
      else case evalSymlinks env parent of
             RealPath target \<Rightarrow> Inr (foldl filepathJoin target (pathBase current # missing))
           | LinkFails err \<Rightarrow> Inl err
           | NoPath \<Rightarrow> existingPrefix env path (pathBase current # missing) parent)"
  by pat_completeness auto
termination
proof (relation "measure (\<lambda>(env, path, missing, current). if current = ''.'' then 0 else Suc (length current))")
  fix env :: linkEnv and path missing and current parent :: string
  assume p: "parent = pathDir current" "parent \<noteq> current"
  have "pathDir ''.'' = ''.''" by code_simp
  then have "current \<noteq> ''.''" using p by auto
  with pathDir_shorter [of current] p
  show "((env, path, pathBase current # missing, parent), env, path, missing, current) \<in>
      measure (\<lambda>(env, path, missing, current). if current = ''.'' then 0 else Suc (length current))"
    by auto
qed simp

declare existingPrefix.simps [simp del]

definition resolveExistingPrefix :: "linkEnv \<Rightarrow> string \<Rightarrow> goError + string" where
  "resolveExistingPrefix env path =
     (case evalSymlinks env path of
        RealPath target \<Rightarrow> Inr target
      | LinkFails err \<Rightarrow> Inl err
      | NoPath \<Rightarrow> existingPrefix env path [] path)"

section \<open>The guards\<close>

definition outsideErr :: "string \<Rightarrow> goError" where
  "outsideErr p =
     ErrWithSuggestion (p @ '' is outside working directory'')
       ''path resolves outside the sandbox root; supply a path inside the workdir''
       ''path_outside_sandbox''"

definition checkPath :: "linkEnv \<Rightarrow> string \<Rightarrow> string \<Rightarrow> goError + string" where
  "checkPath env workDir p =
     (case resolvePath env workDir p of
        Inl err \<Rightarrow> Inl err
      | Inr resolved \<Rightarrow>
         (case resolveExistingPrefix env resolved of
            Inl err \<Rightarrow> Inl (ErrWithSuggestion (''symlink target is outside the sandbox: '' @ p)
              ''symlink target is outside the sandbox; follow the symlink manually via its absolute path if authorized''
              ''path_outside_sandbox'')
          | Inr target \<Rightarrow>
              (if hasSensitivePathSegment target then Inl (sensitivePathErr p)
               else if \<not> hasPrefix target (workDir @ ''/'') \<and> target \<noteq> workDir then Inl (outsideErr p)
               else Inr target)))"

definition unregisteredSpillErr :: "string \<Rightarrow> goError" where
  "unregisteredSpillErr p =
     ErrWithSuggestion (''unregistered shell spill file: '' @ p)
       ''read only the exact Full output path returned by run_shell, or rerun the command''
       ''path_outside_sandbox''"

definition spillFilePrefix :: string where
  "spillFilePrefix = ''jinn-shell-''"

definition checkPathForRead :: "linkEnv \<Rightarrow> string \<Rightarrow> string \<Rightarrow> goError + string" where
  "checkPathForRead env workDir p =
     (case resolvePath env workDir p of
        Inl err \<Rightarrow> Inl err
      | Inr resolved \<Rightarrow>
          (if pathDir resolved = pathClean (tempDir env) \<and> hasPrefix (pathBase resolved) spillFilePrefix
           then (if registeredSpill env resolved then Inr resolved else Inl (unregisteredSpillErr p))
           else checkPath env workDir p))"

text \<open>The loop of \<open>rejectMutationSymlinkComponents\<close> over the components of the relative path.\<close>

fun rejectLinks :: "linkEnv \<Rightarrow> string \<Rightarrow> string \<Rightarrow> string list \<Rightarrow> goError option" where
  "rejectLinks env display current [] = None"
| "rejectLinks env display current (part # parts) =
     (if part = ''.'' \<or> part = [] then rejectLinks env display current parts
      else let next = filepathJoin current part in
        case lstatEntry env next of
          NoEntry \<Rightarrow> rejectLinks env display next parts
        | EntryFails err \<Rightarrow> Some err
        | EntryLink \<Rightarrow> Some (ErrWithSuggestion (''mutation path contains symlink component: '' @ display)
            ''target a real path within the workspace'' ''path_outside_sandbox'')
        | EntryPlain \<Rightarrow> rejectLinks env display next parts)"

definition rejectMutationSymlinkComponents :: "linkEnv \<Rightarrow> string \<Rightarrow> string \<Rightarrow> string \<Rightarrow> goError option" where
  "rejectMutationSymlinkComponents env workDir path display =
     (case rootRelative workDir path of
        Inl err \<Rightarrow> Some err
      | Inr rel \<Rightarrow> rejectLinks env display [] (splitByte (pathClean rel) CHR ''/''))"

definition checkPathForMutation :: "linkEnv \<Rightarrow> string \<Rightarrow> string \<Rightarrow> goError + string" where
  "checkPathForMutation env workDir path =
     (case resolvePath env workDir path of
        Inl err \<Rightarrow> Inl err
      | Inr lexical \<Rightarrow>
         (case rootRelative workDir lexical of
            Inl _ \<Rightarrow> Inl (outsideErr path)
          | Inr _ \<Rightarrow>
             (case rejectMutationSymlinkComponents env workDir lexical path of
                Some err \<Rightarrow> Inl err
              | None \<Rightarrow>
                 (case checkPath env workDir path of
                    Inl err \<Rightarrow> Inl err
                  | Inr resolved \<Rightarrow>
                     (case rejectMutationSymlinkComponents env workDir resolved path of
                        Some err \<Rightarrow> Inl err
                      | None \<Rightarrow> Inr resolved)))))"

section \<open>What the guards promise\<close>

text \<open>The components of a path below the workspace.\<close>

definition relComponents :: "string \<Rightarrow> string list" where
  "relComponents rel = filter (\<lambda>c. c \<noteq> ''.'' \<and> c \<noteq> []) (splitByte (pathClean rel) CHR ''/'')"

lemma rejectLinks_None:
  assumes "rejectLinks env display current parts = None"
    and "0 < k" "k \<le> length (filter (\<lambda>c. c \<noteq> ''.'' \<and> c \<noteq> []) parts)"
  shows "lstatEntry env (foldl filepathJoin current (take k (filter (\<lambda>c. c \<noteq> ''.'' \<and> c \<noteq> []) parts))) \<in> {EntryPlain, NoEntry}"
  using assms
proof (induction env display current parts arbitrary: k rule: rejectLinks.induct)
  case (2 env display current part parts)
  show ?case
  proof (cases "part = ''.'' \<or> part = []")
    case True
    then have f: "filter (\<lambda>c. c \<noteq> ''.'' \<and> c \<noteq> []) (part # parts) = filter (\<lambda>c. c \<noteq> ''.'' \<and> c \<noteq> []) parts"
      and "rejectLinks env display current parts = None" using "2.prems"(1) by auto
    then show ?thesis using "2.IH"(1) [OF True] "2.prems"(2,3) unfolding f by blast
  next
    case False
    obtain k' where k: "k = Suc k'" using "2.prems"(2) by (cases k) auto
    let ?next = "filepathJoin current part"
    have n: "lstatEntry env ?next \<in> {EntryPlain, NoEntry}" "rejectLinks env display ?next parts = None"
      using "2.prems"(1) False by (auto simp: Let_def split: entryKind.splits)
    show ?thesis
    proof (cases k')
      case 0
      then show ?thesis using k n False by simp
    next
      case (Suc m)
      have "lstatEntry env (foldl filepathJoin ?next (take k' (filter (\<lambda>c. c \<noteq> ''.'' \<and> c \<noteq> []) parts))) \<in> {EntryPlain, NoEntry}"
        using "2.IH"(2,3) [OF False refl] n "2.prems" Suc False k by (cases "lstatEntry env ?next") auto
      then show ?thesis using k False by simp
    qed
  qed
qed simp

lemma checkPath_Inr:
  "checkPath env workDir p = Inr r \<Longrightarrow>
     (hasPrefix r (workDir @ ''/'') \<or> r = workDir) \<and> \<not> hasSensitivePathSegment r"
  by (auto simp: checkPath_def split: sum.splits if_splits)

lemma checkPathForMutation_Inr:
  assumes "checkPathForMutation env workDir p = Inr r"
  obtains rel where "checkPath env workDir p = Inr r" "rootRelative workDir r = Inr rel"
    "rejectLinks env p [] (splitByte (pathClean rel) CHR ''/'') = None"
  using assms
  by (auto simp: checkPathForMutation_def rejectMutationSymlinkComponents_def split: sum.splits option.splits)

end
