(* ===== verification/FileStore.thy ===== *)
theory FileStore
  imports PathGuard GoRunes
begin

text \<open>
  The file system the mutating tools work on, and the operations of \<open>tool_write.go\<close>,
  \<open>security.go\<close>, \<open>filelock.go\<close> and \<open>tracker.go\<close> that read and replace a file.

  An operation is a function on the store.  Every call into the operating system takes the next
  \<open>ioEvent\<close> of the store: the call works, or it fails before or after it took effect, or
  the process is killed before or after it.  An empty list of events means that all calls work.
  A property proved for every store holds for every pattern of failures and for every crash.
\<close>

section \<open>The store\<close>

record diskFile =
  fileData :: string
  fileTime :: int

record fileStamp =
  stampTime :: int
  stampSize :: int

text \<open>An event says how much time passes before the call and how the call ends.\<close>

datatype ioAnswer = IoWorks | IoFails bool string | IoKills bool

record ioEvent =
  ioDelay :: nat
  ioAnswer :: ioAnswer

text \<open>\<open>'x\<close> is what other components keep in the store: the history.\<close>

record 'x store =
  dkFiles :: "string \<Rightarrow> diskFile option"
  dkStamps :: "string \<Rightarrow> fileStamp option"
  dkClock :: int
  dkEvents :: "ioEvent list"
  dkHistory :: 'x

text \<open>The engine's settings and what comes from outside the program.\<close>

record engineConfig =
  cfWorkDir :: string
  cfLinks :: linkEnv
  cfSha256Hex :: "string \<Rightarrow> string"
  cfPreconditions :: bool

section \<open>Operations\<close>

text \<open>\<open>None\<close> when the process was killed.\<close>

type_synonym ('x, 'a) op = "'x store \<Rightarrow> 'a option \<times> 'x store"

definition retOp :: "'a \<Rightarrow> ('x, 'a) op" where
  "retOp a w = (Some a, w)"

definition bindOp :: "('x, 'a) op \<Rightarrow> ('a \<Rightarrow> ('x, 'b) op) \<Rightarrow> ('x, 'b) op" where
  "bindOp m f w = (case m w of (None, w') \<Rightarrow> (None, w') | (Some a, w') \<Rightarrow> f a w')"

text \<open>An operation that depends on the store it starts in.\<close>

definition getOp :: "('x store \<Rightarrow> ('x, 'a) op) \<Rightarrow> ('x, 'a) op" where
  "getOp f w = f w w"

text \<open>\<open>if err != nil { return err }\<close>.\<close>

definition tryOp :: "('x, goError + 'a) op \<Rightarrow> ('a \<Rightarrow> ('x, goError + 'b) op) \<Rightarrow> ('x, goError + 'b) op" where
  "tryOp m f = bindOp m (\<lambda>r. case r of Inl err \<Rightarrow> retOp (Inl err) | Inr a \<Rightarrow> f a)"

text \<open>\<open>fmt.Errorf\<close> with \<open>%w\<close> at its end: code and suggestion are those of the inner error.\<close>

definition wrapErr :: "string \<Rightarrow> goError \<Rightarrow> goError" where
  "wrapErr pre err = err\<lparr>Err := pre @ Err err\<rparr>"

definition mapErr :: "(goError \<Rightarrow> goError) \<Rightarrow> ('x, goError + 'a) op \<Rightarrow> ('x, goError + 'a) op" where
  "mapErr f m = bindOp m (\<lambda>r. retOp (map_sum f id r))"

text \<open>A call that changes the store by \<open>f\<close>: whether it took effect and its error.\<close>

definition ioCall :: "('x store \<Rightarrow> 'x store) \<Rightarrow> ('x, bool \<times> goError option) op" where
  "ioCall f w =
     (case dkEvents w of
        [] \<Rightarrow> (Some (True, None), f w)
      | e # es \<Rightarrow>
         (let w' = w\<lparr>dkEvents := es, dkClock := dkClock w + int (ioDelay e)\<rparr> in
          case ioAnswer e of
            IoWorks \<Rightarrow> (Some (True, None), f w')
          | IoFails done msg \<Rightarrow> (Some (done, Some (plainError msg)), if done then f w' else w')
          | IoKills done \<Rightarrow> (None, if done then f w' else w')))"

definition ioStep :: "('x store \<Rightarrow> 'x store) \<Rightarrow> ('x, goError + unit) op" where
  "ioStep f = bindOp (ioCall f) (\<lambda>(_, err). retOp (case err of None \<Rightarrow> Inr () | Some e \<Rightarrow> Inl e))"

text \<open>A call that reads.\<close>

definition ioRead :: "('x store \<Rightarrow> 'a) \<Rightarrow> ('x, goError + 'a) op" where
  "ioRead f = tryOp (ioStep id) (\<lambda>_ w. (Some (Inr (f w)), w))"

section \<open>Reading\<close>

text \<open>What \<open>os.IsNotExist\<close> tells apart.\<close>

datatype fileRead = FileBytes string | FileMissing goError | ReadFails goError

definition maxFileSize :: int where
  "maxFileSize = 52428800"

definition fileTooLarge :: "int \<Rightarrow> goError" where
  "fileTooLarge n =
     ErrWithSuggestion (''file too large: '' @ intToString n @ '' bytes (max '' @ intToString maxFileSize @ '')'')
       ''use a smaller regular file'' ''file_too_large''"

definition notExistErr :: "string \<Rightarrow> goError" where
  "notExistErr path = plainError (''openat '' @ path @ '': no such file or directory'')"

definition readRegularFile :: "string \<Rightarrow> ('x, fileRead) op" where
  "readRegularFile resolved =
     bindOp (ioRead (\<lambda>w. dkFiles w resolved))
       (\<lambda>r. retOp (case r of
          Inl err \<Rightarrow> ReadFails err
        | Inr None \<Rightarrow> FileMissing (notExistErr resolved)
        | Inr (Some f) \<Rightarrow>
            (if maxFileSize < int (length (fileData f)) then ReadFails (fileTooLarge (int (length (fileData f))))
             else FileBytes (fileData f))))"

section \<open>Stale reads\<close>

definition recordStamp :: "string \<Rightarrow> int \<Rightarrow> int \<Rightarrow> 'x store \<Rightarrow> 'x store" where
  "recordStamp path mtime n w =
     w\<lparr>dkStamps := (dkStamps w)(path \<mapsto> \<lparr>stampTime = mtime, stampSize = n\<rparr>)\<rparr>"

text \<open>A stat that fails lets the write through, as does a file never read.\<close>

definition checkStale :: "string \<Rightarrow> ('x, goError + unit) op" where
  "checkStale resolved = getOp (\<lambda>w.
     case dkStamps w resolved of
        None \<Rightarrow> retOp (Inr ())
      | Some rec \<Rightarrow>
         bindOp (ioRead (\<lambda>w. dkFiles w resolved))
           (\<lambda>r. retOp (case r of
              Inr (Some f) \<Rightarrow>
                (if stampTime rec < fileTime f \<or> int (length (fileData f)) \<noteq> stampSize rec
                 then Inl (plainError (''file modified since last read (mtime or size changed). Re-read before writing: ''
                        @ pathBase resolved))
                 else Inr ())
            | _ \<Rightarrow> Inr ())))"

text \<open>\<open>%.12s\<close>: the first runes of a string.\<close>

fun firstRunes :: "nat \<Rightarrow> string \<Rightarrow> string" where
  "firstRunes 0 s = []"
| "firstRunes (Suc n) s =
     (let k = snd (decodeRune s) in take k s @ firstRunes n (drop k s))"

definition ellipsis :: string where
  "ellipsis = [CHR 0xE2, CHR 0x80, CHR 0xA6]"

definition verifyChecksum :: "(string \<Rightarrow> string) \<Rightarrow> string \<Rightarrow> string \<Rightarrow> string \<Rightarrow> bool \<Rightarrow> goError + unit" where
  "verifyChecksum sha want path current exists =
     (if want = [] then Inr ()
      else if \<not> exists
        then Inl (ErrWithSuggestion (''stale write rejected: '' @ path @ '' no longer exists (if_checksum was set)'')
               ''re-read the file, then retry with the new checksum'' ''stale_file'')
      else if \<not> equalFold (sha current) want
        then Inl (ErrWithSuggestion
               (''stale write rejected: '' @ path @ '' changed since read (checksum '' @ firstRunes 12 (sha current) @
                ellipsis @ '' != expected '' @ firstRunes 12 want @ ellipsis @ '')'')
               ''re-read the file, then retry with the new checksum'' ''stale_file'')
      else Inr ())"

text \<open>The expected content is \<open>None\<close> when the file is expected not to exist.\<close>

definition verifyPreflightState :: "engineConfig \<Rightarrow> string \<Rightarrow> string option \<Rightarrow> ('x, goError + unit) op" where
  "verifyPreflightState cf path expected =
     bindOp (readRegularFile path)
       (\<lambda>r. retOp (case r of
          ReadFails err \<Rightarrow> Inl (wrapErr ''re-read before write: '' err)
        | FileMissing _ \<Rightarrow>
            (case expected of None \<Rightarrow> Inr ()
             | Some _ \<Rightarrow> Inl (ErrWithSuggestion (''stale write rejected: '' @ path @ '' no longer exists since preflight'')
                 ''re-read the file, reconcile the external change, and retry'' ''stale_file''))
        | FileBytes current \<Rightarrow>
            (case expected of
               None \<Rightarrow> Inl (ErrWithSuggestion (''stale write rejected: '' @ path @ '' now exists since preflight'')
                 ''re-read the file, reconcile the external change, and retry'' ''stale_file'')
             | Some bytes \<Rightarrow> verifyChecksum (cfSha256Hex cf) (cfSha256Hex cf bytes) path current True)))"

section \<open>Replacing and removing\<close>

definition putFile :: "string \<Rightarrow> string \<Rightarrow> 'x store \<Rightarrow> 'x store" where
  "putFile path content w =
     w\<lparr>dkFiles := (dkFiles w)(path \<mapsto> \<lparr>fileData = content, fileTime = dkClock w\<rparr>)\<rparr>"

text \<open>
  The two events are the preparation of the temporary file up to its durable close, and the
  rename with the sync of the directory after it; an error of the second can come before the
  rename or after it.  The first component of the result is whether the target was replaced.
\<close>

definition atomicWriteFileStaged ::
  "engineConfig \<Rightarrow> string \<Rightarrow> string \<Rightarrow> ('x, goError + unit) op \<Rightarrow> ('x, bool \<times> goError option) op" where
  "atomicWriteFileStaged cf resolved content beforeRename =
     (case rootRelative (cfWorkDir cf) resolved of
        Inl err \<Rightarrow> retOp (False, Some err)
      | Inr _ \<Rightarrow>
         bindOp (ioStep id)
           (\<lambda>staged. case staged of
              Inl err \<Rightarrow> retOp (False, Some err)
            | Inr _ \<Rightarrow>
               bindOp beforeRename
                 (\<lambda>ok. case ok of
                    Inl err \<Rightarrow> retOp (False, Some err)
                  | Inr _ \<Rightarrow>
                     bindOp (ioCall (putFile resolved content))
                       (\<lambda>(renamed, err). case err of
                          Some e \<Rightarrow> retOp (renamed, Some e)
                        | None \<Rightarrow>
                           bindOp (ioRead (\<lambda>w. dkFiles w resolved))
                             (\<lambda>info w. (Some (True, None),
                                case info of
                                  Inr (Some f) \<Rightarrow> recordStamp resolved (fileTime f) (int (length (fileData f))) w
                                | _ \<Rightarrow> w))))))"

definition atomicWriteFile :: "engineConfig \<Rightarrow> string \<Rightarrow> string \<Rightarrow> ('x, goError + unit) op" where
  "atomicWriteFile cf resolved content =
     bindOp (atomicWriteFileStaged cf resolved content (retOp (Inr ())))
       (\<lambda>(_, err). retOp (case err of None \<Rightarrow> Inr () | Some e \<Rightarrow> Inl e))"

text \<open>The outcome of \<open>removeFileDurable\<close>: what \<open>os.IsNotExist\<close> recognises stands apart.\<close>

datatype removal = Removed | NothingToRemove goError | RemovalFails goError

definition removeFileDurable :: "engineConfig \<Rightarrow> string \<Rightarrow> ('x, removal) op" where
  "removeFileDurable cf resolved =
     (case rootRelative (cfWorkDir cf) resolved of
        Inl err \<Rightarrow> retOp (RemovalFails err)
      | Inr _ \<Rightarrow>
         bindOp (ioStep id)
           (\<lambda>opened. case opened of
              Inl err \<Rightarrow> retOp (RemovalFails (wrapErr ''open parent directory for delete durability: '' err))
            | Inr _ \<Rightarrow>
                getOp (\<lambda>w. if dkFiles w resolved = None
                     then bindOp (ioStep id)
                       (\<lambda>r. retOp (case r of Inl err \<Rightarrow> RemovalFails err
                              | Inr _ \<Rightarrow> NothingToRemove (plainError ''no such file or directory'')))
                     else bindOp (ioStep (\<lambda>w. w\<lparr>dkFiles := (dkFiles w)(resolved := None)\<rparr>))
                       (\<lambda>r. retOp (case r of Inl err \<Rightarrow> RemovalFails err | Inr _ \<Rightarrow> Removed)))))"

section \<open>Locks\<close>

text \<open>Taking a lock can fail; what it protects against is a second process.\<close>

definition withFileLock :: "('x, goError + 'a) op \<Rightarrow> ('x, goError + 'a) op" where
  "withFileLock body = tryOp (ioStep id) (\<lambda>_. body)"

text \<open>
  The lock of the workspace and one for every target, each once.  The order in which \<open>slices.Sort\<close>
  puts them keeps two processes from waiting for each other; a single process does not notice it.
\<close>

definition withTargetLocks :: "string list \<Rightarrow> ('x, goError + 'a) op \<Rightarrow> ('x, goError + 'a) op" where
  "withTargetLocks resolved body =
     withFileLock (foldr (\<lambda>_ inner. withFileLock inner) (remdups resolved) body)"

section \<open>Reasoning about operations\<close>

text \<open>What stays when an operation only reads: files and history.\<close>

definition sameData :: "'x store \<Rightarrow> 'x store \<Rightarrow> bool" where
  "sameData w w' \<longleftrightarrow> dkFiles w' = dkFiles w \<and> dkHistory w' = dkHistory w"

lemma sameData_refl [simp]: "sameData w w"
  by (simp add: sameData_def)

lemma sameData_trans [trans]: "sameData a b \<Longrightarrow> sameData b c \<Longrightarrow> sameData a c"
  by (simp add: sameData_def)

lemma sameData_upd [simp]:
  "sameData w (w'\<lparr>dkEvents := es\<rparr>) = sameData w w'"
  "sameData w (w'\<lparr>dkClock := c\<rparr>) = sameData w w'"
  "sameData w (recordStamp path t n w') = sameData w w'"
  by (simp_all add: sameData_def recordStamp_def)

lemma sameDataD: "sameData w w' \<Longrightarrow> dkFiles w' = dkFiles w" "sameData w w' \<Longrightarrow> dkHistory w' = dkHistory w"
  by (simp_all add: sameData_def)

text \<open>The weakest precondition: \<open>Q\<close> holds of the outcome, \<open>None\<close> for a killed process.\<close>

definition wpOp :: "('x, 'a) op \<Rightarrow> ('a option \<Rightarrow> 'x store \<Rightarrow> bool) \<Rightarrow> 'x store \<Rightarrow> bool" where
  "wpOp m Q w = (case m w of (r, w') \<Rightarrow> Q r w')"

lemma wpD: "wpOp m Q w \<Longrightarrow> m w = (r, w') \<Longrightarrow> Q r w'"
  by (simp add: wpOp_def)

lemma wp_ret [simp]: "wpOp (retOp a) Q w = Q (Some a) w"
  by (simp add: wpOp_def retOp_def)

lemma wp_bind:
  "wpOp (bindOp m f) Q w = wpOp m (\<lambda>r w'. case r of None \<Rightarrow> Q None w' | Some a \<Rightarrow> wpOp (f a) Q w') w"
  by (simp add: wpOp_def bindOp_def split: prod.split option.split)

lemma wp_get [simp]: "wpOp (getOp f) Q w = wpOp (f w) Q w"
  by (simp add: wpOp_def getOp_def)

lemma wp_try:
  "wpOp (tryOp m f) Q w =
   wpOp m (\<lambda>r w'. case r of None \<Rightarrow> Q None w' | Some (Inl e) \<Rightarrow> Q (Some (Inl e)) w'
     | Some (Inr a) \<Rightarrow> wpOp (f a) Q w') w"
  unfolding tryOp_def wp_bind
  by (rule arg_cong [where f = "\<lambda>q. wpOp m q w"]) (auto simp: fun_eq_iff split: option.split sum.split)

lemma wp_mapErr:
  "wpOp (mapErr g m) Q w = wpOp m (\<lambda>r w'. Q (map_option (map_sum g id) r) w') w"
  unfolding mapErr_def wp_bind
  by (rule arg_cong [where f = "\<lambda>q. wpOp m q w"]) (auto simp: fun_eq_iff split: option.split)

lemma wp_bindI:
  "wpOp m (\<lambda>r w'. (r = None \<longrightarrow> Q None w') \<and> (\<forall>a. r = Some a \<longrightarrow> wpOp (f a) Q w')) w \<Longrightarrow> wpOp (bindOp m f) Q w"
  unfolding wp_bind by (auto simp: wpOp_def split: option.split prod.splits)

lemma wp_tryI:
  "wpOp m (\<lambda>r w'. (r = None \<longrightarrow> Q None w') \<and> (\<forall>e. r = Some (Inl e) \<longrightarrow> Q (Some (Inl e)) w') \<and>
     (\<forall>a. r = Some (Inr a) \<longrightarrow> wpOp (f a) Q w')) w \<Longrightarrow> wpOp (tryOp m f) Q w"
  unfolding wp_try by (auto simp: wpOp_def split: option.split sum.split prod.splits)

lemma wp_mono: "wpOp m Q w \<Longrightarrow> (\<And>r w'. Q r w' \<Longrightarrow> Q' r w') \<Longrightarrow> wpOp m Q' w"
  by (auto simp: wpOp_def)

lemma wp_ioCall:
  assumes "\<And>es c. Q (Some (True, None)) (f (w\<lparr>dkEvents := es, dkClock := c\<rparr>))"
    and "\<And>es c. Q None (f (w\<lparr>dkEvents := es, dkClock := c\<rparr>))"
    and "\<And>es c. Q None (w\<lparr>dkEvents := es, dkClock := c\<rparr>)"
    and "\<And>es c e. Q (Some (True, Some e)) (f (w\<lparr>dkEvents := es, dkClock := c\<rparr>))"
    and "\<And>es c e. Q (Some (False, Some e)) (w\<lparr>dkEvents := es, dkClock := c\<rparr>)"
  shows "wpOp (ioCall f) Q w"
proof (cases "dkEvents w")
  case Nil
  then have "w\<lparr>dkEvents := [], dkClock := dkClock w\<rparr> = w" by simp
  with assms(1) [where es = "[]" and c = "dkClock w"] have "Q (Some (True, None)) (f w)" by metis
  then show ?thesis using Nil by (simp add: wpOp_def ioCall_def)
next
  case (Cons e es)
  then show ?thesis using assms by (simp add: wpOp_def ioCall_def Let_def split: ioAnswer.split)
qed

lemma wp_ioStep:
  assumes "\<And>es c. Q (Some (Inr ())) (f (w\<lparr>dkEvents := es, dkClock := c\<rparr>))"
    and "\<And>es c. Q None (f (w\<lparr>dkEvents := es, dkClock := c\<rparr>))"
    and "\<And>es c. Q None (w\<lparr>dkEvents := es, dkClock := c\<rparr>)"
    and "\<And>es c e. Q (Some (Inl e)) (f (w\<lparr>dkEvents := es, dkClock := c\<rparr>))"
    and "\<And>es c e. Q (Some (Inl e)) (w\<lparr>dkEvents := es, dkClock := c\<rparr>)"
  shows "wpOp (ioStep f) Q w"
  unfolding ioStep_def wp_bind by (rule wp_ioCall) (simp_all add: assms)

text \<open>An operation that changes neither files nor history, whatever happens.\<close>

definition quiet :: "('x, 'a) op \<Rightarrow> bool" where
  "quiet m \<longleftrightarrow> (\<forall>w. wpOp m (\<lambda>_. sameData w) w)"

lemma quietD: "quiet m \<Longrightarrow> m w = (r, w') \<Longrightarrow> sameData w w'"
  by (auto simp: quiet_def dest: wpD)

lemma quiet_wp: "quiet m \<Longrightarrow> (\<And>r w'. sameData w w' \<Longrightarrow> Q r w') \<Longrightarrow> wpOp m Q w"
  by (auto simp: quiet_def wpOp_def split: prod.splits)

named_theorems quiet_intros

lemma quiet_ret [quiet_intros]: "quiet (retOp a)"
  by (simp add: quiet_def)

lemma quiet_bind [quiet_intros]: "quiet m \<Longrightarrow> (\<And>a. quiet (f a)) \<Longrightarrow> quiet (bindOp m f)"
  unfolding quiet_def wp_bind
  by (fastforce simp: wpOp_def split: prod.splits option.splits intro: sameData_trans)

lemma quiet_try [quiet_intros]: "quiet m \<Longrightarrow> (\<And>a. quiet (f a)) \<Longrightarrow> quiet (tryOp m f)"
  unfolding tryOp_def by (intro quiet_intros) (auto split: sum.split intro: quiet_intros)

lemma quiet_mapErr [quiet_intros]: "quiet m \<Longrightarrow> quiet (mapErr g m)"
  unfolding mapErr_def by (intro quiet_intros)

lemma quiet_ioStep_id [quiet_intros]: "quiet (ioStep id)"
  unfolding quiet_def by (intro allI wp_ioStep) simp_all

lemma quiet_ioRead [quiet_intros]: "quiet (ioRead f)"
  unfolding ioRead_def by (intro quiet_intros) (simp add: quiet_def wpOp_def)

lemma quiet_get [quiet_intros]: "(\<And>w. quiet (f w)) \<Longrightarrow> quiet (getOp f)"
  by (simp add: quiet_def wpOp_def getOp_def)

lemma quiet_readRegularFile [quiet_intros]: "quiet (readRegularFile path)"
  unfolding readRegularFile_def by (intro quiet_intros)

lemma quiet_checkStale [quiet_intros]: "quiet (checkStale path)"
  unfolding checkStale_def by (auto split: option.split intro!: quiet_intros)

lemma quiet_verifyPreflightState [quiet_intros]: "quiet (verifyPreflightState cf path expected)"
  unfolding verifyPreflightState_def by (intro quiet_intros)

lemma quiet_withFileLock [quiet_intros]: "quiet m \<Longrightarrow> quiet (withFileLock m)"
  unfolding withFileLock_def by (intro quiet_intros)

lemma quiet_withTargetLocks [quiet_intros]: "quiet m \<Longrightarrow> quiet (withTargetLocks targets m)"
proof -
  assume m: "quiet m"
  have "quiet (foldr (\<lambda>_. withFileLock) ts m)" for ts :: "string list"
    by (induction ts) (use m in \<open>auto intro: quiet_intros\<close>)
  then show ?thesis unfolding withTargetLocks_def by (intro quiet_intros)
qed

subsection \<open>What the operations on files do\<close>

lemma wp_ioRead:
  assumes "\<And>w'. sameData w w' \<Longrightarrow> Q None w'" "\<And>e w'. sameData w w' \<Longrightarrow> Q (Some (Inl e)) w'"
    and "\<And>w'. sameData w w' \<Longrightarrow> dkStamps w' = dkStamps w \<Longrightarrow> Q (Some (Inr (f w'))) w'"
  shows "wpOp (ioRead f) Q w"
  unfolding ioRead_def wp_try
  by (rule wp_ioStep) (auto simp: wpOp_def intro: assms)

lemma wp_readRegularFile:
  assumes "\<And>w'. sameData w w' \<Longrightarrow> Q None w'" "\<And>e w'. sameData w w' \<Longrightarrow> Q (Some (ReadFails e)) w'"
    and "\<And>e w'. sameData w w' \<Longrightarrow> dkFiles w path = None \<Longrightarrow> Q (Some (FileMissing e)) w'"
    and "\<And>f w'. sameData w w' \<Longrightarrow> dkFiles w path = Some f \<Longrightarrow> Q (Some (FileBytes (fileData f))) w'"
  shows "wpOp (readRegularFile path) Q w"
  unfolding readRegularFile_def wp_bind
  by (rule wp_ioRead) (auto simp: sameDataD(1) split: option.split intro: assms)

text \<open>What a state looks like that passes the check before the write.\<close>

definition preflightOK :: "(string \<Rightarrow> string) \<Rightarrow> string option \<Rightarrow> diskFile option \<Rightarrow> bool" where
  "preflightOK sha expected current =
     (case (expected, current) of
        (None, None) \<Rightarrow> True
      | (Some bytes, Some f) \<Rightarrow> sha bytes = [] \<or> equalFold (sha (fileData f)) (sha bytes)
      | _ \<Rightarrow> False)"

lemma wp_verifyPreflightState:
  assumes "\<And>w'. sameData w w' \<Longrightarrow> Q None w'" "\<And>e w'. sameData w w' \<Longrightarrow> Q (Some (Inl e)) w'"
    and "\<And>w'. sameData w w' \<Longrightarrow> preflightOK (cfSha256Hex cf) expected (dkFiles w path) \<Longrightarrow> Q (Some (Inr ())) w'"
  shows "wpOp (verifyPreflightState cf path expected) Q w"
  unfolding verifyPreflightState_def wp_bind
  by (rule wp_readRegularFile)
    (auto simp: assms preflightOK_def verifyChecksum_def split: option.split)

end
