(* ===== verification/History.thy ===== *)
theory History
  imports FileStore
begin

text \<open>
  The undo history: \<open>history.go\<close> with the blob codec (\<open>blob_codec.go\<close>), and the one way by which
  tools replace a file, \<open>snapshotAndWrite\<close> of \<open>tool_write.go\<close>, with batches of writes
  (\<open>batch_write.go\<close>, \<open>partial_apply.go\<close>).  gzip, SHA-256 and the formatting of times are
  fields of the configuration.
\<close>

section \<open>The index and the blobs\<close>

definition historyMaxEntries :: nat where
  "historyMaxEntries = 50"

definition historyMaxTotalBytes :: int where
  "historyMaxTotalBytes = 20 * 1024 * 1024"

definition historyMaxBlobBytes :: int where
  "historyMaxBlobBytes = 5 * 1024 * 1024"

definition statePrepared :: string where "statePrepared = ''prepared''"
definition stateCommitted :: string where "stateCommitted = ''committed''"
definition stateAborted :: string where "stateAborted = ''aborted''"
definition stateUncertain :: string where "stateUncertain = ''uncertain''"

lemmas history_states = statePrepared_def stateCommitted_def stateAborted_def stateUncertain_def

record historyIdentity =
  idExists :: bool
  idHash :: string

text \<open>\<open>preContent\<close> is \<open>None\<close> when the file does not exist before the operation.\<close>

record snapshotTransition =
  preContent :: "string option"
  expectedAfter :: string
  expectedExists :: bool

record historyEntry =
  heID :: string
  heTarget :: string
  heAbsPath :: string
  heDisplayPath :: string
  heOp :: string
  heBlobID :: string
  heBlobPath :: string
  heBlobSize :: int
  heBlobHash :: string
  heCreated :: bool
  heTimestamp :: int
  heBefore :: historyIdentity
  heExpectedAfter :: historyIdentity
  heState :: string

record historyFile =
  hfVersion :: nat
  hfEntries :: "historyEntry list"

text \<open>The index file and the blobs by their names in the blobs directory.\<close>

record historyDisk =
  hdIndex :: "historyFile option"
  hdBlobs :: "string \<Rightarrow> string option"

type_synonym 'a hop = "(historyDisk, 'a) op"

record historyConfig = engineConfig +
  cfOwnerDir :: string
  cfHistoryDir :: string
  cfGzip :: "string \<Rightarrow> goError + string"
  cfGunzip :: "int \<Rightarrow> string \<Rightarrow> goError + string"
  cfFormatNano :: "int \<Rightarrow> string"
  cfFormatTime :: "int \<Rightarrow> string"

definition setIndex :: "historyFile \<Rightarrow> historyDisk store \<Rightarrow> historyDisk store" where
  "setIndex hf w = w\<lparr>dkHistory := (dkHistory w)\<lparr>hdIndex := Some hf\<rparr>\<rparr>"

definition setBlob :: "string \<Rightarrow> string option \<Rightarrow> historyDisk store \<Rightarrow> historyDisk store" where
  "setBlob name content w =
     w\<lparr>dkHistory := (dkHistory w)\<lparr>hdBlobs := (hdBlobs (dkHistory w))(name := content)\<rparr>\<rparr>"

definition blobsDir :: "historyConfig \<Rightarrow> string" where
  "blobsDir cf = filepathJoin (cfHistoryDir cf) ''blobs''"

section \<open>The blob codec\<close>

definition blobRawThreshold :: nat where
  "blobRawThreshold = 64"

definition blobDecodeMax :: int where
  "blobDecodeMax = historyMaxBlobBytes * 2"

definition rawBlob :: "string \<Rightarrow> string" where
  "rawBlob plain = CHR 0x00 # plain"

definition encodeBlob :: "historyConfig \<Rightarrow> string \<Rightarrow> goError + string" where
  "encodeBlob cf plain =
     (if length plain < blobRawThreshold then Inr (rawBlob plain)
      else case cfGzip cf plain of
        Inl err \<Rightarrow> Inl err
      | Inr zipped \<Rightarrow>
          (if length plain \<le> length zipped then Inr (rawBlob plain) else Inr (CHR 0x01 # zipped)))"

text \<open>
  \<open>cfGunzip\<close> reads at most the given number of bytes; its error says whether the header or the body
  was bad.  A nil result is the empty string, which is all the callers see of it.
\<close>

definition decodeBlob :: "historyConfig \<Rightarrow> string \<Rightarrow> goError + string" where
  "decodeBlob cf b =
     (case b of
        [] \<Rightarrow> Inr []
      | t # body \<Rightarrow>
          (if t = CHR 0x00 then Inr body
           else if t = CHR 0x01
             then (case cfGunzip cf (blobDecodeMax + 1) body of
                     Inl err \<Rightarrow> Inl (wrapErr ''blob: gzip '' err)
                   | Inr out \<Rightarrow>
                      (if blobDecodeMax < int (length out)
                       then Inl (plainError (''blob: decompressed size exceeds '' @ intToString blobDecodeMax @ '' bytes''))
                       else Inr out))
           else Inl (plainError ''blob: unknown codec tag'')))"

section \<open>Loading, saving, eviction\<close>

definition loadHistory :: "(goError + historyFile) hop" where
  "loadHistory =
     bindOp (ioRead (\<lambda>w. hdIndex (dkHistory w)))
       (\<lambda>r. retOp (case r of
          Inl err \<Rightarrow> Inl (wrapErr ''history: read index: '' err)
        | Inr None \<Rightarrow> Inr \<lparr>hfVersion = 2, hfEntries = []\<rparr>
        | Inr (Some hf) \<Rightarrow> Inr (if hfVersion hf = 0 then hf\<lparr>hfVersion := 1\<rparr> else hf)))"

definition saveHistory :: "historyFile \<Rightarrow> (goError + unit) hop" where
  "saveHistory hf = mapErr (wrapErr ''history: '') (ioStep (setIndex hf))"

definition totalBlobSize :: "historyEntry list \<Rightarrow> int" where
  "totalBlobSize entries = sum_list (map heBlobSize entries)"

text \<open>The second loop of \<open>evictHistory\<close>, with the total computed once and reduced.\<close>

fun evictBySize :: "int \<Rightarrow> historyEntry list \<Rightarrow> historyEntry list \<times> historyEntry list" where
  "evictBySize remaining [] = ([], [])"
| "evictBySize remaining (ent # entries) =
     (if historyMaxTotalBytes < remaining
      then (let (evicted, left) = evictBySize (remaining - heBlobSize ent) entries in (ent # evicted, left))
      else ([], ent # entries))"

text \<open>The evicted entries and those that stay.\<close>

definition evictHistory :: "historyEntry list \<Rightarrow> historyEntry list \<times> historyEntry list" where
  "evictHistory entries =
     (let k = length entries - historyMaxEntries; byCount = take k entries; rest = drop k entries;
          (bySize, left) = evictBySize (totalBlobSize rest) rest
      in (byCount @ bySize, left))"

definition removeBlob :: "historyConfig \<Rightarrow> historyEntry \<Rightarrow> unit hop" where
  "removeBlob cf ent =
     (let legacy = pathClean (heBlobPath ent) in
      if heBlobID ent \<noteq> [] \<and> pathBase (heBlobID ent) = heBlobID ent
      then bindOp (ioStep (setBlob (heBlobID ent) None)) (\<lambda>_. retOp ())
      else if pathDir legacy = pathClean (blobsDir cf) \<and> pathBase legacy \<noteq> ''.''
        then bindOp (ioStep (setBlob (pathBase legacy) None)) (\<lambda>_. retOp ())
      else retOp ())"

fun removeBlobs :: "historyConfig \<Rightarrow> historyEntry list \<Rightarrow> unit hop" where
  "removeBlobs cf [] = retOp ()"
| "removeBlobs cf (ent # entries) = bindOp (removeBlob cf ent) (\<lambda>_. removeBlobs cf entries)"

section \<open>Reconciliation\<close>

definition historyTargetIdentity :: "historyConfig \<Rightarrow> string \<Rightarrow> (goError + historyIdentity) hop" where
  "historyTargetIdentity cf resolved =
     bindOp (readRegularFile resolved)
       (\<lambda>r. retOp (case r of
          FileMissing _ \<Rightarrow> Inr \<lparr>idExists = False, idHash = []\<rparr>
        | ReadFails err \<Rightarrow> Inl err
        | FileBytes bytes \<Rightarrow> Inr \<lparr>idExists = True, idHash = cfSha256Hex cf bytes\<rparr>))"

definition clearHint :: string where
  "clearHint = ''use action='' @ goQuote ''clear'' @ '' to reset history if this entry is corrupt''"

definition resolveUndoTarget :: "historyConfig \<Rightarrow> historyEntry \<Rightarrow> goError + string" where
  "resolveUndoTarget cf ent =
     (case checkPathForMutation (cfLinks cf) (cfOwnerDir cf)
             (if heTarget ent = [] then heDisplayPath ent else heTarget ent) of
        Inl err \<Rightarrow> Inl (ErrWithSuggestion (''restore: path security check failed: '' @ Err err) clearHint [])
      | Inr resolved \<Rightarrow>
          (if heAbsPath ent \<noteq> [] \<and> resolved \<noteq> heAbsPath ent
           then Inl (ErrWithSuggestion (''restore: legacy path mismatch (index has '' @ goQuote (heAbsPath ent) @
                       '', resolved to '' @ goQuote resolved @ '')'') clearHint [])
           else Inr resolved))"

text \<open>The state an entry gets, and whether that is a change.\<close>

definition reconcileEntry :: "historyConfig \<Rightarrow> historyEntry \<Rightarrow> (historyEntry \<times> bool) hop" where
  "reconcileEntry cf ent =
     (let uncertain = (ent\<lparr>heState := stateUncertain\<rparr>, True) in
      if heState ent = [] then retOp (ent\<lparr>heState := stateCommitted\<rparr>, True)
      else if heState ent = stateUncertain then retOp (ent, False)
      else if heState ent \<noteq> statePrepared then retOp (ent, False)
      else if idHash (heExpectedAfter ent) = [] \<and> idExists (heExpectedAfter ent) then retOp uncertain
      else case resolveUndoTarget cf ent of
        Inl _ \<Rightarrow> retOp uncertain
      | Inr resolved \<Rightarrow>
          bindOp (historyTargetIdentity cf resolved)
            (\<lambda>r. retOp (case r of
               Inl _ \<Rightarrow> uncertain
             | Inr identity \<Rightarrow>
                (ent\<lparr>heState := (if identity = heExpectedAfter ent then stateCommitted
                                else if identity = heBefore ent then stateAborted
                                else stateUncertain)\<rparr>, True))))"

fun reconcileEntries :: "historyConfig \<Rightarrow> historyEntry list \<Rightarrow> (historyEntry list \<times> bool) hop" where
  "reconcileEntries cf [] = retOp ([], False)"
| "reconcileEntries cf (ent # entries) =
     bindOp (reconcileEntry cf ent) (\<lambda>(ent', changed).
       bindOp (reconcileEntries cf entries) (\<lambda>(entries', changed').
         retOp (ent' # entries', changed \<or> changed')))"

definition reconcileHistoryLocked :: "historyConfig \<Rightarrow> historyFile \<Rightarrow> (goError + historyFile) hop" where
  "reconcileHistoryLocked cf hf =
     bindOp (reconcileEntries cf (hfEntries hf)) (\<lambda>(entries, changed).
       if changed
       then (let hf' = \<lparr>hfVersion = 2, hfEntries = entries\<rparr> in
             tryOp (saveHistory hf') (\<lambda>_. retOp (Inr hf')))
       else retOp (Inr (hf\<lparr>hfEntries := entries\<rparr>)))"

definition loadHistoryLocked :: "historyConfig \<Rightarrow> (goError + historyFile) hop" where
  "loadHistoryLocked cf = withFileLock (tryOp loadHistory (reconcileHistoryLocked cf))"

section \<open>Recording a snapshot\<close>

definition validateSnapshotSize :: "string \<Rightarrow> string option \<Rightarrow> goError + unit" where
  "validateSnapshotSize displayPath pre =
     (let n = (case pre of None \<Rightarrow> 0 | Some s \<Rightarrow> int (length s)) in
      if n \<le> historyMaxBlobBytes then Inr ()
      else Inl (ErrWithSuggestion
        (''cannot mutate '' @ displayPath @ '': undo snapshot limit is '' @ intToString historyMaxBlobBytes @
         '' bytes (pre-content is '' @ intToString n @ '' bytes)'')
        (''reduce the existing file below '' @ intToString historyMaxBlobBytes @ '' bytes before mutating it'')
        ''file_too_large''))"

text \<open>The two events are the directory and the write of the blob.\<close>

definition writeBlobForSnapshot :: "historyConfig \<Rightarrow> string \<Rightarrow> string \<Rightarrow> (goError + unit) hop" where
  "writeBlobForSnapshot cf ident pre =
     tryOp (ioStep id) (\<lambda>_.
       case encodeBlob cf pre of
         Inl err \<Rightarrow> retOp (Inl err)
       | Inr encoded \<Rightarrow> ioStep (setBlob (ident @ ''.blob'') (Some encoded)))"

definition snapshotID :: "historyConfig \<Rightarrow> string \<Rightarrow> int \<Rightarrow> string" where
  "snapshotID cf absPath ts = take 16 (cfSha256Hex cf (cfWorkDir cf @ absPath @ cfFormatNano cf ts))"

definition snapshotEntry ::
  "historyConfig \<Rightarrow> string \<Rightarrow> string \<Rightarrow> string \<Rightarrow> string \<Rightarrow> snapshotTransition \<Rightarrow> int \<Rightarrow> historyEntry" where
  "snapshotEntry cf ident target displayPath opName transition ts =
     (let created = preContent transition = None;
          pre = (case preContent transition of None \<Rightarrow> [] | Some s \<Rightarrow> s);
          hash = (if created then [] else cfSha256Hex cf pre)
      in \<lparr>heID = ident, heTarget = target, heAbsPath = [], heDisplayPath = displayPath, heOp = opName,
          heBlobID = (if created then [] else ident @ ''.blob''), heBlobPath = [],
          heBlobSize = (if created then 0 else int (length pre)),
          heBlobHash = hash, heCreated = created, heTimestamp = ts,
          heBefore = \<lparr>idExists = \<not> created, idHash = hash\<rparr>,
          heExpectedAfter = \<lparr>idExists = expectedExists transition,
            idHash = (if expectedExists transition then cfSha256Hex cf (expectedAfter transition) else [])\<rparr>,
          heState = statePrepared\<rparr>)"

definition recordSnapshotLockedStrict ::
  "historyConfig \<Rightarrow> string \<Rightarrow> string \<Rightarrow> string \<Rightarrow> snapshotTransition \<Rightarrow> (goError + string) hop" where
  "recordSnapshotLockedStrict cf absPath displayPath opName transition =
     tryOp loadHistory (\<lambda>hf. getOp (\<lambda>w.
       let ts = dkClock w; ident = snapshotID cf absPath ts in
       tryOp (case preContent transition of None \<Rightarrow> retOp (Inr ()) | Some pre \<Rightarrow> writeBlobForSnapshot cf ident pre)
         (\<lambda>_. case rootRelative (cfOwnerDir cf) absPath of
            Inl err \<Rightarrow> retOp (Inl err)
          | Inr target \<Rightarrow>
             (let ent = snapshotEntry cf ident target displayPath opName transition ts;
                  (evicted, left) = evictHistory (hfEntries hf @ [ent])
              in bindOp (saveHistory \<lparr>hfVersion = 2, hfEntries = left\<rparr>)
                   (\<lambda>saved. case saved of
                      Inl err \<Rightarrow>
                        (if heBlobID ent \<noteq> []
                         then bindOp (ioStep (setBlob (heBlobID ent) None)) (\<lambda>_. retOp (Inl err))
                         else retOp (Inl err))
                    | Inr _ \<Rightarrow> bindOp (removeBlobs cf evicted) (\<lambda>_. retOp (Inr ident)))))))"

definition recordSnapshotForMutation ::
  "historyConfig \<Rightarrow> string \<Rightarrow> string \<Rightarrow> string \<Rightarrow> snapshotTransition \<Rightarrow> (goError + string) hop" where
  "recordSnapshotForMutation cf absPath displayPath opName transition =
     (case validateSnapshotSize displayPath (preContent transition) of
        Inl err \<Rightarrow> retOp (Inl err)
      | Inr _ \<Rightarrow> mapErr (wrapErr ''prepare undo snapshot: '')
          (withFileLock (recordSnapshotLockedStrict cf absPath displayPath opName transition)))"

text \<open>The state of the first entry with the given ID, if there is one.\<close>

fun setState :: "string \<Rightarrow> string \<Rightarrow> historyEntry list \<Rightarrow> historyEntry list option" where
  "setState ident state [] = None"
| "setState ident state (ent # entries) =
     (if heID ent = ident then Some (ent\<lparr>heState := state\<rparr> # entries)
      else map_option (Cons ent) (setState ident state entries))"

definition markSnapshotState :: "string \<Rightarrow> string \<Rightarrow> (goError + unit) hop" where
  "markSnapshotState ident state =
     (if ident = [] then retOp (Inr ())
      else if state \<notin> {statePrepared, stateCommitted, stateAborted, stateUncertain}
        then retOp (Inl (plainError (''invalid history state '' @ goQuote state)))
      else withFileLock (tryOp loadHistory (\<lambda>hf.
        case setState ident state (hfEntries hf) of
          None \<Rightarrow> retOp (Inl (plainError (''history entry '' @ ident @ '' disappeared before '' @ state)))
        | Some entries \<Rightarrow> saveHistory (hf\<lparr>hfEntries := entries\<rparr>))))"

section \<open>The write\<close>

definition snapshotAndWrite ::
  "historyConfig \<Rightarrow> string \<Rightarrow> string \<Rightarrow> string \<Rightarrow> string option \<Rightarrow> string \<Rightarrow> (goError + string) hop" where
  "snapshotAndWrite cf resolved displayPath opName pre content =
     tryOp (recordSnapshotForMutation cf resolved displayPath opName
              \<lparr>preContent = pre, expectedAfter = content, expectedExists = True\<rparr>) (\<lambda>ident.
       bindOp (atomicWriteFileStaged (engineConfig.truncate cf) resolved content
                (verifyPreflightState (engineConfig.truncate cf) resolved pre))
         (\<lambda>(mutated, failed).
            case failed of
              Some err \<Rightarrow>
                bindOp (markSnapshotState ident (if mutated then stateUncertain else stateAborted))
                  (\<lambda>_. retOp (Inl err))
            | None \<Rightarrow>
                bindOp (markSnapshotState ident stateCommitted)
                  (\<lambda>marked. case marked of
                     Inl err \<Rightarrow> bindOp (markSnapshotState ident stateUncertain)
                       (\<lambda>_. retOp (Inl (wrapErr ''mutation committed but history state is uncertain: '' err)))
                   | Inr _ \<Rightarrow> retOp (Inr ident))))"

text \<open>
  The undo ID that \<open>snapshotAndWrite\<close> returns next to an error is dropped by all its callers, so
  the model's error carries none.
\<close>

section \<open>Batches\<close>

record appliedRef =
  arPath :: string
  arUndoID :: string
  arResolved :: string

definition partialApplyErr :: "string \<Rightarrow> appliedRef list \<Rightarrow> nat \<Rightarrow> goError \<Rightarrow> goError" where
  "partialApplyErr opName applied targets failErr =
     (if applied = [] then failErr
      else ErrWithSuggestion
        (opName @ '': partial apply '' @ emdash @ '' '' @
         natToString (length (remdups (map (\<lambda>a. if arResolved a = [] then arPath a else arResolved a) applied))) @ '' of '' @
         natToString targets @ '' files already written: '' @
         joinStr '', '' (map (\<lambda>a. if arUndoID a \<noteq> [] then arPath a @ '' (undo id='' @ arUndoID a @ '')'' else arPath a) applied) @
         ''; '' @ Err failErr)
        (''restore already-applied files with undo action='' @ goQuote ''restore'' @
         '' id=<id>, then fix the error and retry'')
        (if Code failErr \<noteq> [] then Code failErr else ''conflict''))"

end
