(* ===== verification/FileTools.thy ===== *)
theory FileTools
  imports History MultiEdit PatchApply
begin

text \<open>
  The tools that change files: \<open>write_file\<close>, \<open>edit_file\<close>, \<open>multi_edit\<close> and \<open>apply_patch\<close>, each
  a preflight that reads, checks and computes, and a mutation phase of \<open>snapshotAndWrite\<close>s.
\<close>

section \<open>Batches of prepared writes\<close>

text \<open>
  The loop of \<open>commitPreparedWrites\<close>.  \<open>committed\<close> is the caller's callback, run after every write;
  what it makes is collected.
\<close>

fun commitFrom ::
  "historyConfig \<Rightarrow> string \<Rightarrow> nat \<Rightarrow> (nat \<Rightarrow> 'a hop) \<Rightarrow> appliedRef list \<Rightarrow> nat \<Rightarrow> preparedWrite list
     \<Rightarrow> (goError + 'a list) hop" where
  "commitFrom cf opName targets committed applied k [] = retOp (Inr [])"
| "commitFrom cf opName targets committed applied k (w # ws) =
     (let fail = (\<lambda>err. Inl (partialApplyErr opName applied targets (wrapErr (pwPath w @ '': '') err))) in
      bindOp (verifyPreflightState (engineConfig.truncate cf) (pwResolved w) (Some (pwPreContent w)))
        (\<lambda>ok. case ok of
           Inl err \<Rightarrow> retOp (fail err)
         | Inr _ \<Rightarrow>
            bindOp (snapshotAndWrite cf (pwResolved w) (pwPath w) opName (Some (pwPreContent w)) (pwUpdated w))
              (\<lambda>written. case written of
                 Inl err \<Rightarrow> retOp (fail err)
               | Inr ident \<Rightarrow>
                  bindOp (committed k) (\<lambda>a.
                    bindOp (commitFrom cf opName targets committed
                              (applied @ [\<lparr>arPath = pwPath w, arUndoID = ident, arResolved = pwResolved w\<rparr>])
                              (Suc k) ws)
                      (\<lambda>rest. retOp (map_sum id (Cons a) rest))))))"

definition commitPreparedWrites ::
  "historyConfig \<Rightarrow> string \<Rightarrow> preparedWrite list \<Rightarrow> (nat \<Rightarrow> 'a hop) \<Rightarrow> (goError + 'a list) hop" where
  "commitPreparedWrites cf opName writes committed =
     commitFrom cf opName (length (remdups (map pwResolved writes))) committed [] 0 writes"

section \<open>write\_file\<close>

definition invalidArgs :: "string \<Rightarrow> string \<Rightarrow> goError + 'a" where
  "invalidArgs e hint = Inl (ErrWithSuggestion e hint ''invalid_args'')"

definition verifyIfChecksum :: "historyConfig \<Rightarrow> toolArgs \<Rightarrow> string \<Rightarrow> string \<Rightarrow> bool \<Rightarrow> goError + unit" where
  "verifyIfChecksum cf args path current exists =
     verifyChecksum (cfSha256Hex cf) (strArg args ''if_checksum'') path current exists"

text \<open>The rest of \<open>writeFileLocked\<close> once the current content is read; \<open>None\<close> when there is no file.\<close>

definition writeFileFrom ::
  "historyConfig \<Rightarrow> toolArgs \<Rightarrow> string \<Rightarrow> string \<Rightarrow> string \<Rightarrow> string option \<Rightarrow> (goError + string) hop" where
  "writeFileFrom cf args path content resolved pre =
     (let exists = pre \<noteq> None; current = (case pre of None \<Rightarrow> [] | Some bytes \<Rightarrow> bytes) in
      tryOp (retOp (verifyIfChecksum cf args path current exists)) (\<lambda>_.
        if boolArg args ''dry_run''
        then retOp (Inr (if \<not> exists
               then ''[dry-run] would create '' @ path @ '' ('' @ natToString (length content) @ '' bytes)''
               else unifiedDiff current content path))
        else if cfPreconditions cf \<and> exists \<and> strArg args ''if_checksum'' = []
          then retOp (invalidArgs (''if_checksum is required to replace existing file '' @ path)
                 ''read the file with include_checksum=true and retry with that digest'')
        else if cfPreconditions cf \<and> \<not> exists \<and> \<not> boolArg args ''if_absent''
          then retOp (invalidArgs (''if_absent:true is required to create '' @ path)
                 ''set if_absent:true after confirming the target should not exist'')
        else tryOp (verifyPreflightState (engineConfig.truncate cf) resolved pre) (\<lambda>_.
               tryOp (snapshotAndWrite cf resolved path ''write_file'' pre content) (\<lambda>_.
                 retOp (Inr (''wrote '' @ natToString (length content) @ '' bytes to '' @ path))))))"

definition writeFileLocked ::
  "historyConfig \<Rightarrow> toolArgs \<Rightarrow> string \<Rightarrow> string \<Rightarrow> string \<Rightarrow> (goError + string) hop" where
  "writeFileLocked cf args path content resolved =
     (if strArg args ''if_checksum'' \<noteq> [] \<and> boolArg args ''if_absent''
      then retOp (invalidArgs ''if_checksum and if_absent:true are mutually exclusive''
             ''use if_checksum for a replacement or if_absent:true for a creation'')
      else tryOp (checkStale resolved) (\<lambda>_.
        bindOp (readRegularFile resolved) (\<lambda>r. case r of
          ReadFails err \<Rightarrow> retOp (Inl (wrapErr ''read current target: '' err))
        | FileMissing _ \<Rightarrow> writeFileFrom cf args path content resolved None
        | FileBytes bytes \<Rightarrow> writeFileFrom cf args path content resolved (Some bytes))))"

definition checkMutation :: "historyConfig \<Rightarrow> string \<Rightarrow> goError + string" where
  "checkMutation cf path = checkPathForMutation (cfLinks cf) (cfWorkDir cf) path"

definition writeFile :: "historyConfig \<Rightarrow> toolArgs \<Rightarrow> (goError + string) hop" where
  "writeFile cf args =
     (let path = strArg args ''path''; content = strArg args ''content'' in
      case checkMutation cf path of
        Inl err \<Rightarrow> retOp (Inl err)
      | Inr resolved \<Rightarrow> withTargetLocks [resolved] (writeFileLocked cf args path content resolved))"

section \<open>edit\_file\<close>

record fileToolResult =
  ftText :: string
  ftEdit :: "editDetails option"

definition emptyOldText :: "string \<Rightarrow> goError" where
  "emptyOldText where' =
     ErrWithSuggestion (where' @ ''old_text cannot be empty'')
       (dash ''provide a non-empty string to match''
         ''to insert at file start, include the existing first line in old_text and prepend in new_text'')
       ''old_text_empty''"

definition loadEditTarget :: "historyConfig \<Rightarrow> string \<Rightarrow> string \<Rightarrow> (goError + (string \<times> string)) hop" where
  "loadEditTarget cf path oldText =
     (if oldText = [] then retOp (Inl (emptyOldText []))
      else case checkMutation cf path of
        Inl err \<Rightarrow> retOp (Inl err)
      | Inr resolved \<Rightarrow>
          tryOp (checkStale resolved) (\<lambda>_.
            bindOp (readRegularFile resolved) (\<lambda>r. retOp (case r of
              FileMissing _ \<Rightarrow> Inl (ErrWithSuggestion (''file not found: '' @ path)
                ''verify the path exists with list_dir or check for typos'' ''file_not_found'')
            | ReadFails err \<Rightarrow> Inl err
            | FileBytes bytes \<Rightarrow> Inr (resolved, bytes)))))"

text \<open>A computation that may not return: then neither does the tool.\<close>

definition runOp :: "'a option \<Rightarrow> 'a hop" where
  "runOp r w = (r, w)"

text \<open>The context shown after an edit, when the file can be read again.\<close>

definition editContext :: "string \<Rightarrow> matchInfo \<Rightarrow> string \<Rightarrow> nat \<Rightarrow> string hop" where
  "editContext resolved info newText showContext =
     (if showContext = 0 then retOp []
      else bindOp (readRegularFile resolved) (\<lambda>r. retOp (case r of
        FileBytes bytes \<Rightarrow> [newline] @ ''--- context ---'' @ [newline] @
          formatEditContext bytes info (countStr newText [newline] + 1) showContext
      | _ \<Rightarrow> [])))"

definition editResultText ::
  "string \<Rightarrow> string \<Rightarrow> string \<Rightarrow> string \<Rightarrow> matchInfo \<Rightarrow> bool \<Rightarrow> nat \<Rightarrow> string hop" where
  "editResultText resolved path oldText newText info fuzzy showContext =
     bindOp (editContext resolved info newText showContext) (\<lambda>ctx. retOp
       (''edited '' @ path @ '': lines '' @ natToString (startLine info) @ ''-'' @ natToString (endLine info) @
        '' ('' @ natToString (countStr oldText [newline] + 1) @ '' lines) replaced with '' @
        natToString (countStr newText [newline] + 1) @ '' lines'' @
        (if fuzzy then '' (fuzzy match: normalized whitespace/quotes)'' else []) @ ctx))"

definition noChangeErr :: goError where
  "noChangeErr =
     ErrWithSuggestion ''edit produced no changes''
       (dash ''old_text and new_text are equivalent (possibly after fuzzy normalization)'' ''verify the intended change'')
       ''edit_no_change''"

text \<open>The rest of \<open>editFileLocked\<close> once the target is loaded.\<close>

definition editFileFrom ::
  "historyConfig \<Rightarrow> toolArgs \<Rightarrow> string \<Rightarrow> string \<Rightarrow> string \<Rightarrow> bool \<Rightarrow> nat \<Rightarrow> string \<Rightarrow> string
     \<Rightarrow> (goError + fileToolResult) hop" where
  "editFileFrom cf args path oldText newText fuzzyIndent showContext resolved bytes =
     tryOp (retOp (verifyIfChecksum cf args path bytes True)) (\<lambda>_.
       tryOp (mapErr (\<lambda>err. mapApplyEditError err path oldText bytes) (runOp (applyEdit bytes oldText newText fuzzyIndent)))
         (\<lambda>(updated, fuzzy, info).
            if updated = bytes then retOp (Inl noChangeErr)
            else
              (let details = singleEditDetails (diffText (generateEditDiff bytes updated path 3)) info fuzzy newText in
               if boolArg args ''dry_run''
               then retOp (Inr \<lparr>ftText = formatEditPreview bytes updated path fuzzy, ftEdit = Some details\<rparr>)
               else if cfPreconditions cf \<and> strArg args ''if_checksum'' = []
                 then retOp (invalidArgs (''if_checksum is required to edit existing file '' @ path)
                        ''read the file with include_checksum=true and retry with that digest'')
               else tryOp (snapshotAndWrite cf resolved path ''edit_file'' (Some bytes) updated) (\<lambda>_.
                      bindOp (editResultText resolved path oldText newText info fuzzy showContext) (\<lambda>t.
                        retOp (Inr \<lparr>ftText = t, ftEdit = Some details\<rparr>))))))"

definition editFileLocked ::
  "historyConfig \<Rightarrow> toolArgs \<Rightarrow> string \<Rightarrow> string \<Rightarrow> string \<Rightarrow> bool \<Rightarrow> nat \<Rightarrow> (goError + fileToolResult) hop" where
  "editFileLocked cf args path oldText newText fuzzyIndent showContext =
     tryOp (loadEditTarget cf path oldText) (\<lambda>(resolved, bytes).
       editFileFrom cf args path oldText newText fuzzyIndent showContext resolved bytes)"

definition editFile :: "historyConfig \<Rightarrow> toolArgs \<Rightarrow> (goError + fileToolResult) hop" where
  "editFile cf args =
     (let path = strArg args ''path'' in
      case checkMutation cf path of
        Inl err \<Rightarrow> retOp (Inl err)
      | Inr resolved \<Rightarrow>
          withTargetLocks [resolved]
            (editFileLocked cf args path (strArg args ''old_text'') (strArg args ''new_text'')
               (boolArg args ''fuzzy_indent'') (nat (intArg args ''show_context'' 0))))"

section \<open>multi\_edit\<close>

text \<open>
  The loop of \<open>parseAndResolveEdits\<close>; \<open>cache\<close> holds every file's bytes as first read, from which
  both the entries and the content for the overlap check come.
\<close>

definition editPrefix :: "nat \<Rightarrow> string \<Rightarrow> string" where
  "editPrefix i path = ''edit['' @ natToString i @ ''] '' @ path @ '': ''"

definition parseEntry :: "historyConfig \<Rightarrow> bool \<Rightarrow> nat \<Rightarrow> jsonValue \<Rightarrow> (string \<times> string) list
    \<Rightarrow> (goError + (rawEntry \<times> (string \<times> string) list)) hop" where
  "parseEntry cf requireChecksums i raw cache =
     (case raw of
        JObject en \<Rightarrow>
         (let path = strArg en ''path''; oldText = strArg en ''old_text''; want = strArg en ''if_checksum'' in
          if oldText = [] then retOp (Inl (emptyOldText (''edits['' @ natToString i @ '']: '')))
          else case checkMutation cf path of
            Inl err \<Rightarrow> retOp (Inl (wrapErr (editPrefix i path) err))
          | Inr resolved \<Rightarrow>
              tryOp (mapErr (wrapErr (editPrefix i path)) (checkStale resolved)) (\<lambda>_.
                tryOp (case map_of cache resolved of
                         Some bytes \<Rightarrow> retOp (Inr (bytes, cache))
                       | None \<Rightarrow> bindOp (readRegularFile resolved) (\<lambda>r. retOp (case r of
                           FileBytes bytes \<Rightarrow> Inr (bytes, (resolved, bytes) # cache)
                         | FileMissing err \<Rightarrow> Inl (wrapErr (editPrefix i path) err)
                         | ReadFails err \<Rightarrow> Inl (wrapErr (editPrefix i path) err))))
                  (\<lambda>(bytes, cache'). retOp
                     (case verifyChecksum (cfSha256Hex cf) want path bytes True of
                        Inl err \<Rightarrow> Inl (wrapErr (editPrefix i path) err)
                      | Inr _ \<Rightarrow>
                         (if requireChecksums \<and> want = []
                          then invalidArgs (''edits['' @ natToString i @ '']: if_checksum is required for '' @ path)
                            ''read each file with include_checksum=true and include its digest in every edit entry''
                          else Inr (\<lparr>enIdx = i, enPath = path, enResolved = resolved, enOldText = oldText,
                                 enNewText = strArg en ''new_text'', enFuzzyIndent = boolArg en ''fuzzy_indent'',
                                 enShowContext = nat (intArg en ''show_context'' 0), enOrigData = bytes\<rparr>,
                               cache'))))))
      | _ \<Rightarrow> retOp (Inl (plainError (''edit['' @ natToString i @ '']: invalid format''))))"

fun parseEntries :: "historyConfig \<Rightarrow> bool \<Rightarrow> nat \<Rightarrow> jsonValue list \<Rightarrow> (string \<times> string) list
    \<Rightarrow> (goError + (rawEntry list \<times> (string \<times> string) list)) hop" where
  "parseEntries cf requireChecksums i [] cache = retOp (Inr ([], cache))"
| "parseEntries cf requireChecksums i (raw # raws) cache =
     tryOp (parseEntry cf requireChecksums i raw cache) (\<lambda>(en, cache').
       tryOp (parseEntries cf requireChecksums (Suc i) raws cache') (\<lambda>(ens, cache'').
         retOp (Inr (en # ens, cache''))))"

text \<open>\<open>originalContent\<close>: the bytes without the byte order mark.\<close>

definition originalContent :: "(string \<times> string) list \<Rightarrow> string \<Rightarrow> string" where
  "originalContent cache path =
     (case map_of cache path of None \<Rightarrow> [] | Some bytes \<Rightarrow> fst (stripBom bytes))"

text \<open>The line the callback of \<open>writePendingEdits\<close> adds for a group.\<close>

definition editedLine :: "pendingEdit \<Rightarrow> string hop" where
  "editedLine ed =
     bindOp (editContext (peResolved ed) (peMatchInfo ed) (peNewText ed) (peShowContext ed)) (\<lambda>ctx. retOp
       (''edited '' @ pePath ed @ (if peFuzzy ed then '' (fuzzy match)'' else []) @ ctx))"

definition writePendingEdits :: "historyConfig \<Rightarrow> pendingEdit list \<Rightarrow> (goError + string list) hop" where
  "writePendingEdits cf edits =
     commitPreparedWrites cf ''multi_edit'' (preparedWrites edits) (\<lambda>k. editedLine (groupEdits edits ! k))"

record mapRuntime =
  rtOrder :: "(string \<times> offsetEntry list) list \<Rightarrow> (string \<times> offsetEntry list) list"
  rtMerge :: "(rawEntry \<Rightarrow> rawEntry \<Rightarrow> bool) \<Rightarrow> rawEntry list \<Rightarrow> rawEntry list"

definition multiEditLocked ::
  "historyConfig \<Rightarrow> mapRuntime \<Rightarrow> toolArgs \<Rightarrow> jsonValue list \<Rightarrow> (goError + fileToolResult) hop" where
  "multiEditLocked cf rt args raws =
     tryOp (parseEntries cf (cfPreconditions cf \<and> \<not> boolArg args ''dry_run'') 0 raws []) (\<lambda>(entries, cache).
       tryOp (retOp (detectOverlaps (rtOrder rt) (rtMerge rt) entries (originalContent cache))) (\<lambda>ordered.
         tryOp (runOp (applyPendingEdits ordered)) (\<lambda>edits.
           if boolArg args ''dry_run'' then retOp (Inr \<lparr>ftText = dryRunText edits, ftEdit = None\<rparr>)
           else tryOp (writePendingEdits cf edits) (\<lambda>ls. retOp (Inr
                  \<lparr>ftText = ''applied '' @ natToString (length edits) @ '' edits:'' @ [newline] @ joinStr [newline] ls,
                   ftEdit = Some (buildEditDetails edits (firstLineOf edits) (allDiffs edits))\<rparr>)))))"

text \<open>The targets to lock.\<close>

fun editTargets :: "historyConfig \<Rightarrow> nat \<Rightarrow> jsonValue list \<Rightarrow> goError + string list" where
  "editTargets cf i [] = Inr []"
| "editTargets cf i (raw # raws) =
     (case raw of
        JObject en \<Rightarrow>
         (case checkMutation cf (strArg en ''path'') of
            Inl err \<Rightarrow> Inl (wrapErr (''edit['' @ natToString i @ '']: '') err)
          | Inr resolved \<Rightarrow> map_sum id (Cons resolved) (editTargets cf (Suc i) raws))
      | _ \<Rightarrow> Inl (plainError (''edit['' @ natToString i @ '']: invalid format'')))"

definition multiEdit :: "historyConfig \<Rightarrow> mapRuntime \<Rightarrow> toolArgs \<Rightarrow> (goError + fileToolResult) hop" where
  "multiEdit cf rt args =
     (case map_of args ''edits'' of
        Some (JArray (raw # raws)) \<Rightarrow>
         (case editTargets cf 0 (raw # raws) of
            Inl err \<Rightarrow> retOp (Inl err)
          | Inr targets \<Rightarrow> withTargetLocks targets (multiEditLocked cf rt args (raw # raws)))
      | _ \<Rightarrow> retOp (invalidArgs ''edits must be a non-empty array''
               ''provide a JSON array of edit objects, each with path, old_text, and new_text''))"

section \<open>apply\_patch\<close>

record resolvedOp =
  roOp :: patchOperation
  roResolved :: string

record preflightResult =
  pfOld :: string
  pfNew :: string

fun resolvePatchPathsFrom ::
  "historyConfig \<Rightarrow> (string \<times> nat) list \<Rightarrow> nat \<Rightarrow> patchOperation list \<Rightarrow> goError + resolvedOp list" where
  "resolvePatchPathsFrom cf seen i [] = Inr []"
| "resolvePatchPathsFrom cf seen i (op' # ops) =
     (case checkMutation cf (opPath op') of
        Inl err \<Rightarrow> Inl (wrapErr (opKind op' @ '' '' @ opPath op' @ '': '') err)
      | Inr resolved \<Rightarrow>
         (case map_of seen resolved of
            Some previous \<Rightarrow> invalidArgs
              (''operations['' @ natToString previous @ ''] and operations['' @ natToString i @
               ''] target the same file: '' @ opPath op')
              ''combine updates into one Update File operation with ordered chunks; use separate calls for other operations on the same file''
          | None \<Rightarrow> map_sum id (Cons \<lparr>roOp = op', roResolved = resolved\<rparr>)
              (resolvePatchPathsFrom cf ((resolved, i) # seen) (Suc i) ops)))"

definition resolvePatchPaths :: "historyConfig \<Rightarrow> patchOperation list \<Rightarrow> goError + resolvedOp list" where
  "resolvePatchPaths cf ops = resolvePatchPathsFrom cf [] 0 ops"

text \<open>\<open>rootedStat\<close>: whether there is a file; and \<open>rootedReadFile\<close>, which no spill file passes.\<close>

definition rootedStat :: "historyConfig \<Rightarrow> string \<Rightarrow> (goError + bool) hop" where
  "rootedStat cf resolved =
     (case rootRelative (cfWorkDir cf) resolved of
        Inl err \<Rightarrow> retOp (Inl err)
      | Inr _ \<Rightarrow> ioRead (\<lambda>w. dkFiles w resolved \<noteq> None))"

definition rootedReadFile :: "historyConfig \<Rightarrow> string \<Rightarrow> fileRead hop" where
  "rootedReadFile cf resolved =
     (case rootRelative (cfWorkDir cf) resolved of
        Inl err \<Rightarrow> retOp (ReadFails err)
      | Inr _ \<Rightarrow> readRegularFile resolved)"

definition preflightAdd :: "historyConfig \<Rightarrow> resolvedOp \<Rightarrow> (goError + preflightResult) hop" where
  "preflightAdd cf r =
     bindOp (rootedStat cf (roResolved r)) (\<lambda>st. retOp (case st of
       Inl err \<Rightarrow> Inl (wrapErr (''add '' @ opPath (roOp r) @ '': '') err)
     | Inr True \<Rightarrow> Inl (plainError (''add '' @ opPath (roOp r) @ '': file already exists''))
     | Inr False \<Rightarrow> Inr \<lparr>pfOld = [], pfNew = opContents (roOp r)\<rparr>))"

definition preflightDelete :: "historyConfig \<Rightarrow> resolvedOp \<Rightarrow> (goError + preflightResult) hop" where
  "preflightDelete cf r =
     bindOp (rootedStat cf (roResolved r)) (\<lambda>st.
       if st = Inr False
       then retOp (Inl (plainError (''delete '' @ opPath (roOp r) @ '': file does not exist'')))
       else bindOp (rootedReadFile cf (roResolved r)) (\<lambda>rd. retOp (case rd of
         FileBytes bytes \<Rightarrow> Inr \<lparr>pfOld = bytes, pfNew = []\<rparr>
       | FileMissing err \<Rightarrow> Inl (wrapErr (''delete '' @ opPath (roOp r) @ '': '') err)
       | ReadFails err \<Rightarrow> Inl (wrapErr (''delete '' @ opPath (roOp r) @ '': '') err))))"

definition preflightUpdate :: "historyConfig \<Rightarrow> resolvedOp \<Rightarrow> (goError + preflightResult) hop" where
  "preflightUpdate cf r =
     bindOp (rootedReadFile cf (roResolved r)) (\<lambda>rd. case rd of
       FileMissing _ \<Rightarrow> retOp (Inl (plainError (''update '' @ opPath (roOp r) @ '': file not found'')))
     | ReadFails err \<Rightarrow> retOp (Inl (wrapErr (''update '' @ opPath (roOp r) @ '': '') err))
     | FileBytes bytes \<Rightarrow>
         tryOp (mapErr (wrapErr (''update '' @ opPath (roOp r) @ '': ''))
                  (runOp (deriveUpdatedContent (opPath (roOp r)) bytes (opChunks (roOp r)))))
           (\<lambda>updated. retOp (Inr \<lparr>pfOld = bytes, pfNew = updated\<rparr>)))"

text \<open>A kind without a handler is skipped, here and in the mutation phase.\<close>

definition preflightOp :: "historyConfig \<Rightarrow> resolvedOp \<Rightarrow> (goError + preflightResult) hop" where
  "preflightOp cf r =
     (if opKind (roOp r) = ''add'' then preflightAdd cf r
      else if opKind (roOp r) = ''delete'' then preflightDelete cf r
      else if opKind (roOp r) = ''update'' then preflightUpdate cf r
      else retOp (Inr \<lparr>pfOld = [], pfNew = []\<rparr>))"

fun preflightPatch :: "historyConfig \<Rightarrow> resolvedOp list \<Rightarrow> (goError + preflightResult list) hop" where
  "preflightPatch cf [] = retOp (Inr [])"
| "preflightPatch cf (r # rs) =
     tryOp (preflightOp cf r) (\<lambda>pf. tryOp (preflightPatch cf rs) (\<lambda>pfs. retOp (Inr (pf # pfs))))"

definition checksumArg :: "toolArgs \<Rightarrow> string \<Rightarrow> string" where
  "checksumArg args path =
     (case map_of args ''if_checksums'' of Some (JObject digests) \<Rightarrow> strArg digests path | _ \<Rightarrow> [])"

fun verifyPatchChecksums :: "historyConfig \<Rightarrow> toolArgs \<Rightarrow> (resolvedOp \<times> preflightResult) list \<Rightarrow> goError + unit" where
  "verifyPatchChecksums cf args [] = Inr ()"
| "verifyPatchChecksums cf args ((r, pf) # rest) =
     (let path = opPath (roOp r); kind = opKind (roOp r); want = checksumArg args path in
      if cfPreconditions cf \<and> kind = ''add'' \<and> \<not> boolArg args ''if_absent''
      then invalidArgs (''if_absent:true is required to add '' @ path)
             ''set if_absent:true after confirming every add target should not exist''
      else if cfPreconditions cf \<and> kind \<noteq> ''add'' \<and> want = []
        then invalidArgs (''if_checksums['' @ goQuote path @ ''] is required for '' @ kind)
               ''read each existing target with include_checksum=true and supply its digest''
      else if want = [] then verifyPatchChecksums cf args rest
      else case verifyChecksum (cfSha256Hex cf) want path (pfOld pf) (kind \<noteq> ''add'') of
             Inl err \<Rightarrow> Inl (wrapErr (kind @ '' '' @ path @ '': '') err)
           | Inr _ \<Rightarrow> verifyPatchChecksums cf args rest)"

definition dryRunLine :: "resolvedOp \<times> preflightResult \<Rightarrow> string list" where
  "dryRunLine = (\<lambda>(r, pf).
     let path = opPath (roOp r); kind = opKind (roOp r) in
     if kind = ''add'' then [''would add '' @ path]
     else if kind = ''delete'' then [''would delete '' @ path]
     else if kind = ''update''
       then [''would update '' @ path @ '':'' @ [newline] @ diffText (generateDiff (pfOld pf) (pfNew pf) path 3)]
     else [])"

definition renderPatchDryRun :: "(resolvedOp \<times> preflightResult) list \<Rightarrow> fileToolResult" where
  "renderPatchDryRun ops =
     \<lparr>ftText = ''[dry-run] patch with '' @ natToString (length ops) @ '' operation(s):'' @ [newline] @
        joinStr [newline] (concat (map dryRunLine ops)), ftEdit = None\<rparr>"

record applyOpResult =
  aoSummary :: string
  aoDiff :: string
  aoFirstLine :: nat
  aoUndoID :: string

definition applyAdd :: "historyConfig \<Rightarrow> resolvedOp \<Rightarrow> preflightResult \<Rightarrow> (goError + applyOpResult) hop" where
  "applyAdd cf r pf =
     (let path = opPath (roOp r) in
      mapErr (wrapErr (''add '' @ path @ '': ''))
        (tryOp (verifyPreflightState (engineConfig.truncate cf) (roResolved r) None) (\<lambda>_.
           tryOp (snapshotAndWrite cf (roResolved r) path ''apply_patch'' None (pfNew pf)) (\<lambda>ident.
             retOp (Inr \<lparr>aoSummary = ''added '' @ path, aoDiff = [], aoFirstLine = 0, aoUndoID = ident\<rparr>)))))"

definition applyDelete :: "historyConfig \<Rightarrow> resolvedOp \<Rightarrow> preflightResult \<Rightarrow> (goError + applyOpResult) hop" where
  "applyDelete cf r pf =
     (let path = opPath (roOp r); fail = (\<lambda>err. Inl (wrapErr (''delete '' @ path @ '': '') err)) in
      bindOp (verifyPreflightState (engineConfig.truncate cf) (roResolved r) (Some (pfOld pf))) (\<lambda>ok. case ok of
        Inl err \<Rightarrow> retOp (fail err)
      | Inr _ \<Rightarrow>
         bindOp (recordSnapshotForMutation cf (roResolved r) path ''apply_patch''
                  \<lparr>preContent = Some (pfOld pf), expectedAfter = [], expectedExists = False\<rparr>) (\<lambda>rec. case rec of
           Inl err \<Rightarrow> retOp (fail err)
         | Inr ident \<Rightarrow>
            bindOp (removeFileDurable (engineConfig.truncate cf) (roResolved r)) (\<lambda>rm.
              case (case rm of Removed \<Rightarrow> None | NothingToRemove err \<Rightarrow> Some err | RemovalFails err \<Rightarrow> Some err) of
                Some err \<Rightarrow> bindOp (markSnapshotState ident stateUncertain) (\<lambda>_. retOp (fail err))
              | None \<Rightarrow>
                 bindOp (markSnapshotState ident stateCommitted) (\<lambda>marked. case marked of
                   Inl err \<Rightarrow> bindOp (markSnapshotState ident stateUncertain) (\<lambda>_. retOp (Inl
                     (wrapErr (''delete '' @ path @ '' committed but history state is uncertain: '') err)))
                 | Inr _ \<Rightarrow> retOp (Inr \<lparr>aoSummary = ''deleted '' @ path, aoDiff = [], aoFirstLine = 0,
                     aoUndoID = ident\<rparr>))))))"

definition applyUpdate :: "historyConfig \<Rightarrow> resolvedOp \<Rightarrow> preflightResult \<Rightarrow> (goError + applyOpResult) hop" where
  "applyUpdate cf r pf =
     (let path = opPath (roOp r) in
      mapErr (wrapErr (''update '' @ path @ '': ''))
        (tryOp (checkStale (roResolved r)) (\<lambda>_.
           tryOp (verifyPreflightState (engineConfig.truncate cf) (roResolved r) (Some (pfOld pf))) (\<lambda>_.
             tryOp (snapshotAndWrite cf (roResolved r) path ''apply_patch'' (Some (pfOld pf)) (pfNew pf)) (\<lambda>ident.
               let d = generateDiff (pfOld pf) (pfNew pf) path 3 in
               retOp (Inr \<lparr>aoSummary = ''updated '' @ path, aoDiff = diffText d, aoFirstLine = firstChanged d,
                 aoUndoID = ident\<rparr>))))))"

definition applyOp :: "historyConfig \<Rightarrow> resolvedOp \<Rightarrow> preflightResult \<Rightarrow> (goError + applyOpResult) hop" where
  "applyOp cf r pf =
     (if opKind (roOp r) = ''add'' then applyAdd cf r pf
      else if opKind (roOp r) = ''delete'' then applyDelete cf r pf
      else applyUpdate cf r pf)"

fun applyOpsFrom :: "historyConfig \<Rightarrow> nat \<Rightarrow> appliedRef list \<Rightarrow> (resolvedOp \<times> preflightResult) list
    \<Rightarrow> (goError + applyOpResult list) hop" where
  "applyOpsFrom cf targets applied [] = retOp (Inr [])"
| "applyOpsFrom cf targets applied ((r, pf) # rest) =
     (if opKind (roOp r) \<notin> {''add'', ''delete'', ''update''} then applyOpsFrom cf targets applied rest
      else bindOp (applyOp cf r pf) (\<lambda>res. case res of
        Inl err \<Rightarrow> retOp (Inl (partialApplyErr ''apply_patch'' applied targets err))
      | Inr out \<Rightarrow>
         bindOp (applyOpsFrom cf targets
             (applied @ [\<lparr>arPath = opPath (roOp r), arUndoID = aoUndoID out, arResolved = roResolved r\<rparr>]) rest)
           (\<lambda>outs. retOp (map_sum id (Cons out) outs))))"

definition applyPatchOps ::
  "historyConfig \<Rightarrow> (resolvedOp \<times> preflightResult) list \<Rightarrow> (goError + fileToolResult) hop" where
  "applyPatchOps cf ops =
     tryOp (applyOpsFrom cf (length (remdups (map (\<lambda>(r, _). roResolved r) ops))) [] ops) (\<lambda>outs. retOp (Inr
       \<lparr>ftText = ''applied patch with '' @ natToString (length ops) @ '' operation(s):'' @ [newline] @
          joinStr [newline] (map aoSummary outs),
        ftEdit = Some \<lparr>Diff = joinStr [newline] (filter (\<lambda>d. d \<noteq> []) (map aoDiff outs)),
          FirstChangedLine = firstNonZero (map aoFirstLine outs), LastChangedLine = 0,
          MatchType = [], FuzzyNormalized = []\<rparr>\<rparr>))"

definition applyPatch :: "historyConfig \<Rightarrow> toolArgs \<Rightarrow> (goError + fileToolResult) hop" where
  "applyPatch cf args =
     (let patchText = strArg args ''patch'' in
      if patchText = [] then retOp (Inl (plainError ''patch parameter is required''))
      else case parsePatch patchText of
        Inl err \<Rightarrow> retOp (Inl (wrapErr ''parse patch: '' err))
      | Inr ops \<Rightarrow>
         (case resolvePatchPaths cf ops of
            Inl err \<Rightarrow> retOp (Inl err)
          | Inr resolved \<Rightarrow>
              withTargetLocks (map roResolved resolved)
                (tryOp (preflightPatch cf resolved) (\<lambda>pfs.
                   if boolArg args ''dry_run'' then retOp (Inr (renderPatchDryRun (zip resolved pfs)))
                   else tryOp (retOp (verifyPatchChecksums cf args (zip resolved pfs))) (\<lambda>_.
                     applyPatchOps cf (zip resolved pfs))))))"

end
