(* ===== verification/HistoryFacts.thy ===== *)
theory HistoryFacts
  imports History
begin

text \<open>
  What the operations of the history do to the store, under every pattern of failures and
  crashes: lemmas in the style of weakest preconditions, one per operation, and the codec.
\<close>

section \<open>Eviction\<close>

lemma totalBlobSize_simps [simp]:
  "totalBlobSize [] = 0" "totalBlobSize (e # es) = heBlobSize e + totalBlobSize es"
  by (simp_all add: totalBlobSize_def)

lemma evictBySize_parts:
  "evictBySize (totalBlobSize es) es = (ev, left) \<Longrightarrow>
     es = ev @ left \<and> totalBlobSize left \<le> historyMaxTotalBytes"
proof (induction es arbitrary: ev left)
  case Nil
  then show ?case by (simp add: historyMaxTotalBytes_def)
next
  case (Cons e es)
  then show ?case by (auto simp: Let_def split: if_splits prod.splits)
qed

lemma evictBySize_newest:
  "evictBySize (totalBlobSize (es @ [e])) (es @ [e]) = (ev, left) \<Longrightarrow>
   heBlobSize e \<le> historyMaxTotalBytes \<Longrightarrow> \<exists>ys. left = ys @ [e]"
proof (induction es arbitrary: ev left)
  case (Cons d es)
  then show ?case by (auto simp: Let_def split: if_splits prod.splits)
qed simp

lemma evictHistory_parts:
  assumes "evictHistory es = (ev, left)"
  shows "es = ev @ left \<and> length left \<le> historyMaxEntries \<and> totalBlobSize left \<le> historyMaxTotalBytes"
proof -
  let ?k = "length es - historyMaxEntries"
  obtain bs where b: "evictBySize (totalBlobSize (drop ?k es)) (drop ?k es) = (bs, left)" "ev = take ?k es @ bs"
    using assms by (auto simp: evictHistory_def Let_def split: prod.splits)
  have p: "drop ?k es = bs @ left" "totalBlobSize left \<le> historyMaxTotalBytes"
    using evictBySize_parts [OF b(1)] by auto
  have "length left \<le> length (drop ?k es)" using p(1) by simp
  then have "length left \<le> historyMaxEntries" by simp
  moreover have "es = ev @ left" using p(1) b(2) by (metis append.assoc append_take_drop_id)
  ultimately show ?thesis using p(2) by simp
qed

lemma evictHistory_newest:
  assumes "evictHistory (es @ [e]) = (ev, left)" "heBlobSize e \<le> historyMaxTotalBytes"
  shows "\<exists>ys. left = ys @ [e] \<and> es = ev @ ys"
proof -
  let ?k = "length (es @ [e]) - historyMaxEntries"
  have "?k \<le> length es" by (simp add: historyMaxEntries_def)
  then have d: "drop ?k (es @ [e]) = drop ?k es @ [e]" by simp
  obtain bs where b: "evictBySize (totalBlobSize (drop ?k (es @ [e]))) (drop ?k (es @ [e])) = (bs, left)"
    using assms(1) by (auto simp: evictHistory_def Let_def split: prod.splits)
  obtain ys where "left = ys @ [e]" using evictBySize_newest b assms(2) unfolding d by blast
  moreover have "es @ [e] = ev @ left" using evictHistory_parts [OF assms(1)] by blast
  ultimately show ?thesis by simp
qed

text \<open>No entry goes that could stay.\<close>

lemma evictBySize_minimal:
  "evictBySize (totalBlobSize es) es = (ev, left) \<Longrightarrow> ev \<noteq> [] \<Longrightarrow>
   historyMaxTotalBytes < totalBlobSize (last ev # left)"
proof (induction es arbitrary: ev left)
  case (Cons e es)
  show ?case
  proof (cases "historyMaxTotalBytes < heBlobSize e + totalBlobSize es")
    case True
    obtain ev' where e: "evictBySize (totalBlobSize es) es = (ev', left)" "ev = e # ev'"
      using Cons.prems(1) True by (auto simp: Let_def split: prod.splits)
    show ?thesis
    proof (cases "ev' = []")
      case True
      then have "left = es" using evictBySize_parts [OF e(1)] by simp
      then show ?thesis using \<open>historyMaxTotalBytes < _\<close> e(2) True by simp
    next
      case False
      then show ?thesis using Cons.IH [OF e(1)] e(2) by simp
    qed
  qed (use Cons.prems in simp)
qed simp

lemma evictHistory_minimal:
  assumes "evictHistory es = (ev, left)" "ev \<noteq> []"
  shows "historyMaxEntries < length (last ev # left) \<or> historyMaxTotalBytes < totalBlobSize (last ev # left)"
proof -
  let ?k = "length es - historyMaxEntries"
  obtain bs where b: "evictBySize (totalBlobSize (drop ?k es)) (drop ?k es) = (bs, left)" "ev = take ?k es @ bs"
    using assms by (auto simp: evictHistory_def Let_def split: prod.splits)
  show ?thesis
  proof (cases "bs = []")
    case True
    then have "take ?k es \<noteq> []" "left = drop ?k es" using b assms(2) evictBySize_parts [OF b(1)] by auto
    then show ?thesis using True b(2) by auto
  next
    case False
    then show ?thesis using evictBySize_minimal [OF b(1)] b(2) by simp
  qed
qed

section \<open>The codec\<close>

text \<open>What the code relies on: reading back what gzip wrote gives the text, up to the limit.\<close>

definition gzipOK :: "historyConfig \<Rightarrow> bool" where
  "gzipOK cf \<longleftrightarrow> (\<forall>s z limit. cfGzip cf s = Inr z \<longrightarrow> int (length s) < limit \<longrightarrow> cfGunzip cf limit z = Inr s)"

lemma blob_codec:
  assumes "gzipOK cf" "encodeBlob cf s = Inr b" "int (length s) \<le> historyMaxBlobBytes"
  shows "decodeBlob cf b = Inr s" "length b \<le> Suc (length s)"
proof -
  have "int (length s) < blobDecodeMax + 1" "\<not> blobDecodeMax < int (length s)"
    using assms(3) by (simp_all add: blobDecodeMax_def historyMaxBlobBytes_def)
  then show "decodeBlob cf b = Inr s" "length b \<le> Suc (length s)"
    using assms by (auto simp: encodeBlob_def decodeBlob_def rawBlob_def gzipOK_def split: if_splits sum.splits)
qed

section \<open>The index and the blobs under failures\<close>

lemma setIndex_simps [simp]:
  "dkFiles (setIndex hf w) = dkFiles w" "hdIndex (dkHistory (setIndex hf w)) = Some hf"
  "hdBlobs (dkHistory (setIndex hf w)) = hdBlobs (dkHistory w)"
  by (simp_all add: setIndex_def)

lemma setBlob_simps [simp]:
  "dkFiles (setBlob n c w) = dkFiles w" "hdIndex (dkHistory (setBlob n c w)) = hdIndex (dkHistory w)"
  "hdBlobs (dkHistory (setBlob n c w)) = (hdBlobs (dkHistory w))(n := c)"
  by (simp_all add: setBlob_def)

lemma wp_loadHistory:
  assumes "\<And>w'. sameData w w' \<Longrightarrow> Q None w'" "\<And>e w'. sameData w w' \<Longrightarrow> Q (Some (Inl e)) w'"
    and "\<And>hf w'. sameData w w' \<Longrightarrow>
      hfEntries hf = (case hdIndex (dkHistory w) of None \<Rightarrow> [] | Some h \<Rightarrow> hfEntries h) \<Longrightarrow>
      hfVersion hf \<noteq> 0 \<Longrightarrow> Q (Some (Inr hf)) w'"
  shows "wpOp loadHistory Q w"
  unfolding loadHistory_def wp_bind
  by (rule wp_ioRead) (auto simp: sameDataD(2) split: option.split intro!: assms)

lemma wp_saveHistory:
  assumes "\<And>w' r. sameData w w' \<Longrightarrow> r \<noteq> Some (Inr ()) \<Longrightarrow> Q r w'"
    and "\<And>w' r. sameData (setIndex hf w) w' \<Longrightarrow> Q r w'"
  shows "wpOp (saveHistory hf) Q w"
proof -
  have s: "sameData (setIndex hf w) (setIndex hf (w\<lparr>dkEvents := es, dkClock := c\<rparr>))" for es c
    by (simp add: sameData_def setIndex_def)
  show ?thesis
    unfolding saveHistory_def wp_mapErr
    by (rule wp_ioStep) ((rule assms(2), rule s) | (rule assms(1); simp))+
qed

lemma wp_setBlob:
  assumes "\<And>w' r. sameData w w' \<Longrightarrow> r \<noteq> Some (Inr ()) \<Longrightarrow> Q r w'"
    and "\<And>w' r. sameData (setBlob n c w) w' \<Longrightarrow> Q r w'"
  shows "wpOp (ioStep (setBlob n c)) Q w"
proof -
  have s: "sameData (setBlob n c w) (setBlob n c (w\<lparr>dkEvents := es, dkClock := t\<rparr>))" for es t
    by (simp add: sameData_def setBlob_def)
  show ?thesis by (rule wp_ioStep) ((rule assms(2), rule s) | (rule assms(1); simp))+
qed

lemma wp_withFileLock:
  assumes "\<And>w'. sameData w w' \<Longrightarrow> Q None w'" "\<And>e w'. sameData w w' \<Longrightarrow> Q (Some (Inl e)) w'"
    and "\<And>w'. sameData w w' \<Longrightarrow> wpOp m Q w'"
  shows "wpOp (withFileLock m) Q w"
  unfolding withFileLock_def wp_try
  by (rule wp_ioStep) (auto intro!: assms)

text \<open>The blob that \<open>removeBlob\<close> deletes.\<close>

definition blobName :: "historyConfig \<Rightarrow> historyEntry \<Rightarrow> string option" where
  "blobName cf ent =
     (let legacy = pathClean (heBlobPath ent) in
      if heBlobID ent \<noteq> [] \<and> pathBase (heBlobID ent) = heBlobID ent then Some (heBlobID ent)
      else if pathDir legacy = pathClean (blobsDir cf) \<and> pathBase legacy \<noteq> ''.'' then Some (pathBase legacy)
      else None)"

lemma removeBlob_name:
  "removeBlob cf ent =
     (case blobName cf ent of None \<Rightarrow> retOp () | Some b \<Rightarrow> bindOp (ioStep (setBlob b None)) (\<lambda>_. retOp ()))"
  by (simp add: removeBlob_def blobName_def Let_def)

text \<open>Files and index stay, and so does every blob of another name.\<close>

definition keepsBlob :: "string \<Rightarrow> historyDisk store \<Rightarrow> historyDisk store \<Rightarrow> bool" where
  "keepsBlob b w w' \<longleftrightarrow> dkFiles w' = dkFiles w \<and> hdIndex (dkHistory w') = hdIndex (dkHistory w) \<and>
     hdBlobs (dkHistory w') b = hdBlobs (dkHistory w) b"

lemma keepsBlob_trans: "keepsBlob b w w' \<Longrightarrow> keepsBlob b w' w'' \<Longrightarrow> keepsBlob b w w''"
  by (simp add: keepsBlob_def)

lemma sameData_keepsBlob: "sameData w w' \<Longrightarrow> keepsBlob b w w'"
  by (simp add: sameData_def keepsBlob_def)

lemma removeBlob_keeps:
  assumes "blobName cf ent \<noteq> Some b"
  shows "wpOp (removeBlob cf ent) (\<lambda>_. keepsBlob b w) w"
proof (cases "blobName cf ent")
  case None
  then show ?thesis by (simp add: removeBlob_name keepsBlob_def)
next
  case (Some n)
  then have "keepsBlob b w (setBlob n None w)" using assms by (simp add: keepsBlob_def)
  then have "wpOp (ioStep (setBlob n None)) (\<lambda>_. keepsBlob b w) w"
    by (intro wp_setBlob) (auto intro: sameData_keepsBlob keepsBlob_trans)
  then show ?thesis using Some by (simp add: removeBlob_name wp_bind) (auto elim!: wp_mono split: option.split)
qed

lemma removeBlobs_keeps:
  assumes "\<And>e. e \<in> set ents \<Longrightarrow> blobName cf e \<noteq> Some b"
  shows "wpOp (removeBlobs cf ents) (\<lambda>_. keepsBlob b w) w"
  using assms
proof (induction ents arbitrary: w)
  case Nil
  then show ?case by (simp add: keepsBlob_def)
next
  case (Cons e ents)
  have "wpOp (removeBlob cf e) (\<lambda>_. keepsBlob b w) w" by (rule removeBlob_keeps) (use Cons.prems in simp)
  moreover have "wpOp (removeBlobs cf ents) (\<lambda>_. keepsBlob b w) w'" if "keepsBlob b w w'" for w'
    using Cons.IH [of w'] Cons.prems that by (auto elim!: wp_mono intro: keepsBlob_trans)
  ultimately show ?case by (auto simp: wp_bind elim!: wp_mono split: option.split)
qed

section \<open>Recording a snapshot\<close>

definition entriesOf :: "historyDisk store \<Rightarrow> historyEntry list" where
  "entriesOf w = (case hdIndex (dkHistory w) of None \<Rightarrow> [] | Some hf \<Rightarrow> hfEntries hf)"

text \<open>The entry is the newest of the index, in the given state; older ones may have been evicted.\<close>

definition listed :: "historyEntry list \<Rightarrow> historyDisk store \<Rightarrow> historyEntry \<Rightarrow> string \<Rightarrow> bool" where
  "listed olds w ent st \<longleftrightarrow>
     (\<exists>v ev es. olds = ev @ es \<and> v \<noteq> 0 \<and> (\<forall>e \<in> set es. heID e \<noteq> heID ent) \<and>
        hdIndex (dkHistory w) = Some \<lparr>hfVersion = v, hfEntries = es @ [ent\<lparr>heState := st\<rparr>]\<rparr>)"

definition blobThere :: "historyConfig \<Rightarrow> historyDisk store \<Rightarrow> historyEntry \<Rightarrow> string option \<Rightarrow> bool" where
  "blobThere cf w ent pre \<longleftrightarrow>
     (\<forall>p. pre = Some p \<longrightarrow> int (length p) \<le> historyMaxBlobBytes \<and>
        (\<exists>enc. encodeBlob cf p = Inr enc \<and> hdBlobs (dkHistory w) (heBlobID ent) = Some enc))"

definition entryFor ::
  "historyConfig \<Rightarrow> string \<Rightarrow> string \<Rightarrow> string \<Rightarrow> snapshotTransition \<Rightarrow> historyEntry \<Rightarrow> bool" where
  "entryFor cf path disp opName tr ent \<longleftrightarrow>
     (\<exists>ts target. rootRelative (cfOwnerDir cf) path = Inr target \<and>
        ent = snapshotEntry cf (snapshotID cf path ts) target disp opName tr ts)"

text \<open>No entry has an ID or a blob that a snapshot of the path could get: IDs do not collide.\<close>

definition freshID :: "historyConfig \<Rightarrow> string \<Rightarrow> historyEntry list \<Rightarrow> bool" where
  "freshID cf path olds \<longleftrightarrow>
     (\<forall>ts. snapshotID cf path ts \<noteq> [] \<and>
        (\<forall>e \<in> set olds. heID e \<noteq> snapshotID cf path ts \<and>
           blobName cf e \<noteq> Some (snapshotID cf path ts @ ''.blob'')))"

definition recorded ::
  "historyConfig \<Rightarrow> string \<Rightarrow> string \<Rightarrow> string \<Rightarrow> snapshotTransition \<Rightarrow> historyDisk store \<Rightarrow>
   (goError + string) option \<Rightarrow> historyDisk store \<Rightarrow> bool" where
  "recorded cf path disp opName tr w r w' \<longleftrightarrow> dkFiles w' = dkFiles w \<and>
     (case r of
        Some (Inr ident) \<Rightarrow> (\<exists>ent. entryFor cf path disp opName tr ent \<and> ident = heID ent \<and>
          listed (entriesOf w) w' ent statePrepared \<and> blobThere cf w' ent (preContent tr))
      | _ \<Rightarrow> hdIndex (dkHistory w') = hdIndex (dkHistory w) \<or>
          (\<exists>ent. entryFor cf path disp opName tr ent \<and> listed (entriesOf w) w' ent statePrepared))"

lemma snapshotEntry_sels [simp]:
  "heID (snapshotEntry cf i target disp opName tr ts) = i"
  "heTarget (snapshotEntry cf i target disp opName tr ts) = target"
  "heAbsPath (snapshotEntry cf i target disp opName tr ts) = []"
  "heState (snapshotEntry cf i target disp opName tr ts) = statePrepared"
  "heCreated (snapshotEntry cf i target disp opName tr ts) \<longleftrightarrow> preContent tr = None"
  "heBlobID (snapshotEntry cf i target disp opName tr ts) = (if preContent tr = None then [] else i @ ''.blob'')"
  by (simp_all add: snapshotEntry_def Let_def)

lemma snapshotEntry_size:
  "validateSnapshotSize disp (preContent tr) = Inr () \<Longrightarrow>
   heBlobSize (snapshotEntry cf i target disp' opName tr ts) \<le> historyMaxTotalBytes"
  by (auto simp: validateSnapshotSize_def snapshotEntry_def historyMaxBlobBytes_def historyMaxTotalBytes_def
      Let_def split: if_splits option.splits)

lemma snapshotEntry_prepared:
  "(snapshotEntry cf i target disp opName tr ts)\<lparr>heState := statePrepared\<rparr> = snapshotEntry cf i target disp opName tr ts"
  by (simp add: snapshotEntry_def Let_def)

lemma recordedI_fail:
  "dkFiles w' = dkFiles w \<Longrightarrow> hdIndex (dkHistory w') = hdIndex (dkHistory w) \<Longrightarrow> (\<And>i. r \<noteq> Some (Inr i)) \<Longrightarrow>
   recorded cf path disp opName tr w r w'"
  by (auto simp: recorded_def split: option.split sum.split)

lemma listed_new:
  assumes "freshID cf path olds" "ent = snapshotEntry cf (snapshotID cf path ts) target disp opName tr ts"
    and "olds = evicted @ ys" "hdIndex (dkHistory v) = Some \<lparr>hfVersion = 2, hfEntries = ys @ [ent]\<rparr>"
  shows "listed olds v ent statePrepared"
  unfolding listed_def
proof (intro exI conjI)
  show "olds = evicted @ ys" by fact
  show "\<forall>e\<in>set ys. heID e \<noteq> heID ent" using assms(1-3) by (simp add: freshID_def)
  show "hdIndex (dkHistory v) = Some \<lparr>hfVersion = 2, hfEntries = ys @ [ent\<lparr>heState := statePrepared\<rparr>]\<rparr>"
    using assms(2,4) by (simp add: snapshotEntry_prepared)
qed simp

lemma evicted_keep_blob:
  assumes "freshID cf path (evicted @ ys)"
  shows "wpOp (removeBlobs cf evicted) (\<lambda>_. keepsBlob (snapshotID cf path ts @ ''.blob'') v) v"
  by (rule removeBlobs_keeps) (use assms in \<open>simp add: freshID_def\<close>)

lemma recordedI_listed:
  "dkFiles w' = dkFiles w \<Longrightarrow> entryFor cf path disp opName tr ent \<Longrightarrow> listed (entriesOf w) w' ent statePrepared \<Longrightarrow>
   (\<And>i. r = Some (Inr i) \<Longrightarrow> i = heID ent \<and> blobThere cf w' ent (preContent tr)) \<Longrightarrow>
   recorded cf path disp opName tr w r w'"
  by (auto simp: recorded_def split: option.split sum.split)

text \<open>The part after the blob: the index is saved, the evicted blobs go.\<close>

lemma recordIndex_wp:
  assumes fresh: "freshID cf path (entriesOf w)" and size: "validateSnapshotSize disp' (preContent tr) = Inr ()"
    and target: "rootRelative (cfOwnerDir cf) path = Inr target"
    and w': "dkFiles w' = dkFiles w" "hdIndex (dkHistory w') = hdIndex (dkHistory w)"
    and ent: "ent = snapshotEntry cf (snapshotID cf path ts) target disp opName tr ts"
    and blob: "blobThere cf w' ent (preContent tr)"
    and ev: "evictHistory (entriesOf w @ [ent]) = (evicted, left)"
  shows "wpOp (bindOp (saveHistory \<lparr>hfVersion = 2, hfEntries = left\<rparr>)
      (\<lambda>saved. case saved of
         Inl err \<Rightarrow>
           (if heBlobID ent \<noteq> [] then bindOp (ioStep (setBlob (heBlobID ent) None)) (\<lambda>_. retOp (Inl err))
            else retOp (Inl err))
       | Inr _ \<Rightarrow> bindOp (removeBlobs cf evicted) (\<lambda>_. retOp (Inr (snapshotID cf path ts)))))
    (recorded cf path disp opName tr w) w'"
proof -
  obtain ys where ys: "left = ys @ [ent]" "entriesOf w = evicted @ ys"
    using evictHistory_newest [OF ev] snapshotEntry_size [OF size] ent by metis
  have e: "entryFor cf path disp opName tr ent" using target ent by (auto simp: entryFor_def)
  have l: "recorded cf path disp opName tr w r v'"
    if "dkFiles v' = dkFiles w" "hdIndex (dkHistory v') = Some \<lparr>hfVersion = 2, hfEntries = left\<rparr>"
      "\<And>i. r = Some (Inr i) \<Longrightarrow> i = heID ent \<and> blobThere cf v' ent (preContent tr)" for r v'
    using that ys by (intro recordedI_listed [OF _ e] listed_new [OF fresh ent]) auto
  show ?thesis
  proof (rule wp_bindI, rule wp_saveHistory, goal_cases)
    case (1 v r)
    then show ?case using w'
      by (auto simp: wp_bind sameData_def split: option.split sum.split intro!: recordedI_fail wp_setBlob)
  next
    case (2 v r)
    then have v: "dkFiles v = dkFiles w" "hdIndex (dkHistory v) = Some \<lparr>hfVersion = 2, hfEntries = left\<rparr>"
        "hdBlobs (dkHistory v) = hdBlobs (dkHistory w')"
      using w' by (simp_all add: sameData_def)
    then have b: "blobThere cf v' ent (preContent tr)" if "keepsBlob (snapshotID cf path ts @ ''.blob'') v v'" for v'
      using blob that ent by (auto simp: blobThere_def keepsBlob_def)
    have "wpOp (bindOp (removeBlobs cf evicted) (\<lambda>_. retOp (Inr (snapshotID cf path ts))))
        (recorded cf path disp opName tr w) v"
    proof (rule wp_bindI, rule wp_mono [OF evicted_keep_blob [OF fresh [unfolded ys(2)]]])
      fix r' v' assume k: "keepsBlob (snapshotID cf path ts @ ''.blob'') v v'"
      then have "recorded cf path disp opName tr w q v'" if "q \<in> {None, Some (Inr (heID ent))}" for q
        using that k v b by (intro l) (auto simp: keepsBlob_def)
      then show "(r' = None \<longrightarrow> recorded cf path disp opName tr w None v') \<and>
          (\<forall>a. r' = Some a \<longrightarrow> wpOp (retOp (Inr (snapshotID cf path ts))) (recorded cf path disp opName tr w) v')"
        using ent by simp
    qed
    then show ?case using v
      by (auto simp: wp_bind sameData_def split: option.split sum.split intro!: l wp_setBlob)
  qed
qed

text \<open>Writing the blob leaves files and index alone.\<close>

lemma wp_writeBlob:
  assumes "\<And>w' r. dkFiles w' = dkFiles w \<Longrightarrow> hdIndex (dkHistory w') = hdIndex (dkHistory w) \<Longrightarrow>
      r \<noteq> Some (Inr ()) \<Longrightarrow> Q r w'"
    and "\<And>w' enc. dkFiles w' = dkFiles w \<Longrightarrow> hdIndex (dkHistory w') = hdIndex (dkHistory w) \<Longrightarrow>
      encodeBlob cf p = Inr enc \<Longrightarrow> hdBlobs (dkHistory w') (ident @ ''.blob'') = Some enc \<Longrightarrow> Q (Some (Inr ())) w'"
  shows "wpOp (writeBlobForSnapshot cf ident p) Q w"
  unfolding writeBlobForSnapshot_def
proof (rule wp_tryI, rule quiet_wp [OF quiet_ioStep_id], intro conjI allI impI, goal_cases)
  case (3 r w' a)
  show ?case
  proof (cases "encodeBlob cf p")
    case (Inl err)
    then show ?thesis using 3 assms(1) by (simp add: sameData_def)
  next
    case (Inr enc)
    have "Q r v" if "sameData (setBlob (ident @ ''.blob'') (Some enc) w') v" for r v
      using that 3 Inr assms by (cases "r = Some (Inr ())") (auto simp: sameData_def)
    moreover have "Q r v" if "sameData w' v" "r \<noteq> Some (Inr ())" for r v
      using that 3 assms(1) by (simp add: sameData_def)
    ultimately show ?thesis using Inr by (simp add: wp_setBlob)
  qed
qed (auto simp: sameData_def assms)

lemma wp_recordSnapshotLocked:
  assumes fresh: "freshID cf path (entriesOf w)" and size: "validateSnapshotSize disp' (preContent tr) = Inr ()"
    and w': "dkFiles w' = dkFiles w" "hdIndex (dkHistory w') = hdIndex (dkHistory w)"
  shows "wpOp (recordSnapshotLockedStrict cf path disp opName tr) (recorded cf path disp opName tr w) w'"
  unfolding recordSnapshotLockedStrict_def
proof (rule wp_tryI, rule wp_loadHistory, goal_cases)
  case (3 hf v)
  have hf: "hfEntries hf = entriesOf w" using 3 w' by (simp add: entriesOf_def)
  let ?i = "snapshotID cf path (dkClock v)"
  let ?rest = "\<lambda>_. case rootRelative (cfOwnerDir cf) path of
            Inl err \<Rightarrow> retOp (Inl err)
          | Inr target \<Rightarrow>
             (let ent = snapshotEntry cf ?i target disp opName tr (dkClock v);
                  (evicted, left) = evictHistory (hfEntries hf @ [ent])
              in bindOp (saveHistory \<lparr>hfVersion = 2, hfEntries = left\<rparr>)
                   (\<lambda>saved. case saved of
                      Inl err \<Rightarrow>
                        (if heBlobID ent \<noteq> []
                         then bindOp (ioStep (setBlob (heBlobID ent) None)) (\<lambda>_. retOp (Inl err))
                         else retOp (Inl err))
                    | Inr _ \<Rightarrow> bindOp (removeBlobs cf evicted) (\<lambda>_. retOp (Inr ?i))))"
  have rest: "wpOp (?rest u) (recorded cf path disp opName tr w) v'"
    if "dkFiles v' = dkFiles w" "hdIndex (dkHistory v') = hdIndex (dkHistory w)"
      "\<And>p. preContent tr = Some p \<Longrightarrow>
        \<exists>enc. encodeBlob cf p = Inr enc \<and> hdBlobs (dkHistory v') (?i @ ''.blob'') = Some enc" for v' u
  proof (cases "rootRelative (cfOwnerDir cf) path")
    case (Inl err)
    then show ?thesis using that by (simp add: recordedI_fail)
  next
    case (Inr target)
    define ent where "ent = snapshotEntry cf ?i target disp opName tr (dkClock v)"
    have blob: "blobThere cf v' ent (preContent tr)" using that(3) size
      by (auto simp: blobThere_def ent_def validateSnapshotSize_def Let_def split: if_splits)
    obtain evicted left where ev: "evictHistory (entriesOf w @ [ent]) = (evicted, left)" by fastforce
    show ?thesis
      unfolding Inr sum.case hf ent_def [symmetric] Let_def ev prod.case
      by (rule recordIndex_wp [OF fresh size Inr that(1,2) ent_def blob ev])
  qed
  have v: "dkFiles v = dkFiles w" "hdIndex (dkHistory v) = hdIndex (dkHistory w)"
    using 3 w' by (simp_all add: sameData_def)
  have "wpOp (tryOp (case preContent tr of None \<Rightarrow> retOp (Inr ()) | Some pre \<Rightarrow> writeBlobForSnapshot cf ?i pre) ?rest)
      (recorded cf path disp opName tr w) v"
  proof (cases "preContent tr")
    case None
    then show ?thesis using rest [OF v] by (intro wp_tryI) simp
  next
    case (Some p)
    show ?thesis unfolding Some option.case
      by (rule wp_tryI, rule wp_writeBlob) (use v Some in \<open>auto intro!: recordedI_fail rest\<close>)
  qed
  then show ?case by (simp add: Let_def)
qed (use w' in \<open>auto simp: sameData_def intro!: recordedI_fail\<close>)

lemma wp_recordSnapshotForMutation:
  assumes fresh: "freshID cf path (entriesOf w)"
  shows "wpOp (recordSnapshotForMutation cf path disp opName tr) (recorded cf path disp opName tr w) w"
proof (cases "validateSnapshotSize disp (preContent tr)")
  case (Inl err)
  then show ?thesis by (simp add: recordSnapshotForMutation_def recordedI_fail)
next
  case (Inr u)
  then have size: "validateSnapshotSize disp (preContent tr) = Inr ()" by simp
  have "recorded cf path disp opName tr w (map_option (map_sum f id) r) w' = recorded cf path disp opName tr w r w'"
    for f :: "goError \<Rightarrow> goError" and r w'
    by (auto simp: recorded_def split: option.splits sum.splits)
  then show ?thesis using Inr
    unfolding recordSnapshotForMutation_def
    by (simp add: wp_mapErr)
      (rule wp_withFileLock; (rule wp_recordSnapshotLocked [OF fresh size])?; auto simp: sameData_def intro!: recordedI_fail)
qed

section \<open>Marking a snapshot\<close>

lemma setState_last:
  "\<forall>e \<in> set es. heID e \<noteq> heID ent \<Longrightarrow>
   setState (heID ent) st (es @ [ent\<lparr>heState := s\<rparr>]) = Some (es @ [ent\<lparr>heState := st\<rparr>])"
  by (induction es) simp_all

definition validState :: "string \<Rightarrow> bool" where
  "validState st \<longleftrightarrow> st \<in> {statePrepared, stateCommitted, stateAborted, stateUncertain}"

definition marked ::
  "historyEntry list \<Rightarrow> historyEntry \<Rightarrow> string set \<Rightarrow> string \<Rightarrow> historyDisk store \<Rightarrow> (goError + unit) option \<Rightarrow> historyDisk store \<Rightarrow> bool" where
  "marked olds ent sts st w r w' \<longleftrightarrow> dkFiles w' = dkFiles w \<and> hdBlobs (dkHistory w') = hdBlobs (dkHistory w) \<and>
     (if r = Some (Inr ()) then listed olds w' ent st else \<exists>s \<in> insert st sts. listed olds w' ent s)"

lemma listed_same: "sameData w w' \<Longrightarrow> listed olds w ent st \<Longrightarrow> listed olds w' ent st"
  by (simp add: listed_def sameData_def)

lemma wp_markSnapshotState:
  assumes l: "listed olds w ent s" "s \<in> sts" and st: "validState st" and ident: "heID ent \<noteq> []"
  shows "wpOp (markSnapshotState (heID ent) st) (marked olds ent sts st w) w"
proof -
  obtain v ev es where i: "olds = ev @ es" "\<forall>e \<in> set es. heID e \<noteq> heID ent" "v \<noteq> 0"
      "hdIndex (dkHistory w) = Some \<lparr>hfVersion = v, hfEntries = es @ [ent\<lparr>heState := s\<rparr>]\<rparr>"
    using l by (auto simp: listed_def)
  have quiet: "marked olds ent sts st w r w'" if "sameData w w'" "r \<noteq> Some (Inr ())" for r w'
  proof -
    have "listed olds w' ent s" using listed_same that(1) l(1) by blast
    then show ?thesis using that l(2) by (auto simp: marked_def sameData_def)
  qed
  let ?m = "\<lambda>hf. case setState (heID ent) st (hfEntries hf) of
      None \<Rightarrow> retOp (Inl (plainError (''history entry '' @ heID ent @ '' disappeared before '' @ st)))
    | Some entries \<Rightarrow> saveHistory (hf\<lparr>hfEntries := entries\<rparr>)"
  have save: "wpOp (?m hf) (marked olds ent sts st w) w2"
    if "sameData w w1" "sameData w1 w2" "hfVersion hf \<noteq> 0"
      "hfEntries hf = (case hdIndex (dkHistory w1) of None \<Rightarrow> [] | Some h \<Rightarrow> hfEntries h)" for w1 w2 hf
  proof -
    have "hfEntries hf = es @ [ent\<lparr>heState := s\<rparr>]" using that i by (simp add: sameData_def)
    then have m: "?m hf = saveHistory (hf\<lparr>hfEntries := es @ [ent\<lparr>heState := st\<rparr>]\<rparr>)"
      using setState_last [OF i(2)] by simp
    have "listed olds w3 ent st" if "hdIndex (dkHistory w3) = Some (hf\<lparr>hfEntries := es @ [ent\<lparr>heState := st\<rparr>]\<rparr>)" for w3
      using that i(1,2) \<open>hfVersion hf \<noteq> 0\<close> by (cases hf) (auto simp: listed_def)
    then show ?thesis unfolding m using that quiet
      by (intro wp_saveHistory) (auto simp: marked_def sameData_def)
  qed
  have "wpOp (withFileLock (tryOp loadHistory ?m)) (marked olds ent sts st w) w"
  proof (rule wp_withFileLock)
    fix w1 assume w1: "sameData w w1"
    show "wpOp (tryOp loadHistory ?m) (marked olds ent sts st w) w1"
    proof (rule wp_tryI, rule wp_loadHistory, goal_cases)
      case (3 hf w2)
      then show ?case using save [OF w1, of w2 hf] by simp
    qed (use w1 in \<open>auto intro: quiet sameData_trans\<close>)
  qed (auto intro: quiet)
  then show ?thesis using st ident by (auto simp: markSnapshotState_def validState_def)
qed

section \<open>The write\<close>

text \<open>The target was replaced; the history is as before.\<close>

definition wrote :: "string \<Rightarrow> string \<Rightarrow> 'x store \<Rightarrow> 'x store \<Rightarrow> bool" where
  "wrote path content w w' \<longleftrightarrow>
     (\<exists>t. dkFiles w' = (dkFiles w)(path \<mapsto> \<lparr>fileData = content, fileTime = t\<rparr>)) \<and> dkHistory w' = dkHistory w"

lemma wrote_put: "sameData w w' \<Longrightarrow> sameData (putFile path content w') w'' \<Longrightarrow> wrote path content w w''"
  by (auto simp: wrote_def sameData_def putFile_def)

lemma wp_putFile:
  assumes "\<And>w'. wrote path content w w' \<Longrightarrow> Q (Some (True, None)) w'"
    and "\<And>w'. wrote path content w w' \<Longrightarrow> Q None w'" "\<And>w'. sameData w w' \<Longrightarrow> Q None w'"
    and "\<And>w' e. wrote path content w w' \<Longrightarrow> Q (Some (True, Some e)) w'"
    and "\<And>w' e. sameData w w' \<Longrightarrow> Q (Some (False, Some e)) w'"
  shows "wpOp (ioCall (putFile path content)) Q w"
proof -
  have "wrote path content w (putFile path content (w\<lparr>dkEvents := es, dkClock := c\<rparr>))" for es c
    by (auto simp: wrote_def putFile_def)
  then show ?thesis by (intro wp_ioCall assms) simp_all
qed

lemma wp_atomicWriteFileStaged:
  assumes before: "\<And>w1. sameData w w1 \<Longrightarrow> wpOp before (\<lambda>r w2. sameData w w2 \<and> (r = Some (Inr ()) \<longrightarrow> P)) w1"
    and quiet: "\<And>w'. sameData w w' \<Longrightarrow> Q None w'" "\<And>w' e. sameData w w' \<Longrightarrow> Q (Some (False, Some e)) w'"
    and wrote: "\<And>w' r. wrote path content w w' \<Longrightarrow> P \<Longrightarrow> r \<in> {None, Some (True, None)} \<Longrightarrow> Q r w'"
      "\<And>w' e. wrote path content w w' \<Longrightarrow> P \<Longrightarrow> Q (Some (True, Some e)) w'"
  shows "wpOp (atomicWriteFileStaged cf path content before) Q w"
proof (cases "rootRelative (cfWorkDir cf) path")
  case (Inl err)
  then show ?thesis using quiet(2) by (simp add: atomicWriteFileStaged_def)
next
  case (Inr rel)
  have stamp: "wrote path content w (recordStamp path t n w') = wrote path content w w'" for t n and w' :: "'a store"
    by (simp add: wrote_def recordStamp_def)
  let ?after = "\<lambda>(renamed, err). case err of
      Some e \<Rightarrow> retOp (renamed, Some e)
    | None \<Rightarrow> bindOp (ioRead (\<lambda>w. dkFiles w path))
        (\<lambda>info w. (Some (True, None), case info of
            Inr (Some f) \<Rightarrow> recordStamp path (fileTime f) (int (length (fileData f))) w | _ \<Rightarrow> w))"
  have after: "wpOp (bindOp (ioCall (putFile path content)) ?after) Q w2" if "sameData w w2" P for w2
  proof (rule wp_bindI, rule wp_putFile, goal_cases)
    case (1 w')
    then have wr: "wrote path content w w'" using \<open>sameData w w2\<close> by (simp add: wrote_def sameData_def)
    have "wpOp (?after (True, None)) Q w'"
      unfolding prod.case option.case
    proof (rule wp_bindI, rule quiet_wp [OF quiet_ioRead])
      fix r v assume "sameData w' v"
      then have "wrote path content w v" using wr by (simp add: wrote_def sameData_def)
      then show "(r = None \<longrightarrow> Q None v) \<and> (\<forall>a. r = Some a \<longrightarrow> wpOp (\<lambda>w. (Some (True, None), case a of
            Inr (Some f) \<Rightarrow> recordStamp path (fileTime f) (int (length (fileData f))) w | _ \<Rightarrow> w)) Q v)"
        using wrote(1) \<open>P\<close> stamp by (auto simp: wpOp_def split: sum.split option.split)
    qed
    then show ?case by simp
  qed (use that quiet wrote in \<open>auto simp: wrote_def sameData_def\<close>)
  show ?thesis
    unfolding atomicWriteFileStaged_def Inr sum.case
  proof (rule wp_bindI, rule quiet_wp [OF quiet_ioStep_id], goal_cases)
    case (1 r w1)
    have "wpOp (bindOp before (\<lambda>ok. case ok of Inl err \<Rightarrow> retOp (False, Some err)
        | Inr _ \<Rightarrow> bindOp (ioCall (putFile path content)) ?after)) Q w1"
      by (rule wp_bindI, rule wp_mono [OF before [OF 1]])
        (use quiet after in \<open>auto split: sum.split\<close>)
    then show ?case using 1 quiet by (auto split: sum.split)
  qed
qed

lemma wp_preflightWrite:
  assumes "\<And>w'. sameData w w' \<Longrightarrow> Q None w'" "\<And>w' e. sameData w w' \<Longrightarrow> Q (Some (False, Some e)) w'"
    and "\<And>w' r. wrote path content w w' \<Longrightarrow> preflightOK (cfSha256Hex cf) pre (dkFiles w path) \<Longrightarrow>
      r \<in> {None, Some (True, None)} \<Longrightarrow> Q r w'"
    and "\<And>w' e. wrote path content w w' \<Longrightarrow> preflightOK (cfSha256Hex cf) pre (dkFiles w path) \<Longrightarrow> Q (Some (True, Some e)) w'"
  shows "wpOp (atomicWriteFileStaged cf path content (verifyPreflightState cf path pre)) Q w"
proof (rule wp_atomicWriteFileStaged [where P = "preflightOK (cfSha256Hex cf) pre (dkFiles w path)"])
  fix w1 assume w1: "sameData w w1"
  show "wpOp (verifyPreflightState cf path pre)
      (\<lambda>r w2. sameData w w2 \<and> (r = Some (Inr ()) \<longrightarrow> preflightOK (cfSha256Hex cf) pre (dkFiles w path))) w1"
    by (rule wp_verifyPreflightState) (use w1 in \<open>auto simp: sameDataD(1) intro: sameData_trans\<close>)
qed (use assms in auto)

definition unwritten ::
  "historyConfig \<Rightarrow> string \<Rightarrow> string \<Rightarrow> string \<Rightarrow> snapshotTransition \<Rightarrow> historyDisk store \<Rightarrow> historyDisk store \<Rightarrow> bool" where
  "unwritten cf path disp opName tr w w' \<longleftrightarrow>
     dkFiles w' = dkFiles w \<and>
     (hdIndex (dkHistory w') = hdIndex (dkHistory w) \<or>
      (\<exists>ent. entryFor cf path disp opName tr ent \<and>
         (listed (entriesOf w) w' ent statePrepared \<or> listed (entriesOf w) w' ent stateAborted)))"

definition written ::
  "historyConfig \<Rightarrow> string \<Rightarrow> string \<Rightarrow> string \<Rightarrow> snapshotTransition \<Rightarrow> historyDisk store \<Rightarrow>
   string set \<Rightarrow> historyEntry \<Rightarrow> historyDisk store \<Rightarrow> bool" where
  "written cf path disp opName tr w sts ent w' \<longleftrightarrow>
     (\<exists>t. dkFiles w' = (dkFiles w)(path \<mapsto> \<lparr>fileData = expectedAfter tr, fileTime = t\<rparr>)) \<and>
     preflightOK (cfSha256Hex cf) (preContent tr) (dkFiles w path) \<and>
     entryFor cf path disp opName tr ent \<and> blobThere cf w' ent (preContent tr) \<and>
     (\<exists>st \<in> sts. listed (entriesOf w) w' ent st)"

lemma written_mono: "written cf path disp opName tr w sts ent w' \<Longrightarrow> sts \<subseteq> sts' \<Longrightarrow> written cf path disp opName tr w sts' ent w'"
  by (auto simp: written_def)

lemma written_update:
  assumes "written cf path disp opName tr w sts ent w1" "dkFiles w2 = dkFiles w1"
    and "hdBlobs (dkHistory w2) = hdBlobs (dkHistory w1)" "listed (entriesOf w) w2 ent st" "st \<in> sts'"
  shows "written cf path disp opName tr w sts' ent w2"
  using assms unfolding written_def blobThere_def by auto

text \<open>Marking keeps what was written and adds a state.\<close>

lemma wp_mark_written:
  assumes "written cf path disp opName tr w sts ent w1" "validState st" "heID ent \<noteq> []"
  shows "wpOp (markSnapshotState (heID ent) st)
    (\<lambda>r. written cf path disp opName tr w (if r = Some (Inr ()) then {st} else insert st sts) ent) w1"
proof -
  obtain s where s: "s \<in> sts" "listed (entriesOf w) w1 ent s" using assms(1) by (auto simp: written_def)
  have upd: "written cf path disp opName tr w (if r = Some (Inr ()) then {st} else insert st sts) ent w2"
    if m: "marked (entriesOf w) ent sts st w1 r w2" for r w2
  proof -
    have f: "dkFiles w2 = dkFiles w1" "hdBlobs (dkHistory w2) = hdBlobs (dkHistory w1)"
      using m by (simp_all add: marked_def)
    show ?thesis
    proof (cases "r = Some (Inr ())")
      case True
      then have "listed (entriesOf w) w2 ent st" using m by (simp add: marked_def)
      from written_update [OF assms(1) f this] show ?thesis using True by simp
    next
      case False
      then obtain s' where l: "s' \<in> insert st sts" "listed (entriesOf w) w2 ent s'"
        using m unfolding marked_def by auto
      from written_update [OF assms(1) f l(2) l(1)] show ?thesis using False by simp
    qed
  qed
  show ?thesis by (rule wp_mono [OF wp_markSnapshotState [OF s(2) s(1) assms(2,3)]], rule upd, assumption)
qed

definition outcome ::
  "historyConfig \<Rightarrow> string \<Rightarrow> string \<Rightarrow> string \<Rightarrow> snapshotTransition \<Rightarrow> historyDisk store \<Rightarrow>
   (goError + string) option \<Rightarrow> historyDisk store \<Rightarrow> bool" where
  "outcome cf path disp opName tr w r w' \<longleftrightarrow>
     (case r of
        Some (Inr ident) \<Rightarrow> (\<exists>ent. heID ent = ident \<and> written cf path disp opName tr w {stateCommitted} ent w')
      | _ \<Rightarrow> unwritten cf path disp opName tr w w' \<or>
          (\<exists>ent. written cf path disp opName tr w {statePrepared, stateCommitted, stateUncertain} ent w'))"

lemma recorded_unwritten:
  "recorded cf path disp opName tr w r w' \<Longrightarrow> (\<And>i. r \<noteq> Some (Inr i)) \<Longrightarrow> unwritten cf path disp opName tr w w'"
  by (auto simp: recorded_def unwritten_def split: option.splits sum.splits)

lemma entryFor_ID: "entryFor cf path disp opName tr ent \<Longrightarrow> freshID cf path olds \<Longrightarrow> heID ent \<noteq> []"
  by (auto simp: entryFor_def freshID_def)

lemma truncate_sha [simp]: "cfSha256Hex (engineConfig.truncate cf) = cfSha256Hex cf"
  by (simp add: engineConfig.truncate_def)

lemma validStates [simp]: "validState statePrepared" "validState stateCommitted" "validState stateAborted" "validState stateUncertain"
  by (simp_all add: validState_def)

text \<open>The part of \<open>snapshotAndWrite\<close> behind the snapshot.\<close>

lemma wp_afterSnapshot:
  assumes rec: "recorded cf path disp opName tr w (Some (Inr (heID ent))) w1"
    and fresh: "freshID cf path (entriesOf w)"
    and e: "entryFor cf path disp opName tr ent" "listed (entriesOf w) w1 ent statePrepared"
      "blobThere cf w1 ent (preContent tr)"
    and tr: "preContent tr = pre" "expectedAfter tr = content"
  shows "wpOp (bindOp (atomicWriteFileStaged (engineConfig.truncate cf) path content
                (verifyPreflightState (engineConfig.truncate cf) path pre))
         (\<lambda>(mutated, failed).
            case failed of
              Some err \<Rightarrow>
                bindOp (markSnapshotState (heID ent) (if mutated then stateUncertain else stateAborted))
                  (\<lambda>_. retOp (Inl err))
            | None \<Rightarrow>
                bindOp (markSnapshotState (heID ent) stateCommitted)
                  (\<lambda>marked. case marked of
                     Inl err \<Rightarrow> bindOp (markSnapshotState (heID ent) stateUncertain)
                       (\<lambda>_. retOp (Inl (wrapErr ''mutation committed but history state is uncertain: '' err)))
                   | Inr _ \<Rightarrow> retOp (Inr (heID ent)))))
    (outcome cf path disp opName tr w) w1"
proof -
  let ?all = "{statePrepared, stateCommitted, stateUncertain}"
  have ident: "heID ent \<noteq> []" using e fresh by (rule_tac entryFor_ID)
  have f1: "dkFiles w1 = dkFiles w" using rec by (simp add: recorded_def)
  have un: "unwritten cf path disp opName tr w w2" if "sameData w1 w2" for w2
    using listed_same [OF that e(2)] that e(1) f1 unfolding unwritten_def sameData_def by auto
  have wr: "written cf path disp opName tr w {statePrepared} ent w2"
    if "wrote path content w1 w2" "preflightOK (cfSha256Hex cf) pre (dkFiles w1 path)" for w2
    using that e f1 tr by (auto simp: written_def wrote_def listed_def blobThere_def)
  have out: "outcome cf path disp opName tr w r w2"
    if "written cf path disp opName tr w sts ent w2" "sts \<subseteq> ?all" "\<And>i. r \<noteq> Some (Inr i)" for r w2 sts
    using that written_mono by (auto simp: outcome_def split: option.split sum.split) blast+
  have unI: "outcome cf path disp opName tr w None w2" "outcome cf path disp opName tr w (Some (Inl err)) w2"
    if "unwritten cf path disp opName tr w w2" for w2 err
    using that by (auto simp: outcome_def)
  have ok: "outcome cf path disp opName tr w (Some (Inr (heID ent))) w2"
    if "written cf path disp opName tr w {stateCommitted} ent w2" for w2
    using that by (auto simp: outcome_def)
  have abort: "wpOp (bindOp (markSnapshotState (heID ent) stateAborted) (\<lambda>_. retOp (Inl err)))
      (outcome cf path disp opName tr w) w2" if "sameData w1 w2" for w2 err
  proof (rule wp_bindI, rule wp_mono [OF wp_markSnapshotState [OF listed_same [OF that e(2)] singletonI]])
    fix r w3 assume "marked (entriesOf w) ent {statePrepared} stateAborted w2 r w3"
    then have "unwritten cf path disp opName tr w w3"
      using that f1 e by (auto simp: unwritten_def marked_def sameData_def split: if_splits)
    then show "(r = None \<longrightarrow> outcome cf path disp opName tr w None w3) \<and>
        (\<forall>a. r = Some a \<longrightarrow> wpOp (retOp (Inl err)) (outcome cf path disp opName tr w) w3)"
      by (simp add: outcome_def)
  qed (use ident in simp_all)
  have uncertain: "wpOp (bindOp (markSnapshotState (heID ent) stateUncertain) (\<lambda>_. retOp (Inl err)))
      (outcome cf path disp opName tr w) w2"
    if "written cf path disp opName tr w {statePrepared, stateCommitted} ent w2" for w2 err
    by (rule wp_bindI, rule wp_mono [OF wp_mark_written [OF that]])
      (use ident in \<open>auto intro!: out split: if_splits\<close>)
  have commit: "wpOp (bindOp (markSnapshotState (heID ent) stateCommitted)
      (\<lambda>marked. case marked of
         Inl err \<Rightarrow> bindOp (markSnapshotState (heID ent) stateUncertain)
           (\<lambda>_. retOp (Inl (wrapErr ''mutation committed but history state is uncertain: '' err)))
       | Inr _ \<Rightarrow> retOp (Inr (heID ent)))) (outcome cf path disp opName tr w) w2"
    if "written cf path disp opName tr w {statePrepared} ent w2" for w2
    by (rule wp_bindI, rule wp_mono [OF wp_mark_written [OF that]])
      (use ident in \<open>auto intro!: out uncertain ok split: if_splits sum.split simp: insert_commute\<close>)
  show ?thesis
  proof (rule wp_bindI, rule wp_preflightWrite, goal_cases)
    case (1 w2)
    then show ?case using unI(1) [OF un] by simp
  next
    case (2 w2 err)
    then show ?case using abort by simp
  next
    case (3 w2 r)
    then have "written cf path disp opName tr w {statePrepared} ent w2" using wr by simp
    then show ?case using 3(3) out [of "{statePrepared}" w2 None] commit by auto
  next
    case (4 w2 err)
    then have "written cf path disp opName tr w {statePrepared} ent w2" using wr by simp
    from written_mono [OF this] show ?case using uncertain by simp
  qed
qed

lemma wp_snapshotAndWrite:
  assumes fresh: "freshID cf path (entriesOf w)"
  shows "wpOp (snapshotAndWrite cf path disp opName pre content)
    (outcome cf path disp opName \<lparr>preContent = pre, expectedAfter = content, expectedExists = True\<rparr> w) w"
proof -
  let ?tr = "\<lparr>preContent = pre, expectedAfter = content, expectedExists = True\<rparr>"
  show ?thesis
    unfolding snapshotAndWrite_def
  proof (rule wp_tryI, rule wp_mono [OF wp_recordSnapshotForMutation [OF fresh, of disp opName ?tr]], intro conjI allI impI)
    fix r w1 assume rec: "recorded cf path disp opName ?tr w r w1"
    show "outcome cf path disp opName ?tr w None w1" if "r = None"
      using recorded_unwritten [OF rec] that by (simp add: outcome_def)
    show "outcome cf path disp opName ?tr w (Some (Inl err)) w1" if "r = Some (Inl err)" for err
      using recorded_unwritten [OF rec] that by (simp add: outcome_def)
    fix ident assume r: "r = Some (Inr ident)"
    then obtain ent where e: "entryFor cf path disp opName ?tr ent" "ident = heID ent"
        "listed (entriesOf w) w1 ent statePrepared" "blobThere cf w1 ent pre"
      using rec by (auto simp: recorded_def)
    show "wpOp (bindOp (atomicWriteFileStaged (engineConfig.truncate cf) path content
                (verifyPreflightState (engineConfig.truncate cf) path pre))
         (\<lambda>(mutated, failed).
            case failed of
              Some err \<Rightarrow>
                bindOp (markSnapshotState ident (if mutated then stateUncertain else stateAborted))
                  (\<lambda>_. retOp (Inl err))
            | None \<Rightarrow>
                bindOp (markSnapshotState ident stateCommitted)
                  (\<lambda>marked. case marked of
                     Inl err \<Rightarrow> bindOp (markSnapshotState ident stateUncertain)
                       (\<lambda>_. retOp (Inl (wrapErr ''mutation committed but history state is uncertain: '' err)))
                   | Inr _ \<Rightarrow> retOp (Inr ident))))
        (outcome cf path disp opName ?tr w) w1"
      unfolding e(2) using rec r e fresh by (intro wp_afterSnapshot) simp_all
  qed
qed

end
