(* ===== verification/BatchFacts.thy ===== *)
theory BatchFacts
  imports FileTools HistoryFacts
begin

text \<open>
  What the mutating tools do to the files, whatever fails: a write changes its target alone, a
  batch its first targets in order; and what the preflight phases have read.
\<close>

section \<open>Operations that leave the files alone\<close>

definition keepsFiles :: "('x, 'a) op \<Rightarrow> bool" where
  "keepsFiles m \<longleftrightarrow> (\<forall>w. wpOp m (\<lambda>_ w'. dkFiles w' = dkFiles w) w)"

named_theorems keeps_intros

lemma keepsFiles_wp: "keepsFiles m \<Longrightarrow> (\<And>r w'. dkFiles w' = dkFiles w \<Longrightarrow> Q r w') \<Longrightarrow> wpOp m Q w"
  by (auto simp: keepsFiles_def wpOp_def split: prod.splits)

lemma quiet_keepsFiles: "quiet m \<Longrightarrow> keepsFiles m"
  unfolding keepsFiles_def by (intro allI quiet_wp) (auto simp: sameData_def)

lemma keepsFiles_bind [keeps_intros]: "keepsFiles m \<Longrightarrow> (\<And>a. keepsFiles (f a)) \<Longrightarrow> keepsFiles (bindOp m f)"
  unfolding keepsFiles_def wp_bind by (fastforce simp: wpOp_def split: prod.splits option.splits)

lemma keepsFiles_basic [keeps_intros]:
  "keepsFiles (retOp a)" "keepsFiles (ioRead g)" "keepsFiles (readRegularFile path)" "keepsFiles (checkStale path)"
  "keepsFiles (verifyPreflightState cfg path expected)"
  by (intro quiet_keepsFiles quiet_intros)+

lemma keepsFiles_step [keeps_intros]: "(\<And>w. dkFiles (f w) = dkFiles w) \<Longrightarrow> keepsFiles (ioStep f)"
  unfolding keepsFiles_def by (intro allI wp_ioStep) simp_all

lemma keepsFiles_files [simp]:
  "dkFiles (setBlob b c w) = dkFiles w" "dkFiles (setIndex hf w) = dkFiles w" "dkFiles (id w) = dkFiles w"
  by (simp_all add: setBlob_def setIndex_def)

lemma keepsFiles_get [keeps_intros]: "(\<And>w. keepsFiles (f w)) \<Longrightarrow> keepsFiles (getOp f)"
  by (simp add: keepsFiles_def)

lemma keepsFiles_try [keeps_intros]: "keepsFiles m \<Longrightarrow> (\<And>a. keepsFiles (f a)) \<Longrightarrow> keepsFiles (tryOp m f)"
  unfolding tryOp_def by (auto intro!: keeps_intros split: sum.split)

lemma keepsFiles_mapErr [keeps_intros]: "keepsFiles m \<Longrightarrow> keepsFiles (mapErr g m)"
  unfolding mapErr_def by (intro keeps_intros)

lemma keepsFiles_lock [keeps_intros]: "keepsFiles m \<Longrightarrow> keepsFiles (withFileLock m)"
  unfolding withFileLock_def by (intro keeps_intros) simp

lemma keepsFiles_history [keeps_intros]:
  "keepsFiles loadHistory" "keepsFiles (saveHistory hf)" "keepsFiles (removeBlob cf ent)"
  "keepsFiles (writeBlobForSnapshot cf i p)"
  unfolding loadHistory_def saveHistory_def removeBlob_def writeBlobForSnapshot_def Let_def
  by (auto intro!: keeps_intros split: sum.split)

lemma keepsFiles_removeBlobs [keeps_intros]: "keepsFiles (removeBlobs cf ents)"
  by (induction ents) (auto intro!: keeps_intros)

lemma keepsFiles_record [keeps_intros]: "keepsFiles (recordSnapshotForMutation cf path disp opName tr)"
  unfolding recordSnapshotForMutation_def recordSnapshotLockedStrict_def Let_def
  by (auto intro!: keeps_intros split: sum.split option.split prod.split)

lemma keepsFiles_mark [keeps_intros]: "keepsFiles (markSnapshotState i st)"
  unfolding markSnapshotState_def by (auto intro!: keeps_intros split: option.split)

section \<open>One write\<close>

definition contents :: "'x store \<Rightarrow> string \<Rightarrow> string option" where
  "contents w q = map_option fileData (dkFiles w q)"

lemma contents_same: "dkFiles w' = dkFiles w \<Longrightarrow> contents w' = contents w"
  by (simp add: contents_def fun_eq_iff)

lemma contents_put:
  "dkFiles w' = (dkFiles w)(path \<mapsto> \<lparr>fileData = c, fileTime = t\<rparr>) \<Longrightarrow> contents w' = (contents w)(path \<mapsto> c)"
  by (simp add: contents_def fun_eq_iff)

lemma preflightOK_contents:
  "preflightOK sha pre (dkFiles w path) =
   (case (pre, contents w path) of
      (None, None) \<Rightarrow> True | (Some b, Some d) \<Rightarrow> sha b = [] \<or> equalFold (sha d) (sha b) | _ \<Rightarrow> False)"
  by (cases "dkFiles w path"; cases pre) (simp_all add: preflightOK_def contents_def)

definition writeEffect ::
  "(string \<Rightarrow> string) \<Rightarrow> string \<Rightarrow> string option \<Rightarrow> string \<Rightarrow> 'x store \<Rightarrow> (goError + 'a) option \<Rightarrow> 'x store \<Rightarrow> bool" where
  "writeEffect sha path pre content w r w' \<longleftrightarrow>
     (contents w' = contents w \<and> (\<forall>a. r \<noteq> Some (Inr a))) \<or>
     (contents w' = (contents w)(path \<mapsto> content) \<and> preflightOK sha pre (dkFiles w path))"

lemma snapshotAndWrite_effect:
  "wpOp (snapshotAndWrite cf path disp opName pre content) (writeEffect (cfSha256Hex cf) path pre content w) w"
proof -
  have un: "writeEffect (cfSha256Hex cf) path pre content w r w'"
    if "dkFiles w' = dkFiles w" "\<And>a. r \<noteq> Some (Inr a)" for r :: "(goError + string) option" and w' :: "historyDisk store"
    using contents_same [OF that(1)] that(2) by (simp add: writeEffect_def)
  have wr: "writeEffect (cfSha256Hex cf) path pre content w r w2"
    if "dkFiles w0 = dkFiles w" "wrote path content w0 w1" "preflightOK (cfSha256Hex cf) pre (dkFiles w0 path)"
      "dkFiles w2 = dkFiles w1" for r :: "(goError + string) option" and w0 w1 w2 :: "historyDisk store"
    using that by (auto simp: writeEffect_def wrote_def intro!: contents_put)
  show ?thesis
    unfolding snapshotAndWrite_def
  proof (rule wp_tryI, rule keepsFiles_wp [OF keepsFiles_record], intro conjI allI impI)
    fix r :: "(goError + string) option" and w0 :: "historyDisk store" and ident
    assume w0: "dkFiles w0 = dkFiles w"
    let ?mark = "\<lambda>(mutated, failed).
            case failed of
              Some err \<Rightarrow>
                bindOp (markSnapshotState ident (if mutated then stateUncertain else stateAborted))
                  (\<lambda>_. retOp (Inl err))
            | None \<Rightarrow>
                bindOp (markSnapshotState ident stateCommitted)
                  (\<lambda>marked. case marked of
                     Inl err \<Rightarrow> bindOp (markSnapshotState ident stateUncertain)
                       (\<lambda>_. retOp (Inl (wrapErr ''mutation committed but history state is uncertain: '' err)))
                   | Inr _ \<Rightarrow> retOp (Inr ident))"
    have k: "keepsFiles (?mark p)" for p
      by (auto intro!: keeps_intros split: prod.split option.split sum.split)
    have fail: "wpOp (?mark (m, Some err)) (\<lambda>r w'. dkFiles w' = dkFiles v \<and> (\<forall>a. r \<noteq> Some (Inr a))) v" for m err v
      unfolding prod.case option.case
      by (rule wp_bindI, rule keepsFiles_wp [OF keepsFiles_mark]) simp
    show "wpOp (bindOp (atomicWriteFileStaged (engineConfig.truncate cf) path content
                (verifyPreflightState (engineConfig.truncate cf) path pre)) ?mark)
        (writeEffect (cfSha256Hex cf) path pre content w) w0"
    proof (rule wp_bindI, rule wp_preflightWrite, goal_cases)
      case (1 w1)
      then show ?case using un w0 by (simp add: sameData_def)
    next
      case (2 w1 err)
      then have "dkFiles w1 = dkFiles w" using w0 by (simp add: sameData_def)
      then show ?case using wp_mono [OF fail [of False err w1]] un by simp
    next
      case (3 w1 r)
      then show ?case
        using wr [OF w0] keepsFiles_wp [OF k [of "(True, None)"]] by auto
    next
      case (4 w1 err)
      then show ?case
        using wr [OF w0] keepsFiles_wp [OF k [of "(True, Some err)"]] by auto
    qed
  qed (use un in auto)
qed

section \<open>A batch of writes\<close>

definition putAll :: "preparedWrite list \<Rightarrow> (string \<Rightarrow> string option) \<Rightarrow> string \<Rightarrow> string option" where
  "putAll ws c = foldl (\<lambda>c w. c(pwResolved w \<mapsto> pwUpdated w)) c ws"

lemma putAll_simps [simp]: "putAll [] c = c" "putAll (w # ws) c = putAll ws (c(pwResolved w \<mapsto> pwUpdated w))"
  by (simp_all add: putAll_def)

lemma putAll_other: "q \<notin> pwResolved ` set ws \<Longrightarrow> putAll ws c q = c q"
  by (induction ws arbitrary: c) simp_all

definition refsOf :: "preparedWrite list \<Rightarrow> string list \<Rightarrow> appliedRef list" where
  "refsOf ws idents =
     map (\<lambda>(w, i). \<lparr>arPath = pwPath w, arUndoID = i, arResolved = pwResolved w\<rparr>) (zip ws idents)"

text \<open>
  The files after a batch, from contents \<open>c\<close>: the first \<open>j\<close> writes are there.  An error names the first
  \<open>m\<close> of them as applied, which are all or all but the one that failed.
\<close>

definition batchEffect ::
  "string \<Rightarrow> nat \<Rightarrow> appliedRef list \<Rightarrow> preparedWrite list \<Rightarrow> (string \<Rightarrow> string option)
     \<Rightarrow> (goError + 'a list) option \<Rightarrow> 'x store \<Rightarrow> bool" where
  "batchEffect opName targets applied ws c r w' \<longleftrightarrow>
     (\<exists>j \<le> length ws. contents w' = putAll (take j ws) c \<and>
        (\<forall>as. r = Some (Inr as) \<longrightarrow> j = length ws \<and> length as = length ws) \<and>
        (\<forall>e. r = Some (Inl e) \<longrightarrow> (\<exists>m idents failErr. m < length ws \<and> m \<le> j \<and> j \<le> m + 1 \<and>
           length idents = m \<and> e = partialApplyErr opName (applied @ refsOf (take m ws) idents) targets failErr)))"

lemma batchEffect_fail:
  assumes "contents w' = c \<or> contents w' = c(pwResolved x \<mapsto> pwUpdated x)"
    and "r = None \<or> (\<exists>e. r = Some (Inl (partialApplyErr opName applied targets e)))"
  shows "batchEffect opName targets applied (x # ws) c r w'"
proof -
  obtain j where "j \<in> {0, 1}" "contents w' = putAll (take j (x # ws)) c" using assms(1) by fastforce
  then show ?thesis
    using assms(2) unfolding batchEffect_def
    by (intro exI [of _ j] conjI) (auto intro!: exI [of _ 0] exI [of _ "[]"] simp: refsOf_def)
qed

lemma batchEffect_more:
  assumes "batchEffect opName targets (applied @ [\<lparr>arPath = pwPath x, arUndoID = i, arResolved = pwResolved x\<rparr>]) ws
      (c(pwResolved x \<mapsto> pwUpdated x)) r w'"
    and "r' = map_option (map_sum id (Cons a)) r"
  shows "batchEffect opName targets applied (x # ws) c r' w'"
proof -
  obtain j where j: "j \<le> length ws" "contents w' = putAll (take j ws) (c(pwResolved x \<mapsto> pwUpdated x))"
      "\<And>as. r = Some (Inr as) \<Longrightarrow> j = length ws \<and> length as = length ws"
      "\<And>e. r = Some (Inl e) \<Longrightarrow> \<exists>m idents failErr. m < length ws \<and> m \<le> j \<and> j \<le> m + 1 \<and> length idents = m \<and>
         e = partialApplyErr opName ((applied @ [\<lparr>arPath = pwPath x, arUndoID = i, arResolved = pwResolved x\<rparr>]) @
               refsOf (take m ws) idents) targets failErr"
    using assms(1) unfolding batchEffect_def by blast
  show ?thesis
    unfolding batchEffect_def
  proof (rule exI [of _ "Suc j"], intro conjI allI impI)
    fix e assume "r' = Some (Inl e)"
    then have "r = Some (Inl e)" using assms(2) by (cases r) (auto simp: map_sum_def split: sum.splits)
    from j(4) [OF this] obtain m idents failErr where m: "m < length ws" "m \<le> j" "j \<le> m + 1" "length idents = m"
      "e = partialApplyErr opName (applied @ refsOf (take (Suc m) (x # ws)) (i # idents)) targets failErr"
      by (auto simp: refsOf_def)
    then show "\<exists>m idents failErr. m < length (x # ws) \<and> m \<le> Suc j \<and> Suc j \<le> m + 1 \<and> length idents = m \<and>
         e = partialApplyErr opName (applied @ refsOf (take m (x # ws)) idents) targets failErr"
      by (intro exI [of _ "Suc m"] exI [of _ "i # idents"] exI [of _ failErr]) auto
  next
    fix as assume "r' = Some (Inr as)"
    then obtain as' where "r = Some (Inr as')" "as = a # as'"
      using assms(2) by (cases r) (auto simp: map_sum_def split: sum.splits)
    with j(3) show "Suc j = length (x # ws)" "length as = length (x # ws)" by auto
  qed (use j in simp_all)
qed

lemma commitFrom_effect:
  assumes "\<And>k. keepsFiles (committed k)"
  shows "wpOp (commitFrom cf opName targets committed applied k ws)
    (batchEffect opName targets applied ws (contents w)) w"
proof (induction ws arbitrary: applied k w)
  case Nil
  show ?case by (simp add: batchEffect_def)
next
  case (Cons x ws)
  let ?Q = "batchEffect opName targets applied (x # ws) (contents w)"
  note fails = batchEffect_fail [where x = x and ws = ws and applied = applied]
  show ?case
    unfolding commitFrom.simps Let_def
  proof (rule wp_bindI, rule keepsFiles_wp [OF keepsFiles_basic(5)], goal_cases)
    case (1 r1 w1)
    then have c1: "contents w1 = contents w" by (rule contents_same)
    show ?case
    proof (intro conjI allI impI, goal_cases)
      case 1
      show ?case using c1 by (auto intro!: fails)
    next
      case (2 ok)
      show ?case
      proof (cases ok)
        case (Inl err)
        then show ?thesis using c1 by (auto intro!: fails)
      next
        case (Inr u)
        show ?thesis
          unfolding Inr sum.case
        proof (rule wp_bindI, rule wp_mono [OF snapshotAndWrite_effect], goal_cases)
          case (1 r2 w2)
          then have w2: "contents w2 = contents w \<or> contents w2 = (contents w)(pwResolved x \<mapsto> pwUpdated x)"
            "\<And>a. r2 = Some (Inr a) \<Longrightarrow> contents w2 = (contents w)(pwResolved x \<mapsto> pwUpdated x)"
            using c1 by (auto simp: writeEffect_def)
          have more: "batchEffect opName targets
                  (applied @ [\<lparr>arPath = pwPath x, arUndoID = i, arResolved = pwResolved x\<rparr>]) ws (contents w3) r4 w4 \<Longrightarrow>
                ?Q (map_option (map_sum id (Cons a)) r4) w4"
            if "contents w3 = (contents w)(pwResolved x \<mapsto> pwUpdated x)" for r4 and w3 w4 :: "historyDisk store" and a i
            unfolding that by (rule batchEffect_more) simp_all
          show ?case
          proof (intro conjI allI impI, goal_cases)
            case 1
            show ?case using w2(1) by (auto intro!: fails)
          next
            case (2 wr)
            show ?case
            proof (cases wr)
              case (Inl err)
              then show ?thesis using w2(1) by (auto intro!: fails)
            next
              case (Inr ident)
              then have put: "contents w2 = (contents w)(pwResolved x \<mapsto> pwUpdated x)" using 2 w2(2) by simp
              show ?thesis
                unfolding Inr sum.case
              proof (rule wp_bindI, rule keepsFiles_wp [OF assms], goal_cases)
                case (1 r3 w3)
                then have c3: "contents w3 = (contents w)(pwResolved x \<mapsto> pwUpdated x)"
                  using contents_same put by metis
                have rec: "wpOp (bindOp (commitFrom cf opName targets committed
                      (applied @ [\<lparr>arPath = pwPath x, arUndoID = ident, arResolved = pwResolved x\<rparr>]) (Suc k) ws)
                    (\<lambda>rest. retOp (map_sum id (Cons a) rest))) ?Q w3" for a
                proof (rule wp_bindI, rule wp_mono [OF Cons.IH], goal_cases)
                  case (1 r4 w4)
                  show ?case using more [OF c3 1, of a] by (cases r4) simp_all
                qed
                show ?case using rec c3 by (auto intro!: fails simp del: fun_upd_apply)
              qed
            qed
          qed
        qed
      qed
    qed
  qed
qed

end
