(* ===== verification/UndoTool.thy ===== *)
theory UndoTool
  imports History Diff
begin

text \<open>
  The \<open>undo\<close> tool (\<open>tool_undo.go\<close>): the list of the committed snapshots, the preview and the
  restore of one, and clearing the history.
\<close>

section \<open>Finding a snapshot and its content\<close>

definition resetHint :: string where
  "resetHint = ''use action='' @ goQuote ''clear'' @ '' to reset history''"

definition listHint :: string where
  "listHint = ''use action='' @ goQuote ''list'' @ '' to see available snapshot IDs''"

definition pickEntry :: "string \<Rightarrow> historyEntry list \<Rightarrow> goError + historyEntry" where
  "pickEntry ident entries =
     (case find (\<lambda>ent. heID ent = ident) entries of
        Some ent \<Rightarrow> Inr ent
      | None \<Rightarrow>
         (let matches = filter (\<lambda>ent. hasPrefix (heID ent) ident) entries in
          if length matches = 1 then Inr (last matches)
          else if length matches > 1
            then Inl (ErrWithSuggestion
              (''snapshot id prefix is ambiguous: '' @ goQuote ident @ '' matches '' @ natToString (length matches) @ '' entries'')
              (''use a longer prefix or the full ID from action='' @ goQuote ''list'') ''invalid_args'')
          else Inl (ErrWithSuggestion (''snapshot not found: '' @ goQuote ident) listHint [])))"

definition findEntry :: "historyConfig \<Rightarrow> string \<Rightarrow> (goError + historyEntry) hop" where
  "findEntry cf ident = tryOp (loadHistoryLocked cf) (\<lambda>hf. retOp (pickEntry ident (hfEntries hf)))"

text \<open>The path of an entry's blob, which must lie below the blobs directory.\<close>

definition blobPathOf :: "historyConfig \<Rightarrow> historyEntry \<Rightarrow> goError + string" where
  "blobPathOf cf ent =
     (case (if heBlobID ent \<noteq> []
            then (if pathBase (heBlobID ent) \<noteq> heBlobID ent
                  then Inl (ErrWithSuggestion (''invalid blob id for snapshot '' @ heID ent) resetHint [])
                  else Inr (filepathJoin (blobsDir cf) (heBlobID ent)))
            else (let clean = pathClean (heBlobPath ent) in
                  if pathDir clean \<noteq> pathClean (blobsDir cf) \<or> pathBase clean = ''.''
                  then Inl (ErrWithSuggestion (''invalid legacy blob path for snapshot '' @ heID ent) resetHint [])
                  else Inr clean)) of
        Inl err \<Rightarrow> Inl err
      | Inr path \<Rightarrow>
          (if \<not> hasPrefix path (pathClean (blobsDir cf) @ ''/'')
           then Inl (ErrWithSuggestion (''blob path outside history store for id='' @ heID ent @ '': '' @ goQuote (heBlobPath ent))
                  resetHint [])
           else Inr path))"

definition readBlob :: "historyConfig \<Rightarrow> historyEntry \<Rightarrow> (goError + string) hop" where
  "readBlob cf ent =
     (let bad = (\<lambda>what err. ErrWithSuggestion (what @ '' for id='' @ heID ent @ '': '' @ Err err) resetHint [])  in
      tryOp (retOp (blobPathOf cf ent)) (\<lambda>path.
        tryOp (mapErr (wrapErr ''open history root: '') (ioStep id)) (\<lambda>_.
          bindOp (ioRead (\<lambda>w. hdBlobs (dkHistory w) (pathBase path))) (\<lambda>r. retOp (case r of
            Inl err \<Rightarrow> Inl (bad ''blob read failed'' err)
          | Inr None \<Rightarrow> Inl (bad ''blob read failed'' (notExistErr path))
          | Inr (Some encoded) \<Rightarrow>
              (if historyMaxBlobBytes + 1048576 < int (length encoded)
               then Inl (ErrWithSuggestion (''invalid blob file for id='' @ heID ent) resetHint [])
               else case decodeBlob cf encoded of
                 Inl err \<Rightarrow> Inl (bad ''blob decode failed'' err)
               | Inr plain \<Rightarrow>
                  (if cfSha256Hex cf plain \<noteq> heBlobHash ent
                   then Inl (ErrWithSuggestion
                     (''blob integrity check failed for id='' @ heID ent @ '' (got '' @ cfSha256Hex cf plain @
                      '', want '' @ heBlobHash ent @ '')'') resetHint [])
                   else Inr plain)))))))"

section \<open>The actions\<close>

record undoListing =
  ulEntries :: "historyEntry list"
  ulTotal :: nat

text \<open>
  The selection of \<open>undoList\<close>, newest first; the limit is a number of the arguments.  The JSON
  text of the listing is made by the library.
\<close>

definition undoLimit :: "toolArgs \<Rightarrow> nat" where
  "undoLimit args =
     (case map_of args ''limit'' of
        Some (JFloat f) \<Rightarrow> (if 0 < intOfFloat f then nat (intOfFloat f) else historyMaxEntries)
      | _ \<Rightarrow> historyMaxEntries)"

definition undoList :: "historyConfig \<Rightarrow> toolArgs \<Rightarrow> (goError + undoListing) hop" where
  "undoList cf args =
     tryOp (loadHistoryLocked cf) (\<lambda>hf.
       let committed = filter (\<lambda>ent. heState ent = stateCommitted) (hfEntries hf) in
       retOp (Inr \<lparr>ulEntries = take (undoLimit args) (rev committed), ulTotal = length committed\<rparr>))"

definition idRequired :: "string \<Rightarrow> goError" where
  "idRequired action = ErrWithSuggestion (''id is required for '' @ action) listHint ''invalid_args''"

definition undoPreview :: "historyConfig \<Rightarrow> toolArgs \<Rightarrow> (goError + string) hop" where
  "undoPreview cf args =
     (let ident = strArg args ''id'' in
      if ident = [] then retOp (Inl (idRequired ''preview''))
      else tryOp (findEntry cf ident) (\<lambda>ent.
        if heState ent \<noteq> stateCommitted
        then retOp (Inl (plainError (''snapshot '' @ heID ent @ '' is '' @ heState ent @ '' and cannot be previewed'')))
        else tryOp (retOp (resolveUndoTarget cf ent)) (\<lambda>resolved.
          if heCreated ent
          then retOp (Inr (''[undo preview] restoring would delete '' @ heDisplayPath ent @
                 '' (it was created by op '' @ goQuote (heOp ent) @ '')''))
          else tryOp (readBlob cf ent) (\<lambda>pre.
            bindOp (readRegularFile resolved) (\<lambda>r.
              let current = (case r of FileBytes bytes \<Rightarrow> bytes | _ \<Rightarrow> []) in
              retOp (Inr (''[undo preview] id='' @ heID ent @ '' op='' @ heOp ent @ '' ts='' @
                cfFormatTime cf (heTimestamp ent) @ [newline] @ unifiedDiff current pre (heDisplayPath ent))))))))"

definition verifyUndoChecksum :: "historyConfig \<Rightarrow> toolArgs \<Rightarrow> string \<Rightarrow> (goError + unit) hop" where
  "verifyUndoChecksum cf args path =
     (if strArg args ''if_checksum'' = [] then retOp (Inr ())
      else bindOp (readRegularFile path) (\<lambda>r. retOp (case r of
        ReadFails err \<Rightarrow> Inl (wrapErr ''restore: read current target: '' err)
      | FileMissing _ \<Rightarrow> verifyChecksum (cfSha256Hex cf) (strArg args ''if_checksum'') path [] False
      | FileBytes bytes \<Rightarrow> verifyChecksum (cfSha256Hex cf) (strArg args ''if_checksum'') path bytes True)))"

definition undoRestoreLocked :: "historyConfig \<Rightarrow> toolArgs \<Rightarrow> historyEntry \<Rightarrow> string \<Rightarrow> (goError + string) hop" where
  "undoRestoreLocked cf args ent resolved =
     (let invalid = (\<lambda>e hint. Inl (ErrWithSuggestion e hint ''invalid_args'')) in
      if strArg args ''if_checksum'' \<noteq> [] \<and> boolArg args ''if_absent''
      then retOp (invalid ''if_checksum and if_absent:true are mutually exclusive''
             ''use if_checksum for a replacement or if_absent:true for a recreation'')
      else bindOp (readRegularFile resolved) (\<lambda>r.
        case (case r of ReadFails err \<Rightarrow> Inl (wrapErr ''restore: read current target: '' err)
              | FileMissing _ \<Rightarrow> Inr False | FileBytes _ \<Rightarrow> Inr True) of
          Inl err \<Rightarrow> retOp (Inl err)
        | Inr exists \<Rightarrow>
           (if cfPreconditions cf \<and> exists \<and> strArg args ''if_checksum'' = []
            then retOp (invalid (''if_checksum is required to restore over '' @ heDisplayPath ent)
                   ''read the current target with include_checksum=true and retry'')
            else if cfPreconditions cf \<and> \<not> exists \<and> \<not> boolArg args ''if_absent''
              then retOp (invalid (''if_absent:true is required to recreate '' @ heDisplayPath ent)
                     ''set if_absent:true after confirming the target should be absent'')
            else tryOp (checkStale resolved) (\<lambda>_.
              if heCreated ent
              then tryOp (verifyUndoChecksum cf args resolved) (\<lambda>_.
                bindOp (removeFileDurable (engineConfig.truncate cf) resolved) (\<lambda>rm. case rm of
                  RemovalFails err \<Rightarrow>
                    bindOp (markSnapshotState (heID ent) stateUncertain) (\<lambda>_.
                      retOp (Inl (wrapErr (''restore: remove '' @ heDisplayPath ent @ '': '') err)))
                | _ \<Rightarrow> retOp (Inr (''restored: deleted '' @ heDisplayPath ent @ '' (undid '' @ goQuote (heOp ent) @ '')''))))
              else tryOp (readBlob cf ent) (\<lambda>pre.
                tryOp (verifyUndoChecksum cf args resolved) (\<lambda>_.
                  tryOp (mapErr (wrapErr ''restore: write: '') (atomicWriteFile (engineConfig.truncate cf) resolved pre)) (\<lambda>_.
                    retOp (Inr (''restored: '' @ heDisplayPath ent @ '' to snapshot from '' @
                      cfFormatTime cf (heTimestamp ent) @ '' (op '' @ goQuote (heOp ent) @ '', id='' @ heID ent @ '')'')))))))))"

definition undoRestore :: "historyConfig \<Rightarrow> toolArgs \<Rightarrow> (goError + string) hop" where
  "undoRestore cf args =
     (let ident = strArg args ''id'' in
      if ident = [] then retOp (Inl (idRequired ''restore''))
      else tryOp (findEntry cf ident) (\<lambda>ent.
        if heState ent \<noteq> stateCommitted
        then retOp (Inl (plainError (''snapshot '' @ heID ent @ '' is '' @ heState ent @ '' and cannot be restored'')))
        else case resolveUndoTarget cf ent of
          Inl err \<Rightarrow> retOp (Inl (ErrWithSuggestion (''restore: path security check failed: '' @ Err err) clearHint []))
        | Inr resolved \<Rightarrow> withTargetLocks [resolved] (undoRestoreLocked cf args ent resolved)))"

definition undoClear :: "historyConfig \<Rightarrow> (goError + string) hop" where
  "undoClear cf =
     mapErr (wrapErr ''undo clear: '') (withFileLock (withFileLock
       (tryOp (ioStep (\<lambda>w. w\<lparr>dkHistory := \<lparr>hdIndex = None, hdBlobs = (\<lambda>_. None)\<rparr>\<rparr>))
         (\<lambda>_. retOp (Inr ''cleared history for this workdir'')))))"

datatype undoAnswer = UndoText string | UndoListed undoListing

definition undoTool :: "historyConfig \<Rightarrow> toolArgs \<Rightarrow> (goError + undoAnswer) hop" where
  "undoTool cf args =
     (let action = strArg args ''action''; txt = (\<lambda>m. bindOp m (\<lambda>r. retOp (map_sum id UndoText r))) in
      if action = ''list'' then bindOp (undoList cf args) (\<lambda>r. retOp (map_sum id UndoListed r))
      else if action = ''preview'' then txt (undoPreview cf args)
      else if action = ''restore'' then txt (undoRestore cf args)
      else if action = ''clear'' then txt (undoClear cf)
      else retOp (Inl (ErrWithSuggestion (''unknown action: '' @ goQuote action)
             (''use action='' @ goQuote ''list'' @ '', '' @ goQuote ''preview'' @ '', '' @ goQuote ''restore'' @ '', or '' @ goQuote ''clear'')
             ''invalid_args'')))"

end
