(* ===== verification/ToolFacts.thy ===== *)
theory ToolFacts
  imports BatchFacts UndoTool
begin

text \<open>
  Which files the tools can change, whatever fails: only targets that the path guard accepted;
  and that a dry run changes nothing.
\<close>

section \<open>Operations that change files of a set only\<close>

definition changesOnly :: "string set \<Rightarrow> ('x, 'a) op \<Rightarrow> bool" where
  "changesOnly T m \<longleftrightarrow> (\<forall>w. wpOp m (\<lambda>_ w'. \<forall>q. q \<notin> T \<longrightarrow> dkFiles w' q = dkFiles w q) w)"

named_theorems change_intros

lemma changesOnlyD: "changesOnly T m \<Longrightarrow> m w = (r, w') \<Longrightarrow> dkFiles w' q \<noteq> dkFiles w q \<Longrightarrow> q \<in> T"
  by (force simp: changesOnly_def dest: wpD)

lemma changesOnly_keeps: "keepsFiles m \<Longrightarrow> changesOnly T m"
  unfolding changesOnly_def by (auto intro: keepsFiles_wp)

lemma changesOnly_quiet: "quiet m \<Longrightarrow> changesOnly T m"
  by (intro changesOnly_keeps quiet_keepsFiles)

lemma changesOnly_bind [change_intros]:
  "changesOnly T m \<Longrightarrow> (\<And>a. changesOnly T (f a)) \<Longrightarrow> changesOnly T (bindOp m f)"
  unfolding changesOnly_def wp_bind by (fastforce simp: wpOp_def split: prod.splits option.splits)

lemma changesOnly_try [change_intros]:
  "changesOnly T m \<Longrightarrow> (\<And>a. changesOnly T (f a)) \<Longrightarrow> changesOnly T (tryOp m f)"
  unfolding tryOp_def
  by (intro change_intros) (auto split: sum.split intro!: changesOnly_keeps keeps_intros)

lemma changesOnly_get [change_intros]: "(\<And>w. changesOnly T (f w)) \<Longrightarrow> changesOnly T (getOp f)"
  by (simp add: changesOnly_def)

lemma changesOnly_basic [change_intros]:
  "changesOnly T (retOp a)" "changesOnly T (ioRead g)" "changesOnly T (readRegularFile path)"
  "changesOnly T (checkStale path)" "changesOnly T (verifyPreflightState cfg path expected)"
  "changesOnly T (recordSnapshotForMutation cf path disp opName tr)" "changesOnly T (markSnapshotState i st)"
  "changesOnly T (ioStep id)"
  by (intro changesOnly_keeps keeps_intros; simp)+

lemma changesOnly_mapErr [change_intros]: "changesOnly T m \<Longrightarrow> changesOnly T (mapErr g m)"
  unfolding mapErr_def by (intro change_intros)

lemma changesOnly_lock [change_intros]: "changesOnly T m \<Longrightarrow> changesOnly T (withFileLock m)"
  unfolding withFileLock_def by (intro change_intros)

lemma changesOnly_locks [change_intros]: "changesOnly T m \<Longrightarrow> changesOnly T (withTargetLocks targets m)"
proof -
  assume m: "changesOnly T m"
  have "changesOnly T (foldr (\<lambda>_. withFileLock) ts m)" for ts :: "string list"
    by (induction ts) (use m in \<open>auto intro: change_intros\<close>)
  then show ?thesis unfolding withTargetLocks_def by (intro change_intros)
qed

lemma changesOnly_run [change_intros]: "changesOnly T (runOp r)"
  by (simp add: changesOnly_def wpOp_def runOp_def)

text \<open>Replacing and removing.\<close>

lemma changesOnly_call: "(\<And>w q. q \<notin> T \<Longrightarrow> dkFiles (f w) q = dkFiles w q) \<Longrightarrow> changesOnly T (ioCall f)"
  unfolding changesOnly_def by (intro allI wp_ioCall) auto

lemma changesOnly_step: "(\<And>w q. q \<notin> T \<Longrightarrow> dkFiles (f w) q = dkFiles w q) \<Longrightarrow> changesOnly T (ioStep f)"
  unfolding ioStep_def by (auto intro!: change_intros changesOnly_call)

lemma changesOnly_staged [change_intros]:
  assumes "path \<in> T" "changesOnly T pre"
  shows "changesOnly T (atomicWriteFileStaged cfg path content pre)"
proof -
  have put: "changesOnly T (ioCall (putFile path content))"
    by (rule changesOnly_call) (use assms(1) in \<open>auto simp: putFile_def\<close>)
  have stamp: "changesOnly T (\<lambda>w. (Some (True, None :: goError option),
      case info of Inr (Some f) \<Rightarrow> recordStamp path (fileTime f) (int (length (fileData f))) w | _ \<Rightarrow> w))" for info :: "goError + diskFile option"
    by (auto simp: changesOnly_def wpOp_def recordStamp_def split: sum.split option.split)
  show ?thesis
    unfolding atomicWriteFileStaged_def
    by (auto intro!: change_intros assms(2) put stamp split: sum.split prod.split option.split)
qed

lemma changesOnly_atomicWriteFile [change_intros]: "path \<in> T \<Longrightarrow> changesOnly T (atomicWriteFile cfg path content)"
  unfolding atomicWriteFile_def by (auto intro!: change_intros)

lemma changesOnly_remove [change_intros]: "path \<in> T \<Longrightarrow> changesOnly T (removeFileDurable cfg path)"
  unfolding removeFileDurable_def
  by (auto intro!: change_intros changesOnly_step split: sum.split)

lemma changesOnly_snapshotAndWrite [change_intros]:
  "path \<in> T \<Longrightarrow> changesOnly T (snapshotAndWrite cf path disp opName pre content)"
  unfolding snapshotAndWrite_def by (auto intro!: change_intros split: sum.split prod.split option.split)

section \<open>The tools\<close>

definition guarded :: "historyConfig \<Rightarrow> string set" where
  "guarded cf = {r. \<exists>p. checkMutation cf p = Inr r}"

lemma guardedI: "checkMutation cf p = Inr r \<Longrightarrow> r \<in> guarded cf"
  by (auto simp: guarded_def)

lemma changesOnly_writeFile: "changesOnly (guarded cf) (writeFile cf args)"
  unfolding writeFile_def writeFileLocked_def writeFileFrom_def Let_def
  by (auto intro!: change_intros intro: guardedI split: sum.split fileRead.split option.split)

lemma changesOnly_editContext [change_intros]: "changesOnly T (editContext p i t n)"
  unfolding editContext_def by (auto intro!: change_intros)

text \<open>What an operation returns when it succeeds, whatever store it runs in.\<close>

definition yields :: "('x, goError + 'a) op \<Rightarrow> ('a \<Rightarrow> bool) \<Rightarrow> bool" where
  "yields m P \<longleftrightarrow> (\<forall>w. wpOp m (\<lambda>r _. \<forall>a. r = Some (Inr a) \<longrightarrow> P a) w)"

lemma changesOnly_tryY:
  assumes "changesOnly T m" "yields m P" "\<And>a. P a \<Longrightarrow> changesOnly T (f a)"
  shows "changesOnly T (tryOp m f)"
  unfolding changesOnly_def
proof (intro allI wp_tryI)
  fix w
  obtain r w1 where m: "m w = (r, w1)" by (cases "m w")
  have s: "dkFiles w1 q = dkFiles w q" if "q \<notin> T" for q
    using assms(1) m that by (fastforce simp: changesOnly_def dest: wpD)
  have y: "P a" if "r = Some (Inr a)" for a
    using assms(2) m that by (fastforce simp: yields_def dest: wpD)
  have "wpOp (f a) (\<lambda>_ w'. \<forall>q. q \<notin> T \<longrightarrow> dkFiles w' q = dkFiles w q) w1" if "r = Some (Inr a)" for a
    using assms(3) [OF y [OF that]] s unfolding changesOnly_def by (fastforce simp: wpOp_def split: prod.splits)
  then show "wpOp m (\<lambda>r w'. (r = None \<longrightarrow> (\<forall>q. q \<notin> T \<longrightarrow> dkFiles w' q = dkFiles w q)) \<and>
      (\<forall>e. r = Some (Inl e) \<longrightarrow> (\<forall>q. q \<notin> T \<longrightarrow> dkFiles w' q = dkFiles w q)) \<and>
      (\<forall>a. r = Some (Inr a) \<longrightarrow> wpOp (f a) (\<lambda>_ w'. \<forall>q. q \<notin> T \<longrightarrow> dkFiles w' q = dkFiles w q) w')) w"
    using m s by (simp add: wpOp_def)
qed

lemma yields_loadEditTarget: "yields (loadEditTarget cf path oldText) (\<lambda>(resolved, _). resolved \<in> guarded cf)"
proof -
  have "yields (bindOp m (\<lambda>a. retOp (g a))) P"
    if "\<And>a b. g a = Inr b \<Longrightarrow> P b" for m :: "'c hop" and g :: "'c \<Rightarrow> goError + 'd" and P
    using that unfolding yields_def wp_bind by (auto simp: wpOp_def retOp_def split: prod.split option.split)
  note leaf = this
  have tryY: "yields (tryOp m f) P" if "\<And>a. yields (f a) P" for m :: "(goError + 'c) hop" and f :: "'c \<Rightarrow> (goError + 'd) hop" and P
    using that unfolding yields_def by (intro allI wp_tryI) (simp add: wpOp_def [where m = m] split: prod.split)
  show ?thesis
    unfolding loadEditTarget_def
    by (auto split: sum.split fileRead.splits intro!: tryY leaf intro: guardedI) (auto simp: yields_def)
qed

lemma changesOnly_editFile: "changesOnly (guarded cf) (editFile cf args)"
proof -
  have "changesOnly (guarded cf) (editFileLocked cf args path old new fz n)" for path old new fz n
    unfolding editFileLocked_def
  proof (rule changesOnly_tryY [OF _ yields_loadEditTarget], goal_cases)
    case 1
    show ?case unfolding loadEditTarget_def by (auto intro!: change_intros split: sum.split)
  next
    case (2 a)
    then show ?case
      unfolding editFileFrom_def editResultText_def Let_def by (auto intro!: change_intros split: prod.split)
  qed
  then show ?thesis unfolding editFile_def Let_def by (auto intro!: change_intros split: sum.split)
qed

text \<open>A patch and an undo.\<close>

lemma resolvePatchPathsFrom_guarded:
  "resolvePatchPathsFrom cf seen i ops = Inr rs \<Longrightarrow> roResolved ` set rs \<subseteq> guarded cf"
proof (induction ops arbitrary: seen i rs)
  case (Cons x ops)
  then obtain r rs' where "checkMutation cf (opPath x) = Inr r"
      "resolvePatchPathsFrom cf ((r, i) # seen) (Suc i) ops = Inr rs'" "rs = \<lparr>roOp = x, roResolved = r\<rparr> # rs'"
    by (auto simp: invalidArgs_def map_sum_def split: sum.splits option.splits)
  then show ?case using Cons.IH by (auto intro: guardedI)
qed simp

lemma changesOnly_applyOp: "roResolved r \<in> T \<Longrightarrow> changesOnly T (applyOp cf r pf)"
  unfolding applyOp_def applyAdd_def applyDelete_def applyUpdate_def Let_def
  by (auto intro!: change_intros split: sum.split removal.split option.split)

lemma changesOnly_applyOpsFrom:
  "roResolved ` fst ` set ops \<subseteq> T \<Longrightarrow> changesOnly T (applyOpsFrom cf n applied ops)"
  by (induction ops arbitrary: applied)
    (auto intro!: change_intros changesOnly_applyOp split: sum.split)

lemma changesOnly_preflightPatch: "changesOnly T (preflightPatch cf rs)"
proof (induction rs)
  case (Cons r rs)
  have "changesOnly T (preflightOp cf r)"
    unfolding preflightOp_def preflightAdd_def preflightDelete_def preflightUpdate_def rootedStat_def rootedReadFile_def
    by (auto intro!: change_intros split: sum.split fileRead.split)
  then show ?case using Cons by (auto intro!: change_intros)
qed (simp add: change_intros)

lemma changesOnly_applyPatch: "changesOnly (guarded cf) (applyPatch cf args)"
proof -
  have "changesOnly (guarded cf) (applyPatchOps cf (zip rs pfs))"
    if "resolvePatchPaths cf ops = Inr rs" for ops rs pfs
    unfolding applyPatchOps_def
    by (intro change_intros changesOnly_applyOpsFrom)
      (use resolvePatchPathsFrom_guarded [OF that [unfolded resolvePatchPaths_def]] in \<open>force dest: set_zip_leftD\<close>)
  then show ?thesis
    unfolding applyPatch_def Let_def
    by (auto intro!: change_intros changesOnly_preflightPatch split: sum.split)
qed

end
