(* ===== verification/BatchTool.thy ===== *)
theory BatchTool
  imports ToolFacts
begin

text \<open>
  \<open>multi_edit\<close> from its arguments to the files: what the first phase has read, and what the
  last phase writes.
\<close>

section \<open>Reading the entries\<close>

text \<open>What an entry read in store \<open>w\<close> says of its JSON object.\<close>

definition describes :: "historyConfig \<Rightarrow> 'x store \<Rightarrow> jsonValue \<Rightarrow> rawEntry \<Rightarrow> bool" where
  "describes cf w raw re \<longleftrightarrow>
     (\<exists>en. raw = JObject en \<and> checkMutation cf (strArg en ''path'') = Inr (enResolved re) \<and>
        enOldText re = strArg en ''old_text'' \<and> enOldText re \<noteq> [] \<and> enNewText re = strArg en ''new_text'' \<and>
        enFuzzyIndent re = boolArg en ''fuzzy_indent'' \<and>
        contents w (enResolved re) = Some (enOrigData re))"

definition cacheOK :: "'x store \<Rightarrow> (string \<times> string) list \<Rightarrow> bool" where
  "cacheOK w cache \<longleftrightarrow> (\<forall>p b. map_of cache p = Some b \<longrightarrow> contents w p = Some b)"

lemma cacheOK_cong: "sameData w w' \<Longrightarrow> cacheOK w' cache = cacheOK w cache"
  by (simp add: cacheOK_def contents_def sameData_def)

lemma describes_cong: "sameData w w' \<Longrightarrow> describes cf w' raw re = describes cf w raw re"
  by (simp add: describes_def contents_def sameData_def)

lemma wp_parseEntry:
  assumes "cacheOK w cache"
  shows "wpOp (parseEntry cf req i raw cache) (\<lambda>r w'. sameData w w' \<and>
    (\<forall>re cache'. r = Some (Inr (re, cache')) \<longrightarrow> describes cf w raw re \<and> cacheOK w cache')) w"
proof (cases raw)
  case (JObject en)
  let ?path = "strArg en ''path''"
  show ?thesis
  proof (cases "strArg en ''old_text'' = []")
    case True
    then show ?thesis by (simp add: parseEntry_def JObject)
  next
    case old: False
    show ?thesis
    proof (cases "checkMutation cf ?path")
      case (Inl e)
      then show ?thesis using old by (simp add: parseEntry_def JObject)
    next
      case (Inr resolved)
      have "quiet (mapErr (wrapErr (editPrefix i ?path)) (checkStale resolved))" by (intro quiet_intros)
      note stale = quiet_wp [OF this]
      let ?Q = "\<lambda>r w'. sameData w w' \<and>
        (\<forall>re cache'. r = Some (Inr (re, cache')) \<longrightarrow> describes cf w raw re \<and> cacheOK w cache')"
      let ?fin = "\<lambda>bytes cache2. retOp (case verifyChecksum (cfSha256Hex cf) (strArg en ''if_checksum'') ?path bytes True of
                        Inl err \<Rightarrow> Inl (wrapErr (editPrefix i ?path) err)
                      | Inr _ \<Rightarrow>
                         (if req \<and> strArg en ''if_checksum'' = []
                          then invalidArgs (''edits['' @ natToString i @ '']: if_checksum is required for '' @ ?path)
                            ''read each file with include_checksum=true and include its digest in every edit entry''
                          else Inr (\<lparr>enIdx = i, enPath = ?path, enResolved = resolved, enOldText = strArg en ''old_text'',
                                 enNewText = strArg en ''new_text'', enFuzzyIndent = boolArg en ''fuzzy_indent'',
                                 enShowContext = nat (intArg en ''show_context'' 0), enOrigData = bytes\<rparr>,
                               cache2)))"
      have fin: "wpOp (?fin bytes cache2) ?Q w2"
        if "sameData w w2" "contents w resolved = Some bytes" "cacheOK w cache2" for bytes cache2 and w2 :: "historyDisk store"
        using that Inr JObject old by (auto simp: describes_def invalidArgs_def split: sum.splits if_splits)
      have tail: "wpOp (tryOp (case map_of cache resolved of
                         Some bytes \<Rightarrow> retOp (Inr (bytes, cache))
                       | None \<Rightarrow> bindOp (readRegularFile resolved) (\<lambda>r. retOp (case r of
                           FileBytes bytes \<Rightarrow> Inr (bytes, (resolved, bytes) # cache)
                         | FileMissing err \<Rightarrow> Inl (wrapErr (editPrefix i ?path) err)
                         | ReadFails err \<Rightarrow> Inl (wrapErr (editPrefix i ?path) err))))
                  (\<lambda>(bytes, cache'). ?fin bytes cache')) ?Q w1"
        if w1: "sameData w w1" for w1
      proof (cases "map_of cache resolved")
        case (Some bytes)
        then have "contents w resolved = Some bytes" using assms by (simp add: cacheOK_def)
        from fin [OF w1 this assms] show ?thesis
          unfolding Some option.case wp_try wp_ret option.case sum.case prod.case .
      next
        case None
        have mono: "wpOp m (\<lambda>r w'. sameData w w' \<and> (\<forall>b c. r = Some (Inr (b, c)) \<longrightarrow>
              contents w resolved = Some b \<and> cacheOK w c)) w1 \<Longrightarrow>
            wpOp (tryOp m (\<lambda>(bytes, cache'). ?fin bytes cache')) ?Q w1"
          for m :: "(goError + string \<times> (string \<times> string) list) hop"
        proof (rule wp_tryI, erule wp_mono, goal_cases)
          case (1 r w')
          then show ?case using fin [of w'] by (cases r; cases "the r") (simp_all del: wp_ret split: prod.split)
        qed
        show ?thesis
          unfolding None option.case
        proof (rule mono, rule wp_bindI, rule wp_readRegularFile, goal_cases)
          case (4 f w2)
          then have "sameData w w2" "contents w resolved = Some (fileData f)"
            using w1 sameData_trans by (auto simp: contents_def sameDataD(1))
          then show ?case using assms by (simp add: cacheOK_def)
        qed (use w1 sameData_trans in auto)
      qed
      show ?thesis
        unfolding parseEntry_def JObject jsonValue.case Let_def if_not_P [OF old] Inr sum.case
      proof (rule wp_tryI, rule stale, goal_cases)
        case (1 r w1)
        then show ?case using tail [OF 1] JObject by simp
      qed
    qed
  qed
qed (simp_all add: parseEntry_def)

lemma wp_parseEntries:
  "cacheOK w cache \<Longrightarrow> wpOp (parseEntries cf req i raws cache) (\<lambda>r w'. sameData w w' \<and>
    (\<forall>ens cache'. r = Some (Inr (ens, cache')) \<longrightarrow> list_all2 (describes cf w) raws ens)) w"
proof (induction raws arbitrary: i cache w)
  case (Cons raw raws)
  show ?case
    unfolding parseEntries.simps
  proof (rule wp_tryI, rule wp_mono [OF wp_parseEntry [OF Cons.prems]], goal_cases)
    case (1 r w1)
    have rest: "wpOp (tryOp (parseEntries cf req (Suc i) raws cache1) (\<lambda>(ens, cache''). retOp (Inr (re # ens, cache''))))
        (\<lambda>r w'. sameData w w' \<and>
          (\<forall>ens cache'. r = Some (Inr (ens, cache')) \<longrightarrow> list_all2 (describes cf w) (raw # raws) ens)) w1"
      if "r = Some (Inr (re, cache1))" for re cache1
    proof -
      have re: "describes cf w raw re" "sameData w w1" "cacheOK w1 cache1" using 1 that cacheOK_cong by auto
      show ?thesis
      proof (rule wp_tryI, rule wp_mono [OF Cons.IH [OF re(3)]], goal_cases)
        case (1 r2 w2)
        have "list_all2 (describes cf w) raws ens" if "list_all2 (describes cf w1) raws ens" for ens
          using that describes_cong [OF re(2)] by (auto elim!: list_all2_mono)
        then show ?case using 1 re sameData_trans [OF re(2)] by auto
      qed
    qed
    show ?case using 1 rest by (auto split: prod.split)
  qed
qed simp

section \<open>Writing the files\<close>

lemma putAll_find:
  "distinct (map pwResolved ws) \<Longrightarrow>
   putAll ws c f = (case find (\<lambda>x. pwResolved x = f) ws of None \<Rightarrow> c f | Some x \<Rightarrow> Some (pwUpdated x))"
proof (induction ws arbitrary: c)
  case (Cons x ws)
  then show ?case
    using putAll_other [of f ws "c(pwResolved x \<mapsto> pwUpdated x)"] by (auto split: option.split)
qed simp

lemma find_take: "find P (take j xs) = Some x \<Longrightarrow> find P xs = Some x"
  by (induction xs arbitrary: j) (auto simp: take_Cons' split: if_splits)

text \<open>A batch writes only files it has an edit for.\<close>

lemma preparedWrites_none:
  assumes "applyPendingEdits ordered = Some (Inr eds)"
    and "\<forall>re \<in> set ordered. c (enResolved re) = Some (enOrigData re)" "f \<notin> enResolved ` set ordered"
  shows "find (\<lambda>x. pwResolved x = f) (preparedWrites eds) = None"
proof (rule ccontr)
  assume "\<not> ?thesis"
  then obtain x where x: "find (\<lambda>x. pwResolved x = f) (preparedWrites eds) = Some x" by blast
  have e: "filter (\<lambda>re. enResolved re = f) ordered = []" using assms(3) by (auto simp: filter_empty_conv)
  have o: "\<forall>re \<in> set ordered. enOrigData re = (\<lambda>g. if g = f then s else the (c g)) (enResolved re)" for s
    using assms(2,3) by auto
  obtain g where g: "groupOf (groupEdits eds) f = Some g" "peUpdated g = pwUpdated x"
    using x by (auto simp: preparedWrites_find)
  have "s = pwUpdated x" for s
    using batch_replay(1) [OF assms(1) o, of f s] g e by simp
  from this [of "CHR 0x00 # pwUpdated x"] show False by simp
qed

lemma preparedWrites_resolved:
  assumes "applyPendingEdits ordered = Some (Inr eds)"
    and "\<forall>re \<in> set ordered. c (enResolved re) = Some (enOrigData re)"
  shows "pwResolved ` set (preparedWrites eds) \<subseteq> enResolved ` set ordered"
  using preparedWrites_none [OF assms] by (auto simp: find_None_iff)

text \<open>Every file is as before or has all its edits.\<close>

definition perFile :: "rawEntry list \<Rightarrow> (string \<Rightarrow> string option) \<Rightarrow> (string \<Rightarrow> string option) \<Rightarrow> bool" where
  "perFile ordered c c' \<longleftrightarrow>
     (\<forall>f. c' f = c f \<or>
        f \<in> enResolved ` set ordered \<and> c' f = replay (filter (\<lambda>re. enResolved re = f) ordered) [] (the (c f)))"

definition allReplayed :: "rawEntry list \<Rightarrow> (string \<Rightarrow> string option) \<Rightarrow> (string \<Rightarrow> string option) \<Rightarrow> bool" where
  "allReplayed ordered c c' \<longleftrightarrow>
     (\<forall>f. c' f = (if f \<in> enResolved ` set ordered
                 then replay (filter (\<lambda>re. enResolved re = f) ordered) [] (the (c f)) else c f))"

lemma writes_replay:
  assumes "applyPendingEdits ordered = Some (Inr eds)"
    and "\<forall>re \<in> set ordered. c (enResolved re) = Some (enOrigData re)"
  shows "perFile ordered c (putAll (take j (preparedWrites eds)) c)"
    and "allReplayed ordered c (putAll (preparedWrites eds) c)"
proof -
  let ?ws = "preparedWrites eds" and ?rp = "\<lambda>f. replay (filter (\<lambda>re. enResolved re = f) ordered) [] (the (c f))"
  have orig: "\<forall>re \<in> set ordered. enOrigData re = the (c (enResolved re))" using assms(2) by auto
  have d: "distinct (map pwResolved ?ws)"
    using groupEdits_distinct [of eds] by (simp add: preparedWrites_def comp_def)
  have rp: "?rp f = Some (case find (\<lambda>x. pwResolved x = f) ?ws of None \<Rightarrow> the (c f) | Some x \<Rightarrow> pwUpdated x)" for f
    using batch_replay(1) [OF assms(1), of "\<lambda>f. the (c f)" f] orig
    by (simp add: preparedWrites_find split: option.splits)
  note none = preparedWrites_none [OF assms]
  show "perFile ordered c (putAll (take j ?ws) c)"
    unfolding perFile_def
  proof
    fix f
    have "distinct (map pwResolved (take j ?ws))" using d by (metis distinct_take take_map)
    from putAll_find [OF this, of c f] show "putAll (take j ?ws) c f = c f \<or>
        f \<in> enResolved ` set ordered \<and> putAll (take j ?ws) c f = ?rp f"
      using rp [of f] find_take [of "\<lambda>x. pwResolved x = f" j ?ws] none [of f] by (auto split: option.splits)
  qed
  show "allReplayed ordered c (putAll ?ws c)"
    unfolding allReplayed_def
  proof
    fix f
    have "c f = Some (the (c f))" if "f \<in> enResolved ` set ordered" using that assms(2) by auto
    then show "putAll ?ws c f = (if f \<in> enResolved ` set ordered then ?rp f else c f)"
      using putAll_find [OF d, of c f] rp [of f] none [of f] by (auto split: option.splits)
  qed
qed

lemma quiet_editedLine: "quiet (editedLine ed)"
  unfolding editedLine_def editContext_def by (auto intro!: quiet_intros)

text \<open>The outcome of a batch that is not a dry run, from store \<open>w\<close>.\<close>

definition multiOutcome ::
  "historyConfig \<Rightarrow> jsonValue list \<Rightarrow> historyDisk store \<Rightarrow> (goError + 'a) option \<Rightarrow> historyDisk store \<Rightarrow> bool" where
  "multiOutcome cf raws w r w' \<longleftrightarrow>
     (contents w' = contents w \<and> (\<forall>out. r \<noteq> Some (Inr out))) \<or>
     (\<exists>entries ordered. list_all2 (describes cf w) raws entries \<and> mset ordered = mset entries \<and>
        perFile ordered (contents w) (contents w') \<and>
        (\<forall>out. r = Some (Inr out) \<longrightarrow> allReplayed ordered (contents w) (contents w')))"

lemma detectOverlaps_mset:
  assumes "detectOverlaps order merge entries original = Inr ordered" "\<And>lt xs. mset (merge lt xs) = mset xs"
  shows "mset ordered = mset entries"
  using assms
  by (auto simp: detectOverlaps_def sortRawEntriesPositional_def sliceStable_def Let_def insertionSort_mset
      split: option.splits if_splits)

lemma wp_writePendingEdits:
  assumes "applyPendingEdits ordered = Some (Inr eds)" "list_all2 (describes cf w) raws entries"
    and "mset ordered = mset entries" "contents w1 = contents w"
  shows "wpOp (tryOp (writePendingEdits cf eds) (\<lambda>ls. retOp (Inr (out ls)))) (multiOutcome cf raws w) w1"
proof -
  have read: "\<forall>re \<in> set ordered. contents w (enResolved re) = Some (enOrigData re)"
    using assms(2) mset_eq_setD [OF assms(3)] by (auto simp: describes_def list_all2_conv_all_nth in_set_conv_nth)
  note rp = writes_replay [OF assms(1) read]
  have part: "multiOutcome cf raws w r w'"
    if "contents w' = putAll (take j (preparedWrites eds)) (contents w)"
      "\<And>out. r = Some (Inr out) \<Longrightarrow> j = length (preparedWrites eds)" for r :: "(goError + 'a) option" and w' j
    using that rp(1) [of j] rp(2) assms(2,3) unfolding multiOutcome_def by (metis take_all_iff order_refl)
  show ?thesis
    unfolding writePendingEdits_def commitPreparedWrites_def
  proof (rule wp_tryI, rule wp_mono, rule commitFrom_effect, goal_cases)
    case (1 k)
    show ?case by (intro quiet_keepsFiles quiet_editedLine)
  next
    case (2 r w')
    then obtain j where "contents w' = putAll (take j (preparedWrites eds)) (contents w)"
        "\<And>ls. r = Some (Inr ls) \<Longrightarrow> j = length (preparedWrites eds)"
      using assms(4) by (auto simp: batchEffect_def)
    then show ?case using part [of w' j] by (auto simp: wp_ret)
  qed
qed

section \<open>The whole tool\<close>

lemma wp_try_ret: "wpOp (tryOp (retOp (Inr a)) f) Q w = wpOp (f a) Q w"
  unfolding wp_try wp_ret by simp

lemma wp_withTargetLocks:
  assumes "\<And>w1. sameData w w1 \<Longrightarrow> wpOp m Q w1"
    and "\<And>r w1. sameData w w1 \<Longrightarrow> (\<forall>a. r \<noteq> Some (Inr a)) \<Longrightarrow> Q r w1"
  shows "wpOp (withTargetLocks targets m) Q w"
proof -
  have lock: "wpOp (withFileLock m') Q w1"
    if w1: "sameData w w1" and m': "\<And>w2. sameData w w2 \<Longrightarrow> wpOp m' Q w2" for m' and w1
  proof (rule wp_withFileLock, goal_cases)
    case (1 w2)
    show ?case by (rule assms(2), rule sameData_trans [OF w1 1]) simp
  next
    case (2 e w2)
    show ?case by (rule assms(2), rule sameData_trans [OF w1 2]) simp
  next
    case (3 w2)
    show ?case by (rule m', rule sameData_trans [OF w1 3])
  qed
  have locks: "wpOp (foldr (\<lambda>_. withFileLock) ts m) Q w1" if "sameData w w1" for w1 and ts :: "string list"
    using that
  proof (induction ts arbitrary: w1)
    case Nil
    then show ?case by (simp add: assms(1))
  next
    case (Cons t ts)
    show ?case unfolding foldr.simps comp_def by (rule lock [OF Cons.prems Cons.IH])
  qed
  show ?thesis unfolding withTargetLocks_def by (rule lock [OF sameData_refl locks])
qed

lemma multiOutcome_same:
  "sameData w w' \<Longrightarrow> (\<forall>a. r \<noteq> Some (Inr a)) \<Longrightarrow> multiOutcome cf raws w r w'"
  unfolding multiOutcome_def using contents_same [OF sameDataD(1)] by blast

lemma wp_multiEditLocked:
  assumes "\<not> boolArg args ''dry_run''" "\<And>lt xs. mset (rtMerge rt lt xs) = mset xs" "sameData w w0"
  shows "wpOp (multiEditLocked cf rt args raws) (multiOutcome cf raws w) w0"
  unfolding multiEditLocked_def
proof (rule wp_tryI, rule wp_mono [OF wp_parseEntries], goal_cases)
  case 1
  show ?case by (simp add: cacheOK_def)
next
  case (2 r w1)
  then have s: "sameData w w1" using assms(3) sameData_trans by blast
  have none: "multiOutcome cf raws w r' w1" if "\<forall>a. r' \<noteq> Some (Inr a)" for r' :: "(goError + fileToolResult) option"
    using multiOutcome_same [OF s that] .
  have go: "wpOp (tryOp (retOp (detectOverlaps (rtOrder rt) (rtMerge rt) entries (originalContent cache))) (\<lambda>ordered.
         tryOp (runOp (applyPendingEdits ordered)) (\<lambda>edits.
           if boolArg args ''dry_run'' then retOp (Inr \<lparr>ftText = dryRunText edits, ftEdit = None\<rparr>)
           else tryOp (writePendingEdits cf edits) (\<lambda>ls. retOp (Inr
                  \<lparr>ftText = ''applied '' @ natToString (length edits) @ '' edits:'' @ [newline] @ joinStr [newline] ls,
                   ftEdit = Some (buildEditDetails edits (firstLineOf edits) (allDiffs edits))\<rparr>)))))
      (multiOutcome cf raws w) w1"
    if "r = Some (Inr (entries, cache))" for entries cache
  proof -
    have d: "list_all2 (describes cf w) raws entries"
      using 2 that describes_cong [OF assms(3)] by (auto elim!: list_all2_mono)
    show ?thesis
    proof (cases "detectOverlaps (rtOrder rt) (rtMerge rt) entries (originalContent cache)")
      case (Inl e)
      then show ?thesis using none unfolding wp_try by simp
    next
      case (Inr ordered)
      have m: "mset ordered = mset entries" by (rule detectOverlaps_mset [OF Inr assms(2)])
      have run: "wpOp (tryOp (runOp a) f) (multiOutcome cf raws w) w1"
        if "\<And>eds. a = Some (Inr eds) \<Longrightarrow> wpOp (f eds) (multiOutcome cf raws w) w1"
        for a :: "(goError + pendingEdit list) option" and f :: "pendingEdit list \<Rightarrow> (goError + fileToolResult) hop"
        using that none unfolding wp_try by (simp add: wpOp_def [where m = "runOp a"] runOp_def split: option.split sum.split)
      show ?thesis
        unfolding Inr wp_try_ret if_not_P [OF assms(1)]
        by (rule run, rule wp_writePendingEdits [OF _ d m], assumption, rule contents_same [OF sameDataD(1) [OF s]])
    qed
  qed
  show ?case
  proof (intro conjI allI impI, goal_cases)
    case (3 a)
    then show ?case using go [of "fst a" "snd a"] by (simp add: prod.case_eq_if)
  qed (rule none; simp)+
qed

lemma wp_multiEdit:
  assumes "\<not> boolArg args ''dry_run''" "\<And>lt xs. mset (rtMerge rt lt xs) = mset xs"
    and "map_of args ''edits'' = Some (JArray raws)"
  shows "wpOp (multiEdit cf rt args) (multiOutcome cf raws w) w"
proof (cases raws)
  case Nil
  then show ?thesis using assms(3)
    by (simp add: multiEdit_def invalidArgs_def multiOutcome_same)
next
  case (Cons raw rest)
  show ?thesis
  proof (cases "editTargets cf 0 raws")
    case (Inl e)
    then show ?thesis using assms(3) Cons by (simp add: multiEdit_def multiOutcome_same)
  next
    case (Inr targets)
    have "wpOp (withTargetLocks targets (multiEditLocked cf rt args raws)) (multiOutcome cf raws w) w"
      by (rule wp_withTargetLocks, erule wp_multiEditLocked [OF assms(1,2)], erule (1) multiOutcome_same)
    then show ?thesis using assms(3) Cons Inr by (simp add: multiEdit_def)
  qed
qed

section \<open>The files a batch and an undo can change\<close>

lemma quiet_parseEntry [quiet_intros]: "quiet (parseEntry cf req i raw cache)"
  unfolding parseEntry_def Let_def
  by (auto intro!: quiet_intros split: jsonValue.split sum.split option.split prod.split)

lemma quiet_parseEntries [quiet_intros]: "quiet (parseEntries cf req i raws cache)"
  by (induction raws arbitrary: i cache) (auto intro!: quiet_intros)

lemma changesOnly_commitFrom:
  assumes "\<And>k. changesOnly T (committed k)"
  shows "pwResolved ` set ws \<subseteq> T \<Longrightarrow> changesOnly T (commitFrom cf opName n committed applied k ws)"
proof (induction ws arbitrary: applied k)
  case (Cons x ws)
  then have "pwResolved x \<in> T" "\<And>applied k. changesOnly T (commitFrom cf opName n committed applied k ws)" by auto
  then show ?case
    unfolding commitFrom.simps Let_def by (auto intro!: change_intros assms split: sum.split)
qed (simp add: change_intros)

lemma changesOnly_multiEditLocked:
  assumes "\<And>lt xs. mset (rtMerge rt lt xs) = mset xs"
  shows "changesOnly (guarded cf) (multiEditLocked cf rt args raws)"
  unfolding multiEditLocked_def
proof (rule changesOnly_tryY [where P = "\<lambda>(ens, _). enResolved ` set ens \<subseteq> guarded cf \<and>
        (\<exists>c. \<forall>re \<in> set ens. c (enResolved re) = Some (enOrigData re))"], goal_cases)
  case 1
  show ?case by (intro changesOnly_quiet quiet_intros)
next
  case 2
  have read: "enResolved ` set ens \<subseteq> guarded cf \<and> (\<forall>re \<in> set ens. contents w (enResolved re) = Some (enOrigData re))"
    if "list_all2 (describes cf w) raws ens" for ens and w :: "historyDisk store"
    using that by (induction rule: list_all2_induct) (auto simp: describes_def intro: guardedI)
  show ?case
    unfolding yields_def
  proof (intro allI, rule wp_mono [OF wp_parseEntries], goal_cases)
    case (1 w)
    show ?case by (simp add: cacheOK_def)
  next
    case (2 w r w')
    then show ?case using read [of w] by (auto split: prod.split)
  qed
next
  case (3 a)
  obtain ens cache where a: "a = (ens, cache)" by (cases a)
  have w: "changesOnly (guarded cf) (writePendingEdits cf eds)"
    if d: "detectOverlaps (rtOrder rt) (rtMerge rt) ens (originalContent cache) = Inr ordered"
      and ap: "applyPendingEdits ordered = Some (Inr eds)" for ordered eds
  proof -
    obtain c where "enResolved ` set ens \<subseteq> guarded cf" "\<forall>re \<in> set ens. c (enResolved re) = Some (enOrigData re)"
      using 3 a by auto
    moreover have "set ordered = set ens" using detectOverlaps_mset [OF d assms] by (rule mset_eq_setD)
    ultimately have "pwResolved ` set (preparedWrites eds) \<subseteq> guarded cf"
      using preparedWrites_resolved [OF ap, of c] by auto
    then show ?thesis
      unfolding writePendingEdits_def commitPreparedWrites_def
      by (intro changesOnly_commitFrom changesOnly_quiet quiet_editedLine)
  qed
  have run: "changesOnly T (tryOp (runOp x) f)"
    if "\<And>eds. x = Some (Inr eds) \<Longrightarrow> changesOnly T (f eds)" for T x and f :: "pendingEdit list \<Rightarrow> (goError + 'z) hop"
    using that unfolding changesOnly_def wp_try
    by (simp add: wpOp_def [where m = "runOp x"] runOp_def split: option.split sum.split)
  show ?case
    unfolding a prod.case
    by (rule changesOnly_tryY [where P = "\<lambda>ordered. detectOverlaps (rtOrder rt) (rtMerge rt) ens (originalContent cache) = Inr ordered"])
      (auto intro!: change_intros run w simp: yields_def)
qed

lemma changesOnly_multiEdit:
  "(\<And>lt xs. mset (rtMerge rt lt xs) = mset xs) \<Longrightarrow> changesOnly (guarded cf) (multiEdit cf rt args)"
  unfolding multiEdit_def
  by (auto intro!: change_intros changesOnly_multiEditLocked
      simp: invalidArgs_def split: option.split jsonValue.split list.split sum.split)

text \<open>Undo restores files the guard of the owner's workspace accepts.\<close>

definition ownerGuarded :: "historyConfig \<Rightarrow> string set" where
  "ownerGuarded cf = {r. \<exists>p. checkPathForMutation (cfLinks cf) (cfOwnerDir cf) p = Inr r}"

lemma keepsFiles_reconcile [keeps_intros]: "keepsFiles (loadHistoryLocked cf)"
proof -
  have e: "keepsFiles (reconcileEntry cf ent)" for ent
    unfolding reconcileEntry_def historyTargetIdentity_def Let_def
    by (auto intro!: keeps_intros split: sum.split)
  have "keepsFiles (reconcileEntries cf es)" for es
    by (induction es) (auto intro!: keeps_intros e split: prod.split)
  then show ?thesis
    unfolding loadHistoryLocked_def reconcileHistoryLocked_def Let_def
    by (auto intro!: keeps_intros split: prod.split)
qed

lemma keepsFiles_readBlob [keeps_intros]: "keepsFiles (readBlob cf ent)"
  unfolding readBlob_def Let_def by (auto intro!: keeps_intros)

lemma keepsFiles_verifyUndo [keeps_intros]: "keepsFiles (verifyUndoChecksum cf args path)"
  unfolding verifyUndoChecksum_def by (auto intro!: keeps_intros)

lemma resolveUndoTarget_guarded: "resolveUndoTarget cf ent = Inr r \<Longrightarrow> r \<in> ownerGuarded cf"
  by (auto simp: resolveUndoTarget_def ownerGuarded_def split: sum.splits if_splits)

lemma changesOnly_undoRestore: "changesOnly (ownerGuarded cf) (undoRestore cf args)"
proof -
  have locked: "changesOnly T (undoRestoreLocked cf args ent r)" if "r \<in> T" for T ent r
    unfolding undoRestoreLocked_def Let_def
    by (auto intro!: change_intros changesOnly_keeps [OF keepsFiles_readBlob] changesOnly_keeps [OF keepsFiles_verifyUndo]
        that split: sum.split removal.split)
  then show ?thesis
    unfolding undoRestore_def findEntry_def Let_def
    by (auto intro!: change_intros changesOnly_keeps [OF keepsFiles_reconcile] locked resolveUndoTarget_guarded split: sum.split)
qed

lemma changesOnly_undoTool: "changesOnly (ownerGuarded cf) (undoTool cf args)"
proof -
  have "changesOnly T (undoList cf args)" for T
    unfolding undoList_def Let_def by (auto intro!: change_intros changesOnly_keeps [OF keepsFiles_reconcile])
  moreover have "changesOnly T (undoPreview cf args)" for T
    unfolding undoPreview_def findEntry_def Let_def
    by (auto intro!: change_intros changesOnly_keeps [OF keepsFiles_reconcile] changesOnly_keeps [OF keepsFiles_readBlob])
  moreover have "changesOnly T (undoClear cf)" for T
    unfolding undoClear_def by (auto intro!: change_intros changesOnly_step)
  ultimately show ?thesis
    unfolding undoTool_def Let_def by (auto intro!: change_intros changesOnly_undoRestore)
qed

end
