(* ===== verification/HistoryRestart.thy ===== *)
theory HistoryRestart
  imports HistoryFacts
begin

text \<open>
  Runs in which every call works, as equations; reconciliation as a function of the files; and
  what a restart makes of the history a failed or killed write left.
\<close>

section \<open>Without failures\<close>

text \<open>The equations of a run in which every call works.\<close>

lemma calm_bind [simp]: "m w = (Some a, w') \<Longrightarrow> bindOp m f w = f a w'"
  by (simp add: bindOp_def)

lemma calm_step [simp]: "dkEvents w = [] \<Longrightarrow> ioStep f w = (Some (Inr ()), f w)"
  by (simp add: ioStep_def bindOp_def ioCall_def retOp_def)

lemma calm_call [simp]: "dkEvents w = [] \<Longrightarrow> ioCall f w = (Some (True, None), f w)"
  by (simp add: ioCall_def)

lemma calm_try: "m w = (Some (Inr a), w') \<Longrightarrow> tryOp m f w = f a w'"
  by (simp add: tryOp_def)

lemma calm_read [simp]: "dkEvents w = [] \<Longrightarrow> ioRead f w = (Some (Inr (f w)), w)"
  unfolding ioRead_def by (subst calm_try) simp_all

lemma ret_apply [simp]: "retOp a w = (Some a, w)"
  by (simp add: retOp_def)

lemma get_apply [simp]: "getOp f w = f w w"
  by (simp add: getOp_def)

lemma calm_lock [simp]: "dkEvents w = [] \<Longrightarrow> withFileLock m w = m w"
  unfolding withFileLock_def by (subst calm_try) simp_all

definition smallFile :: "diskFile option \<Rightarrow> bool" where
  "smallFile f \<longleftrightarrow> (case f of None \<Rightarrow> True | Some f \<Rightarrow> int (length (fileData f)) \<le> maxFileSize)"

lemma calm_readRegularFile:
  "dkEvents w = [] \<Longrightarrow> smallFile (dkFiles w path) \<Longrightarrow> readRegularFile path w =
     (Some (case dkFiles w path of None \<Rightarrow> FileMissing (notExistErr path) | Some f \<Rightarrow> FileBytes (fileData f)), w)"
  unfolding readRegularFile_def by (subst calm_bind) (auto simp: smallFile_def split: option.splits)

text \<open>The state reconciliation gives an entry, as a function of the file.\<close>

definition identityOf :: "historyConfig \<Rightarrow> diskFile option \<Rightarrow> historyIdentity" where
  "identityOf cf f =
     (case f of None \<Rightarrow> \<lparr>idExists = False, idHash = []\<rparr>
      | Some f \<Rightarrow> \<lparr>idExists = True, idHash = cfSha256Hex cf (fileData f)\<rparr>)"

definition reconciledState :: "historyConfig \<Rightarrow> (string \<Rightarrow> diskFile option) \<Rightarrow> historyEntry \<Rightarrow> string" where
  "reconciledState cf fs ent =
     (if heState ent = [] then stateCommitted
      else if heState ent \<noteq> statePrepared then heState ent
      else if idHash (heExpectedAfter ent) = [] \<and> idExists (heExpectedAfter ent) then stateUncertain
      else case resolveUndoTarget cf ent of
        Inl _ \<Rightarrow> stateUncertain
      | Inr path \<Rightarrow>
          (if \<not> smallFile (fs path) then stateUncertain
           else if identityOf cf (fs path) = heExpectedAfter ent then stateCommitted
           else if identityOf cf (fs path) = heBefore ent then stateAborted
           else stateUncertain))"

lemma calm_targetIdentity:
  "dkEvents w = [] \<Longrightarrow> \<exists>e. historyTargetIdentity cf path w =
     (Some (if smallFile (dkFiles w path) then Inr (identityOf cf (dkFiles w path)) else Inl e), w)"
proof -
  assume calm: "dkEvents w = []"
  show ?thesis
  proof (cases "smallFile (dkFiles w path)")
    case True
    then show ?thesis unfolding historyTargetIdentity_def
      by (subst calm_bind [where m = "readRegularFile path" and w = w, OF calm_readRegularFile [OF calm True]])
        (auto simp: identityOf_def split: option.split)
  next
    case False
    then obtain f where f: "dkFiles w path = Some f" "maxFileSize < int (length (fileData f))"
      by (auto simp: smallFile_def split: option.splits)
    then have "readRegularFile path w = (Some (ReadFails (fileTooLarge (int (length (fileData f))))), w)"
      unfolding readRegularFile_def
      by (subst calm_bind [where m = "ioRead (\<lambda>w. dkFiles w path)" and w = w, OF calm_read [OF calm]]) simp
    note b = calm_bind [where m = "readRegularFile path" and w = w, OF this]
    show ?thesis unfolding historyTargetIdentity_def if_not_P [OF False] b fileRead.case ret_apply by blast
  qed
qed

lemma calm_reconcileEntry:
  assumes "dkEvents w = []"
  shows "\<exists>changed. reconcileEntry cf ent w =
    (Some (ent\<lparr>heState := reconciledState cf (dkFiles w) ent\<rparr>, changed), w) \<and>
    (\<not> changed \<longrightarrow> reconciledState cf (dkFiles w) ent = heState ent)"
proof (cases "heState ent = statePrepared \<and> \<not> (idHash (heExpectedAfter ent) = [] \<and> idExists (heExpectedAfter ent))")
  case False
  have "ent\<lparr>heState := heState ent\<rparr> = ent" by simp
  then show ?thesis using False
    by (auto simp: reconcileEntry_def reconciledState_def Let_def history_states)
next
  case True
  then have st: "heState ent \<noteq> []" "heState ent \<noteq> stateUncertain" by (auto simp: history_states)
  show ?thesis
  proof (cases "resolveUndoTarget cf ent")
    case (Inl err)
    then show ?thesis using True st by (auto simp: reconcileEntry_def reconciledState_def Let_def)
  next
    case (Inr path)
    obtain e where i: "historyTargetIdentity cf path w =
        (Some (if smallFile (dkFiles w path) then Inr (identityOf cf (dkFiles w path)) else Inl e), w)"
      using calm_targetIdentity [OF assms] by blast
    show ?thesis using True st Inr
      by (auto simp: reconcileEntry_def reconciledState_def Let_def calm_bind [where m = "historyTargetIdentity cf path" and w = w, OF i])
  qed
qed

definition reconciled :: "historyConfig \<Rightarrow> (string \<Rightarrow> diskFile option) \<Rightarrow> historyEntry \<Rightarrow> historyEntry" where
  "reconciled cf fs ent = ent\<lparr>heState := reconciledState cf fs ent\<rparr>"

lemma calm_reconcileEntries:
  assumes "dkEvents w = []"
  shows "\<exists>changed. reconcileEntries cf es w = (Some (map (reconciled cf (dkFiles w)) es, changed), w) \<and>
    (\<not> changed \<longrightarrow> map (reconciled cf (dkFiles w)) es = es)"
proof (induction es)
  case (Cons e es)
  obtain c where c: "reconcileEntry cf e w = (Some (e\<lparr>heState := reconciledState cf (dkFiles w) e\<rparr>, c), w)"
      "\<not> c \<longrightarrow> reconciledState cf (dkFiles w) e = heState e"
    using calm_reconcileEntry [OF assms] by blast
  obtain d where d: "reconcileEntries cf es w = (Some (map (reconciled cf (dkFiles w)) es, d), w)"
      "\<not> d \<longrightarrow> map (reconciled cf (dkFiles w)) es = es"
    using Cons.IH by blast
  have "reconcileEntries cf (e # es) w = (Some (map (reconciled cf (dkFiles w)) (e # es), c \<or> d), w)"
    unfolding reconcileEntries.simps calm_bind [where m = "reconcileEntry cf e" and w = w, OF c(1)] prod.case
      calm_bind [where m = "reconcileEntries cf es" and w = w, OF d(1)]
    by (simp add: reconciled_def)
  moreover have "\<not> (c \<or> d) \<longrightarrow> map (reconciled cf (dkFiles w)) (e # es) = e # es"
  proof
    assume n: "\<not> (c \<or> d)"
    then have "reconciledState cf (dkFiles w) e = heState e" using c(2) by blast
    then have "reconciled cf (dkFiles w) e = e" by (simp add: reconciled_def)
    moreover have "map (reconciled cf (dkFiles w)) es = es" using d(2) n by blast
    ultimately show "map (reconciled cf (dkFiles w)) (e # es) = e # es" by simp
  qed
  ultimately show ?case by (intro exI [of _ "c \<or> d"] conjI)
qed (rule exI [of _ False], simp)

lemma calm_loadHistory:
  assumes "dkEvents w = []"
  shows "\<exists>hf. loadHistory w = (Some (Inr hf), w) \<and> hfEntries hf = entriesOf w \<and> hfVersion hf \<noteq> 0"
  unfolding loadHistory_def
  by (subst calm_bind [where m = "ioRead (\<lambda>w. hdIndex (dkHistory w))" and w = w, OF calm_read [OF assms]])
    (auto simp: entriesOf_def split: option.split)

text \<open>Without failures the index is read, reconciled and, if that changed it, saved.\<close>

lemma calm_loadHistoryLocked:
  assumes calm: "dkEvents w = []"
  shows "\<exists>hf w'. loadHistoryLocked cf w = (Some (Inr hf), w') \<and>
    hfEntries hf = map (reconciled cf (dkFiles w)) (entriesOf w) \<and>
    dkFiles w' = dkFiles w \<and> hdBlobs (dkHistory w') = hdBlobs (dkHistory w) \<and> dkEvents w' = [] \<and>
    dkStamps w' = dkStamps w \<and> dkClock w' = dkClock w \<and> entriesOf w' = hfEntries hf"
proof -
  obtain hf where hf: "loadHistory w = (Some (Inr hf), w)" "hfEntries hf = entriesOf w"
    using calm_loadHistory [OF calm] by blast
  let ?es = "map (reconciled cf (dkFiles w)) (entriesOf w)"
  obtain ch where ch: "reconcileEntries cf (entriesOf w) w = (Some (?es, ch), w)" "\<not> ch \<longrightarrow> ?es = entriesOf w"
    using calm_reconcileEntries [OF calm] by blast
  have rec: "reconcileHistoryLocked cf hf w =
      (if ch then tryOp (saveHistory \<lparr>hfVersion = 2, hfEntries = ?es\<rparr>) (\<lambda>_. retOp (Inr \<lparr>hfVersion = 2, hfEntries = ?es\<rparr>)) w
       else retOp (Inr (hf\<lparr>hfEntries := ?es\<rparr>)) w)"
    unfolding reconcileHistoryLocked_def hf(2)
      calm_bind [where m = "reconcileEntries cf (entriesOf w)" and w = w, OF ch(1)] by (simp add: Let_def)
  have load: "loadHistoryLocked cf w = reconcileHistoryLocked cf hf w"
    unfolding loadHistoryLocked_def calm_lock [OF calm]
    by (rule calm_try [where m = loadHistory and w = w, OF hf(1)])
  show ?thesis
  proof (cases ch)
    case True
    let ?hf = "\<lparr>hfVersion = 2, hfEntries = ?es\<rparr>"
    have "saveHistory ?hf w = (Some (Inr ()), setIndex ?hf w)"
      unfolding saveHistory_def mapErr_def
      by (subst calm_bind [where m = "ioStep (setIndex ?hf)" and w = w, OF calm_step [OF calm]]) simp
    note t = calm_try [where m = "saveHistory ?hf" and w = w, OF this]
    have "loadHistoryLocked cf w = (Some (Inr ?hf), setIndex ?hf w)"
      unfolding load rec if_P [OF True] t by simp
    then show ?thesis using calm by (simp add: entriesOf_def setIndex_def)
  next
    case False
    then show ?thesis using ch(2) calm unfolding load rec by simp
  qed
qed

section \<open>Crash and restart\<close>

text \<open>The file is as the caller read it.\<close>

definition fileIs :: "diskFile option \<Rightarrow> string option \<Rightarrow> bool" where
  "fileIs f pre \<longleftrightarrow> map_option fileData f = pre"

text \<open>The path the history keeps resolves to the file again.\<close>

definition targetOK :: "historyConfig \<Rightarrow> string \<Rightarrow> bool" where
  "targetOK cf path \<longleftrightarrow>
     (case rootRelative (cfOwnerDir cf) path of
        Inl _ \<Rightarrow> True
      | Inr target \<Rightarrow> target \<noteq> [] \<and> checkPathForMutation (cfLinks cf) (cfOwnerDir cf) target = Inr path)"

text \<open>The digest tells the old content from the new one and is a digest.\<close>

definition hashesDiffer :: "historyConfig \<Rightarrow> string option \<Rightarrow> string \<Rightarrow> bool" where
  "hashesDiffer cf pre content \<longleftrightarrow> cfSha256Hex cf content \<noteq> [] \<and>
     (case pre of None \<Rightarrow> True | Some p \<Rightarrow> cfSha256Hex cf p \<noteq> cfSha256Hex cf content)"

lemma reconcile_own:
  assumes ent: "entryFor cf path disp opName \<lparr>preContent = pre, expectedAfter = content, expectedExists = True\<rparr> ent"
    and target: "targetOK cf path"
    and hash: "hashesDiffer cf pre content"
    and small: "smallFile (fs path)"
  shows "reconciledState cf fs (ent\<lparr>heState := statePrepared\<rparr>) =
    (if fileIs (fs path) (Some content) then stateCommitted
     else if fileIs (fs path) pre then stateAborted
     else reconciledState cf fs (ent\<lparr>heState := statePrepared\<rparr>))"
proof -
  obtain ts target where e: "rootRelative (cfOwnerDir cf) path = Inr target"
      "ent = snapshotEntry cf (snapshotID cf path ts) target disp opName
        \<lparr>preContent = pre, expectedAfter = content, expectedExists = True\<rparr> ts"
    using ent by (auto simp: entryFor_def)
  have r: "resolveUndoTarget cf (ent\<lparr>heState := statePrepared\<rparr>) = Inr path"
    using target e by (simp add: resolveUndoTarget_def targetOK_def)
  have b: "heExpectedAfter ent = \<lparr>idExists = True, idHash = cfSha256Hex cf content\<rparr>"
      "heBefore ent = identityOf cf (map_option (\<lambda>p. \<lparr>fileData = p, fileTime = 0\<rparr>) pre)"
    unfolding e(2) by (simp_all add: snapshotEntry_def Let_def identityOf_def split: option.split)
  have i: "identityOf cf f = identityOf cf (map_option (\<lambda>p. \<lparr>fileData = p, fileTime = 0\<rparr>) pre)"
    if "fileIs f pre" for f using that by (cases f) (auto simp: fileIs_def identityOf_def)
  have c: "identityOf cf f = \<lparr>idExists = True, idHash = cfSha256Hex cf content\<rparr>" if "fileIs f (Some content)" for f
    using that by (auto simp: fileIs_def identityOf_def)
  have n: "identityOf cf (map_option (\<lambda>p. \<lparr>fileData = p, fileTime = 0\<rparr>) pre) \<noteq> \<lparr>idExists = True, idHash = cfSha256Hex cf content\<rparr>"
    using hash by (cases pre) (simp_all add: identityOf_def hashesDiffer_def)
  have p: "statePrepared \<noteq> []" by (simp add: history_states)
  show ?thesis
    using r b small p hash i c n by (auto simp: reconciledState_def hashesDiffer_def)
qed

text \<open>
  What a new process finds after any run of \<open>snapshotAndWrite\<close>.  \<open>w1\<close> is the store at its end, whether
  it returned, failed or was killed.
\<close>

definition restarted :: "'x store \<Rightarrow> 'x store" where
  "restarted w = w\<lparr>dkEvents := [], dkStamps := (\<lambda>_. None)\<rparr>"

lemma restarted_sels [simp]:
  "dkFiles (restarted w) = dkFiles w" "dkHistory (restarted w) = dkHistory w" "dkEvents (restarted w) = []"
  "dkStamps (restarted w) path = None" "dkClock (restarted w) = dkClock w"
  by (simp_all add: restarted_def)

lemma entriesOf_restarted [simp]: "entriesOf (restarted w) = entriesOf w"
  by (simp add: entriesOf_def)

lemma restart_written:
  assumes wr: "written cf path disp opName \<lparr>preContent = pre, expectedAfter = content, expectedExists = True\<rparr> w
      {statePrepared, stateCommitted, stateUncertain} ent w1"
    and target: "targetOK cf path"
    and hash: "hashesDiffer cf pre content"
    and small: "int (length content) \<le> maxFileSize"
  shows "\<exists>es st. map (reconciled cf (dkFiles w1)) (entriesOf w1) = es @ [ent\<lparr>heState := st\<rparr>] \<and>
    st \<in> {stateCommitted, stateUncertain}"
proof -
  obtain t st es v where f: "dkFiles w1 = (dkFiles w)(path \<mapsto> \<lparr>fileData = content, fileTime = t\<rparr>)"
      and e: "entryFor cf path disp opName \<lparr>preContent = pre, expectedAfter = content, expectedExists = True\<rparr> ent"
      and st: "st \<in> {statePrepared, stateCommitted, stateUncertain}"
      and i: "hdIndex (dkHistory w1) = Some \<lparr>hfVersion = v, hfEntries = es @ [ent\<lparr>heState := st\<rparr>]\<rparr>"
    using wr by (auto simp: written_def listed_def)
  have s: "smallFile (dkFiles w1 path)" "fileIs (dkFiles w1 path) (Some content)"
    using small by (simp_all add: f smallFile_def fileIs_def)
  have p: "reconciledState cf (dkFiles w1) (ent\<lparr>heState := statePrepared\<rparr>) = stateCommitted"
    using reconcile_own [where fs = "dkFiles w1", OF e target hash s(1)] s(2) by simp
  have o: "reconciledState cf fs (ent\<lparr>heState := q\<rparr>) = q" if "q \<in> {stateCommitted, stateUncertain}" for q fs
    using that by (auto simp: reconciledState_def history_states)
  have "reconciledState cf (dkFiles w1) (ent\<lparr>heState := st\<rparr>) \<in> {stateCommitted, stateUncertain}"
    using st p o by auto
  then show ?thesis
    by (intro exI [of _ "map (reconciled cf (dkFiles w1)) es"]
          exI [of _ "reconciledState cf (dkFiles w1) (ent\<lparr>heState := st\<rparr>)"])
      (simp add: entriesOf_def i reconciled_def)
qed

lemma restart_unwritten:
  assumes un: "unwritten cf path disp opName \<lparr>preContent = pre, expectedAfter = content, expectedExists = True\<rparr> w w1"
    and target: "targetOK cf path"
    and hash: "hashesDiffer cf pre content"
    and orig: "fileIs (dkFiles w path) pre" "smallFile (dkFiles w path)"
  shows "dkFiles w1 = dkFiles w \<and>
    (entriesOf w1 = entriesOf w \<or>
     (\<exists>es ent. map (reconciled cf (dkFiles w1)) (entriesOf w1) = es @ [ent\<lparr>heState := stateAborted\<rparr>] \<and>
       entryFor cf path disp opName \<lparr>preContent = pre, expectedAfter = content, expectedExists = True\<rparr> ent))"
proof -
  have f: "dkFiles w1 = dkFiles w" using un by (simp add: unwritten_def)
  show ?thesis
  proof (cases "hdIndex (dkHistory w1) = hdIndex (dkHistory w)")
    case True
    then show ?thesis using f by (simp add: entriesOf_def)
  next
    case False
    then obtain st ent es v where st: "st \<in> {statePrepared, stateAborted}"
        and e: "entryFor cf path disp opName \<lparr>preContent = pre, expectedAfter = content, expectedExists = True\<rparr> ent"
        and i: "hdIndex (dkHistory w1) = Some \<lparr>hfVersion = v, hfEntries = es @ [ent\<lparr>heState := st\<rparr>]\<rparr>"
      using un by (auto simp: unwritten_def listed_def)
    have "\<not> fileIs (dkFiles w path) (Some content)" using orig(1) hash by (auto simp: fileIs_def hashesDiffer_def)
    then have "reconciledState cf (dkFiles w) (ent\<lparr>heState := statePrepared\<rparr>) = stateAborted"
      using reconcile_own [where fs = "dkFiles w", OF e target hash orig(2)] orig(1) by simp
    then have "reconciledState cf (dkFiles w) (ent\<lparr>heState := st\<rparr>) = stateAborted"
      using st by (auto simp: reconciledState_def history_states split: if_splits)
    then show ?thesis using f e i by (auto simp: entriesOf_def reconciled_def)
  qed
qed

end
