(* ===== verification/CalmRuns.thy ===== *)
theory CalmRuns
  imports BatchTool HistoryRestart
begin

text \<open>
  Runs in which no call into the operating system fails: rules for total correctness, and that a
  write with its snapshot then succeeds.
\<close>

section \<open>Total correctness\<close>

definition calmly :: "('x, 'a) op \<Rightarrow> 'x store \<Rightarrow> ('a \<Rightarrow> 'x store \<Rightarrow> bool) \<Rightarrow> bool" where
  "calmly m w Q \<longleftrightarrow> (\<exists>a w'. m w = (Some a, w') \<and> dkEvents w' = [] \<and> Q a w')"

lemma calmlyD: "calmly m w Q \<Longrightarrow> \<exists>a w'. m w = (Some a, w') \<and> dkEvents w' = [] \<and> Q a w'"
  by (simp add: calmly_def)

lemma calmly_mono: "calmly m w Q \<Longrightarrow> (\<And>a w'. dkEvents w' = [] \<Longrightarrow> Q a w' \<Longrightarrow> Q' a w') \<Longrightarrow> calmly m w Q'"
  by (auto simp: calmly_def)

lemma calmly_ret: "dkEvents w = [] \<Longrightarrow> Q a w \<Longrightarrow> calmly (retOp a) w Q"
  by (simp add: calmly_def retOp_def)

lemma calmly_bind: "calmly m w (\<lambda>a w'. dkEvents w' = [] \<longrightarrow> calmly (f a) w' Q) \<Longrightarrow> calmly (bindOp m f) w Q"
  by (auto simp: calmly_def bindOp_def)

lemma calmly_try:
  "calmly m w (\<lambda>r w'. dkEvents w' = [] \<longrightarrow> (\<exists>a. r = Inr a \<and> calmly (f a) w' Q)) \<Longrightarrow> calmly (tryOp m f) w Q"
  unfolding tryOp_def by (rule calmly_bind) (auto simp: calmly_def)

lemma calmly_try_unit:
  "calmly m w (\<lambda>r w'. dkEvents w' = [] \<longrightarrow> r = Inr () \<and> calmly (f ()) w' Q) \<Longrightarrow> calmly (tryOp m f) w Q"
  by (rule calmly_try) (erule calmly_mono, blast)

lemma calmly_get: "calmly (f w) w Q \<Longrightarrow> calmly (getOp f) w Q"
  by (simp add: calmly_def getOp_def)

lemma calmly_mapErr: "calmly m w (\<lambda>r w'. \<exists>a. r = Inr a \<and> Q (Inr a) w') \<Longrightarrow> calmly (mapErr g m) w Q"
  by (auto simp: calmly_def mapErr_def bindOp_def retOp_def)

lemma calmly_step: "dkEvents w = [] \<Longrightarrow> dkEvents (f w) = [] \<Longrightarrow> Q (Inr ()) (f w) \<Longrightarrow> calmly (ioStep f) w Q"
  by (simp add: calmly_def)

lemma calmly_call: "dkEvents w = [] \<Longrightarrow> dkEvents (f w) = [] \<Longrightarrow> Q (True, None) (f w) \<Longrightarrow> calmly (ioCall f) w Q"
  by (simp add: calmly_def)

lemma calmly_read: "dkEvents w = [] \<Longrightarrow> Q (Inr (f w)) w \<Longrightarrow> calmly (ioRead f) w Q"
  by (simp add: calmly_def)

lemma calmly_lock: "dkEvents w = [] \<Longrightarrow> calmly m w Q \<Longrightarrow> calmly (withFileLock m) w Q"
  by (simp add: calmly_def)

lemma calmly_locks: "dkEvents w = [] \<Longrightarrow> calmly m w Q \<Longrightarrow> calmly (withTargetLocks ts m) w Q"
proof -
  assume c: "dkEvents w = []" "calmly m w Q"
  have "calmly (foldr (\<lambda>_. withFileLock) ts m) w Q" for ts :: "string list"
    by (induction ts) (simp_all add: c calmly_lock)
  then show ?thesis unfolding withTargetLocks_def by (intro calmly_lock c)
qed

section \<open>The snapshot and the write\<close>

text \<open>What the rest of a run needs of the store: the files, the clock and the index.\<close>

definition sameIndex :: "historyDisk store \<Rightarrow> historyDisk store \<Rightarrow> bool" where
  "sameIndex w w' \<longleftrightarrow> dkFiles w' = dkFiles w \<and> dkClock w' = dkClock w \<and>
     hdIndex (dkHistory w') = hdIndex (dkHistory w)"

lemma sameIndex_refl [simp]: "sameIndex w w"
  by (simp add: sameIndex_def)

lemma sameIndex_trans: "sameIndex a b \<Longrightarrow> sameIndex b c \<Longrightarrow> sameIndex a c"
  by (simp add: sameIndex_def)

lemma calmly_removeBlob: "dkEvents w = [] \<Longrightarrow> calmly (removeBlob cf ent) w (\<lambda>_. sameIndex w)"
  unfolding removeBlob_def Let_def
  by (auto intro!: calmly_bind calmly_step calmly_ret simp: setBlob_def sameIndex_def)

lemma calmly_removeBlobs: "dkEvents w = [] \<Longrightarrow> calmly (removeBlobs cf ents) w (\<lambda>_. sameIndex w)"
proof (induction ents arbitrary: w)
  case (Cons ent ents)
  show ?case
    unfolding removeBlobs.simps
  proof (rule calmly_bind, rule calmly_mono [OF calmly_removeBlob [OF Cons.prems]], intro impI)
    fix a w1 assume "dkEvents w1 = []" "sameIndex w w1"
    then show "calmly (removeBlobs cf ents) w1 (\<lambda>_. sameIndex w)"
      using calmly_mono [OF Cons.IH] sameIndex_trans by metis
  qed
qed (simp add: calmly_def sameIndex_def)

lemma calmly_loadHistory:
  "dkEvents w = [] \<Longrightarrow> (\<And>hf. hfEntries hf = entriesOf w \<Longrightarrow> Q (Inr hf) w) \<Longrightarrow> calmly loadHistory w Q"
  unfolding loadHistory_def
  by (intro calmly_bind calmly_read impI calmly_ret) (auto simp: entriesOf_def split: option.split)

definition gzipWorks :: "historyConfig \<Rightarrow> bool" where
  "gzipWorks cf \<longleftrightarrow> (\<forall>s. \<exists>z. cfGzip cf s = Inr z)"

lemma calmly_writeBlob:
  assumes "dkEvents w = []" "gzipWorks cf"
  shows "calmly (writeBlobForSnapshot cf ident pre) w (\<lambda>r w'. r = Inr () \<and> sameIndex w w')"
proof -
  obtain z where "cfGzip cf pre = Inr z" using assms(2) unfolding gzipWorks_def by blast
  then have "\<exists>b. encodeBlob cf pre = Inr b" by (simp add: encodeBlob_def)
  then obtain b where b: "encodeBlob cf pre = Inr b" ..
  show ?thesis
    unfolding writeBlobForSnapshot_def b sum.case
    by (rule calmly_try, rule calmly_step) (auto intro!: calmly_step simp: assms(1) setBlob_def sameIndex_def)
qed

definition hasEntry :: "string \<Rightarrow> historyDisk store \<Rightarrow> bool" where
  "hasEntry ident w \<longleftrightarrow> (\<exists>ent \<in> set (entriesOf w). heID ent = ident)"

lemma calmly_record:
  assumes "dkEvents w = []" "gzipWorks cf" "rootRelative (cfOwnerDir cf) path = Inr target"
    and "case preContent tr of None \<Rightarrow> True | Some s \<Rightarrow> int (length s) \<le> historyMaxBlobBytes"
  shows "calmly (recordSnapshotForMutation cf path disp opName tr) w
    (\<lambda>r w'. \<exists>ident. r = Inr ident \<and> dkFiles w' = dkFiles w \<and> dkClock w' = dkClock w \<and> hasEntry ident w')"
proof -
  have v: "validateSnapshotSize disp (preContent tr) = Inr ()"
    by (cases "preContent tr") (use assms(4) in \<open>simp_all add: validateSnapshotSize_def historyMaxBlobBytes_def\<close>)
  let ?ident = "snapshotID cf path (dkClock w)"
  let ?ent = "snapshotEntry cf ?ident target disp opName tr (dkClock w)"
  have size: "heBlobSize ?ent \<le> historyMaxTotalBytes"
    using assms(4) by (auto simp: snapshotEntry_def Let_def historyMaxTotalBytes_def historyMaxBlobBytes_def split: option.splits)
  have blob: "calmly (case preContent tr of None \<Rightarrow> retOp (Inr ()) | Some pre \<Rightarrow> writeBlobForSnapshot cf ?ident pre) w
      (\<lambda>r w'. r = Inr () \<and> sameIndex w w')"
    by (cases "preContent tr") (simp_all add: calmly_writeBlob [OF assms(1,2)], simp add: calmly_def assms(1))
  have body: "calmly (recordSnapshotLockedStrict cf path disp opName tr) w
      (\<lambda>r w'. \<exists>ident. r = Inr ident \<and> dkFiles w' = dkFiles w \<and> dkClock w' = dkClock w \<and> hasEntry ident w')"
    unfolding recordSnapshotLockedStrict_def Let_def assms(3) sum.case
  proof (rule calmly_try, rule calmly_loadHistory [OF assms(1)], intro impI exI conjI, rule refl, rule calmly_get,
      rule calmly_try_unit, rule calmly_mono [OF blob], intro impI conjI, goal_cases)
    case (1 hf a w1)
    then show ?case by simp
  next
    case (2 hf a w1)
    then have w1: "dkEvents w1 = []" "sameIndex w w1" by auto
    obtain ev left where e: "evictHistory (hfEntries hf @ [?ent]) = (ev, left)" by (cases "evictHistory (hfEntries hf @ [?ent])")
    then have mem: "?ent \<in> set left" using evictHistory_newest [OF e size] by auto
    have id: "heID ?ent = ?ident" by (simp add: snapshotEntry_def Let_def)
    show ?case
      unfolding e prod.case saveHistory_def
    proof (rule calmly_bind, rule calmly_mapErr, rule calmly_step, goal_cases)
      case 3
      let ?w2 = "setIndex \<lparr>hfVersion = 2, hfEntries = left\<rparr> w1"
      have w2: "dkEvents ?w2 = []" using w1 by (simp add: setIndex_def)
      have "calmly (bindOp (removeBlobs cf ev) (\<lambda>_. retOp (Inr ?ident))) ?w2
          (\<lambda>r w'. \<exists>ident. r = Inr ident \<and> dkFiles w' = dkFiles w \<and> dkClock w' = dkClock w \<and> hasEntry ident w')"
      proof (rule calmly_bind, rule calmly_mono [OF calmly_removeBlobs [OF w2]], intro impI calmly_ret, goal_cases)
        case (2 a w3)
        then have "entriesOf w3 = left" by (simp add: sameIndex_def entriesOf_def setIndex_def)
        then have "hasEntry ?ident w3" using mem id unfolding hasEntry_def by blast
        then show ?case using 2 w1(2) by (auto simp: sameIndex_def setIndex_def)
      qed simp
      then show ?case unfolding sum.case by blast
    qed (use w1 in \<open>simp_all add: setIndex_def\<close>)
  qed
  show ?thesis
    unfolding recordSnapshotForMutation_def v sum.case
    by (rule calmly_mapErr, rule calmly_lock [OF assms(1)], rule calmly_mono [OF body]) auto
qed

lemma setState_found: "\<exists>ent \<in> set es. heID ent = ident \<Longrightarrow> \<exists>es'. setState ident st es = Some es'"
  by (induction es) auto

lemma calmly_mark:
  assumes "dkEvents w = []" "hasEntry ident w" "validState st"
  shows "calmly (markSnapshotState ident st) w (\<lambda>r w'. r = Inr () \<and> dkFiles w' = dkFiles w)"
proof (cases "ident = []")
  case True
  then show ?thesis by (simp add: markSnapshotState_def calmly_ret assms(1))
next
  case False
  obtain es where es: "setState ident st (entriesOf w) = Some es"
    using setState_found assms(2) unfolding hasEntry_def by blast
  have valid: "\<not> st \<notin> {statePrepared, stateCommitted, stateAborted, stateUncertain}" using assms(3) by (simp add: validState_def)
  show ?thesis
    unfolding markSnapshotState_def saveHistory_def if_not_P [OF False] if_not_P [OF valid]
  proof (rule calmly_lock [OF assms(1)], rule calmly_try, rule calmly_loadHistory [OF assms(1)], intro impI exI conjI, rule refl)
    fix hf :: historyFile assume hf: "hfEntries hf = entriesOf w"
    show "calmly (case setState ident st (hfEntries hf) of
          None \<Rightarrow> retOp (Inl (plainError (''history entry '' @ ident @ '' disappeared before '' @ st)))
        | Some entries \<Rightarrow> mapErr (wrapErr ''history: '') (ioStep (setIndex (hf\<lparr>hfEntries := entries\<rparr>)))) w
      (\<lambda>r w'. r = Inr () \<and> dkFiles w' = dkFiles w)"
      unfolding hf es option.case
      by (rule calmly_mapErr, rule calmly_step) (simp_all add: assms(1) setIndex_def)
  qed
qed

lemma recordStamp_sels [simp]:
  "contents (recordStamp p t n w) = contents w" "dkEvents (recordStamp p t n w) = dkEvents w"
  "hasEntry ident (recordStamp p t n w) = hasEntry ident w"
  by (simp_all add: recordStamp_def contents_def fun_eq_iff hasEntry_def entriesOf_def)

lemma calmly_checkStale:
  "dkEvents w = [] \<Longrightarrow> dkStamps w path = None \<Longrightarrow> Q (Inr ()) w \<Longrightarrow> calmly (checkStale path) w Q"
  unfolding checkStale_def by (rule calmly_get) (simp add: calmly_ret)

lemma calmly_readFile:
  "dkEvents w = [] \<Longrightarrow> smallFile (dkFiles w path) \<Longrightarrow>
   Q (case dkFiles w path of None \<Rightarrow> FileMissing (notExistErr path) | Some f \<Rightarrow> FileBytes (fileData f)) w \<Longrightarrow>
   calmly (readRegularFile path) w Q"
  by (simp add: calmly_def calm_readRegularFile)

lemma equalFold_same: "equalFold s s"
  by (simp add: equalFold_def)

lemma calmly_preflight:
  assumes "dkEvents w = []" "smallFile (dkFiles w path)" "fileIs (dkFiles w path) pre" "Q (Inr ()) w"
  shows "calmly (verifyPreflightState cfg path pre) w Q"
  unfolding verifyPreflightState_def
  by (rule calmly_bind, rule calmly_readFile [OF assms(1,2)], intro impI calmly_ret assms(1))
    (use assms(3,4) in \<open>auto simp: fileIs_def verifyChecksum_def equalFold_same split: option.splits\<close>)

text \<open>A write of a small file succeeds.\<close>

lemma calmly_snapshotAndWrite:
  assumes calm: "dkEvents w = []" and gz: "gzipWorks cf"
    and roots: "rootRelative (cfOwnerDir cf) path = Inr target" "rootRelative (cfWorkDir cf) path = Inr rel"
    and pre: "fileIs (dkFiles w path) pre" "case pre of None \<Rightarrow> True | Some s \<Rightarrow> int (length s) \<le> historyMaxBlobBytes"
  shows "calmly (snapshotAndWrite cf path disp opName pre content) w
    (\<lambda>r w'. \<exists>ident. r = Inr ident \<and> contents w' = (contents w)(path \<mapsto> content))"
  unfolding snapshotAndWrite_def
proof (rule calmly_try, rule calmly_mono [OF calmly_record [OF calm gz roots(1)]], goal_cases)
  case 1
  show ?case using pre(2) by simp
next
  case (2 r w1)
  then obtain ident where r: "r = Inr ident" and w1: "dkFiles w1 = dkFiles w" "hasEntry ident w1" "dkEvents w1 = []" by auto
  have small: "smallFile (dkFiles w1 path)"
    using pre by (auto simp: w1 smallFile_def fileIs_def maxFileSize_def historyMaxBlobBytes_def split: option.splits)
  have root: "rootRelative (cfWorkDir (engineConfig.truncate cf)) path = Inr rel"
    using roots(2) by (simp add: engineConfig.truncate_def)
  have put: "calmly (atomicWriteFileStaged (engineConfig.truncate cf) path content
        (verifyPreflightState (engineConfig.truncate cf) path pre)) w1
      (\<lambda>a w'. a = (True, None) \<and> contents w' = (contents w)(path \<mapsto> content) \<and> hasEntry ident w')"
    unfolding atomicWriteFileStaged_def root sum.case
  proof (rule calmly_bind, rule calmly_step, goal_cases)
    case 3
    show ?case
      unfolding sum.case
    proof (intro impI, rule calmly_bind, rule calmly_preflight, goal_cases)
      case 4
      let ?w2 = "putFile path content (id w1)"
      have w2: "dkEvents ?w2 = []" "contents ?w2 = (contents w)(path \<mapsto> content)" "hasEntry ident ?w2"
        using w1 by (auto simp: putFile_def contents_def fun_eq_iff hasEntry_def entriesOf_def)
      show ?case
        unfolding sum.case
        by (intro impI, rule calmly_bind, rule calmly_call)
          (use w1 w2 in \<open>auto intro!: calmly_bind calmly_read simp: calmly_def split: option.split\<close>)
    qed (use w1 small pre(1) in simp_all)
  qed (use w1 in simp_all)
  have commit: "calmly (markSnapshotState ident stateCommitted) w3 (\<lambda>r w'. r = Inr () \<and> dkFiles w' = dkFiles w3)"
    if "dkEvents w3 = []" "hasEntry ident w3" for w3
    using that by (rule calmly_mark) (simp add: validState_def)
  show ?case
    unfolding r
  proof (intro impI exI conjI, rule refl, rule calmly_bind, rule calmly_mono [OF put], goal_cases)
    case (1 a w3)
    then have w3: "dkEvents w3 = []" "contents w3 = (contents w)(path \<mapsto> content)" "hasEntry ident w3" "a = (True, None)" by auto
    show ?case
      unfolding w3(4) prod.case option.case
    proof (intro impI, rule calmly_bind, rule calmly_mono [OF commit [OF w3(1,3)]], goal_cases)
      case (1 m w4)
      then show ?case using w3(2) contents_same [of w4 w3] by (auto intro!: calmly_ret)
    qed
  qed
qed

section \<open>The tool\<close>

text \<open>Arguments that assert the state the target is in.\<close>

definition assertsState :: "historyConfig \<Rightarrow> toolArgs \<Rightarrow> string option \<Rightarrow> bool" where
  "assertsState cf args pre \<longleftrightarrow>
     (case pre of
        Some old \<Rightarrow> \<not> boolArg args ''if_absent'' \<and> cfSha256Hex cf old \<noteq> [] \<and>
          strArg args ''if_checksum'' = cfSha256Hex cf old
      | None \<Rightarrow> boolArg args ''if_absent'' \<and> strArg args ''if_checksum'' = [])"

lemma calmly_writeFileFrom:
  assumes calm: "dkEvents w = []" and gz: "gzipWorks cf"
    and roots: "rootRelative (cfOwnerDir cf) path = Inr target" "rootRelative (cfWorkDir cf) path = Inr rel"
    and pre: "fileIs (dkFiles w path) pre" "case pre of None \<Rightarrow> True | Some s \<Rightarrow> int (length s) \<le> historyMaxBlobBytes"
    and args: "\<not> boolArg args ''dry_run''" "assertsState cf args pre"
  shows "calmly (writeFileFrom cf args disp content path pre) w
    (\<lambda>r w'. (\<exists>msg. r = Inr msg) \<and> contents w' = (contents w)(path \<mapsto> content))"
proof -
  let ?cur = "case pre of None \<Rightarrow> [] | Some bytes \<Rightarrow> bytes"
  have chk: "verifyIfChecksum cf args disp ?cur (pre \<noteq> None) = Inr ()"
    using args(2) by (auto simp: verifyIfChecksum_def verifyChecksum_def assertsState_def equalFold_same split: option.splits)
  have g: "\<not> (cfPreconditions cf \<and> pre \<noteq> None \<and> strArg args ''if_checksum'' = [])"
    "\<not> (cfPreconditions cf \<and> \<not> pre \<noteq> None \<and> \<not> boolArg args ''if_absent'')"
    using args(2) by (auto simp: assertsState_def split: option.splits)
  have small: "smallFile (dkFiles w path)"
    using pre by (auto simp: smallFile_def fileIs_def maxFileSize_def historyMaxBlobBytes_def split: option.splits)
  show ?thesis
    unfolding writeFileFrom_def Let_def chk if_not_P [OF args(1)] if_not_P [OF g(1)] if_not_P [OF g(2)]
  proof (rule calmly_try_unit, rule calmly_ret [OF calm], intro impI conjI, rule refl, rule calmly_try_unit,
      rule calmly_preflight [OF calm small pre(1)], intro impI conjI, rule refl, rule calmly_try,
      rule calmly_mono [OF calmly_snapshotAndWrite [OF calm gz roots pre]], goal_cases)
    case (1 r w')
    then show ?case by (auto intro: calmly_ret)
  qed
qed

lemma calmly_writeFile:
  assumes calm: "dkEvents w = []" and gz: "gzipWorks cf"
    and path: "checkMutation cf (strArg args ''path'') = Inr path" "rootRelative (cfOwnerDir cf) path = Inr target"
    and pre: "fileIs (dkFiles w path) pre" "case pre of None \<Rightarrow> True | Some s \<Rightarrow> int (length s) \<le> historyMaxBlobBytes"
    and args: "\<not> boolArg args ''dry_run''" "assertsState cf args pre" and fresh: "dkStamps w path = None"
  shows "calmly (writeFile cf args) w
    (\<lambda>r w'. (\<exists>msg. r = Inr msg) \<and> contents w' = (contents w)(path \<mapsto> strArg args ''content''))"
proof -
  obtain rel where rel: "rootRelative (cfWorkDir cf) path = Inr rel"
    using path(1) unfolding checkMutation_def by (rule checkPathForMutation_Inr)
  have e: "\<not> (strArg args ''if_checksum'' \<noteq> [] \<and> boolArg args ''if_absent'')"
    using args(2) by (auto simp: assertsState_def split: option.splits)
  have small: "smallFile (dkFiles w path)"
    using pre by (auto simp: smallFile_def fileIs_def maxFileSize_def historyMaxBlobBytes_def split: option.splits)
  note run = calmly_writeFileFrom [OF calm gz path(2) rel pre args]
  show ?thesis
    unfolding writeFile_def Let_def path(1) sum.case writeFileLocked_def if_not_P [OF e]
  proof (rule calmly_locks [OF calm], rule calmly_try_unit, rule calmly_checkStale [OF calm fresh], intro impI conjI,
      rule refl, rule calmly_bind, rule calmly_readFile [OF calm small], intro impI, goal_cases)
    case 1
    show ?case using run pre(1) by (cases "dkFiles w path") (auto simp: fileIs_def)
  qed
qed

end
