(* ===== verification/UndoFacts.thy ===== *)
theory UndoFacts
  imports HistoryRestart UndoTool
begin

text \<open>Restoring a snapshot in a new process when every call works.\<close>

section \<open>The blob\<close>

text \<open>The blob of an ID lies directly in the blobs directory, as it does for a hexadecimal ID.\<close>

definition blobPlaceOK :: "historyConfig \<Rightarrow> string \<Rightarrow> bool" where
  "blobPlaceOK cf ident \<longleftrightarrow>
     (let b = ident @ ''.blob''; path = filepathJoin (blobsDir cf) b in
      pathBase b = b \<and> hasPrefix path (pathClean (blobsDir cf) @ ''/'') \<and> pathBase path = b)"

lemma calm_readBlob:
  assumes calm: "dkEvents w = []" and place: "blobPlaceOK cf (heID ent)" and gz: "gzipOK cf"
    and ent: "heBlobID ent = heID ent @ ''.blob''" "heBlobHash ent = cfSha256Hex cf p"
    and blob: "encodeBlob cf p = Inr enc" "hdBlobs (dkHistory w) (heBlobID ent) = Some enc"
    and small: "int (length p) \<le> historyMaxBlobBytes"
  shows "readBlob cf ent w = (Some (Inr p), w)"
proof -
  let ?path = "filepathJoin (blobsDir cf) (heBlobID ent)"
  have path: "blobPathOf cf ent = Inr ?path" "pathBase ?path = heBlobID ent"
    using place ent(1) by (auto simp: blobPathOf_def blobPlaceOK_def Let_def)
  have dec: "decodeBlob cf enc = Inr p" "\<not> historyMaxBlobBytes + 1048576 < int (length enc)"
    using blob_codec [OF gz blob(1) small] small by auto
  note t1 = calm_try [where m = "retOp (Inr ?path)" and w = w, OF ret_apply]
  have "mapErr (wrapErr ''open history root: '') (ioStep id) w = (Some (Inr ()), w)"
    unfolding mapErr_def
    by (subst calm_bind [where m = "ioStep id" and w = w, OF calm_step [OF calm]]) simp
  note t2 = calm_try [where m = "mapErr (wrapErr ''open history root: '') (ioStep id)" and w = w, OF this]
  note t3 = calm_bind [where m = "ioRead (\<lambda>w. hdBlobs (dkHistory w) (pathBase ?path))" and w = w, OF calm_read [OF calm]]
  show ?thesis
    unfolding readBlob_def Let_def path(1) t1 t2 t3
    using path(2) blob(2) dec ent(2) by simp
qed

section \<open>Restore\<close>

text \<open>The checksum argument a strict engine asks for, or none where none is needed.\<close>

definition restoreArgs :: "historyConfig \<Rightarrow> toolArgs \<Rightarrow> string \<Rightarrow> bool" where
  "restoreArgs cf args content \<longleftrightarrow> \<not> boolArg args ''if_absent'' \<and>
     (strArg args ''if_checksum'' = cfSha256Hex cf content \<or> (strArg args ''if_checksum'' = [] \<and> \<not> cfPreconditions cf))"

lemma equalFold_refl [simp]: "equalFold s s"
  by (simp add: equalFold_def)

lemma calm_verifyUndoChecksum:
  assumes "dkEvents w = []" "dkFiles w path = Some f" "int (length (fileData f)) \<le> maxFileSize"
    and "restoreArgs cf args (fileData f)"
  shows "verifyUndoChecksum cf args path w = (Some (Inr ()), w)"
proof (cases "strArg args ''if_checksum'' = []")
  case True
  then show ?thesis by (simp add: verifyUndoChecksum_def)
next
  case False
  then have c: "strArg args ''if_checksum'' = cfSha256Hex cf (fileData f)" using assms(4) by (simp add: restoreArgs_def)
  have "readRegularFile path w = (Some (FileBytes (fileData f)), w)"
    using calm_readRegularFile [OF assms(1), of path] assms(2,3) by (simp add: smallFile_def)
  note t = calm_bind [where m = "readRegularFile path" and w = w, OF this]
  show ?thesis unfolding verifyUndoChecksum_def if_not_P [OF False] t
    by (simp add: verifyChecksum_def c)
qed

lemma calm_atomicWrite:
  assumes "dkEvents w = []" "rootRelative (cfWorkDir cf) path = Inr rel"
  shows "\<exists>w'. atomicWriteFile cf path content w = (Some (Inr ()), w') \<and>
    dkFiles w' = (dkFiles w)(path \<mapsto> \<lparr>fileData = content, fileTime = dkClock w\<rparr>)"
proof -
  let ?w = "putFile path content w"
  have e: "dkEvents ?w = []" using assms(1) by (simp add: putFile_def)
  have f: "dkFiles ?w path = Some \<lparr>fileData = content, fileTime = dkClock w\<rparr>" by (simp add: putFile_def)
  note s = calm_bind [where m = "ioStep id" and w = w, OF calm_step [OF assms(1)], simplified]
  note b = calm_bind [where m = "retOp (Inr ())" and w = w, OF ret_apply]
  note c = calm_bind [where m = "ioCall (putFile path content)" and w = w, OF calm_call [OF assms(1)]]
  note r = calm_bind [where m = "ioRead (\<lambda>w. dkFiles w path)" and w = ?w, OF calm_read [OF e]]
  have "atomicWriteFileStaged cf path content (retOp (Inr ())) w =
      (Some (True, None), recordStamp path (dkClock w) (int (length content)) ?w)"
    unfolding atomicWriteFileStaged_def assms(2) sum.case s b c prod.case option.case r f by simp
  note t = calm_bind [where m = "atomicWriteFileStaged cf path content (retOp (Inr ()))" and w = w, OF this]
  show ?thesis unfolding atomicWriteFile_def t by (simp add: recordStamp_def putFile_def)
qed

lemma calm_removeFile:
  assumes "dkEvents w = []" "rootRelative (cfWorkDir cf) path = Inr rel" "dkFiles w path \<noteq> None"
  shows "removeFileDurable cf path w = (Some Removed, w\<lparr>dkFiles := (dkFiles w)(path := None)\<rparr>)"
proof -
  note s = calm_bind [where m = "ioStep id" and w = w, OF calm_step [OF assms(1)], simplified]
  note r = calm_bind [where m = "ioStep (\<lambda>w. w\<lparr>dkFiles := (dkFiles w)(path := None)\<rparr>)" and w = w, OF calm_step [OF assms(1)]]
  show ?thesis
    unfolding removeFileDurable_def assms(2) sum.case s get_apply if_not_P [OF assms(3)] r by simp
qed

text \<open>The entry of a write that returned, as the history keeps it.\<close>

definition keptEntry ::
  "historyConfig \<Rightarrow> string \<Rightarrow> historyDisk store \<Rightarrow> historyEntry \<Rightarrow> string option \<Rightarrow> bool" where
  "keptEntry cf path w ent pre \<longleftrightarrow>
     resolveUndoTarget cf ent = Inr path \<and> heState ent = stateCommitted \<and> (heCreated ent \<longleftrightarrow> pre = None) \<and>
     (\<forall>p. pre = Some p \<longrightarrow> int (length p) \<le> historyMaxBlobBytes \<and> heBlobID ent = heID ent @ ''.blob'' \<and>
        heBlobHash ent = cfSha256Hex cf p \<and>
        (\<exists>enc. encodeBlob cf p = Inr enc \<and> hdBlobs (dkHistory w) (heBlobID ent) = Some enc))"

lemma calm_undoRestoreLocked:
  assumes calm: "dkEvents w = []" "dkStamps w path = None"
    and f: "dkFiles w path = Some f" "int (length (fileData f)) \<le> maxFileSize" "restoreArgs cf args (fileData f)"
    and ent: "keptEntry cf path w ent pre" and place: "blobPlaceOK cf (heID ent)" and gz: "gzipOK cf"
    and rel: "rootRelative (cfWorkDir cf) path = Inr rel" and sha: "\<And>s. cfSha256Hex cf s \<noteq> []"
  shows "\<exists>msg w'. undoRestoreLocked cf args ent path w = (Some (Inr msg), w') \<and>
    dkFiles w' = (dkFiles w)(path := map_option (\<lambda>p. \<lparr>fileData = p, fileTime = dkClock w\<rparr>) pre)"
proof -
  have args: "\<not> (strArg args ''if_checksum'' \<noteq> [] \<and> boolArg args ''if_absent'')"
      "\<not> (cfPreconditions cf \<and> True \<and> strArg args ''if_checksum'' = [])"
      "\<not> (cfPreconditions cf \<and> \<not> True \<and> \<not> boolArg args ''if_absent'')"
    using f(3) sha by (auto simp: restoreArgs_def)
  note rs = if_not_P [OF args(1)] if_not_P [OF args(2)] if_not_P [OF args(3)] fileRead.case sum.case
  have "readRegularFile path w = (Some (FileBytes (fileData f)), w)"
    using calm_readRegularFile [OF calm(1), of path] f(1,2) by (simp add: smallFile_def)
  note rd = calm_bind [where m = "readRegularFile path" and w = w, OF this]
  have "checkStale path w = (Some (Inr ()), w)" by (simp add: checkStale_def calm(2))
  note st = calm_try [where m = "checkStale path" and w = w, OF this]
  note ck = calm_try [where m = "verifyUndoChecksum cf args path" and w = w, OF calm_verifyUndoChecksum [OF calm(1) f]]
  have rel': "rootRelative (cfWorkDir (engineConfig.truncate cf)) path = Inr rel"
    using rel by (simp add: engineConfig.truncate_def)
  show ?thesis
  proof (cases pre)
    case None
    then have "heCreated ent" using ent by (simp add: keptEntry_def)
    note rm = calm_bind [where m = "removeFileDurable (engineConfig.truncate cf) path" and w = w,
        OF calm_removeFile [OF calm(1) rel']]
    show ?thesis
      unfolding undoRestoreLocked_def Let_def rs rd st if_P [OF \<open>heCreated ent\<close>] ck
      using None f(1) by (simp add: rm)
  next
    case (Some p)
    then have e: "\<not> heCreated ent" "int (length p) \<le> historyMaxBlobBytes" "heBlobID ent = heID ent @ ''.blob''"
        "heBlobHash ent = cfSha256Hex cf p"
      and "\<exists>enc. encodeBlob cf p = Inr enc \<and> hdBlobs (dkHistory w) (heBlobID ent) = Some enc"
      using ent by (auto simp: keptEntry_def)
    then obtain enc where enc: "encodeBlob cf p = Inr enc" "hdBlobs (dkHistory w) (heBlobID ent) = Some enc" by blast
    note rb = calm_try [where m = "readBlob cf ent" and w = w,
        OF calm_readBlob [OF calm(1) place gz e(3,4) enc e(2)]]
    obtain w' where w': "atomicWriteFile (engineConfig.truncate cf) path p w = (Some (Inr ()), w')"
        "dkFiles w' = (dkFiles w)(path \<mapsto> \<lparr>fileData = p, fileTime = dkClock w\<rparr>)"
      using calm_atomicWrite [OF calm(1) rel'] by blast
    have "mapErr (wrapErr ''restore: write: '') (atomicWriteFile (engineConfig.truncate cf) path p) w = (Some (Inr ()), w')"
      unfolding mapErr_def calm_bind [where m = "atomicWriteFile (engineConfig.truncate cf) path p" and w = w, OF w'(1)]
      by simp
    note aw = calm_try [where m = "mapErr (wrapErr ''restore: write: '') (atomicWriteFile (engineConfig.truncate cf) path p)"
        and w = w, OF this]
    show ?thesis
      unfolding undoRestoreLocked_def Let_def rs rd st if_not_P [OF e(1)] rb ck aw
      using Some w'(2) by simp
  qed
qed

lemma calm_targetLocks: "dkEvents w = [] \<Longrightarrow> withTargetLocks ts m w = m w"
proof -
  assume c: "dkEvents w = []"
  have "foldr (\<lambda>_. withFileLock) xs m w = m w" for xs :: "string list"
    by (induction xs) (simp_all add: calm_lock [OF c])
  then show ?thesis by (simp add: withTargetLocks_def calm_lock [OF c])
qed

text \<open>The lookup of the newest entry by its ID.\<close>

lemma pickEntry_last:
  "\<forall>e \<in> set es. heID e \<noteq> heID ent \<Longrightarrow> pickEntry (heID ent) (es @ [ent]) = Inr ent"
proof -
  assume "\<forall>e \<in> set es. heID e \<noteq> heID ent"
  then have "find (\<lambda>e. heID e = heID ent) (es @ [ent]) = Some ent" by (induction es) auto
  then show ?thesis by (simp add: pickEntry_def)
qed

lemma calm_undoRestore:
  assumes calm: "dkEvents w = []" "\<And>p. dkStamps w p = None"
    and es: "map (reconciled cf (dkFiles w)) (entriesOf w) = es @ [ent]" "\<forall>e \<in> set es. heID e \<noteq> heID ent"
    and ident: "strArg args ''id'' = heID ent" "heID ent \<noteq> []"
    and f: "dkFiles w path = Some f" "int (length (fileData f)) \<le> maxFileSize" "restoreArgs cf args (fileData f)"
    and ent: "keptEntry cf path w ent pre" and place: "blobPlaceOK cf (heID ent)" and gz: "gzipOK cf"
    and rel: "rootRelative (cfWorkDir cf) path = Inr rel" and sha: "\<And>s. cfSha256Hex cf s \<noteq> []"
  shows "\<exists>msg w'. undoRestore cf args w = (Some (Inr msg), w') \<and>
    dkFiles w' = (dkFiles w)(path := map_option (\<lambda>p. \<lparr>fileData = p, fileTime = dkClock w\<rparr>) pre)"
proof -
  obtain hf w1 where l: "loadHistoryLocked cf w = (Some (Inr hf), w1)" "hfEntries hf = es @ [ent]"
      "dkFiles w1 = dkFiles w" "hdBlobs (dkHistory w1) = hdBlobs (dkHistory w)" "dkEvents w1 = []"
      "dkStamps w1 = dkStamps w" "dkClock w1 = dkClock w"
    using calm_loadHistoryLocked [OF calm(1), of cf] es(1) by auto
  have "findEntry cf (heID ent) w = (Some (Inr ent), w1)"
    unfolding findEntry_def calm_try [where m = "loadHistoryLocked cf" and w = w, OF l(1)] l(2)
    by (simp add: pickEntry_last [OF es(2)])
  note fe = calm_try [where m = "findEntry cf (heID ent)" and w = w, OF this]
  have "keptEntry cf path w1 ent pre = keptEntry cf path w ent pre" by (simp add: keptEntry_def l(4))
  then have k: "keptEntry cf path w1 ent pre" using ent by simp
  then have r: "resolveUndoTarget cf ent = Inr path" "heState ent = stateCommitted" by (simp_all add: keptEntry_def)
  obtain msg w2 where u: "undoRestoreLocked cf args ent path w1 = (Some (Inr msg), w2)"
      "dkFiles w2 = (dkFiles w1)(path := map_option (\<lambda>p. \<lparr>fileData = p, fileTime = dkClock w1\<rparr>) pre)"
    using calm_undoRestoreLocked [OF l(5) _ _ f(2,3) k place gz rel sha] l calm(2) f(1) by auto
  have "undoRestore cf args w = undoRestoreLocked cf args ent path w1"
    unfolding undoRestore_def Let_def ident(1) if_not_P [OF ident(2)] fe
    using r by (simp add: calm_targetLocks [OF l(5)])
  then show ?thesis using u l by simp
qed

section \<open>Undoing a write\<close>

lemma reconciled_sels [simp]:
  "heID (reconciled cf fs e) = heID e" "heBlobID (reconciled cf fs e) = heBlobID e"
  by (simp_all add: reconciled_def)

lemma committed_kept:
  assumes wr: "written cf path disp opName \<lparr>preContent = pre, expectedAfter = content, expectedExists = True\<rparr> w
      {stateCommitted} ent w1"
    and target: "targetOK cf path" and same: "dkHistory w2 = dkHistory w1"
  shows "keptEntry cf path w2 (ent\<lparr>heState := stateCommitted\<rparr>) pre"
proof -
  obtain ts target where e: "rootRelative (cfOwnerDir cf) path = Inr target"
      "ent = snapshotEntry cf (snapshotID cf path ts) target disp opName
        \<lparr>preContent = pre, expectedAfter = content, expectedExists = True\<rparr> ts"
    using wr by (auto simp: written_def entryFor_def)
  have r: "resolveUndoTarget cf (ent\<lparr>heState := stateCommitted\<rparr>) = Inr path"
    using target e by (simp add: resolveUndoTarget_def targetOK_def)
  have b: "heBlobHash ent = cfSha256Hex cf p" if "pre = Some p" for p
    using that by (simp add: e(2) snapshotEntry_def Let_def)
  have "blobThere cf w2 ent pre" using wr same by (simp add: written_def blobThere_def)
  then show ?thesis using r b by (auto simp: keptEntry_def blobThere_def e(2))
qed

lemma undo_written:
  assumes wr: "written cf path disp opName \<lparr>preContent = pre, expectedAfter = content, expectedExists = True\<rparr> w
      {stateCommitted} ent w1"
    and fresh: "freshID cf path (entriesOf w)" and target: "targetOK cf path" and orig: "fileIs (dkFiles w path) pre"
    and small: "int (length content) \<le> maxFileSize" and args: "restoreArgs cf args content" "strArg args ''id'' = heID ent"
    and place: "blobPlaceOK cf (heID ent)" and gz: "gzipOK cf" and owner: "cfOwnerDir cf = cfWorkDir cf"
    and sha: "\<And>s. cfSha256Hex cf s \<noteq> []"
  shows "\<exists>msg w2. undoRestore cf args (restarted w1) = (Some (Inr msg), w2) \<and>
    (\<forall>q. map_option fileData (dkFiles w2 q) = map_option fileData (dkFiles w q))"
proof -
  obtain t es v ev where f: "dkFiles w1 = (dkFiles w)(path \<mapsto> \<lparr>fileData = content, fileTime = t\<rparr>)"
      and e: "entryFor cf path disp opName \<lparr>preContent = pre, expectedAfter = content, expectedExists = True\<rparr> ent"
      and i: "\<forall>e \<in> set es. heID e \<noteq> heID ent"
        "hdIndex (dkHistory w1) = Some \<lparr>hfVersion = v, hfEntries = es @ [ent\<lparr>heState := stateCommitted\<rparr>]\<rparr>"
    using wr by (auto simp: written_def listed_def)
  obtain rel where rel: "rootRelative (cfWorkDir cf) path = Inr rel" using e owner by (auto simp: entryFor_def)
  let ?ent = "ent\<lparr>heState := stateCommitted\<rparr>" and ?es = "map (reconciled cf (dkFiles w1)) es"
  have c: "reconciled cf (dkFiles w1) ?ent = ?ent"
    by (simp add: reconciled_def reconciledState_def history_states)
  have es: "map (reconciled cf (dkFiles (restarted w1))) (entriesOf (restarted w1)) = ?es @ [?ent]"
    using i(2) c by (simp add: entriesOf_def)
  have old: "map_option fileData (dkFiles w path) = pre" using orig by (simp add: fileIs_def)
  obtain msg w2 where u: "undoRestore cf args (restarted w1) = (Some (Inr msg), w2)"
      "dkFiles w2 = (dkFiles (restarted w1))(path := map_option (\<lambda>p. \<lparr>fileData = p, fileTime = dkClock (restarted w1)\<rparr>) pre)"
    using calm_undoRestore [of "restarted w1" cf ?es ?ent args path "\<lparr>fileData = content, fileTime = t\<rparr>" pre rel]
      es i(1) f small args place gz rel sha committed_kept [OF wr target, of "restarted w1"] entryFor_ID [OF e fresh]
    by auto
  then have "\<forall>q. map_option fileData (dkFiles w2 q) = map_option fileData (dkFiles w q)"
    using f old by (simp add: option.map_comp comp_def option.map_ident)
  then show ?thesis using u by blast
qed

end
