(* ===== verification/FileProperties.thy ===== *)
theory FileProperties
  imports UndoFacts
begin

text \<open>
  The properties of the tools that change files: confinement of their paths, the undo history
  under failures and crashes, and undo.
\<close>

section \<open>A small workspace for the witnesses\<close>

definition plainLinks :: linkEnv where
  "plainLinks = \<lparr>userHomeDir = Inr ''/h'', tempDir = ''/tmp'', evalSymlinks = RealPath,
     lstatEntry = (\<lambda>_. EntryPlain), registeredSpill = (\<lambda>_. False)\<rparr>"

definition sampleDigest :: "string \<Rightarrow> string" where
  "sampleDigest s = ''0123456789abcdef'' @ s"

definition sampleConfig :: historyConfig where
  "sampleConfig = \<lparr>cfWorkDir = ''/w'', cfLinks = plainLinks, cfSha256Hex = sampleDigest, cfPreconditions = True,
     cfOwnerDir = ''/w'', cfHistoryDir = ''/c/h'', cfGzip = Inr, cfGunzip = (\<lambda>_. Inr),
     cfFormatNano = (\<lambda>_. []), cfFormatTime = (\<lambda>_. [])\<rparr>"

definition sampleStore :: "ioEvent list \<Rightarrow> historyDisk store" where
  "sampleStore evs = \<lparr>dkFiles = [''/w/a'' \<mapsto> \<lparr>fileData = ''old'', fileTime = 0\<rparr>], dkStamps = (\<lambda>_. None),
     dkClock = 5, dkEvents = evs, dkHistory = \<lparr>hdIndex = None, hdBlobs = (\<lambda>_. None)\<rparr>\<rparr>"

lemma sample_facts:
  "entriesOf (sampleStore evs) = []" "freshID sampleConfig ''/w/a'' []" "gzipOK sampleConfig"
  "targetOK sampleConfig ''/w/a''" "dkFiles (sampleStore evs) ''/w/a'' = Some \<lparr>fileData = ''old'', fileTime = 0\<rparr>"
  "hashesDiffer sampleConfig (Some ''old'') ''new''" "cfSha256Hex sampleConfig s \<noteq> []"
proof -
  show "entriesOf (sampleStore evs) = []" by (simp add: entriesOf_def sampleStore_def)
  show "freshID sampleConfig ''/w/a'' []"
    by (simp add: freshID_def snapshotID_def sampleConfig_def sampleDigest_def)
  show "gzipOK sampleConfig" by (simp add: gzipOK_def sampleConfig_def)
  show "targetOK sampleConfig ''/w/a''" by code_simp
  show "dkFiles (sampleStore evs) ''/w/a'' = Some \<lparr>fileData = ''old'', fileTime = 0\<rparr>" by (simp add: sampleStore_def)
  show "hashesDiffer sampleConfig (Some ''old'') ''new''"
    by (simp add: hashesDiffer_def sampleConfig_def sampleDigest_def)
  show "cfSha256Hex sampleConfig s \<noteq> []" by (simp add: sampleConfig_def sampleDigest_def)
qed

section \<open>Properties\<close>







text \<open>C40: The history stays within its bounds and keeps what it can: after a new entry it has at
  most 50 entries and 20 MiB of snapshots, the new entry among them, and only oldest entries are evicted,
  none that could have stayed.\<close>

theorem eviction_bounds:
  assumes "evictHistory (es @ [ent]) = (evicted, left)" "heBlobSize ent \<le> historyMaxBlobBytes"
  shows "length left \<le> 50 \<and> totalBlobSize left \<le> 20 * 1024 * 1024 \<and>
    (\<exists>ys. left = ys @ [ent] \<and> es = evicted @ ys) \<and>
    (evicted = [] \<or> 50 < length (last evicted # left) \<or> 20 * 1024 * 1024 < totalBlobSize (last evicted # left))"
proof -
  have "heBlobSize ent \<le> historyMaxTotalBytes"
    using assms(2) by (simp add: historyMaxBlobBytes_def historyMaxTotalBytes_def)
  then show ?thesis
    using evictHistory_parts [OF assms(1)] evictHistory_newest [OF assms(1)] evictHistory_minimal [OF assms(1)]
    unfolding historyMaxEntries_def historyMaxTotalBytes_def by blast
qed

definition sampleEntrySized :: "int \<Rightarrow> historyEntry" where
  "sampleEntrySized n = (snapshotEntry sampleConfig ''i'' ''a'' ''a'' ''write_file''
     \<lparr>preContent = None, expectedAfter = [], expectedExists = True\<rparr> 0)\<lparr>heBlobSize := n\<rparr>"

theorem eviction_bounds_witness:
  "let e = sampleEntrySized 5242880; left = [e, e, e, e]; evicted = [e] in
   length left \<le> 50 \<and> totalBlobSize left \<le> 20 * 1024 * 1024 \<and>
    (\<exists>ys. left = ys @ [e] \<and> [e, e, e, e] = evicted @ ys) \<and>
    (evicted = [] \<or> 50 < length (last evicted # left) \<or> 20 * 1024 * 1024 < totalBlobSize (last evicted # left))"
  unfolding Let_def
  by (rule eviction_bounds) code_simp+


text \<open>The write of the witnesses, with every call working: it returns the ID.\<close>

lemma sample_write:
  "fst (snapshotAndWrite sampleConfig ''/w/a'' ''a'' ''write_file'' (Some ''old'') ''new'' (sampleStore [])) =
     Some (Inr ''0123456789abcdef'')"
  by code_simp


end
