(* ===== verification/ToolProperties.thy ===== *)
theory ToolProperties
  imports CalmRuns FileProperties
begin

text \<open>
  The properties of the tools as a whole: the files they can change, dry runs, preconditions,
  batches that stop in the middle, and that a write without failing calls succeeds.
\<close>

section \<open>Confinement\<close>

lemma changesOnly_snd: "changesOnly T m \<Longrightarrow> dkFiles (snd (m w)) q \<noteq> dkFiles w q \<Longrightarrow> q \<in> T"
  by (rule changesOnlyD [of T m w "fst (m w)"]) simp_all

lemma quiet_snd: "quiet m \<Longrightarrow> sameData w (snd (m w))"
  by (rule quietD [of m w "fst (m w)"]) simp_all


definition sampleArgs :: "bool \<Rightarrow> toolArgs" where
  "sampleArgs dry = [(''path'', JString ''a''), (''content'', JString ''new''), (''old_text'', JString ''old''),
     (''new_text'', JString ''new''), (''if_checksum'', JString (sampleDigest ''old'')), (''dry_run'', JBool dry)]"

definition plainRuntime :: mapRuntime where
  "plainRuntime = \<lparr>rtOrder = (\<lambda>m. m), rtMerge = (\<lambda>_ xs. xs)\<rparr>"

lemma sample_writes:
  "dkFiles (snd (writeFile sampleConfig (sampleArgs False) (sampleStore []))) ''/w/a'' =
     Some \<lparr>fileData = ''new'', fileTime = 5\<rparr>"
  by code_simp


section \<open>Dry runs\<close>

lemma quiet_Pair [simp]: "quiet (Pair a)"
  by (simp add: quiet_def wpOp_def)

lemma quiet_runOp [quiet_intros]: "quiet (runOp r)"
  by (simp add: quiet_def wpOp_def runOp_def)

lemma quiet_dry_write: "boolArg args ''dry_run'' \<Longrightarrow> quiet (writeFile cf args)"
  unfolding writeFile_def writeFileLocked_def writeFileFrom_def Let_def
  by (auto intro!: quiet_intros split: sum.split fileRead.split)

lemma quiet_dry_edit: "boolArg args ''dry_run'' \<Longrightarrow> quiet (editFile cf args)"
  unfolding editFile_def editFileLocked_def editFileFrom_def loadEditTarget_def Let_def
  by (auto intro!: quiet_intros split: sum.split fileRead.split prod.split)

lemma quiet_dry_multi: "boolArg args ''dry_run'' \<Longrightarrow> quiet (multiEdit cf rt args)"
  unfolding multiEdit_def multiEditLocked_def
  by (auto intro!: quiet_intros simp: invalidArgs_def split: option.split jsonValue.split list.split sum.split prod.split)

lemma quiet_preflightPatch [quiet_intros]: "quiet (preflightPatch cf rs)"
proof (induction rs)
  case (Cons r rs)
  have "quiet (preflightOp cf r)"
    unfolding preflightOp_def preflightAdd_def preflightDelete_def preflightUpdate_def rootedStat_def rootedReadFile_def
    by (auto intro!: quiet_intros split: sum.split fileRead.split)
  then show ?case using Cons by (auto intro!: quiet_intros)
qed (simp add: quiet_intros)

lemma quiet_dry_patch: "boolArg args ''dry_run'' \<Longrightarrow> quiet (applyPatch cf args)"
  unfolding applyPatch_def Let_def by (auto intro!: quiet_intros split: sum.split)

text \<open>C13: A dry run of a file tool changes no file and writes no history.\<close>

theorem dry_run_changes_nothing:
  assumes "boolArg args ''dry_run''"
    and "w' \<in> {snd (writeFile cf args w), snd (editFile cf args w), snd (multiEdit cf rt args w),
      snd (applyPatch cf args w)}"
  shows "dkFiles w' = dkFiles w \<and> dkHistory w' = dkHistory w"
proof -
  note quiets = quiet_snd [OF quiet_dry_write [OF assms(1)]] quiet_snd [OF quiet_dry_edit [OF assms(1)]]
    quiet_snd [OF quiet_dry_multi [OF assms(1)]] quiet_snd [OF quiet_dry_patch [OF assms(1)]]
  have "sameData w w'" using assms(2) by (auto intro: quiets)
  then show ?thesis by (simp add: sameData_def)
qed

theorem dry_run_changes_nothing_witness:
  "let w' = snd (editFile sampleConfig (sampleArgs True) (sampleStore [])) in
   dkFiles w' = dkFiles (sampleStore []) \<and> dkHistory w' = dkHistory (sampleStore [])"
  unfolding Let_def
  by (rule dry_run_changes_nothing [where args = "sampleArgs True" and cf = sampleConfig and rt = plainRuntime])
    (simp_all add: sampleArgs_def boolArg_def)

section \<open>Preconditions\<close>

text \<open>What the arguments have to say of a file that changes.\<close>

definition assertedChange :: "historyConfig \<Rightarrow> toolArgs \<Rightarrow> (string \<Rightarrow> string option) \<Rightarrow> (string \<Rightarrow> string option) \<Rightarrow> bool" where
  "assertedChange cf args c c' \<longleftrightarrow>
     (\<forall>q. c' q \<noteq> c q \<longrightarrow>
        (case c q of
           Some old \<Rightarrow> strArg args ''if_checksum'' \<noteq> [] \<and> equalFold (cfSha256Hex cf old) (strArg args ''if_checksum'')
         | None \<Rightarrow> boolArg args ''if_absent''))"

lemma assertedChange_same: "sameData w w' \<Longrightarrow> assertedChange cf args (contents w) (contents w')"
  by (simp add: assertedChange_def contents_same [OF sameDataD(1)])

lemma assertedChange_put:
  assumes "case c path of
      Some old \<Rightarrow> strArg args ''if_checksum'' \<noteq> [] \<and> equalFold (cfSha256Hex cf old) (strArg args ''if_checksum'')
    | None \<Rightarrow> boolArg args ''if_absent''"
  shows "assertedChange cf args c (c(path \<mapsto> content))"
  using assms by (auto simp: assertedChange_def)

lemma verifyIfChecksum_Inr:
  "verifyIfChecksum cf args path bytes exists = Inr u \<Longrightarrow> strArg args ''if_checksum'' \<noteq> [] \<Longrightarrow>
   exists \<and> equalFold (cfSha256Hex cf bytes) (strArg args ''if_checksum'')"
  by (auto simp: verifyIfChecksum_def verifyChecksum_def split: if_splits)

lemma wp_asserted_write:
  assumes "sameData w w1"
    and "case contents w path of
      Some old \<Rightarrow> strArg args ''if_checksum'' \<noteq> [] \<and> equalFold (cfSha256Hex cf old) (strArg args ''if_checksum'')
    | None \<Rightarrow> boolArg args ''if_absent''"
  shows "wpOp (snapshotAndWrite cf path disp opName pre content) (\<lambda>_ w'. assertedChange cf args (contents w) (contents w')) w1"
proof (rule wp_mono [OF snapshotAndWrite_effect])
  fix r w'
  have c: "contents w1 = contents w" by (rule contents_same [OF sameDataD(1) [OF assms(1)]])
  assume "writeEffect (cfSha256Hex cf) path pre content w1 (r :: (goError + string) option) w'"
  then consider "contents w' = contents w" | "contents w' = (contents w)(path \<mapsto> content)"
    unfolding writeEffect_def c by blast
  then show "assertedChange cf args (contents w) (contents w')"
  proof cases
    case 1
    then show ?thesis by (simp add: assertedChange_def)
  next
    case 2
    show ?thesis unfolding 2 by (rule assertedChange_put) (rule assms(2))
  qed
qed

lemma wp_then_quiet:
  "wpOp m (\<lambda>_ w'. assertedChange cf args c (contents w')) w \<Longrightarrow> (\<And>a. quiet (f a)) \<Longrightarrow>
   wpOp (tryOp m f) (\<lambda>_ w'. assertedChange cf args c (contents w')) w"
proof (rule wp_tryI, erule wp_mono, goal_cases)
  case (1 r w1)
  have "wpOp (f a) (\<lambda>_ w'. assertedChange cf args c (contents w')) w1" for a
    using 1(1) by (rule quiet_wp) (use 1(2) in \<open>simp add: contents_same [OF sameDataD(1)]\<close>)
  then show ?case using 1(2) by blast
qed

lemma wp_read_then:
  assumes "sameData w w1" "\<And>w2. sameData w w2 \<Longrightarrow> Q None w2"
    and "\<And>e w2. sameData w w2 \<Longrightarrow> wpOp (f (ReadFails e)) Q w2"
    and "\<And>e w2. sameData w w2 \<Longrightarrow> contents w path = None \<Longrightarrow> wpOp (f (FileMissing e)) Q w2"
    and "\<And>b w2. sameData w w2 \<Longrightarrow> contents w path = Some b \<Longrightarrow> wpOp (f (FileBytes b)) Q w2"
  shows "wpOp (bindOp (readRegularFile path) f) Q w1"
proof -
  have c: "dkFiles w1 = dkFiles w" "\<And>w2. sameData w1 w2 \<Longrightarrow> sameData w w2"
    using sameDataD(1) [OF assms(1)] sameData_trans [OF assms(1)] by simp_all
  show ?thesis
    by (rule wp_bindI, rule wp_readRegularFile) (simp_all add: c assms contents_def)
qed

lemma wp_loadEditTarget:
  "wpOp (loadEditTarget cf path old) (\<lambda>r w'. sameData w w' \<and>
     (\<forall>resolved bytes. r = Some (Inr (resolved, bytes)) \<longrightarrow> contents w resolved = Some bytes)) w"
proof -
  have "wpOp (tryOp (checkStale resolved) (\<lambda>_. bindOp (readRegularFile resolved) (\<lambda>r. retOp (case r of
              FileMissing _ \<Rightarrow> Inl (ErrWithSuggestion (''file not found: '' @ path)
                ''verify the path exists with list_dir or check for typos'' ''file_not_found'')
            | ReadFails err \<Rightarrow> Inl err
            | FileBytes bytes \<Rightarrow> Inr (resolved, bytes)))))
      (\<lambda>r w'. sameData w w' \<and> (\<forall>p b. r = Some (Inr (p, b)) \<longrightarrow> contents w p = Some b)) w" for resolved
  proof (rule wp_tryI, rule quiet_wp [OF quiet_checkStale], goal_cases)
    case (1 r w1)
    show ?case by (intro conjI allI impI wp_read_then [OF 1]) (simp_all add: 1)
  qed
  then show ?thesis by (simp add: loadEditTarget_def split: sum.split)
qed

lemma wp_writeFileFrom:
  assumes "cfPreconditions cf" "sameData w w1" "contents w resolved = pre"
  shows "wpOp (writeFileFrom cf args path content resolved pre) (\<lambda>_ w'. assertedChange cf args (contents w) (contents w')) w1"
  unfolding writeFileFrom_def Let_def
proof (rule wp_tryI, simp only: wp_ret, intro conjI allI impI, goal_cases)
  case (3 u)
  then have chk: "strArg args ''if_checksum'' \<noteq> [] \<Longrightarrow> pre \<noteq> None \<and>
      equalFold (cfSha256Hex cf (case pre of None \<Rightarrow> [] | Some bytes \<Rightarrow> bytes)) (strArg args ''if_checksum'')"
    by (auto dest: verifyIfChecksum_Inr)
  have fin: "wpOp (tryOp (verifyPreflightState (engineConfig.truncate cf) resolved pre) (\<lambda>_.
         tryOp (snapshotAndWrite cf resolved path ''write_file'' pre content) (\<lambda>_.
           retOp (Inr (''wrote '' @ natToString (length content) @ '' bytes to '' @ path)))))
      (\<lambda>_ w'. assertedChange cf args (contents w) (contents w')) w1"
    if ok: "case contents w resolved of
        Some old \<Rightarrow> strArg args ''if_checksum'' \<noteq> [] \<and> equalFold (cfSha256Hex cf old) (strArg args ''if_checksum'')
      | None \<Rightarrow> boolArg args ''if_absent''"
  proof (rule wp_tryI, rule quiet_wp [OF quiet_verifyPreflightState], goal_cases)
    case (1 r w3)
    then have "sameData w w3" using assms(2) sameData_trans by blast
    then show ?case
      using wp_then_quiet [OF wp_asserted_write [OF _ ok] quiet_ret] assertedChange_same by auto
  qed
  show ?case
    using assertedChange_same [OF assms(2)] assms(1,3) chk fin by (cases pre) (auto simp: invalidArgs_def)
qed (use assertedChange_same [OF assms(2)] in simp_all)

lemma wp_writeFileLocked:
  assumes "cfPreconditions cf" "sameData w w0"
  shows "wpOp (writeFileLocked cf args path content resolved) (\<lambda>_ w'. assertedChange cf args (contents w) (contents w')) w0"
proof (cases "strArg args ''if_checksum'' \<noteq> [] \<and> boolArg args ''if_absent''")
  case True
  then show ?thesis by (simp add: writeFileLocked_def invalidArgs_def assertedChange_same [OF assms(2)])
next
  case False
  show ?thesis
    unfolding writeFileLocked_def if_not_P [OF False]
  proof (rule wp_tryI, rule quiet_wp [OF quiet_checkStale], goal_cases)
    case (1 r w1)
    then have w1: "sameData w w1" using assms(2) sameData_trans by blast
    show ?case
      by (intro conjI allI impI wp_read_then [OF w1])
        (simp_all add: wp_writeFileFrom assms(1) assertedChange_same w1)
  qed
qed

lemma wp_editFileFrom:
  assumes "cfPreconditions cf" "sameData w w1" "contents w resolved = Some bytes"
  shows "wpOp (editFileFrom cf args path old new fz n resolved bytes)
    (\<lambda>_ w'. assertedChange cf args (contents w) (contents w')) w1"
  unfolding editFileFrom_def
proof (rule wp_tryI, simp only: wp_ret, intro conjI allI impI, goal_cases)
  case (3 u)
  have puts: "wpOp (tryOp (snapshotAndWrite cf resolved path ''edit_file'' (Some bytes) updated) (\<lambda>_.
                      bindOp (editResultText resolved path old new info fuzzy n) (\<lambda>t.
                        retOp (Inr \<lparr>ftText = t, ftEdit = Some details\<rparr>))))
      (\<lambda>_ w'. assertedChange cf args (contents w) (contents w')) w2"
    if "strArg args ''if_checksum'' \<noteq> []" and w2: "sameData w1 w2" for updated info fuzzy details w2
  proof (rule wp_then_quiet, rule wp_asserted_write [OF sameData_trans [OF assms(2) w2]], goal_cases)
    case 1
    show ?case using assms(3) that(1) 3 by (auto dest: verifyIfChecksum_Inr)
  next
    case (2 a)
    show ?case unfolding editResultText_def editContext_def by (auto intro!: quiet_intros)
  qed
  have none: "assertedChange cf args (contents w) (contents w2)" if "sameData w1 w2" for w2
    using assertedChange_same sameData_trans [OF assms(2) that] by blast
  show ?case
    by (rule wp_tryI, rule quiet_wp [where w = w1], intro quiet_intros)
      (auto simp: invalidArgs_def Let_def none puts assms(1) split: prod.split)
qed (use assertedChange_same [OF assms(2)] in simp_all)

lemma wp_editFileLocked:
  assumes "cfPreconditions cf" "sameData w w0"
  shows "wpOp (editFileLocked cf args path old new fz n) (\<lambda>_ w'. assertedChange cf args (contents w) (contents w')) w0"
  unfolding editFileLocked_def
proof (rule wp_tryI, rule wp_mono [OF wp_loadEditTarget], goal_cases)
  case (1 r w1)
  then have w1: "sameData w w1" using assms(2) sameData_trans by blast
  show ?case
    using 1 contents_same [OF sameDataD(1) [OF assms(2)]]
    by (auto simp: assertedChange_same w1 intro!: wp_editFileFrom assms(1) w1)
qed

text \<open>C10: With mutation preconditions on, write_file and edit_file change a file only when the
  arguments assert its state: the digest of the content it had, or its absence.  It holds for whatever
  content the file has when the call reads it, and whatever fails.\<close>

theorem preconditions_enforced:
  assumes "cfPreconditions cf" and "w' \<in> {snd (writeFile cf args w), snd (editFile cf args w)}"
    and "contents w' q \<noteq> contents w q"
  shows "case contents w q of
      Some old \<Rightarrow> strArg args ''if_checksum'' \<noteq> [] \<and> equalFold (cfSha256Hex cf old) (strArg args ''if_checksum'')
    | None \<Rightarrow> boolArg args ''if_absent''"
proof -
  have locks: "wpOp (withTargetLocks ts m) (\<lambda>_ w'. assertedChange cf args (contents w) (contents w')) w"
    if "\<And>w0. sameData w w0 \<Longrightarrow> wpOp m (\<lambda>_ w'. assertedChange cf args (contents w) (contents w')) w0"
    for ts and m :: "(goError + 'c) hop"
    by (rule wp_withTargetLocks) (auto intro: that assertedChange_same)
  have "wpOp (writeFile cf args) (\<lambda>_ w'. assertedChange cf args (contents w) (contents w')) w"
    unfolding writeFile_def Let_def
    by (auto intro!: locks wp_writeFileLocked [OF assms(1)] assertedChange_same split: sum.split)
  moreover have "wpOp (editFile cf args) (\<lambda>_ w'. assertedChange cf args (contents w) (contents w')) w"
    unfolding editFile_def Let_def
    by (auto intro!: locks wp_editFileLocked [OF assms(1)] assertedChange_same split: sum.split)
  ultimately have "assertedChange cf args (contents w) (contents w')"
    using assms(2) by (auto simp: wpOp_def split: prod.splits)
  then show ?thesis using assms(3) unfolding assertedChange_def by blast
qed

theorem preconditions_enforced_witness:
  "case contents (sampleStore []) ''/w/a'' of
      Some old \<Rightarrow> strArg (sampleArgs False) ''if_checksum'' \<noteq> [] \<and>
        equalFold (cfSha256Hex sampleConfig old) (strArg (sampleArgs False) ''if_checksum'')
    | None \<Rightarrow> boolArg (sampleArgs False) ''if_absent''"
  by (rule preconditions_enforced [where w' = "snd (writeFile sampleConfig (sampleArgs False) (sampleStore []))"])
    (simp_all add: sampleConfig_def [THEN arg_cong [where f = cfPreconditions]] contents_def sample_writes sample_facts)

section \<open>Batches\<close>




definition sampleEdits :: "jsonValue list" where
  "sampleEdits = [JObject [(''path'', JString ''a''), (''old_text'', JString ''ol''), (''new_text'', JString ''be''),
       (''if_checksum'', JString (sampleDigest ''old''))],
     JObject [(''path'', JString ''a''), (''old_text'', JString ''d''), (''new_text'', JString ''nt''),
       (''if_checksum'', JString (sampleDigest ''old''))]]"


section \<open>Success\<close>



end
