(* ===== verification/WebAddr.thy ===== *)
theory WebAddr
  imports GoValues "HOL-Library.Word"
begin

text \<open>
  Network addresses of the web tools: the parts of Go's \<open>net\<close> and \<open>net/netip\<close> that
  \<open>webfetch/client_network.go\<close> uses (the parser of address literals, classification, prefixes,
  \<open>host:port\<close> texts) and the policy \<open>isPrivateIP\<close> itself.  A \<open>net.IP\<close> is a list of bytes; a
  \<open>netip.Addr\<close> is a word of 32 or 128 bits.  Zones do not occur: \<open>AddrFromSlice\<close> makes none and
  \<open>net.ParseIP\<close> refuses them.
\<close>

unbundle bit_operations_syntax

section \<open>Addresses\<close>

type_synonym netIP = "8 word list"

datatype netipAddr = V4 "32 word" | V6 "128 word"

definition addrFromSlice :: "netIP \<Rightarrow> netipAddr option" where
  "addrFromSlice ip =
     (if length ip = 4 then Some (V4 (word_rcat ip))
      else if length ip = 16 then Some (V6 (word_rcat ip)) else None)"

text \<open>\<open>Unmap\<close>: an IPv4-mapped IPv6 address becomes the IPv4 address.\<close>

definition is4In6 :: "128 word \<Rightarrow> bool" where
  "is4In6 a \<longleftrightarrow> drop_bit 32 a = 0xFFFF"

fun unmap :: "netipAddr \<Rightarrow> netipAddr" where
  "unmap (V4 a) = V4 a"
| "unmap (V6 a) = (if is4In6 a then V4 (ucast a) else V6 a)"

fun isLoopback :: "netipAddr \<Rightarrow> bool" where
  "isLoopback (V4 a) \<longleftrightarrow> drop_bit 24 a = 127"
| "isLoopback (V6 a) \<longleftrightarrow> (if is4In6 a then drop_bit 24 (ucast a :: 32 word) = 127 else a = 1)"

fun isMulticast :: "netipAddr \<Rightarrow> bool" where
  "isMulticast (V4 a) \<longleftrightarrow> drop_bit 28 a = 0xE"
| "isMulticast (V6 a) \<longleftrightarrow>
     (if is4In6 a then drop_bit 28 (ucast a :: 32 word) = 0xE else drop_bit 120 a = 0xFF)"

fun isLinkLocalUnicast :: "netipAddr \<Rightarrow> bool" where
  "isLinkLocalUnicast (V4 a) \<longleftrightarrow> drop_bit 16 a = 0xA9FE"
| "isLinkLocalUnicast (V6 a) \<longleftrightarrow>
     (if is4In6 a then drop_bit 16 (ucast a :: 32 word) = 0xA9FE else drop_bit 118 a = 0x3FA)"

definition isGlobalUnicast :: "netipAddr \<Rightarrow> bool" where
  "isGlobalUnicast a \<longleftrightarrow>
     a \<noteq> V4 0 \<and> a \<noteq> V4 0xFFFFFFFF \<and> a \<noteq> V6 0 \<and>
     \<not> isLoopback a \<and> \<not> isMulticast a \<and> \<not> isLinkLocalUnicast a"

section \<open>Prefixes\<close>

type_synonym netipPrefix = "netipAddr \<times> nat"

fun prefixContains :: "netipPrefix \<Rightarrow> netipAddr \<Rightarrow> bool" where
  "prefixContains (V4 p, b) (V4 a) \<longleftrightarrow> drop_bit (32 - b) (a XOR p) = 0"
| "prefixContains (V6 p, b) (V6 a) \<longleftrightarrow> (a XOR p) AND NOT (mask (128 - b)) = 0"
| "prefixContains _ _ \<longleftrightarrow> False"

definition nonPublicIPPrefixes :: "netipPrefix list" where
  "nonPublicIPPrefixes =
    [(V4 0x00000000, 8),  \<comment> \<open>0.0.0.0/8\<close>
     (V4 0x0A000000, 8),  \<comment> \<open>10.0.0.0/8\<close>
     (V4 0x64400000, 10), \<comment> \<open>100.64.0.0/10\<close>
     (V4 0x7F000000, 8),  \<comment> \<open>127.0.0.0/8\<close>
     (V4 0xA9FE0000, 16), \<comment> \<open>169.254.0.0/16\<close>
     (V4 0xAC100000, 12), \<comment> \<open>172.16.0.0/12\<close>
     (V4 0xC0000000, 24), \<comment> \<open>192.0.0.0/24\<close>
     (V4 0xC0000200, 24), \<comment> \<open>192.0.2.0/24\<close>
     (V4 0xC0586300, 24), \<comment> \<open>192.88.99.0/24\<close>
     (V4 0xC0A80000, 16), \<comment> \<open>192.168.0.0/16\<close>
     (V4 0xC6120000, 15), \<comment> \<open>198.18.0.0/15\<close>
     (V4 0xC6336400, 24), \<comment> \<open>198.51.100.0/24\<close>
     (V4 0xCB007100, 24), \<comment> \<open>203.0.113.0/24\<close>
     (V4 0xF0000000, 4),  \<comment> \<open>240.0.0.0/4\<close>
     (V6 0x01000000000000000000000000000000, 64), \<comment> \<open>100::/64\<close>
     (V6 0x20010000000000000000000000000000, 23), \<comment> \<open>2001::/23\<close>
     (V6 0x20010DB8000000000000000000000000, 32), \<comment> \<open>2001:db8::/32\<close>
     (V6 0x20020000000000000000000000000000, 16), \<comment> \<open>2002::/16\<close>
     (V6 0xFC000000000000000000000000000000, 7),  \<comment> \<open>fc00::/7\<close>
     (V6 0xFE800000000000000000000000000000, 10)  \<comment> \<open>fe80::/10\<close>]"

definition isPrivateIP :: "netIP \<Rightarrow> bool" where
  "isPrivateIP ip =
     (case addrFromSlice ip of
        None \<Rightarrow> True
      | Some addr \<Rightarrow>
          (let addr = unmap addr
           in if \<not> isGlobalUnicast addr then True
              else list_ex (\<lambda>prefix. prefixContains prefix addr) nonPublicIPPrefixes))"

section \<open>Address literals\<close>

text \<open>
  \<open>netip.ParseAddr\<close> without zones.  Four decimal fields without superfluous leading zeros, each
  at most 255; or groups of at most four hexadecimal digits separated by colons, at most one
  \<open>::\<close>, the last two groups possibly in the dotted form.
\<close>

definition digitVal :: "char \<Rightarrow> nat" where
  "digitVal c = of_char c - 48"

definition decVal :: "string \<Rightarrow> nat" where
  "decVal s = foldl (\<lambda>v c. 10 * v + digitVal c) 0 s"

definition octetField :: "string \<Rightarrow> nat option" where
  "octetField s =
     (if s \<noteq> [] \<and> list_all isDigit s \<and> \<not> (1 < length s \<and> hd s = CHR ''0'') \<and>
         length s \<le> 3 \<and> decVal s \<le> 255
      then Some (decVal s) else None)"

fun allSome :: "'a option list \<Rightarrow> 'a list option" where
  "allSome [] = Some []"
| "allSome (None # _) = None"
| "allSome (Some x # xs) = map_option ((#) x) (allSome xs)"

definition parseIPv4Fields :: "string \<Rightarrow> netIP option" where
  "parseIPv4Fields s =
     (let fields = splitByte s CHR ''.''
      in if length fields \<noteq> 4 then None
         else map_option (map of_nat) (allSome (map octetField fields)))"

definition hexVal :: "char \<Rightarrow> nat option" where
  "hexVal c = (let n = of_char c in
     if 48 \<le> n \<and> n \<le> 57 then Some (n - 48)
     else if 97 \<le> n \<and> n \<le> 102 then Some (n - 87)
     else if 65 \<le> n \<and> n \<le> 70 then Some (n - 55) else None)"

definition hexRun :: "string \<Rightarrow> nat" where
  "hexRun ds = foldl (\<lambda>v c. 16 * v + the (hexVal c)) 0 ds"

text \<open>
  The loop of \<open>parseIPv6\<close>; the number counts the groups of two bytes that are left, \<open>ip\<close> holds the
  bytes so far, \<open>ell\<close> the position of \<open>::\<close>.
\<close>

primrec ipv6Loop :: "nat \<Rightarrow> netIP \<Rightarrow> nat option \<Rightarrow> string \<Rightarrow> (netIP \<times> nat option \<times> string) option" where
  "ipv6Loop 0 ip ell s = Some (ip, ell, s)"
| "ipv6Loop (Suc n) ip ell s =
     (let ds = takeWhile (\<lambda>c. hexVal c \<noteq> None) s; rest = drop (length ds) s
      in if ds = [] \<or> 4 < length ds then None
         else if hasPrefix rest ''.'' then
           (if ell = None \<and> length ip \<noteq> 12 then None
            else if 16 < length ip + 4 then None
            else map_option (\<lambda>fs. (ip @ fs, ell, [])) (parseIPv4Fields s))
         else
           (let acc = hexRun ds; ip' = ip @ [of_nat (acc div 256), of_nat (acc mod 256)]
            in if rest = [] then Some (ip', ell, [])
               else if hd rest \<noteq> CHR '':'' \<or> tl rest = [] then None
               else let s' = tl rest
                 in if hd s' = CHR '':'' then
                      (if ell \<noteq> None then None
                       else if tl s' = [] then Some (ip', Some (length ip'), [])
                       else ipv6Loop n ip' (Some (length ip')) (tl s'))
                    else ipv6Loop n ip' ell s'))"

definition expandEllipsis :: "netIP \<Rightarrow> nat option \<Rightarrow> netIP option" where
  "expandEllipsis ip ell =
     (case ell of
        None \<Rightarrow> (if length ip < 16 then None else Some ip)
      | Some e \<Rightarrow> (if length ip < 16 then Some (take e ip @ replicate (16 - length ip) 0 @ drop e ip)
                  else None))"

definition parseIPv6 :: "string \<Rightarrow> netIP option" where
  "parseIPv6 s =
     (let ell = (if hasPrefix s ''::'' then Some 0 else None);
          s' = (if hasPrefix s ''::'' then drop 2 s else s)
      in if ell \<noteq> None \<and> s' = [] then Some (replicate 16 0)
         else (case ipv6Loop 8 [] ell s' of
                 None \<Rightarrow> None
               | Some (ip, ell', rest) \<Rightarrow> (if rest \<noteq> [] then None else expandEllipsis ip ell')))"

text \<open>
  \<open>net.ParseIP\<close>: the first of \<open>.\<close>, \<open>:\<close>, \<open>%\<close> selects the form; the result always has 16 bytes.  A
  percent sign starts a zone, and an address with a zone is refused.
\<close>

definition mapped4 :: "netIP \<Rightarrow> netIP" where
  "mapped4 ip = replicate 10 0 @ [0xFF, 0xFF] @ ip"

definition parseIP :: "string \<Rightarrow> netIP option" where
  "parseIP s =
     (case find (\<lambda>c. c = CHR ''.'' \<or> c = CHR '':'' \<or> c = CHR ''%'') s of
        None \<Rightarrow> None
      | Some c \<Rightarrow> (if c = CHR ''.'' then map_option mapped4 (parseIPv4Fields s)
                  else if c = CHR '':'' then (if CHR ''%'' \<in> set s then None else parseIPv6 s)
                  else None))"

section \<open>Texts of addresses\<close>

text \<open>
  \<open>net.IP.String\<close>: four bytes, or sixteen that are IPv4-mapped, are dotted; others are eight
  hexadecimal groups in which the first longest run of at least two zero groups is \<open>::\<close>.  The
  texts of slices of other lengths do not occur.
\<close>

definition dotted :: "netIP \<Rightarrow> string" where
  "dotted ip = joinStr ''.'' (map (\<lambda>b. natToString (unat b)) ip)"

fun groupsOf :: "netIP \<Rightarrow> nat list" where
  "groupsOf (a # b # ip) = (256 * unat a + unat b) # groupsOf ip"
| "groupsOf _ = []"

fun hexString :: "nat \<Rightarrow> string" where
  "hexString n = (if n < 16 then [hexDigit n] else hexString (n div 16) @ [hexDigit (n mod 16)])"

declare hexString.simps [simp del]

definition zerosAt :: "nat list \<Rightarrow> nat \<Rightarrow> nat" where
  "zerosAt gs i = length (takeWhile (\<lambda>g. g = 0) (drop i gs))"

definition zeroRun :: "nat list \<Rightarrow> (nat \<times> nat) option" where
  "zeroRun gs =
     foldl (\<lambda>best i. let l = zerosAt gs i
              in if 2 \<le> l \<and> (case best of None \<Rightarrow> True | Some (a, b) \<Rightarrow> b - a < l)
                 then Some (i, i + l) else best) None [0..<length gs]"

definition ip6String :: "nat list \<Rightarrow> string" where
  "ip6String gs =
     (case zeroRun gs of
        None \<Rightarrow> joinStr '':'' (map hexString gs)
      | Some (i, j) \<Rightarrow> joinStr '':'' (map hexString (take i gs)) @ ''::'' @
                       joinStr '':'' (map hexString (drop j gs)))"

definition to4 :: "netIP \<Rightarrow> netIP option" where
  "to4 ip = (if length ip = 4 then Some ip
             else if length ip = 16 \<and> take 12 ip = mapped4 [] then Some (drop 12 ip) else None)"

definition ipString :: "netIP \<Rightarrow> string" where
  "ipString ip = (case to4 ip of Some p4 \<Rightarrow> dotted p4 | None \<Rightarrow> ip6String (groupsOf ip))"

text \<open>\<open>net.JoinHostPort\<close> and \<open>net.SplitHostPort\<close>.\<close>

definition joinHostPort :: "string \<Rightarrow> string \<Rightarrow> string" where
  "joinHostPort host port =
     (if CHR '':'' \<in> set host then ''['' @ host @ '']:'' @ port else host @ '':'' @ port)"

definition cutLastByte :: "string \<Rightarrow> char \<Rightarrow> (string \<times> string) option" where
  "cutLastByte s c = map_option (\<lambda>(a, b). (rev b, rev a)) (cutByte (rev s) c)"

definition addrError :: "string \<Rightarrow> string \<Rightarrow> string" where
  "addrError addr why = (if addr = [] then why else ''address '' @ addr @ '': '' @ why)"

definition splitHostPort :: "string \<Rightarrow> string + string \<times> string" where
  "splitHostPort hostport =
     (case cutLastByte hostport CHR '':'' of
        None \<Rightarrow> Inl (addrError hostport ''missing port in address'')
      | Some (before, port) \<Rightarrow>
          if hasPrefix hostport ''['' then
            (case cutByte hostport CHR '']'' of
               None \<Rightarrow> Inl (addrError hostport ''missing ']' in address'')
             | Some (inner, behind) \<Rightarrow>
                 if behind \<noteq> CHR '':'' # port then
                   Inl (addrError hostport (if hasPrefix behind '':'' then ''too many colons in address''
                                            else ''missing port in address''))
                 else if CHR ''['' \<in> set (tl inner) \<or> CHR ''['' \<in> set behind then
                   Inl (addrError hostport ''unexpected '[' in address'')
                 else if CHR '']'' \<in> set behind then
                   Inl (addrError hostport ''unexpected ']' in address'')
                 else Inr (tl inner, port))
          else if CHR '':'' \<in> set before then Inl (addrError hostport ''too many colons in address'')
          else if CHR ''['' \<in> set hostport then Inl (addrError hostport ''unexpected '[' in address'')
          else if CHR '']'' \<in> set hostport then Inl (addrError hostport ''unexpected ']' in address'')
          else Inr (before, port))"

end
