(* ===== verification/WebGuard.thy ===== *)
theory WebGuard
  imports WebAddr
begin

text \<open>
  The network policy of the web client (\<open>client_network.go\<close>, \<open>errors.go\<close> and the checks of
  \<open>client.go\<close>): which URLs are accepted, which addresses are dialled, what a redirect may carry.
\<close>

section \<open>Errors\<close>

text \<open>
  An error with the \<open>CodedError\<close> that \<open>errors.As\<close> finds first in its chain (code and suggestion) and
  the sentinels that \<open>errors.Is\<close> finds.
\<close>

datatype sentinel = RedirectLimit | TooLarge | DeadlineExceeded | Canceled | NotHTML | UnsupportedReader

record webError =
  weText :: string
  weCoded :: "(string \<times> string) option"
  weIs :: "sentinel list"

definition newError :: "string \<Rightarrow> webError" where
  "newError s = \<lparr>weText = s, weCoded = None, weIs = []\<rparr>"

definition sentinelError :: "string \<Rightarrow> sentinel \<Rightarrow> webError" where
  "sentinelError s k = \<lparr>weText = s, weCoded = None, weIs = [k]\<rparr>"

definition newCodedError :: "webError \<Rightarrow> string \<Rightarrow> string \<Rightarrow> webError" where
  "newCodedError e code suggestion = e\<lparr>weCoded := Some (code, suggestion)\<rparr>"

text \<open>\<open>fmt.Errorf("...%w", err)\<close>.\<close>

definition wrapError :: "string \<Rightarrow> webError \<Rightarrow> webError" where
  "wrapError s e = e\<lparr>weText := s @ weText e\<rparr>"

definition codeOf :: "webError \<Rightarrow> string option" where
  "codeOf e = map_option fst (weCoded e)"

definition joinErrors :: "webError list \<Rightarrow> webError" where
  "joinErrors es =
     \<lparr>weText = joinStr [newline] (map weText es),
      weCoded = (case filter (\<lambda>c. c \<noteq> None) (map weCoded es) of [] \<Rightarrow> None | c # _ \<Rightarrow> c),
      weIs = concat (map weIs es)\<rparr>"

definition errTooLarge :: webError where
  "errTooLarge = sentinelError ''response body exceeds configured limit'' TooLarge"

definition errRedirectLimit :: webError where
  "errRedirectLimit = sentinelError ''redirect limit exceeded'' RedirectLimit"

definition codeContextError :: "webError \<Rightarrow> webError" where
  "codeContextError e =
     (if DeadlineExceeded \<in> set (weIs e)
        then newCodedError e ''request_timeout'' ''increase the timeout or retry the request''
      else if Canceled \<in> set (weIs e)
        then newCodedError e ''canceled'' ''retry the request if cancellation was unintended''
      else e)"

section \<open>URLs\<close>

text \<open>
  \<open>url.URL\<close> as far as it is used: scheme, \<open>Host\<close>, whether it has user information, and its text.
\<close>

record goURL =
  uScheme :: string
  uHost :: string
  uUser :: bool
  uText :: string

definition validOptionalPort :: "string \<Rightarrow> bool" where
  "validOptionalPort port \<longleftrightarrow> port = [] \<or> hd port = CHR '':'' \<and> list_all isDigit (tl port)"

definition urlSplit :: "string \<Rightarrow> string \<times> string" where
  "urlSplit hostPort =
     (let (host, port) =
        (case cutLastByte hostPort CHR '':'' of
           Some (h, p) \<Rightarrow> (if validOptionalPort (CHR '':'' # p) then (h, p) else (hostPort, []))
         | None \<Rightarrow> (hostPort, []))
      in (if hasPrefix host ''['' \<and> hasSuffix host '']'' then butlast (tl host) else host, port))"

definition uHostname :: "goURL \<Rightarrow> string" where
  "uHostname u = fst (urlSplit (uHost u))"

definition uPort :: "goURL \<Rightarrow> string" where
  "uPort u = snd (urlSplit (uHost u))"

definition privateSuggestion :: string where
  "privateSuggestion =
     ''use a public URL or explicitly enable private networks for trusted local testing''"

definition validateHost :: "string \<Rightarrow> webError option" where
  "validateHost host =
     (let normalized = toLower (if hasSuffix host ''.'' then butlast host else host)
      in if normalized = ''localhost'' \<or> hasSuffix normalized ''.localhost'' then
           Some (newCodedError (newError (''private host '' @ goQuote host @ '' is not allowed''))
                   ''private_network_blocked'' privateSuggestion)
         else (case parseIP host of
                 Some ip \<Rightarrow>
                   (if isPrivateIP ip then
                      Some (newCodedError
                              (newError (''private address '' @ goQuote host @ '' is not allowed''))
                              ''private_network_blocked'' privateSuggestion)
                    else None)
               | None \<Rightarrow> None))"

definition validateURL :: "goURL option \<Rightarrow> bool \<Rightarrow> webError option" where
  "validateURL mu allowPrivateNetworks =
     (case mu of
        None \<Rightarrow> Some (newCodedError (newError ''URL is required'') ''invalid_url''
                       ''provide an absolute http or https URL'')
      | Some u \<Rightarrow>
          if uScheme u \<noteq> ''http'' \<and> uScheme u \<noteq> ''https'' then
            Some (newCodedError
                    (newError (''unsupported URL scheme '' @ goQuote (uScheme u) @
                               '': only http and https are allowed''))
                    ''invalid_url'' ''use an http or https URL'')
          else if uHostname u = [] then
            Some (newCodedError (newError ''URL host is required'') ''invalid_url''
                    ''include a hostname in the URL'')
          else if uUser u then
            Some (newCodedError (newError ''URLs with embedded credentials are not allowed'')
                    ''invalid_url''
                    ''remove embedded username and password credentials from the URL'')
          else if allowPrivateNetworks then None
          else validateHost (uHostname u))"

text \<open>\<open>url.Parse\<close> is the argument \<open>parse\<close>.\<close>

definition validateTarget ::
  "(string \<Rightarrow> webError + goURL) \<Rightarrow> string \<Rightarrow> bool \<Rightarrow> webError + goURL" where
  "validateTarget parse rawURL allowPrivateNetworks =
     (let trimmed = trimSpace rawURL
      in if trimmed = [] then
           Inl (newCodedError (newError ''URL is required'') ''invalid_url''
                  ''provide an absolute http or https URL'')
         else (case parse trimmed of
                 Inl e \<Rightarrow> Inl (newCodedError (wrapError ''parse URL: '' e) ''invalid_url''
                                 ''provide a valid absolute http or https URL'')
               | Inr u \<Rightarrow> (case validateURL (Some u) allowPrivateNetworks of
                            Some e \<Rightarrow> Inl e
                          | None \<Rightarrow> Inr u)))"

section \<open>Dialling\<close>

text \<open>
  The resolver, the dialer and the context act on a world \<open>'w\<close>; a connection is a \<open>'c\<close>.
\<close>

record ('w, 'c) netEnv =
  lookupIPAddr :: "'w \<Rightarrow> string \<Rightarrow> (webError + netIP list) \<times> 'w"
  dialer :: "'w \<Rightarrow> string \<Rightarrow> (webError + 'c) \<times> 'w"
  ctxErr :: "'w \<Rightarrow> webError option"

fun dialEach ::
  "('w, 'c) netEnv \<Rightarrow> string \<Rightarrow> webError list \<Rightarrow> netIP list \<Rightarrow> 'w \<Rightarrow> (webError + 'c) \<times> 'w" where
  "dialEach env port errs [] w = (Inl (joinErrors errs), w)"
| "dialEach env port errs (ip # ips) w =
     (case dialer env w (joinHostPort (ipString ip) port) of
        (Inr conn, w') \<Rightarrow> (Inr conn, w')
      | (Inl e, w') \<Rightarrow>
          (if ctxErr env w' \<noteq> None then (Inl (joinErrors (errs @ [e])), w')
           else dialEach env port (errs @ [e]) ips w'))"

definition dialContext ::
  "('w, 'c) netEnv \<Rightarrow> bool \<Rightarrow> string \<Rightarrow> 'w \<Rightarrow> (webError + 'c) \<times> 'w" where
  "dialContext env allowPrivateNetworks address w =
     (case splitHostPort address of
        Inl why \<Rightarrow>
          (Inl (newError (''split dial address '' @ goQuote address @ '': '' @ why)), w)
      | Inr (host, port) \<Rightarrow>
          if allowPrivateNetworks \<or> parseIP host \<noteq> None then dialer env w address
          else
            (case lookupIPAddr env w host of
               (Inl e, w') \<Rightarrow> (Inl (wrapError (''resolve host '' @ goQuote host @ '': '') e), w')
             | (Inr ips, w') \<Rightarrow>
                 if ips = [] then
                   (Inl (newError (''resolve host '' @ goQuote host @ '': no addresses returned'')), w')
                 else if list_ex (\<lambda>ip. ip = [] \<or> isPrivateIP ip) ips then
                   (Inl (newCodedError
                           (newError (''host '' @ goQuote host @ '' resolves to a private address''))
                           ''private_network_blocked'' privateSuggestion), w')
                 else dialEach env port [] ips w'))"

section \<open>Redirects\<close>

text \<open>
  A header maps canonical names to values; \<open>x-api-key\<close> is canonically \<open>X-Api-Key\<close>.  The comparison
  \<open>strings.EqualFold\<close> of arbitrary texts is the argument \<open>eqf\<close>.
\<close>

type_synonym httpHeader = "(string \<times> string list) list"

definition hdrValues :: "httpHeader \<Rightarrow> string \<Rightarrow> string list" where
  "hdrValues h name = (case map_of h name of None \<Rightarrow> [] | Some vs \<Rightarrow> vs)"

definition hdrGet :: "httpHeader \<Rightarrow> string \<Rightarrow> string" where
  "hdrGet h name = (case hdrValues h name of [] \<Rightarrow> [] | v # _ \<Rightarrow> v)"

definition hdrDel :: "httpHeader \<Rightarrow> string \<Rightarrow> httpHeader" where
  "hdrDel h name = filter (\<lambda>(n, _). n \<noteq> name) h"

definition hdrAdd :: "httpHeader \<Rightarrow> string \<Rightarrow> string \<Rightarrow> httpHeader" where
  "hdrAdd h name v = (name, hdrValues h name @ [v]) # hdrDel h name"

definition hdrSet :: "httpHeader \<Rightarrow> string \<Rightarrow> string \<Rightarrow> httpHeader" where
  "hdrSet h name v = (name, [v]) # hdrDel h name"

definition copyHeader :: "httpHeader \<Rightarrow> httpHeader \<Rightarrow> string \<Rightarrow> httpHeader" where
  "copyHeader dst src name =
     foldl (\<lambda>h v. hdrAdd h name v) (hdrDel dst name) (hdrValues src name)"

definition credentialHeaders :: "string list" where
  "credentialHeaders = [''Authorization'', ''X-Subscription-Token'', ''X-Api-Key'']"

definition effectivePort :: "goURL \<Rightarrow> string" where
  "effectivePort u =
     (if uPort u \<noteq> [] then uPort u
      else if toLower (uScheme u) = ''http'' then ''80''
      else if toLower (uScheme u) = ''https'' then ''443'' else [])"

definition trimDot :: "string \<Rightarrow> string" where
  "trimDot s = (if hasSuffix s ''.'' then butlast s else s)"

definition sameOrigin :: "(string \<Rightarrow> string \<Rightarrow> bool) \<Rightarrow> goURL \<Rightarrow> goURL \<Rightarrow> bool" where
  "sameOrigin eqf left right \<longleftrightarrow>
     eqf (uScheme left) (uScheme right) \<and>
     eqf (trimDot (uHostname left)) (trimDot (uHostname right)) \<and>
     effectivePort left = effectivePort right"

record httpRequest =
  rMethod :: string
  rURL :: goURL
  rHeader :: httpHeader
  rBody :: "string option"

definition maxRedirectHops :: nat where
  "maxRedirectHops = 10"

text \<open>\<open>checkRedirect\<close> changes the header of the request it is given; the result is the request.\<close>

definition checkRedirect ::
  "(string \<Rightarrow> string \<Rightarrow> bool) \<Rightarrow> bool \<Rightarrow> httpRequest \<Rightarrow> httpRequest list \<Rightarrow> webError + httpRequest" where
  "checkRedirect eqf allowPrivateNetworks req via =
     (if maxRedirectHops \<le> length via then Inl errRedirectLimit
      else case validateURL (Some (rURL req)) allowPrivateNetworks of
        Some e \<Rightarrow> Inl e
      | None \<Rightarrow>
          (case via of
             [] \<Rightarrow> Inr req
           | first # _ \<Rightarrow>
               let sameRedirectOrigin = sameOrigin eqf (rURL first) (rURL req)
               in Inr (req\<lparr>rHeader := foldl (\<lambda>h name.
                     if sameRedirectOrigin then copyHeader h (rHeader first) name
                     else hdrDel h name) (rHeader req) credentialHeaders\<rparr>)))"

end
