(* ===== verification/WebClient.thy ===== *)
theory WebClient
  imports WebGuard
begin

text \<open>
  The bounded HTTP client (\<open>client.go\<close>, \<open>http_status.go\<close>): one operation \<open>Do\<close> with its retries,
  the redirects of \<open>net/http\<close> under the policy of \<open>checkRedirect\<close>, and the bounded body.
\<close>

section \<open>Bodies and status codes\<close>

text \<open>A body is its bytes and the error, if any, that reading ends with after them.\<close>

type_synonym bodyStream = "string \<times> webError option"

definition DefaultMaxBodyBytes :: int where
  "DefaultMaxBodyBytes = 8388608"

text \<open>\<open>io.ReadAll(io.LimitReader(r, n))\<close>; a limit that is not positive reads nothing.\<close>

definition readLimited :: "bodyStream \<Rightarrow> int \<Rightarrow> webError + string" where
  "readLimited r n =
     (if n \<le> int (length (fst r)) then Inr (take (nat n) (fst r))
      else (case snd r of Some e \<Rightarrow> Inl e | None \<Rightarrow> Inr (fst r)))"

definition readBounded :: "bodyStream \<Rightarrow> int \<Rightarrow> webError + string" where
  "readBounded r maxBytes =
     (let maxBytes = (if maxBytes \<le> 0 then DefaultMaxBodyBytes else maxBytes)
      in case readLimited r (wrap64 (maxBytes + 1)) of
           Inl e \<Rightarrow> Inl e
         | Inr d \<Rightarrow> (if maxBytes < int (length d) then Inl errTooLarge else Inr d))"

definition truncateBytes :: "string \<Rightarrow> nat \<Rightarrow> string" where
  "truncateBytes value maxBytes =
     (if length value \<le> maxBytes then value else take maxBytes value @ ''...'')"

definition shouldRetry :: "int \<Rightarrow> bool" where
  "shouldRetry statusCode \<longleftrightarrow> statusCode \<in> {429, 500, 502, 503, 504}"

definition httpErrorCode :: "int \<Rightarrow> string" where
  "httpErrorCode statusCode =
     (if statusCode = 401 \<or> statusCode = 403 then ''authentication_failed''
      else if statusCode = 429 then ''rate_limited'' else ''upstream_http'')"

definition httpErrorSuggestion :: "int \<Rightarrow> string" where
  "httpErrorSuggestion statusCode =
     (if statusCode = 401 \<or> statusCode = 403 then ''check the target URL and provider credentials''
      else if statusCode = 429 then ''wait and retry with fewer requests''
      else if shouldRetry statusCode then ''retry the request later or check the upstream service status''
      else ''check the target URL and upstream response'')"

definition maxErrorBody :: nat where
  "maxErrorBody = 512"

text \<open>The text of an \<open>HTTPError\<close>, and \<open>responseStatusError\<close>.\<close>

definition httpErrorText :: "string \<Rightarrow> string \<Rightarrow> string \<Rightarrow> string" where
  "httpErrorText url status body =
     (if trimSpace body = [] then url @ '': '' @ status else url @ '': '' @ status @ '': '' @ body)"

definition responseStatusError :: "string \<Rightarrow> int \<Rightarrow> string \<Rightarrow> string \<Rightarrow> webError option" where
  "responseStatusError rawURL statusCode status body =
     (if 200 \<le> statusCode \<and> statusCode < 300 then None
      else Some (newCodedError
                   (newError (httpErrorText rawURL status (truncateBytes body maxErrorBody)))
                   (httpErrorCode statusCode) (httpErrorSuggestion statusCode)))"

section \<open>Attempts and delays\<close>

definition requestAttempts :: "string \<Rightarrow> nat" where
  "requestAttempts httpMethod =
     (if toUpper httpMethod \<in> {''GET'', ''HEAD'', ''OPTIONS''} then 3 else 1)"

record httpReply =
  rpURL :: "goURL option"
  rpStatusCode :: int
  rpStatus :: string
  rpHeader :: httpHeader
  rpBody :: bodyStream
  rpClose :: "webError option"

text \<open>\<open>strconv.Atoi\<close>: an optional sign and decimal digits within the range of int64.\<close>

definition atoi :: "string \<Rightarrow> int option" where
  "atoi s =
     (let ds = (if s \<noteq> [] \<and> (hd s = CHR ''-'' \<or> hd s = CHR ''+'') then tl s else s);
          v = (if hasPrefix s ''-'' then - int (decVal ds) else int (decVal ds))
      in if ds = [] \<or> \<not> list_all isDigit ds \<or> v < - (2 ^ 63) \<or> 2 ^ 63 \<le> v then None else Some v)"

definition baseRetryWait :: int where
  "baseRetryWait = 150000000"

definition maxRetryWait :: int where
  "maxRetryWait = 2000000000"

text \<open>
  Durations are int64 nanoseconds.  \<open>until\<close> stands for \<open>http.ParseTime\<close> followed by \<open>time.Until\<close>.
\<close>

definition expDelay :: "nat \<Rightarrow> int" where
  "expDelay attempt = min (wrap64 (baseRetryWait * 2 ^ (attempt - 1))) maxRetryWait"

definition retryDelay :: "(string \<Rightarrow> int option) \<Rightarrow> nat \<Rightarrow> httpReply option \<Rightarrow> int" where
  "retryDelay until attempt mresp =
     (case mresp of
        None \<Rightarrow> expDelay attempt
      | Some resp \<Rightarrow>
          let v = trimSpace (hdrGet (rpHeader resp) ''Retry-After'')
          in if v = [] then expDelay attempt
             else (case atoi v of
                     Some seconds \<Rightarrow>
                       (if 0 \<le> seconds then min (wrap64 (seconds * 1000000000)) maxRetryWait
                        else (case until v of
                                Some d \<Rightarrow> min (max d 0) maxRetryWait
                              | None \<Rightarrow> expDelay attempt))
                   | None \<Rightarrow> (case until v of
                                Some d \<Rightarrow> min (max d 0) maxRetryWait
                              | None \<Rightarrow> expDelay attempt)))"

section \<open>The transport\<close>

text \<open>
  What \<open>net/http\<close> does for one request: it dials the canonical address of the URL, whose host name it
  first converts by IDNA (\<open>toASCII\<close>), and talks over the connection.  \<open>nextHop\<close> is the request that a
  redirecting answer leads to, given the requests so far.
\<close>

record ('w, 'c) webEnv = "('w, 'c) netEnv" +
  talk :: "'w \<Rightarrow> 'c \<Rightarrow> httpRequest \<Rightarrow> (webError + httpReply) \<times> 'w"
  nextHop :: "httpRequest list \<Rightarrow> httpReply \<Rightarrow> httpRequest option"
  toASCII :: "string \<Rightarrow> string"
  eqFold :: "string \<Rightarrow> string \<Rightarrow> bool"
  parseURL :: "string \<Rightarrow> webError + goURL"
  badRequest :: "string \<Rightarrow> goURL \<Rightarrow> webError option"
  untilTime :: "'w \<Rightarrow> string \<Rightarrow> int option"
  sleep :: "'w \<Rightarrow> int \<Rightarrow> webError option \<times> 'w"

definition canonicalAddr :: "(string \<Rightarrow> string) \<Rightarrow> goURL \<Rightarrow> string" where
  "canonicalAddr toASC u =
     joinHostPort (toASC (uHostname u))
       (if uPort u \<noteq> [] then uPort u
        else if uScheme u = ''http'' then ''80''
        else if uScheme u = ''https'' then ''443'' else [])"

definition roundTrip ::
  "('w, 'c, 'm) webEnv_scheme \<Rightarrow> bool \<Rightarrow> httpRequest \<Rightarrow> 'w \<Rightarrow> (webError + httpReply) \<times> 'w" where
  "roundTrip env allowPrivateNetworks req w =
     (case dialContext (netEnv.truncate env) allowPrivateNetworks
             (canonicalAddr (toASCII env) (rURL req)) w of
        (Inl e, w') \<Rightarrow> (Inl e, w')
      | (Inr conn, w') \<Rightarrow> talk env w' conn req)"

text \<open>The loop of \<open>http.Client.Do\<close>; its errors are wrapped in a \<open>url.Error\<close>.\<close>

function followRedirects ::
  "('w, 'c, 'm) webEnv_scheme \<Rightarrow> bool \<Rightarrow> httpRequest list \<Rightarrow> httpRequest \<Rightarrow> 'w \<Rightarrow>
     (webError + httpReply) \<times> 'w" where
  "followRedirects env allowPrivateNetworks via req w =
     (case roundTrip env allowPrivateNetworks req w of
        (Inl e, w') \<Rightarrow> (Inl e, w')
      | (Inr resp, w') \<Rightarrow>
          (case nextHop env (via @ [req]) resp of
             None \<Rightarrow> (Inr resp, w')
           | Some next \<Rightarrow>
               (case checkRedirect (eqFold env) allowPrivateNetworks next (via @ [req]) of
                  Inl e \<Rightarrow> (Inl e, w')
                | Inr next' \<Rightarrow> followRedirects env allowPrivateNetworks (via @ [req]) next' w')))"
  by pat_completeness auto

lemma checkRedirect_bound:
  "checkRedirect eqf allow req via = Inr req' \<Longrightarrow> length via < 10"
  by (auto simp: checkRedirect_def maxRedirectHops_def split: if_splits)

termination followRedirects
  by (relation "measure (\<lambda>(env, allow, via, req, w). 10 - length via)")
    (auto dest!: checkRedirect_bound)

declare followRedirects.simps [simp del]

definition urlErrorText :: "string \<Rightarrow> goURL \<Rightarrow> string" where
  "urlErrorText httpMethod u =
     (if httpMethod = [] then ''Get'' else take 1 httpMethod @ toLower (tl httpMethod)) @
     '' '' @ goQuote (uText u) @ '': ''"

definition clientDo ::
  "('w, 'c, 'm) webEnv_scheme \<Rightarrow> bool \<Rightarrow> httpRequest \<Rightarrow> 'w \<Rightarrow> (webError + httpReply) \<times> 'w" where
  "clientDo env allowPrivateNetworks req w =
     (case followRedirects env allowPrivateNetworks [] req w of
        (Inl e, w') \<Rightarrow> (Inl (wrapError (urlErrorText (rMethod req) (rURL req)) e), w')
      | (Inr resp, w') \<Rightarrow> (Inr resp, w'))"

section \<open>Do\<close>

record webClient =
  maxBodyBytes :: int
  allowPrivateNetworks :: bool
  userAgent :: string

record httpResponse =
  hrURL :: string
  hrStatusCode :: int
  hrHeader :: httpHeader
  hrBody :: string

definition newRequest :: "webClient \<Rightarrow> string \<Rightarrow> goURL \<Rightarrow> httpHeader \<Rightarrow> string option \<Rightarrow> httpRequest" where
  "newRequest c httpMethod target headers body =
     \<lparr>rMethod = httpMethod, rURL = target, rHeader = hdrSet headers ''User-Agent'' (userAgent c),
      rBody = body\<rparr>"

definition finishResponse :: "goURL \<Rightarrow> httpReply \<Rightarrow> string \<Rightarrow> webError + httpResponse" where
  "finishResponse target resp body =
     (let url = (case rpURL resp of Some u \<Rightarrow> uText u | None \<Rightarrow> uText target)
      in case responseStatusError url (rpStatusCode resp) (rpStatus resp) body of
           Some e \<Rightarrow> Inl e
         | None \<Rightarrow> Inr \<lparr>hrURL = url, hrStatusCode = rpStatusCode resp,
                        hrHeader = rpHeader resp, hrBody = body\<rparr>)"

definition requestText :: "string \<Rightarrow> goURL \<Rightarrow> string" where
  "requestText httpMethod target = httpMethod @ '' '' @ uText target @ '': ''"

text \<open>What an error of the transport that is not retried becomes.\<close>

definition sendError ::
  "('w, 'c, 'm) webEnv_scheme \<Rightarrow> string \<Rightarrow> goURL \<Rightarrow> bool \<Rightarrow> webError \<Rightarrow> 'w \<Rightarrow> webError option" where
  "sendError env httpMethod target isLast e w =
     (case ctxErr env w of
        Some ce \<Rightarrow> Some (codeContextError ce)
      | None \<Rightarrow>
          if RedirectLimit \<in> set (weIs e) then
            Some (newCodedError (wrapError (requestText httpMethod target) e) ''upstream_http''
                    ''check the redirect target or use a URL with fewer redirects'')
          else if weCoded e \<noteq> None then Some e
          else if isLast then
            Some (wrapError (requestText httpMethod target)
                    (newCodedError e ''upstream_http''
                       ''check the URL and network connectivity, then retry''))
          else None)"

text \<open>The body of a reply; closing it is part of reading it.\<close>

definition replyBody :: "webClient \<Rightarrow> goURL \<Rightarrow> httpReply \<Rightarrow> webError + string" where
  "replyBody c target resp =
     (case readBounded (rpBody resp) (maxBodyBytes c) of
        Inl e \<Rightarrow>
          Inl (wrapError (''read '' @ uText target @ '' response: '')
                 (if TooLarge \<in> set (weIs e)
                  then newCodedError e ''response_too_large''
                         ''reduce the response or configure a larger response limit''
                  else e))
      | Inr body \<Rightarrow>
          (case rpClose resp of
             Some e \<Rightarrow> Inl (wrapError (''close '' @ uText target @ '' response: '') e)
           | None \<Rightarrow> Inr body))"

text \<open>The retry loop; the first number counts the attempts that are left.\<close>

primrec doLoop ::
  "nat \<Rightarrow> ('w, 'c, 'm) webEnv_scheme \<Rightarrow> webClient \<Rightarrow> string \<Rightarrow> goURL \<Rightarrow> httpHeader \<Rightarrow> string option \<Rightarrow>
     nat \<Rightarrow> 'w \<Rightarrow> (webError + httpResponse) \<times> 'w" where
  "doLoop 0 env c httpMethod target headers body attempt w =
     (Inl (newCodedError
             (newError (requestText httpMethod target @ ''retry attempts exhausted''))
             ''upstream_http'' ''retry the request later''), w)"
| "doLoop (Suc n) env c httpMethod target headers body attempt w =
     (case badRequest env httpMethod target of
        Some e \<Rightarrow> (Inl (wrapError ''create request: ''
                         (newCodedError e ''invalid_url'' ''provide a valid http or https URL'')), w)
      | None \<Rightarrow>
          (case clientDo env (allowPrivateNetworks c) (newRequest c httpMethod target headers body) w of
             (Inl e, w1) \<Rightarrow>
               (case sendError env httpMethod target (n = 0) e w1 of
                  Some e' \<Rightarrow> (Inl e', w1)
                | None \<Rightarrow>
                    (case sleep env w1 (retryDelay (untilTime env w1) attempt None) of
                       (Some e', w2) \<Rightarrow> (Inl (codeContextError e'), w2)
                     | (None, w2) \<Rightarrow> doLoop n env c httpMethod target headers body (attempt + 1) w2))
           | (Inr resp, w1) \<Rightarrow>
               (case replyBody c target resp of
                  Inl e \<Rightarrow> (Inl e, w1)
                | Inr bytes \<Rightarrow>
                    if shouldRetry (rpStatusCode resp) \<and> n \<noteq> 0 then
                      (case sleep env w1 (retryDelay (untilTime env w1) attempt (Some resp)) of
                         (Some e', w2) \<Rightarrow> (Inl (codeContextError e'), w2)
                       | (None, w2) \<Rightarrow> doLoop n env c httpMethod target headers body (attempt + 1) w2)
                    else (finishResponse target resp bytes, w1))))"

definition Do ::
  "('w, 'c, 'm) webEnv_scheme \<Rightarrow> webClient \<Rightarrow> string \<Rightarrow> string \<Rightarrow> httpHeader \<Rightarrow> string option \<Rightarrow> 'w \<Rightarrow>
     (webError + httpResponse) \<times> 'w" where
  "Do env c httpMethod rawURL headers body w =
     (case validateTarget (parseURL env) rawURL (allowPrivateNetworks c) of
        Inl e \<Rightarrow> (Inl e, w)
      | Inr target \<Rightarrow>
          doLoop (requestAttempts httpMethod) env c httpMethod target headers body 1 w)"

end
