(* ===== verification/WebAddrFacts.thy ===== *)
theory WebAddrFacts
  imports WebAddr
begin

text \<open>
  Facts on addresses: the policy \<open>isPrivateIP\<close> as conditions on the bytes of an address, and the
  round trip of address texts, which connects what the code checks (bytes) with what it dials (a
  text).
\<close>

unbundle bit_operations_syntax

section \<open>Bytes and words\<close>

definition bytesVal :: "netIP \<Rightarrow> nat" where
  "bytesVal ip = foldl (\<lambda>v b. 256 * v + unat b) 0 ip"

lemma bytesVal_snoc [simp]: "bytesVal (ip @ [b]) = 256 * bytesVal ip + unat b"
  by (simp add: bytesVal_def)

lemma bytesVal_Nil [simp]: "bytesVal [] = 0"
  by (simp add: bytesVal_def)

lemma byte_less [simp]: "unat (b :: 8 word) < 256"
  using unsigned_less [of b] by simp

lemma bytesVal_append: "bytesVal (xs @ ys) = bytesVal xs * 256 ^ length ys + bytesVal ys"
  by (induction ys rule: rev_induct) (simp_all flip: append_assoc add: algebra_simps)

lemma bytesVal_less: "bytesVal ip < 256 ^ length ip"
proof (induction ip rule: rev_induct)
  case (snoc b ip)
  have "256 * bytesVal ip + unat b < 256 * (bytesVal ip + 1)"
    using byte_less [of b] by simp
  also have "\<dots> \<le> 256 * 256 ^ length ip"
    using snoc by (intro mult_le_mono) simp_all
  finally show ?case by simp
qed simp

lemma bytesVal_div: "bytesVal (xs @ ys) div 256 ^ length ys = bytesVal xs"
  using bytesVal_less [of ys] by (simp add: bytesVal_append)

lemma word_rcat_snoc: "horner_sum uint (2 ^ 8) (rev (ip :: netIP)) = int (bytesVal ip)"
  by (induction ip rule: rev_induct) simp_all

lemma unat_word_rcat:
  "8 * length ip \<le> LENGTH('a :: len) \<Longrightarrow> unat (word_rcat ip :: 'a word) = bytesVal ip"
proof -
  assume le: "8 * length ip \<le> LENGTH('a)"
  have "bytesVal ip < 256 ^ length ip" by (rule bytesVal_less)
  also have "(256 :: nat) ^ length ip = 2 ^ (8 * length ip)"
    by (simp add: power_mult)
  also have "(2 :: nat) ^ (8 * length ip) \<le> 2 ^ LENGTH('a)"
    using le by (intro power_increasing) simp_all
  finally have lt: "bytesVal ip < 2 ^ LENGTH('a)" .
  have w: "(word_rcat ip :: 'a word) = word_of_nat (bytesVal ip)"
    using word_rcat_snoc [of ip] by (simp add: word_rcat_def)
  show ?thesis
    unfolding w using lt by (simp add: unsigned_of_nat take_bit_nat_eq_self)
qed

lemma xor_eq_0: "((a :: 'a :: len word) XOR b = 0) = (a = b)"
proof
  assume z: "a XOR b = 0"
  have "b = (a XOR a) XOR b" by simp
  also have "\<dots> = a XOR (a XOR b)" by (simp only: xor.assoc)
  also have "\<dots> = a" using z by simp
  finally show "a = b" by simp
qed simp

lemma high_bits: "(a :: 'a :: len word) AND NOT (mask n) = 0 \<longleftrightarrow> drop_bit n a = 0"
proof
  assume z: "a AND NOT (mask n) = 0"
  have "\<not> bit a (n + k)" if "n + k < LENGTH('a)" for k
    using arg_cong [OF z, of "\<lambda>w. bit w (n + k)"] that by (simp add: bit_simps)
  then show "drop_bit n a = 0"
    by (auto simp: bit_eq_iff bit_simps dest: bit_imp_le_length)
next
  assume z: "drop_bit n a = 0"
  have "\<not> bit a k" if "n \<le> k" for k
    using arg_cong [OF z, of "\<lambda>w. bit w (k - n)"] that by (simp add: bit_simps)
  then show "a AND NOT (mask n) = 0"
    by (auto simp: bit_eq_iff bit_simps not_less)
qed

lemma drop_bit_eq_nat: "drop_bit n (a :: 'a :: len word) = b \<longleftrightarrow> unat a div 2 ^ n = unat b"
  by (metis drop_bit_eq_div unat_drop_bit_eq word_eq_iff_unsigned)
lemma drop_bit_eq_nat': "drop_bit n (a :: 'a :: len word) = drop_bit n b \<longleftrightarrow> unat a div 2 ^ n = unat b div 2 ^ n"
  by (metis drop_bit_eq_nat unat_drop_bit_eq drop_bit_eq_div)

lemma contains_V4: "prefixContains (V4 p, b) (V4 a) \<longleftrightarrow> unat a div 2 ^ (32 - b) = unat p div 2 ^ (32 - b)"
  by (simp add: drop_bit_xor xor_eq_0 drop_bit_eq_nat')
lemma contains_V6: "prefixContains (V6 p, b) (V6 a) \<longleftrightarrow> unat a div 2 ^ (128 - b) = unat p div 2 ^ (128 - b)"
  by (simp add: high_bits drop_bit_xor xor_eq_0 drop_bit_eq_nat')

definition specialUse4 :: "nat \<Rightarrow> nat \<Rightarrow> nat \<Rightarrow> bool" where
  "specialUse4 a b c \<longleftrightarrow>
     a = 0 \<or> a = 10 \<or> (a = 100 \<and> 64 \<le> b \<and> b \<le> 127) \<or> a = 127 \<or> (a = 169 \<and> b = 254) \<or>
     (a = 172 \<and> 16 \<le> b \<and> b \<le> 31) \<or> (a = 192 \<and> b = 0 \<and> (c = 0 \<or> c = 2)) \<or>
     (a = 192 \<and> b = 88 \<and> c = 99) \<or> (a = 192 \<and> b = 168) \<or> (a = 198 \<and> (b = 18 \<or> b = 19)) \<or>
     (a = 198 \<and> b = 51 \<and> c = 100) \<or> (a = 203 \<and> b = 0 \<and> c = 113) \<or> 224 \<le> a"

definition privateAddr :: "netipAddr \<Rightarrow> bool" where
  "privateAddr addr \<longleftrightarrow> \<not> isGlobalUnicast addr \<or> list_ex (\<lambda>p. prefixContains p addr) nonPublicIPPrefixes"

lemma nat_div_eq: "0 < m \<Longrightarrow> x div m = k \<longleftrightarrow> k * m \<le> x \<and> x < Suc k * m" for x m k :: nat
  by (metis div_less_iff_less_mult leD le_less_Suc_eq less_Suc_eq_le less_eq_div_iff_mult_less_eq order_refl)

lemma private4:
  assumes n: "unat w = ((a * 256 + b) * 256 + c) * 256 + d" and lt: "a < 256" "b < 256" "c < 256" "d < 256"
  shows "privateAddr (V4 w) \<longleftrightarrow> specialUse4 a b c"
proof -
  let ?n = "unat w"
  have q8: "?n div 2 ^ 8 = (a * 256 + b) * 256 + c" unfolding n using lt by simp
  have q16: "?n div 2 ^ 16 = a * 256 + b"
    using div_mult2_eq [of ?n "2 ^ 8" "2 ^ 8"] lt unfolding q8 by simp
  have q24: "?n div 2 ^ 24 = a"
    using div_mult2_eq [of ?n "2 ^ 16" "2 ^ 8"] lt unfolding q16 by simp
  have q22: "?n div 2 ^ 22 = a * 4 + b div 64"
    using div_mult2_eq [of ?n "2 ^ 16" "2 ^ 6"] lt unfolding q16 by simp
  have q20: "?n div 2 ^ 20 = a * 16 + b div 16"
    using div_mult2_eq [of ?n "2 ^ 16" "2 ^ 4"] lt unfolding q16 by simp
  have q17: "?n div 2 ^ 17 = a * 128 + b div 2"
    using div_mult2_eq [of ?n "2 ^ 16" "2 ^ 1"] lt unfolding q16 by simp
  have q28: "?n div 2 ^ 28 = a div 16"
    using div_mult2_eq [of ?n "2 ^ 24" "2 ^ 4"] lt unfolding q24 by simp
  note q = q8 [simplified] q16 [simplified] q24 [simplified] q22 [simplified] q20 [simplified] q17 [simplified] q28 [simplified]
  have w0: "w = 0 \<longleftrightarrow> ?n = 0" by (simp add: unat_eq_0)
  have wF: "w = 0xFFFFFFFF \<longleftrightarrow> ?n = 0xFFFFFFFF" by (auto simp: word_unat_eq_iff)
  have d: "x * m + y = k \<longleftrightarrow> x = k div m \<and> y = k mod m" if "y < m" for x y k m :: nat
    using that by auto
  have v: "b div 64 = 1 \<longleftrightarrow> 64 \<le> b \<and> b \<le> 127" "b div 16 = 1 \<longleftrightarrow> 16 \<le> b \<and> b \<le> 31"
    "b div 2 = 9 \<longleftrightarrow> b = 18 \<or> b = 19" by (auto simp: nat_div_eq)
  have t: "b div 64 < 4" "b div 16 < 16" "b div 2 < 128" using lt by simp_all
  have e1: "a * 4 + b div 64 = 401 \<longleftrightarrow> a = 100 \<and> 64 \<le> b \<and> b \<le> 127"
    "a * 16 + b div 16 = 2753 \<longleftrightarrow> a = 172 \<and> 16 \<le> b \<and> b \<le> 31"
    "a * 128 + b div 2 = 25353 \<longleftrightarrow> a = 198 \<and> (b = 18 \<or> b = 19)"
    by (simp_all only: d [OF t(1)] d [OF t(2)] d [OF t(3)] flip: v) simp_all
  have e2: "a * 256 + b = k \<longleftrightarrow> a = k div 256 \<and> b = k mod 256" for k
    using d [OF lt(2)] .
  have e3: "65536 * a + b * 256 + c = k \<longleftrightarrow> a = k div 256 div 256 \<and> b = k div 256 mod 256 \<and> c = k mod 256" for k
  proof -
    have "65536 * a + b * 256 + c = (a * 256 + b) * 256 + c" by simp
    then show ?thesis by (simp only: d [OF lt(3)] e2 conj_assoc)
  qed
  have h: "224 \<le> a \<longleftrightarrow> a div 16 = 14 \<or> a div 16 = 15" using lt by (auto simp: nat_div_eq)
  have z: "?n = 0 \<Longrightarrow> a = 0" "?n = 4294967295 \<Longrightarrow> a div 16 = 15"
    unfolding q(3,7) [symmetric] by simp_all
  show ?thesis
    unfolding privateAddr_def isGlobalUnicast_def nonPublicIPPrefixes_def specialUse4_def h
    apply (simp add: contains_V4 drop_bit_eq_nat w0 wF q e1 e2 e3 del: prefixContains.simps(1,2))
    by (rule iffI; elim disjE conjE; simp add: z)
qed

lemma bytesVal_inj: "length xs = length ys \<Longrightarrow> bytesVal xs = bytesVal ys \<longleftrightarrow> xs = ys"
proof (induction xs arbitrary: ys rule: rev_induct)
  case (snoc x xs)
  obtain zs z where ys: "ys = zs @ [z]" using snoc.prems by (cases ys rule: rev_cases) auto
  have "bytesVal (xs @ [x]) = bytesVal (zs @ [z]) \<Longrightarrow> bytesVal xs = bytesVal zs \<and> unat x = unat z"
  proof -
    assume eq: "bytesVal (xs @ [x]) = bytesVal (zs @ [z])"
    have "bytesVal (xs @ [x]) div 256 = bytesVal xs" "bytesVal (zs @ [z]) div 256 = bytesVal zs"
      by simp_all
    moreover have "bytesVal xs = bytesVal zs" using eq calculation by metis
    ultimately show ?thesis using eq by simp
  qed
  then show ?case using snoc ys by (auto simp: word_unat_eq_iff)
qed simp

definition specialUse6 :: "netIP \<Rightarrow> bool" where
  "specialUse6 ip \<longleftrightarrow>
     list_all (\<lambda>b. b = 0) (take 15 ip) \<and> unat (ip ! 15) \<le> 1 \<or> ip ! 0 = 0xFF \<or>
     ip ! 0 = 0xFE \<and> 128 \<le> unat (ip ! 1) \<and> unat (ip ! 1) < 192 \<or>
     take 8 ip = [1, 0, 0, 0, 0, 0, 0, 0] \<or> take 2 ip = [0x20, 1] \<and> unat (ip ! 2) \<le> 1 \<or>
     take 4 ip = [0x20, 1, 0x0D, 0xB8] \<or> take 2 ip = [0x20, 2] \<or> ip ! 0 = 0xFC \<or> ip ! 0 = 0xFD"

lemma bytesVal_take: "length ip = n + k \<Longrightarrow> bytesVal ip div 256 ^ k = bytesVal (take n ip)"
  using bytesVal_div [of "take n ip" "drop n ip"] by simp

lemma two_bytes:
  fixes x y z k :: nat
  assumes y: "y < 256"
  shows "256 * x + y = k \<longleftrightarrow> x = k div 256 \<and> y = k mod 256"
    and "(256 * x + y) div 64 = 1018 \<longleftrightarrow> x = 254 \<and> 128 \<le> y \<and> y < 192"
    and "z < 256 \<Longrightarrow> 65536 * x + 256 * y + z = k \<longleftrightarrow>
           x = k div 256 div 256 \<and> y = k div 256 mod 256 \<and> z = k mod 256"
proof -
  have d: "256 * u + v = n \<longleftrightarrow> u = n div 256 \<and> v = n mod 256" if "v < 256" for u v n :: nat
    using that by auto
  show "256 * x + y = k \<longleftrightarrow> x = k div 256 \<and> y = k mod 256" by (rule d [OF y])
  have "65152 \<le> 256 * x + y \<Longrightarrow> 256 * x + y < 65216 \<Longrightarrow> x = 254" using y by linarith
  then have "65152 \<le> 256 * x + y \<and> 256 * x + y < 65216 \<longleftrightarrow> x = 254 \<and> 128 \<le> y \<and> y < 192"
    by (cases "x = 254") auto
  then show "(256 * x + y) div 64 = 1018 \<longleftrightarrow> x = 254 \<and> 128 \<le> y \<and> y < 192"
    by (simp add: nat_div_eq)
  show "65536 * x + 256 * y + z = k \<longleftrightarrow>
      x = k div 256 div 256 \<and> y = k div 256 mod 256 \<and> z = k mod 256" if "z < 256"
  proof -
    have "65536 * x + 256 * y + z = 256 * (256 * x + y) + z" by simp
    then show ?thesis by (simp only: d [OF that] d [OF y] conj_assoc)
  qed
qed

lemma private6:
  assumes n: "unat w = bytesVal ip" and len: "length ip = 16" and m: "\<not> is4In6 w"
  shows "privateAddr (V6 w) \<longleftrightarrow> specialUse6 ip"
proof -
  let ?n = "unat w"
  have b1: "bytesVal (take 1 ip) = unat (ip ! 0)" using len by (cases ip) (simp_all add: bytesVal_def)
  have p: "?n div 2 ^ m = bytesVal (take j ip)" if "m = 8 * (16 - j)" "j \<le> 16" for m j
    using bytesVal_take [of ip j "16 - j"] len that by (simp add: n power_mult)
  have q0: "?n div 2 ^ 120 = unat (ip ! 0)" using p [of 120 1] b1 by (simp only:) simp
  have q1: "?n div 2 ^ 112 = bytesVal (take 2 ip)" by (rule p) simp_all
  have q2: "?n div 2 ^ 104 = bytesVal (take 3 ip)" by (rule p) simp_all
  have q3: "?n div 2 ^ 96 = bytesVal (take 4 ip)" by (rule p) simp_all
  have q4: "?n div 2 ^ 64 = bytesVal (take 8 ip)" by (rule p) simp_all
  have q5: "?n div 2 ^ 8 = bytesVal (take 15 ip)" by (rule p) simp_all
  note q = q0 q1 q2 q3 q4 q5
  have w0: "w = 0 \<longleftrightarrow> ?n = 0" "w = 1 \<longleftrightarrow> ?n = 1" 
    using word_unat_eq_iff [of w 0] word_unat_eq_iff [of w 1] by simp_all
  have q118: "?n div 2 ^ 118 = bytesVal (take 2 ip) div 64" "?n div 2 ^ 105 = bytesVal (take 3 ip) div 2"
    "?n div 2 ^ 121 = unat (ip ! 0) div 2"
    using div_mult2_eq [of ?n "2 ^ 112" "2 ^ 6"] div_mult2_eq [of ?n "2 ^ 104" "2 ^ 1"]
      div_mult2_eq [of ?n "2 ^ 120" "2 ^ 1"] unfolding q by simp_all
  note q' = q [simplified] q118 [simplified]
  have t2: "take 2 ip = [ip ! 0, ip ! 1]" and t3: "take 3 ip = [ip ! 0, ip ! 1, ip ! 2]"
    using len by (simp_all add: numeral_eq_Suc take_Suc_conv_app_nth)
  have v2: "bytesVal (take 2 ip) = 256 * unat (ip ! 0) + unat (ip ! 1)"
    and v3: "bytesVal (take 3 ip) = 256 * (256 * unat (ip ! 0) + unat (ip ! 1)) + unat (ip ! 2)"
    by (simp_all add: t2 t3 bytesVal_def)
  have i: "bytesVal (take k ip) = bytesVal ys \<longleftrightarrow> take k ip = ys" if "k = length ys" "k \<le> 16" for k ys
    using that len by (intro bytesVal_inj) simp
  have lim: "unat (ip ! k) < 256" for k by (rule byte_less)
  have e8: "bytesVal (take 8 ip) = 72057594037927936 \<longleftrightarrow> take 8 ip = [1, 0, 0, 0, 0, 0, 0, 0]"
    using i [of 8 "[1, 0, 0, 0, 0, 0, 0, 0]"] by (simp add: bytesVal_def)
  have e4: "bytesVal (take 4 ip) = 536939960 \<longleftrightarrow> take 4 ip = [0x20, 1, 0x0D, 0xB8]"
    using i [of 4 "[0x20, 1, 0x0D, 0xB8]"] by (simp add: bytesVal_def)
  have e2: "bytesVal (take 2 ip) = 8194 \<longleftrightarrow> take 2 ip = [0x20, 2]"
    using i [of 2 "[0x20, 2]"] by (simp add: bytesVal_def)
  have el: "bytesVal (take 2 ip) div 64 = 1018 \<longleftrightarrow>
      ip ! 0 = 0xFE \<and> 128 \<le> unat (ip ! 1) \<and> unat (ip ! 1) < 192"
    unfolding v2 by (simp add: two_bytes word_unat_eq_iff)
  have et: "bytesVal (take 3 ip) div 2 = 1048704 \<longleftrightarrow> take 2 ip = [0x20, 1] \<and> unat (ip ! 2) \<le> 1"
  proof -
    have "bytesVal (take 3 ip) div 2 = 1048704 \<longleftrightarrow> bytesVal (take 3 ip) = 2097408 \<or> bytesVal (take 3 ip) = 2097409"
      by (auto simp: nat_div_eq)
    then show ?thesis unfolding v3 t2 by (auto simp: two_bytes word_unat_eq_iff)
  qed
  have ef: "unat (ip ! 0) div 2 = 126 \<longleftrightarrow> ip ! 0 = 0xFC \<or> ip ! 0 = 0xFD" "unat (ip ! 0) = 255 \<longleftrightarrow> ip ! 0 = 0xFF"
    by (auto simp: nat_div_eq word_unat_eq_iff)
  have ez: "?n = 0 \<or> ?n = Suc 0 \<longleftrightarrow> list_all (\<lambda>b. b = 0) (take 15 ip) \<and> unat (ip ! 15) \<le> Suc 0"
  proof -
    have "ip = take 15 ip @ [ip ! 15]" using take_Suc_conv_app_nth [of 15 ip] len by simp
    then have "?n = 256 * bytesVal (take 15 ip) + unat (ip ! 15)" unfolding n by (metis bytesVal_snoc)
    moreover have "bytesVal (take 15 ip) = 0 \<longleftrightarrow> take 15 ip = replicate 15 0"
      using i [of 15 "replicate 15 0"] by (simp add: bytesVal_def numeral_eq_Suc)
    moreover have "take 15 ip = replicate 15 0 \<longleftrightarrow> list_all (\<lambda>b. b = 0) (take 15 ip)"
      using len by (auto simp: list_all_iff intro!: replicate_eqI)
    ultimately show ?thesis by auto
  qed
  show ?thesis
    unfolding privateAddr_def isGlobalUnicast_def nonPublicIPPrefixes_def specialUse6_def
    apply (simp add: contains_V6 drop_bit_eq_nat w0 m q' e8 e4 e2 el et ef del: prefixContains.simps(1,2))
    using ez by blast
qed

lemma bytesVal_mapped: "bytesVal (replicate 10 0 @ [0xFF, 0xFF]) = 65535"
proof -
  have "bytesVal (replicate n 0) = 0" for n by (induction n) (simp_all add: bytesVal_def)
  then show ?thesis by (simp add: bytesVal_append [of "replicate 10 0"]) (simp add: bytesVal_def)
qed

lemma is4In6_iff:
  assumes len: "length ip = 16"
  shows "is4In6 (word_rcat ip) \<longleftrightarrow> take 12 ip = mapped4 []"
    and "unat (ucast (word_rcat ip :: 128 word) :: 32 word) = bytesVal (drop 12 ip)"
proof -
  have n: "unat (word_rcat ip :: 128 word) = bytesVal ip" using len by (simp add: unat_word_rcat)
  have "bytesVal ip div 2 ^ 32 = bytesVal (take 12 ip)"
    using bytesVal_take [of ip 12 4] len by simp
  then have "is4In6 (word_rcat ip) \<longleftrightarrow> bytesVal (take 12 ip) = bytesVal (mapped4 [])"
    unfolding is4In6_def drop_bit_eq_nat n by (simp add: mapped4_def bytesVal_mapped)
  also have "\<dots> \<longleftrightarrow> take 12 ip = mapped4 []"
    using len by (intro bytesVal_inj) (simp add: mapped4_def)
  finally show "is4In6 (word_rcat ip) \<longleftrightarrow> take 12 ip = mapped4 []" .
  have "bytesVal ip = bytesVal (take 12 ip) * 256 ^ 4 + bytesVal (drop 12 ip)"
    using bytesVal_append [of "take 12 ip" "drop 12 ip"] len by simp
  moreover have "bytesVal (drop 12 ip) < 256 ^ 4"
    using bytesVal_less [of "drop 12 ip"] len by simp
  ultimately show "unat (ucast (word_rcat ip :: 128 word) :: 32 word) = bytesVal (drop 12 ip)"
    by (simp add: unsigned_ucast_eq n take_bit_eq_mod)
qed

definition byteAt :: "netIP \<Rightarrow> nat \<Rightarrow> nat" where
  "byteAt ip k = unat (ip ! k)"

lemma private_four:
  assumes "unat w = bytesVal q" and "length q = 4"
  shows "privateAddr (V4 w) \<longleftrightarrow> specialUse4 (byteAt q 0) (byteAt q 1) (byteAt q 2)"
proof -
  obtain a b c d where q: "q = [a, b, c, d]"
    using assms(2) by (auto simp: numeral_eq_Suc length_Suc_conv)
  show ?thesis
    using private4 [of w "unat a" "unat b" "unat c" "unat d"] assms(1)
    by (simp add: q bytesVal_def byteAt_def algebra_simps)
qed

lemma isPrivateIP_iff:
  "isPrivateIP ip \<longleftrightarrow> length ip \<noteq> 4 \<and> length ip \<noteq> 16 \<or>
     (case to4 ip of
        Some q \<Rightarrow> specialUse4 (byteAt q 0) (byteAt q 1) (byteAt q 2)
      | None \<Rightarrow> specialUse6 ip)"
proof -
  have i: "isPrivateIP ip \<longleftrightarrow> (case addrFromSlice ip of None \<Rightarrow> True | Some a \<Rightarrow> privateAddr (unmap a))"
    by (auto simp: isPrivateIP_def privateAddr_def Let_def split: option.splits)
  consider "length ip = 4" | "length ip = 16" | "length ip \<noteq> 4" "length ip \<noteq> 16" by blast
  then show ?thesis
  proof cases
    case 1
    then show ?thesis
      using private_four [of "word_rcat ip" ip] unat_word_rcat [of ip, where 'a = 32]
      by (simp add: i addrFromSlice_def to4_def)
  next
    case 2
    show ?thesis
    proof (cases "take 12 ip = mapped4 []")
      case True
      then show ?thesis
        using private_four [OF is4In6_iff(2)] is4In6_iff(1) 2 by (simp add: i addrFromSlice_def to4_def)
    next
      case False
      then show ?thesis
        using private6 [of "word_rcat ip" ip] is4In6_iff(1) [of ip] unat_word_rcat [of ip, where 'a = 128] 2
        by (simp add: i addrFromSlice_def to4_def)
    qed
  next
    case 3
    then show ?thesis by (simp add: i addrFromSlice_def)
  qed
qed

lemma natToString_less_10: "n < 10 \<Longrightarrow> natToString n = [char_of (48 + n)]"
  by (simp add: natToString.simps)

lemma natToString_snoc:
  "10 \<le> n \<Longrightarrow> natToString n = natToString (n div 10) @ [char_of (48 + n mod 10)]"
  by (subst natToString.simps) simp

lemma digit_char: "n < 10 \<Longrightarrow> isDigit (char_of (48 + n)) \<and> digitVal (char_of (48 + n)) = n"
  by (simp add: isDigit_def digitVal_def)

lemma natToString_digits: "natToString n \<noteq> [] \<and> list_all isDigit (natToString n)"
proof (induction n rule: natToString.induct)
  case (1 n)
  then show ?case
    by (cases "n < 10") (simp_all add: natToString_less_10 natToString_snoc digit_char)
qed

lemma decVal_natToString: "decVal (natToString n) = n"
proof (induction n rule: natToString.induct)
  case (1 n)
  then show ?case
    by (cases "n < 10") (simp_all add: natToString_less_10 natToString_snoc decVal_def digit_char)
qed

lemma hd_natToString: "1 < length (natToString n) \<Longrightarrow> hd (natToString n) \<noteq> CHR ''0''"
proof (induction n rule: natToString.induct)
  case (1 n)
  show ?case
  proof (cases "n < 10")
    case False
    then have s: "natToString n = natToString (n div 10) @ [char_of (48 + n mod 10)]"
      by (simp add: natToString_snoc)
    show ?thesis
    proof (cases "n div 10 < 10")
      case True
      have "char_of (48 + n div 10) \<noteq> CHR ''0''"
      proof
        assume "char_of (48 + n div 10) = CHR ''0''"
        then have "n div 10 = digitVal CHR ''0''" using digit_char [OF True] by simp
        then show False using False by (simp add: digitVal_def)
      qed
      then show ?thesis unfolding s using True by (simp add: natToString_less_10)
    next
      case big: False
      then have "1 < length (natToString (n div 10))"
        using natToString_digits [of "n div 10 div 10"] by (simp add: natToString_snoc)
      then show ?thesis unfolding s using 1 False natToString_digits [of "n div 10"] by simp
    qed
  qed (use 1 in \<open>simp add: natToString_less_10\<close>)
qed

lemma length_natToString: "n < 1000 \<Longrightarrow> length (natToString n) \<le> 3"
  by (cases "n < 10"; cases "n < 100")
    (simp_all add: natToString_less_10 natToString_snoc)

lemma octet: "n < 256 \<Longrightarrow> octetField (natToString n) = Some n"
  using natToString_digits [of n] hd_natToString [of n] length_natToString [of n]
  by (auto simp: octetField_def decVal_natToString)

lemma allSome_map: "(\<forall>x \<in> set xs. f x = Some (g x)) \<Longrightarrow> allSome (map f xs) = Some (map g xs)"
  by (induction xs) simp_all

lemma parse_dotted:
  assumes "length q = 4" shows "parseIPv4Fields (dotted q) = Some q"
proof -
  let ?fs = "map (\<lambda>b. natToString (unat b)) q"
  have "CHR ''.'' \<notin> set (natToString n)" for n
    using natToString_digits [of n] by (auto simp: list_all_iff isDigit_def)
  then have "list_all (\<lambda>f. CHR ''.'' \<notin> set f) ?fs" by (simp add: list_all_iff)
  then have "splitByte (dotted q) CHR ''.'' = ?fs"
    unfolding dotted_def using assms by (intro splitByte_joinStr) auto
  moreover have "allSome (map octetField ?fs) = Some (map unat q)"
    by (simp add: comp_def allSome_map octet)
  ultimately show ?thesis using assms
    by (simp add: parseIPv4Fields_def comp_def)
qed

section \<open>Hexadecimal groups\<close>

definition groupBytes :: "nat \<Rightarrow> netIP" where
  "groupBytes g = [of_nat (g div 256), of_nat (g mod 256)]"

lemma groupsOf_bytes: "even (length ip) \<Longrightarrow> concat (map groupBytes (groupsOf ip)) = ip"
  by (induction ip rule: groupsOf.induct) (simp_all add: groupBytes_def)

lemma groupsOf_length: "length (groupsOf ip) = length ip div 2"
  by (induction ip rule: groupsOf.induct) simp_all

lemma groupsOf_less: "g \<in> set (groupsOf ip) \<Longrightarrow> g < 65536"
proof (induction ip rule: groupsOf.induct)
  case (1 a b ip)
  have "256 * unat a + unat b < 65536"
    using byte_less [of a] byte_less [of b] by linarith
  then show ?case using 1 by auto
qed simp_all

lemma length_groupBytes: "length (concat (map groupBytes gs)) = 2 * length gs"
  by (induction gs) (simp_all add: groupBytes_def)

lemma hexVal_hexDigit: "n < 16 \<Longrightarrow> hexVal (hexDigit n) = Some n"
  by (auto simp: hexVal_def hexDigit_def Let_def)

lemma hexString_small: "n < 16 \<Longrightarrow> hexString n = [hexDigit n]"
  by (simp add: hexString.simps)

lemma hexString_snoc: "16 \<le> n \<Longrightarrow> hexString n = hexString (n div 16) @ [hexDigit (n mod 16)]"
  by (subst hexString.simps) simp

lemma hexString_chars: "hexString n \<noteq> [] \<and> list_all (\<lambda>c. hexVal c \<noteq> None) (hexString n)"
proof (induction n rule: hexString.induct)
  case (1 n)
  then show ?case
    by (cases "n < 16") (simp_all add: hexString_small hexString_snoc hexVal_hexDigit)
qed

lemma hexRun_hexString: "hexRun (hexString n) = n"
proof (induction n rule: hexString.induct)
  case (1 n)
  then show ?case
    by (cases "n < 16") (simp_all add: hexString_small hexString_snoc hexRun_def hexVal_hexDigit)
qed

lemma length_hexString: "n < 65536 \<Longrightarrow> length (hexString n) \<le> 4"
  by (cases "n < 16"; cases "n < 256"; cases "n < 4096")
    (simp_all add: hexString_small hexString_snoc)

lemma hex_not: "hexVal c \<noteq> None \<Longrightarrow> c \<noteq> CHR '':'' \<and> c \<noteq> CHR ''.'' \<and> c \<noteq> CHR ''%'' \<and> c \<noteq> CHR ''['' \<and> c \<noteq> CHR '']''"
  by (auto simp: hexVal_def)

text \<open>One group of the loop.\<close>

lemma ipv6Loop_group:
  assumes g: "g < 65536" and s: "s = [] \<or> hd s = CHR '':''"
  shows "ipv6Loop (Suc n) ip ell (hexString g @ s) =
     (let ip' = ip @ groupBytes g
      in if s = [] then Some (ip', ell, [])
         else if tl s = [] then None
         else if hd (tl s) = CHR '':'' then
           (if ell \<noteq> None then None
            else if tl (tl s) = [] then Some (ip', Some (length ip'), [])
            else ipv6Loop n ip' (Some (length ip')) (tl (tl s)))
         else ipv6Loop n ip' ell (tl s))"
proof -
  have h: "hexString g \<noteq> []" "\<forall>c \<in> set (hexString g). hexVal c \<noteq> None"
    using hexString_chars [of g] by (auto simp: list_all_iff)
  have c: "hexVal CHR '':'' = None" by (simp add: hexVal_def)
  have "takeWhile (\<lambda>c. hexVal c \<noteq> None) (hexString g @ s) = hexString g"
    using h s c by (cases s) (auto simp: takeWhile_append2)
  moreover have "\<not> hasPrefix s ''.''" using s by (auto simp: hasPrefix_iff)
  ultimately show ?thesis
    using s h length_hexString [OF g]
    by (auto simp: Let_def groupBytes_def hexRun_hexString)
qed

declare ipv6Loop.simps(2) [simp del]

abbreviation hexText :: "nat list \<Rightarrow> string" where
  "hexText gs \<equiv> joinStr '':'' (map hexString gs)"

lemma hexText_start: "gs \<noteq> [] \<Longrightarrow> hexText gs \<noteq> [] \<and> hd (hexText gs) \<noteq> CHR '':''"
proof (cases gs)
  case (Cons g gs')
  then have "hexText gs = hexString g @ (if gs' = [] then [] else '':'' @ hexText gs')"
    by (cases gs') (simp_all add: joinStr_Cons)
  then show ?thesis
    using hexString_chars [of g] hex_not by (cases "hexString g") (auto simp: list_all_iff)
qed simp

lemma loop_plain:
  "gs \<noteq> [] \<Longrightarrow> length gs \<le> n \<Longrightarrow> (\<forall>g \<in> set gs. g < 65536) \<Longrightarrow>
   ipv6Loop n ip ell (hexText gs) = Some (ip @ concat (map groupBytes gs), ell, [])"
proof (induction gs arbitrary: n ip)
  case (Cons g gs)
  obtain m where n: "n = Suc m" using Cons.prems by (cases n) auto
  show ?case
  proof (cases "gs = []")
    case True
    then show ?thesis using Cons.prems ipv6Loop_group [of g "[]" m ip ell] by (simp add: n)
  next
    case False
    then have t: "hexText (g # gs) = hexString g @ '':'' @ hexText gs" by (simp add: joinStr_Cons)
    show ?thesis
      unfolding t n using Cons hexText_start [OF False] False
      by (subst ipv6Loop_group) (auto simp: n)
  qed
qed simp

lemma loop_gap:
  "gs \<noteq> [] \<Longrightarrow> length gs + length hs \<le> n \<Longrightarrow> (\<forall>g \<in> set gs \<union> set hs. g < 65536) \<Longrightarrow>
   ipv6Loop n ip None (hexText gs @ ''::'' @ hexText hs) =
     Some (ip @ concat (map groupBytes gs) @ concat (map groupBytes hs),
           Some (length ip + 2 * length gs), [])"
proof (induction gs arbitrary: n ip)
  case (Cons g gs)
  obtain m where n: "n = Suc m" using Cons.prems by (cases n) auto
  show ?case
  proof (cases "gs = []")
    case True
    have t: "hexText (g # gs) @ ''::'' @ hexText hs = hexString g @ ''::'' @ hexText hs"
      using True by simp
    have gl: "length (groupBytes g) = 2" by (simp add: groupBytes_def)
    show ?thesis
    proof (cases "hs = []")
      case h: True
      show ?thesis unfolding t n using Cons.prems True gl
        by (subst ipv6Loop_group) (auto simp: h Let_def)
    next
      case h: False
      have "ipv6Loop m (ip @ groupBytes g) (Some (length ip + 2)) (hexText hs) =
          Some ((ip @ groupBytes g) @ concat (map groupBytes hs), Some (length ip + 2), [])"
        using Cons.prems True by (intro loop_plain [OF h]) (auto simp: n)
      then show ?thesis
        unfolding t n using Cons.prems True hexText_start [OF h] gl
        by (subst ipv6Loop_group) (auto simp: Let_def)
    qed
  next
    case False
    then have t: "hexText (g # gs) @ ''::'' @ hexText hs = hexString g @ '':'' @ hexText gs @ ''::'' @ hexText hs"
      by (simp add: joinStr_Cons)
    have st: "hexText gs @ u \<noteq> [] \<and> hd (hexText gs @ u) \<noteq> CHR '':''" for u
      using hexText_start [OF False] by simp
    have ih: "ipv6Loop m (ip @ groupBytes g) None (hexText gs @ ''::'' @ hexText hs) =
      Some ((ip @ groupBytes g) @ concat (map groupBytes gs) @ concat (map groupBytes hs),
           Some (length (ip @ groupBytes g) + 2 * length gs), [])"
      using Cons.prems False by (intro Cons.IH) (auto simp: n)
    show ?thesis
      unfolding t n using Cons.prems ih st
      by (subst ipv6Loop_group) (auto simp: Let_def groupBytes_def)
  qed
qed simp

lemma zeroRun_parts:
  assumes "zeroRun gs = Some (i, j)"
  shows "gs = take i gs @ replicate (j - i) 0 @ drop j gs \<and> i + 2 \<le> j \<and> j \<le> length gs"
proof -
  define good where "good i j \<longleftrightarrow> i < length gs \<and> j = i + zerosAt gs i \<and> 2 \<le> zerosAt gs i" for i j
  have inv: "\<forall>b \<in> set_option best. good (fst b) (snd b) \<Longrightarrow> set is \<subseteq> {0..<length gs} \<Longrightarrow>
    \<forall>b \<in> set_option (foldl (\<lambda>best i. let l = zerosAt gs i
              in if 2 \<le> l \<and> (case best of None \<Rightarrow> True | Some (a, b) \<Rightarrow> b - a < l)
                 then Some (i, i + l) else best) best is). good (fst b) (snd b)" for best "is"
  proof (induction "is" arbitrary: best)
    case (Cons i "is")
    show ?case
      by (simp only: foldl_Cons, rule Cons.IH) (use Cons.prems in \<open>auto simp: Let_def good_def split: if_splits\<close>)
  qed simp
  have g: "good i j" using inv [of None "[0..<length gs]"] assms by (simp add: zeroRun_def)
  let ?z = "takeWhile (\<lambda>g. g = 0) (drop i gs)"
  have z: "?z = replicate (j - i) 0" and j: "j = i + length ?z"
    using g by (auto simp: good_def zerosAt_def intro!: replicate_eqI dest: set_takeWhileD)
  have "length ?z \<le> length gs - i" using length_takeWhile_le [of "\<lambda>g. g = 0" "drop i gs"] by simp
  moreover have "i < length gs" using g by (simp add: good_def)
  ultimately have jl: "j \<le> length gs" unfolding j by linarith
  have zt: "take (length ?z) (drop i gs) = ?z" by (rule takeWhile_eq_take [symmetric])
  have zd: "drop (length ?z) (drop i gs) = drop j gs"
    unfolding drop_drop by (subst j) (simp only: add.commute)
  have "drop i gs = ?z @ drop j gs"
    using append_take_drop_id [of "length ?z" "drop i gs"] unfolding zt zd by (rule sym)
  then have "drop i gs = replicate (j - i) 0 @ drop j gs" unfolding z .
  then have "gs = take i gs @ replicate (j - i) 0 @ drop j gs" 
    using append_take_drop_id [of i gs] by simp
  then show ?thesis using g jl by (simp add: good_def)
qed

section \<open>The round trip\<close>

definition to16 :: "netIP \<Rightarrow> netIP" where
  "to16 ip = (if length ip = 4 then mapped4 ip else ip)"

lemma hexText_chars: "c \<in> set (hexText gs) \<Longrightarrow> c = CHR '':'' \<or> hexVal c \<noteq> None"
  using joinStr_chars [of c "'':''" "map hexString gs"] hexString_chars by (fastforce simp: list_all_iff)

lemma hexText_hex: "gs \<noteq> [] \<Longrightarrow> \<exists>c \<in> set (hexText gs). hexVal c \<noteq> None"
  using hexText_start [of gs] hexText_chars [of "hd (hexText gs)" gs] by force

lemma groups_zero: "concat (replicate n (groupBytes 0)) = replicate (2 * n) 0"
  by (induction n) (simp_all add: groupBytes_def)

lemma parse_ip6:
  assumes len: "length gs = 8" and b: "\<forall>g \<in> set gs. g < 65536"
  shows "parseIPv6 (ip6String gs) = Some (concat (map groupBytes gs))"
proof (cases "zeroRun gs")
  case None
  have ne: "gs \<noteq> []" using len by auto
  have p: "\<not> hasPrefix (hexText gs) ''::''"
    using hexText_start [OF ne] by (auto simp: hasPrefix_iff)
  have "length (concat (map groupBytes gs)) = 16" using len by (simp only: length_groupBytes)
  then show ?thesis
    using p loop_plain [OF ne, of 8 "[]" None] b len
    by (simp add: ip6String_def None parseIPv6_def expandEllipsis_def Let_def)
next
  case (Some r)
  then obtain i j where r: "zeroRun gs = Some (i, j)" by (cases r) auto
  note z = zeroRun_parts [OF r]
  let ?a = "take i gs" and ?c = "drop j gs"
  let ?A = "concat (map groupBytes ?a)" and ?C = "concat (map groupBytes ?c)"
  have ls: "length ?a = i" "length ?c = 8 - j" using z len by simp_all
  have la: "length ?A = 2 * i" "length ?C = 2 * (8 - j)" unfolding length_groupBytes ls by simp_all
  have sub: "\<forall>g \<in> set ?a \<union> set ?c. g < 65536" using b by (auto dest: in_set_takeD in_set_dropD)
  have "gs = ?a @ replicate (j - i) 0 @ ?c" using z by blast
  then have "concat (map groupBytes gs) = concat (map groupBytes (?a @ replicate (j - i) 0 @ ?c))" by simp
  then have whole: "concat (map groupBytes gs) = ?A @ replicate (2 * (j - i)) 0 @ ?C"
    by (simp add: groups_zero)
  have e: "expandEllipsis (?A @ ?C) (Some (2 * i)) = Some (concat (map groupBytes gs))"
  proof -
    have "16 - (2 * i + 2 * (8 - j)) = 2 * (j - i)" "2 * i + 2 * (8 - j) < 16" using z len by linarith+
    then show ?thesis unfolding whole by (simp add: expandEllipsis_def la)
  qed
  have tx: "ip6String gs = hexText ?a @ ''::'' @ hexText ?c" by (simp add: ip6String_def r)
  show ?thesis
  proof (cases "?a = []")
    case True
    then have i0: "i = 0" using True len by auto
    show ?thesis
    proof (cases "?c = []")
      case c: True
      have "j = 8" using c z len by simp
      then have "concat (map groupBytes gs) = replicate 16 0" using whole True c i0 by simp
      then show ?thesis unfolding tx True c by (simp add: parseIPv6_def hasPrefix_def)
    next
      case c: False
      have "ipv6Loop 8 [] (Some 0) (hexText ?c) = Some ([] @ ?C, Some 0, [])"
        using sub ls z by (intro loop_plain [OF c]) auto
      then show ?thesis unfolding tx True using e True i0 c hexText_start [OF c]
        by (auto simp: parseIPv6_def hasPrefix_def)
    qed
  next
    case False
    have p: "\<not> hasPrefix (hexText ?a @ u) ''::''" for u
      using hexText_start [OF False] by (cases "hexText ?a") (auto simp: hasPrefix_def)
    have "ipv6Loop 8 [] None (hexText ?a @ ''::'' @ hexText ?c) =
        Some ([] @ ?A @ ?C, Some (length ([] :: netIP) + 2 * length ?a), [])"
      using sub ls z len by (intro loop_gap [OF False]) auto
    then show ?thesis unfolding tx using p e ls by (simp add: parseIPv6_def Let_def)
  qed
qed

lemma ip6String_chars: "c \<in> set (ip6String gs) \<Longrightarrow> c = CHR '':'' \<or> hexVal c \<noteq> None"
  using hexText_chars by (auto simp: ip6String_def split: option.splits prod.splits)

lemma ip6String_colon: "2 \<le> length gs \<Longrightarrow> CHR '':'' \<in> set (ip6String gs)"
proof (cases gs)
  case (Cons g hs)
  assume "2 \<le> length gs"
  then have "hs \<noteq> []" using Cons by auto
  then show ?thesis using Cons by (auto simp: ip6String_def joinStr_Cons split: option.splits prod.splits)
qed simp

lemma find_first: "x \<in> set xs \<Longrightarrow> P x \<Longrightarrow> (\<And>y. y \<in> set xs \<Longrightarrow> P y \<Longrightarrow> y = x) \<Longrightarrow> find P xs = Some x"
proof (induction xs)
  case (Cons a xs)
  show ?case
  proof (cases "P a")
    case True
    then have "a = x" by (rule Cons.prems(3) [rotated]) simp
    then show ?thesis using True by simp
  next
    case False
    then have "x \<in> set xs" using Cons.prems(1,2) by auto
    then have "find P xs = Some x"
      by (rule Cons.IH) (use Cons.prems in \<open>simp_all (no_asm_simp)\<close>)
    then show ?thesis using False by simp
  qed
qed simp

lemma dotted_chars: "c \<in> set (dotted q) \<Longrightarrow> c = CHR ''.'' \<or> isDigit c"
  unfolding dotted_def
  by (drule joinStr_chars) (use natToString_digits in \<open>auto simp: list_all_iff\<close>)

lemma dotted_dot: "length q = 4 \<Longrightarrow> CHR ''.'' \<in> set (dotted q)"
  by (auto simp: dotted_def numeral_eq_Suc length_Suc_conv joinStr_Cons)

lemma mapped4_id: "take 12 ip = mapped4 [] \<Longrightarrow> ip = mapped4 (drop 12 ip)"
proof -
  assume t: "take 12 ip = mapped4 []"
  have "ip = take 12 ip @ drop 12 ip" by simp
  also have "\<dots> = mapped4 (drop 12 ip)" unfolding t by (simp add: mapped4_def)
  finally show "ip = mapped4 (drop 12 ip)" .
qed

theorem ip_text:
  assumes "length ip = 4 \<or> length ip = 16"
  shows "parseIP (ipString ip) = Some (to16 ip)"
proof (cases "to4 ip")
  case (Some q)
  then have q: "length q = 4" "to16 ip = mapped4 q"
    by (auto simp: to4_def to16_def split: if_splits intro: mapped4_id)
  have "find (\<lambda>c. c = CHR ''.'' \<or> c = CHR '':'' \<or> c = CHR ''%'') (dotted q) = Some CHR ''.''"
    using dotted_dot [OF q(1)] dotted_chars by (intro find_first) (auto simp: isDigit_def dest!: dotted_chars)
  then show ?thesis using Some q parse_dotted by (simp add: ipString_def parseIP_def)
next
  case None
  then have len: "length ip = 16" "to16 ip = ip" using assms by (auto simp: to4_def to16_def split: if_splits)
  let ?gs = "groupsOf ip"
  have gl: "length ?gs = 8" by (simp add: groupsOf_length len)
  have ch: "c \<in> set (ip6String ?gs) \<Longrightarrow> c \<noteq> CHR ''.'' \<and> c \<noteq> CHR ''%''" for c
    using ip6String_chars [of c] hex_not [of c] by auto
  have "find (\<lambda>c. c = CHR ''.'' \<or> c = CHR '':'' \<or> c = CHR ''%'') (ip6String ?gs) = Some CHR '':''"
    using ip6String_colon [of ?gs] gl ch by (intro find_first) auto
  moreover have "parseIPv6 (ip6String ?gs) = Some ip"
    using parse_ip6 [OF gl] groupsOf_less groupsOf_bytes [of ip] len by auto
  ultimately show ?thesis using None len ch by (auto simp: ipString_def parseIP_def)
qed

end
