(* ===== verification/WebFacts.thy ===== *)
theory WebFacts
  imports WebClient WebAddrFacts
begin

text \<open>
  What the client does to the network.  A \<open>watched\<close> environment is an environment that also keeps the
  list of what was dialled, sent and waited for; the facts say which events an operation can add and
  how many requests are among them.
\<close>

section \<open>Host and port\<close>

lemma cutByte_app: "c \<notin> set a \<Longrightarrow> cutByte (a @ c # b) c = Some (a, b)"
  by (induction a) auto

lemma cutLastByte_app: "c \<notin> set b \<Longrightarrow> cutLastByte (a @ c # b) c = Some (a, b)"
  by (simp add: cutLastByte_def cutByte_app)

lemma cutLastByte_Some: "cutLastByte s c = Some (a, b) \<Longrightarrow> s = a @ c # b \<and> c \<notin> set b"
  by (auto simp: cutLastByte_def dest!: cutByte_Some) (metis append.assoc append_Cons append_Nil rev.simps(2) rev_append rev_rev_ident)

definition bracketFree :: "string \<Rightarrow> bool" where
  "bracketFree s \<longleftrightarrow> CHR ''['' \<notin> set s \<and> CHR '']'' \<notin> set s"

lemma bracketFree_append [simp]: "bracketFree (s @ t) \<longleftrightarrow> bracketFree s \<and> bracketFree t"
  by (auto simp: bracketFree_def)

lemma split_join:
  assumes h: "bracketFree h" and p: "bracketFree p" "CHR '':'' \<notin> set p"
  shows "splitHostPort (joinHostPort h p) = Inr (h, p)"
proof (cases "CHR '':'' \<in> set h")
  case True
  have j: "joinHostPort h p = (CHR ''['' # h @ '']'') @ CHR '':'' # p"
    using True by (simp add: joinHostPort_def)
  have c: "cutByte (joinHostPort h p) CHR '']'' = Some (CHR ''['' # h, CHR '':'' # p)"
    using cutByte_app [of "CHR '']''" "CHR ''['' # h" "CHR '':'' # p"] h
    by (simp add: j bracketFree_def)
  have l: "cutLastByte (joinHostPort h p) CHR '':'' = Some (CHR ''['' # h @ '']'', p)"
    unfolding j by (rule cutLastByte_app [OF p(2)])
  have "hasPrefix (joinHostPort h p) ''[''" by (simp add: j hasPrefix_def)
  then show ?thesis using c l h p by (simp add: splitHostPort_def bracketFree_def)
next
  case False
  have j: "joinHostPort h p = h @ CHR '':'' # p" using False by (simp add: joinHostPort_def)
  have "cutLastByte (joinHostPort h p) CHR '':'' = Some (h, p)"
    unfolding j by (rule cutLastByte_app [OF p(2)])
  moreover have "\<not> hasPrefix (joinHostPort h p) ''[''"
    unfolding j using h by (cases h) (auto simp: hasPrefix_def bracketFree_def)
  ultimately show ?thesis using False h p by (auto simp: splitHostPort_def j bracketFree_def)
qed

lemma split_port: "splitHostPort s = Inr (h, p) \<Longrightarrow> bracketFree p \<and> CHR '':'' \<notin> set p"
  by (auto simp: splitHostPort_def bracketFree_def split: option.splits if_splits dest!: cutLastByte_Some)

lemma bracketFree_dotted: "bracketFree (dotted q)"
  using dotted_chars by (fastforce simp: bracketFree_def isDigit_def)

lemma bracketFree_ip6String: "bracketFree (ip6String gs)"
  using ip6String_chars [of "CHR ''[''" gs] ip6String_chars [of "CHR '']''" gs] hex_not
  by (auto simp: bracketFree_def)

lemma bracketFree_ipString: "bracketFree (ipString ip)"
  by (simp add: ipString_def bracketFree_dotted bracketFree_ip6String split: option.splits)

lemma isPrivateIP_to16: "isPrivateIP (to16 ip) = isPrivateIP ip"
  by (auto simp: isPrivateIP_iff to16_def to4_def mapped4_def)

section \<open>Dialling\<close>

definition publicDial :: "string \<Rightarrow> bool" where
  "publicDial addr \<longleftrightarrow>
     (case splitHostPort addr of
        Inl _ \<Rightarrow> False
      | Inr (host, _) \<Rightarrow> (case parseIP host of None \<Rightarrow> False | Some ip \<Rightarrow> \<not> isPrivateIP ip))"

lemma publicDial_ip:
  assumes "\<not> isPrivateIP ip" and "bracketFree p" and "CHR '':'' \<notin> set p"
  shows "publicDial (joinHostPort (ipString ip) p)"
proof -
  have "length ip = 4 \<or> length ip = 16" using assms(1) by (auto simp: isPrivateIP_iff)
  then have "parseIP (ipString ip) = Some (to16 ip)" by (rule ip_text)
  then show ?thesis
    using split_join [OF bracketFree_ipString assms(2,3)] assms(1)
    by (simp add: publicDial_def isPrivateIP_to16)
qed

lemma validateHost_literal: "validateHost h = None \<Longrightarrow> parseIP h = Some ip \<Longrightarrow> \<not> isPrivateIP ip"
  by (simp add: validateHost_def Let_def split: if_splits)

datatype webEvent = Dialled string | Sent httpRequest | Slept int

definition watched :: "('w, 'c) webEnv \<Rightarrow> ('w \<times> webEvent list, 'c) webEnv" where
  "watched env =
     \<lparr>lookupIPAddr = \<lambda>(w, es) h. (let (r, w') = lookupIPAddr env w h in (r, w', es)),
      dialer = \<lambda>(w, es) a. (let (r, w') = dialer env w a in (r, w', es @ [Dialled a])),
      ctxErr = \<lambda>(w, es). ctxErr env w,
      talk = \<lambda>(w, es) c req. (let (r, w') = talk env w c req in (r, w', es @ [Sent req])),
      nextHop = nextHop env, toASCII = toASCII env, eqFold = eqFold env, parseURL = parseURL env,
      badRequest = badRequest env, untilTime = \<lambda>(w, es). untilTime env w,
      sleep = \<lambda>(w, es) d. (let (r, w') = sleep env w d in (r, w', es @ [Slept d]))\<rparr>"

fun isSent :: "webEvent \<Rightarrow> bool" where
  "isSent (Sent _) = True"
| "isSent _ = False"

text \<open>From one watched world to another: events that satisfy \<open>P\<close>, at most \<open>k\<close> requests among them.\<close>

definition emits ::
  "(webEvent \<Rightarrow> bool) \<Rightarrow> nat \<Rightarrow> 'w \<times> webEvent list \<Rightarrow> 'w \<times> webEvent list \<Rightarrow> bool" where
  "emits P k s t \<longleftrightarrow>
     (\<exists>es. snd t = snd s @ es \<and> list_all P es \<and> length (filter isSent es) \<le> k)"

lemma emits_refl: "emits P k s s"
  by (auto simp: emits_def)

lemma emits_trans: "emits P j s t \<Longrightarrow> emits P k t u \<Longrightarrow> emits P (j + k) s u"
  unfolding emits_def
proof (elim exE conjE)
  fix es fs
  assume "snd t = snd s @ es" "list_all P es" "length (filter isSent es) \<le> j"
    "snd u = snd t @ fs" "list_all P fs" "length (filter isSent fs) \<le> k"
  then show "\<exists>es. snd u = snd s @ es \<and> list_all P es \<and> length (filter isSent es) \<le> j + k"
    by (intro exI [of _ "es @ fs"]) simp
qed

lemma emits_mono: "emits P j s t \<Longrightarrow> j \<le> k \<Longrightarrow> emits P k s t"
  by (auto simp: emits_def intro: order_trans)

lemma emits_weaken: "emits P k s t \<Longrightarrow> (\<And>e. P e \<Longrightarrow> Q e) \<Longrightarrow> emits Q k s t"
  unfolding emits_def by (meson list.pred_mono_strong)

lemma watched_dialer: "P (Dialled a) \<Longrightarrow> emits P 0 s (snd (dialer (watched env) s a))"
  by (cases s) (auto simp: watched_def emits_def split: prod.splits)

lemma watched_lookup: "emits P 0 s (snd (lookupIPAddr (watched env) s h))"
  by (cases s) (auto simp: watched_def emits_def split: prod.splits)

lemma watched_talk: "P (Sent req) \<Longrightarrow> emits P 1 s (snd (talk (watched env) s c req))"
  by (cases s) (auto simp: watched_def emits_def split: prod.splits)

lemma watched_sleep: "P (Slept d) \<Longrightarrow> emits P 0 s (snd (sleep (watched env) s d))"
  by (cases s) (auto simp: watched_def emits_def split: prod.splits)

lemma truncate_fields [simp]:
  "dialer (netEnv.truncate env) = dialer env" "lookupIPAddr (netEnv.truncate env) = lookupIPAddr env"
  "ctxErr (netEnv.truncate env) = ctxErr env"
  by (simp_all add: netEnv.truncate_def)

lemma dialEach_emits:
  "(\<And>ip. ip \<in> set ips \<Longrightarrow> P (Dialled (joinHostPort (ipString ip) port))) \<Longrightarrow>
   emits P 0 s (snd (dialEach (netEnv.truncate (watched env)) port errs ips s))"
proof (induction ips arbitrary: errs s)
  case (Cons ip ips)
  obtain r s' where d: "dialer (watched env) s (joinHostPort (ipString ip) port) = (r, s')"
    by (rule prod.exhaust)
  have e: "emits P 0 s s'"
    using watched_dialer [of P "joinHostPort (ipString ip) port" s env] Cons.prems d by simp
  show ?case
  proof (cases r)
    case (Inl x)
    then show ?thesis
      using Cons.IH [of s' "errs @ [x]"] Cons.prems e d emits_trans [OF e, of 0] by simp
  qed (simp add: d e)
qed (simp add: emits_refl)

lemma dialContext_emits:
  assumes v: "\<not> allow \<Longrightarrow> splitHostPort a = Inr (h, p) \<Longrightarrow> validateHost h = None"
    and P: "\<And>b. allow \<or> publicDial b \<Longrightarrow> P (Dialled b)"
    and sp: "splitHostPort a = Inr (h, p) \<or> (\<exists>e. splitHostPort a = Inl e)"
  shows "emits P 0 s (snd (dialContext (netEnv.truncate (watched env)) allow a s))"
proof (cases "splitHostPort a")
  case (Inl e)
  then show ?thesis by (simp add: dialContext_def emits_refl)
next
  case (Inr hp)
  then have a: "splitHostPort a = Inr (h, p)" using sp by simp
  show ?thesis
  proof (cases "allow \<or> parseIP h \<noteq> None")
    case True
    have "P (Dialled a)"
    proof (rule P)
      show "allow \<or> publicDial a"
        using True v [OF _ a] a validateHost_literal by (cases allow) (auto simp: publicDial_def)
    qed
    then show ?thesis using True a watched_dialer by (simp add: dialContext_def)
  next
    case False
    obtain r s' where l: "lookupIPAddr (watched env) s h = (r, s')" by (rule prod.exhaust)
    have e: "emits P 0 s s'" using watched_lookup [of P s env h] l by simp
    show ?thesis
    proof (cases "\<exists>ips. r = Inr ips \<and> ips \<noteq> [] \<and> \<not> list_ex (\<lambda>ip. ip = [] \<or> isPrivateIP ip) ips")
      case True
      then obtain ips where ips: "r = Inr ips" "ips \<noteq> []" "\<not> list_ex (\<lambda>ip. ip = [] \<or> isPrivateIP ip) ips"
        by blast
      have "emits P 0 s' (snd (dialEach (netEnv.truncate (watched env)) p [] ips s'))"
        using ips split_port [OF a] publicDial_ip P by (intro dialEach_emits) (auto simp: list_ex_iff)
      then show ?thesis using False a l ips emits_trans [OF e, of 0] by (simp add: dialContext_def)
    next
      case no: False
      then show ?thesis using False a l e by (auto simp: dialContext_def split: sum.splits)
    qed
  qed
qed

section \<open>Requests\<close>

text \<open>
  The host names for which the conversion by IDNA is the identity and the text \<open>host:port\<close> can be
  taken apart again: ASCII without brackets.
\<close>

definition asciiText :: "string \<Rightarrow> bool" where
  "asciiText s \<longleftrightarrow> list_all (\<lambda>c. of_char c < (128 :: nat)) s"

definition plainHost :: "goURL \<Rightarrow> bool" where
  "plainHost u \<longleftrightarrow>
     asciiText (uHostname u) \<and> bracketFree (uHostname u)"

text \<open>IDNA leaves ASCII alone, and the URLs that are parsed or redirected to have plain hosts.\<close>

definition asciiWeb :: "('w, 'c) webEnv \<Rightarrow> bool" where
  "asciiWeb env \<longleftrightarrow>
     (\<forall>h. asciiText h \<longrightarrow> toASCII env h = h) \<and>
     (\<forall>via resp r. nextHop env via resp = Some r \<longrightarrow> plainHost (rURL r)) \<and>
     (\<forall>t u. parseURL env t = Inr u \<longrightarrow> plainHost u)"

fun allowedEvent :: "bool \<Rightarrow> webEvent \<Rightarrow> bool" where
  "allowedEvent allow (Dialled a) \<longleftrightarrow> allow \<or> publicDial a"
| "allowedEvent allow (Sent req) \<longleftrightarrow> validateURL (Some (rURL req)) allow = None"
| "allowedEvent allow (Slept d) \<longleftrightarrow> d \<le> maxRetryWait"

lemma port_digits: "c \<in> set (uPort u) \<Longrightarrow> isDigit c"
  by (auto simp: uPort_def urlSplit_def Let_def validOptionalPort_def list_all_iff
      split: option.splits if_splits prod.splits)

lemma canonical_split:
  assumes "plainHost u" and "\<forall>h. asciiText h \<longrightarrow> toASC h = h"
  shows "\<exists>p. splitHostPort (canonicalAddr toASC u) = Inr (uHostname u, p)"
proof -
  have "bracketFree (uPort u) \<and> CHR '':'' \<notin> set (uPort u)"
    using port_digits [of _ u] by (fastforce simp: bracketFree_def isDigit_def)
  moreover have "toASC (uHostname u) = uHostname u" "bracketFree (uHostname u)"
    using assms by (simp_all add: plainHost_def)
  ultimately show ?thesis
    unfolding canonicalAddr_def by (auto intro!: exI split_join simp: bracketFree_def)
qed

lemma validateURL_host: "validateURL (Some u) False = None \<Longrightarrow> validateHost (uHostname u) = None"
  by (simp add: validateURL_def split: if_splits)

lemma checkRedirect_Inr:
  "checkRedirect eqf allow req via = Inr req' \<Longrightarrow>
     rURL req' = rURL req \<and> validateURL (Some (rURL req)) allow = None"
  by (auto simp: checkRedirect_def Let_def split: if_splits option.splits list.splits)

lemma retryDelay_le: "retryDelay until attempt r \<le> maxRetryWait"
  by (auto simp: retryDelay_def expDelay_def Let_def split: option.splits)

lemma roundTrip_emits:
  assumes web: "asciiWeb env"
    and u: "plainHost (rURL req)" "validateURL (Some (rURL req)) allow = None"
  shows "emits (allowedEvent allow) 1 s (snd (roundTrip (watched env) allow req s))"
proof -
  have toA: "toASCII (watched env) = toASCII env" by (simp add: watched_def)
  obtain p where p: "splitHostPort (canonicalAddr (toASCII env) (rURL req)) = Inr (uHostname (rURL req), p)"
    using canonical_split [OF u(1), of "toASCII env"] web by (auto simp: asciiWeb_def)
  have d: "emits (allowedEvent allow) 0 s
      (snd (dialContext (netEnv.truncate (watched env)) allow (canonicalAddr (toASCII env) (rURL req)) s))"
    using p u(2) validateURL_host by (intro dialContext_emits [where h = "uHostname (rURL req)" and p = p]) auto
  obtain r s' where dc:
    "dialContext (netEnv.truncate (watched env)) allow (canonicalAddr (toASCII env) (rURL req)) s = (r, s')"
    by (rule prod.exhaust)
  have e: "emits (allowedEvent allow) 0 s s'" using d dc by simp
  show ?thesis
  proof (cases r)
    case (Inl x)
    then show ?thesis using dc emits_mono [OF e, of 1] by (simp add: roundTrip_def toA)
  next
    case (Inr c)
    have "emits (allowedEvent allow) 1 s' (snd (talk (watched env) s' c req))"
      using u(2) by (intro watched_talk) simp
    then show ?thesis using dc Inr emits_trans [OF e, of 1] by (simp add: roundTrip_def toA)
  qed
qed

lemma followRedirects_emits:
  assumes web: "asciiWeb env"
  shows "plainHost (rURL req) \<Longrightarrow> validateURL (Some (rURL req)) allow = None \<Longrightarrow> length via < 10 \<Longrightarrow>
    emits (allowedEvent allow) (10 - length via) s (snd (followRedirects (watched env) allow via req s))"
proof (induction "10 - length via" arbitrary: via req s rule: less_induct)
  case less
  obtain r s' where rt: "roundTrip (watched env) allow req s = (r, s')" by (rule prod.exhaust)
  have e: "emits (allowedEvent allow) 1 s s'"
    using roundTrip_emits [OF web less.prems(1,2), of s] rt by simp
  have stop: "emits (allowedEvent allow) (10 - length via) s s'"
    using e less.prems(3) by (intro emits_mono [OF e]) simp
  have hop: "nextHop (watched env) = nextHop env" "eqFold (watched env) = eqFold env"
    by (simp_all add: watched_def)
  consider e where "r = Inl e"
    | resp where "r = Inr resp" "nextHop env (via @ [req]) resp = None"
    | resp "next" e where "r = Inr resp" "nextHop env (via @ [req]) resp = Some next"
        "checkRedirect (eqFold env) allow next (via @ [req]) = Inl e"
    | resp "next" next' where "r = Inr resp" "nextHop env (via @ [req]) resp = Some next"
        "checkRedirect (eqFold env) allow next (via @ [req]) = Inr next'"
    by (metis option.exhaust sum.exhaust)
  then show ?case
  proof cases
    case (4 resp "next" next')
    note c = checkRedirect_Inr [OF 4(3)] checkRedirect_bound [OF 4(3)]
    have "emits (allowedEvent allow) (10 - length (via @ [req])) s'
        (snd (followRedirects (watched env) allow (via @ [req]) next' s'))"
      using less.prems(3) c 4(2) web by (intro less.hyps) (auto simp: asciiWeb_def)
    then have "emits (allowedEvent allow) (1 + (10 - length (via @ [req]))) s
        (snd (followRedirects (watched env) allow (via @ [req]) next' s'))"
      by (rule emits_trans [OF e])
    then have "emits (allowedEvent allow) (10 - length via) s
        (snd (followRedirects (watched env) allow (via @ [req]) next' s'))"
      by (rule emits_mono) (use less.prems(3) in simp)
    then show ?thesis by (subst followRedirects.simps) (simp add: rt hop 4)
  qed (subst followRedirects.simps, simp add: rt hop stop)+
qed

lemma clientDo_emits:
  assumes web: "asciiWeb env"
    and u: "plainHost (rURL req)" "validateURL (Some (rURL req)) allow = None"
  shows "emits (allowedEvent allow) 10 s (snd (clientDo (watched env) allow req s))"
  using followRedirects_emits [OF web u, of "[]" s]
  by (auto simp: clientDo_def split: prod.splits sum.splits)

lemma doLoop_emits:
  assumes web: "asciiWeb env"
    and u: "plainHost target" "validateURL (Some target) (allowPrivateNetworks c) = None"
  shows "emits (allowedEvent (allowPrivateNetworks c)) (10 * n) s
    (snd (doLoop n (watched env) c m target headers body attempt s))"
proof (induction n arbitrary: attempt s)
  case (Suc n)
  let ?P = "allowedEvent (allowPrivateNetworks c)" and ?req = "newRequest c m target headers body"
  obtain r s1 where cd: "clientDo (watched env) (allowPrivateNetworks c) ?req s = (r, s1)"
    by (rule prod.exhaust)
  have e: "emits ?P 10 s s1"
    using clientDo_emits [OF web, of ?req "allowPrivateNetworks c" s] u cd by (simp add: newRequest_def)
  then have stop: "emits ?P (10 + 10 * n) s s1" by (rule emits_mono) simp
  have slept: "emits ?P 10 s (snd (sleep (watched env) s1 (retryDelay f attempt resp)))" for f resp
    
    using emits_trans [OF e watched_sleep [where P = ?P and env = env and d = "retryDelay f attempt resp"]]
    by (simp add: retryDelay_le)
  have again: "emits ?P (10 + 10 * n) s
      (snd (case sleep (watched env) s1 (retryDelay f attempt resp) of
              (Some e', w2) \<Rightarrow> (Inl (codeContextError e'), w2)
            | (None, w2) \<Rightarrow> doLoop n (watched env) c m target headers body (attempt + 1) w2))" for f resp
  proof -
    obtain q s2 where sl: "sleep (watched env) s1 (retryDelay f attempt resp) = (q, s2)" by (rule prod.exhaust)
    have e2: "emits ?P 10 s s2" using slept [of f resp] sl by simp
    have "emits ?P (10 + 10 * n) s (snd (doLoop n (watched env) c m target headers body (attempt + 1) s2))"
      by (rule emits_trans [OF e2 Suc.IH])
    moreover have "emits ?P (10 + 10 * n) s s2" using e2 by (rule emits_mono) simp
    ultimately show ?thesis using sl by (cases q) simp_all
  qed
  show ?case
    by (simp add: cd emits_refl stop again split: option.split sum.split)
qed (simp add: emits_refl)

lemma watched_parseURL [simp]: "parseURL (watched env) = parseURL env"
  by (simp add: watched_def)

lemma Do_emits:
  assumes web: "asciiWeb env"
  shows "emits (allowedEvent (allowPrivateNetworks c)) (10 * requestAttempts m) s
    (snd (Do (watched env) c m rawURL headers body s))"
proof (cases "validateTarget (parseURL env) rawURL (allowPrivateNetworks c)")
  case (Inl e)
  then show ?thesis by (simp add: Do_def emits_refl)
next
  case (Inr target)
  then have "validateURL (Some target) (allowPrivateNetworks c) = None" "plainHost target"
    using web by (auto simp: asciiWeb_def validateTarget_def Let_def split: if_splits sum.splits option.splits)
  then show ?thesis using Inr doLoop_emits [OF web] by (simp add: Do_def)
qed

end
