(* ===== verification/WebRender.thy ===== *)
theory WebRender
  imports WebClient
begin

text \<open>
  Rendering (\<open>render.go\<close>, \<open>fetch.go\<close>, \<open>render_proxy.go\<close>): the options of a fetch, the shared browser that
  \<open>ensureRenderer\<close> starts lazily and \<open>Close\<close> ends, and the budget of the browser's proxy.
\<close>

section \<open>Render options\<close>

record fetchRequest =
  fqURL :: string
  fqRaw :: bool
  fqReader :: string
  fqRender :: string
  fqRenderWait :: string

record renderOptions =
  roMode :: string
  roWait :: string

definition invalidArgument :: "string \<Rightarrow> string \<Rightarrow> webError" where
  "invalidArgument why suggestion = newCodedError (newError why) ''invalid_argument'' suggestion"

definition normalizeRenderOptions :: "fetchRequest \<Rightarrow> string \<Rightarrow> webError + renderOptions" where
  "normalizeRenderOptions req readerMode =
     (let m = toLower (trimSpace (fqRender req));
          renderMode = (if m = [] then ''never'' else m);
          rawWait = trimSpace (fqRenderWait req);
          wt = toLower rawWait;
          wait = (if wt = [] then ''load'' else wt)
      in if renderMode \<notin> {''never'', ''auto'', ''always''} then
           Inl (invalidArgument (''unsupported render mode '' @ goQuote (fqRender req))
                  ''choose render never, auto, or always'')
         else if wait \<notin> {''load'', ''networkidle''} then
           Inl (invalidArgument (''unsupported render wait '' @ goQuote (fqRenderWait req))
                  ''choose render_wait load or networkidle'')
         else if renderMode = ''never'' \<and> rawWait \<noteq> [] then
           Inl (invalidArgument ''render_wait requires render auto or always''
                  ''remove render_wait or choose render auto or always'')
         else if fqRaw req \<and> renderMode \<noteq> ''never'' then
           Inl (invalidArgument ''raw fetches cannot render HTML'' ''remove raw or choose render never'')
         else if readerMode = ''jina'' \<and> renderMode \<noteq> ''never'' then
           Inl (invalidArgument ''the jina reader cannot consume rendered HTML''
                  ''choose reader defuddle or auto, or choose render never'')
         else Inr \<lparr>roMode = renderMode, roWait = wait\<rparr>)"

section \<open>The shared renderer\<close>

text \<open>
  The fields of \<open>Service\<close> behind \<open>renderMu\<close>.  A renderer and a channel are numbers; \<open>chDone\<close> holds the
  channels that are closed and \<open>live\<close> the renderers (browsers) that were created and not yet closed.
\<close>

record service =
  serviceClosed :: bool
  renderer :: "nat option"
  renderErr :: "webError option"
  renderInit :: "nat option"
  chDone :: "nat set"
  live :: "nat set"

definition newService :: service where
  "newService = \<lparr>serviceClosed = False, renderer = None, renderErr = None, renderInit = None,
                 chDone = {}, live = {}\<rparr>"

definition serviceClosedError :: webError where
  "serviceClosedError =
     newCodedError (newError ''webfetch service is closed'') ''invalid_argument''
       ''create a new webfetch service before rendering another page''"

text \<open>
  Where a goroutine is: in \<open>ensureRenderer\<close> at the head of the loop, waiting for the initialisation of
  another, in the factory, behind it, discarding a renderer because the service was closed; in
  \<open>Close\<close> before its lock, or behind it with a renderer to close and an initialisation to wait for; or
  returned.
\<close>

datatype goroutine =
    Idle
  | Head
  | Waiting nat
  | Creating nat
  | Created nat "webError + nat"
  | Discard nat "nat option"
  | Got "webError + nat"
  | CloseHead
  | Closing "nat option" "nat option"
  | CloseDone

text \<open>The first locked region of \<open>ensureRenderer\<close>; \<open>ch\<close> is a new channel.\<close>

definition ensureEnter :: "nat \<Rightarrow> service \<Rightarrow> service \<times> goroutine" where
  "ensureEnter ch s =
     (if serviceClosed s then (s, Got (Inl serviceClosedError))
      else case renderer s of
        Some r \<Rightarrow> (s, Got (Inr r))
      | None \<Rightarrow>
          (case renderErr s of
             Some e \<Rightarrow> (s, Got (Inl e))
           | None \<Rightarrow>
               (case renderInit s of
                  Some c \<Rightarrow> (s, Waiting c)
                | None \<Rightarrow> (s\<lparr>renderInit := Some ch\<rparr>, Creating ch))))"

definition factoryError :: "webError \<Rightarrow> webError" where
  "factoryError e =
     (if weCoded e \<noteq> None then e
      else newCodedError (wrapError ''initialize browser renderer: '' e) ''browser_unavailable''
             ''install Chrome or Chromium and configure its executable path'')"

text \<open>The second locked region: the result of the factory is installed, or the service was closed.\<close>

definition ensureInstall :: "nat \<Rightarrow> webError + nat \<Rightarrow> service \<Rightarrow> service \<times> goroutine" where
  "ensureInstall ch res s =
     (if serviceClosed s then
        (s\<lparr>renderInit := None\<rparr>, Discard ch (case res of Inr r \<Rightarrow> Some r | Inl _ \<Rightarrow> None))
      else
        (let s1 = (case res of
                     Inl e \<Rightarrow> s\<lparr>renderErr := Some (factoryError e)\<rparr>
                   | Inr r \<Rightarrow> s\<lparr>renderer := Some r\<rparr>);
             s2 = s1\<lparr>renderInit := None, chDone := insert ch (chDone s)\<rparr>
         in (s2, case renderErr s1 of
                   Some e \<Rightarrow> Got (Inl e)
                 | None \<Rightarrow> (case res of Inr r \<Rightarrow> Got (Inr r) | Inl e \<Rightarrow> Got (Inl e)))))"

text \<open>What follows when the service was closed meanwhile: the renderer is closed, then the channel.\<close>

definition discardStep :: "nat \<Rightarrow> nat option \<Rightarrow> service \<Rightarrow> service \<times> goroutine" where
  "discardStep ch mr s =
     (case mr of
        Some r \<Rightarrow> (s\<lparr>live := live s - {r}\<rparr>, Discard ch None)
      | None \<Rightarrow> (s\<lparr>chDone := insert ch (chDone s)\<rparr>, Got (Inl serviceClosedError)))"

text \<open>The locked region of \<open>Close\<close> and the closing of the renderer it took.\<close>

definition closeTake :: "service \<Rightarrow> service \<times> goroutine" where
  "closeTake s =
     (if serviceClosed s then (s, CloseDone)
      else (s\<lparr>serviceClosed := True, renderer := None\<rparr>, Closing (renderer s) (renderInit s)))"

definition closeRenderer :: "nat \<Rightarrow> nat option \<Rightarrow> service \<Rightarrow> service \<times> goroutine" where
  "closeRenderer r init s = (s\<lparr>live := live s - {r}\<rparr>, Closing None init)"

text \<open>
  The steps of the goroutines, in any order.  Every call starts at \<open>Head\<close> or \<open>CloseHead\<close>, channels and
  renderers are new when they are made, and a wait may end because its context does.
\<close>

type_synonym world = "service \<times> (nat \<Rightarrow> goroutine)"

inductive step :: "world \<Rightarrow> world \<Rightarrow> bool" where
  call: "pc t = Idle \<Longrightarrow> step (s, pc) (s, pc(t := Head))"
| callClose: "pc t = Idle \<Longrightarrow> step (s, pc) (s, pc(t := CloseHead))"
| enter: "pc t = Head \<Longrightarrow> ch \<notin> chDone s \<Longrightarrow>
    (\<forall>u. pc u \<noteq> Waiting ch \<and> (\<forall>mr. pc u \<noteq> Discard ch mr) \<and> (\<forall>mr. pc u \<noteq> Closing mr (Some ch))) \<Longrightarrow>
    ensureEnter ch s = (s', g) \<Longrightarrow> step (s, pc) (s', pc(t := g))"
| wake: "pc t = Waiting ch \<Longrightarrow> ch \<in> chDone s \<Longrightarrow> step (s, pc) (s, pc(t := Head))"
| cancel: "pc t = Waiting ch \<Longrightarrow> step (s, pc) (s, pc(t := Got (Inl (codeContextError e))))"
| create: "pc t = Creating ch \<Longrightarrow> r \<notin> live s \<Longrightarrow>
    step (s, pc) (s\<lparr>live := insert r (live s)\<rparr>, pc(t := Created ch (Inr r)))"
| fail: "pc t = Creating ch \<Longrightarrow> step (s, pc) (s, pc(t := Created ch (Inl e)))"
| install: "pc t = Created ch res \<Longrightarrow> ensureInstall ch res s = (s', g) \<Longrightarrow>
    step (s, pc) (s', pc(t := g))"
| discard: "pc t = Discard ch mr \<Longrightarrow> discardStep ch mr s = (s', g) \<Longrightarrow> step (s, pc) (s', pc(t := g))"
| take: "pc t = CloseHead \<Longrightarrow> closeTake s = (s', g) \<Longrightarrow> step (s, pc) (s', pc(t := g))"
| closeR: "pc t = Closing (Some r) init \<Longrightarrow> closeRenderer r init s = (s', g) \<Longrightarrow>
    step (s, pc) (s', pc(t := g))"
| closeNone: "pc t = Closing None None \<Longrightarrow> step (s, pc) (s, pc(t := CloseDone))"
| closeWait: "pc t = Closing None (Some ch) \<Longrightarrow> ch \<in> chDone s \<Longrightarrow> step (s, pc) (s, pc(t := CloseDone))"
| closeCancel: "pc t = Closing None (Some ch) \<Longrightarrow> step (s, pc) (s, pc(t := CloseDone))"

inductive reachable :: "world \<Rightarrow> bool" where
  start: "reachable (newService, \<lambda>_. Idle)"
| more: "reachable c \<Longrightarrow> step c c' \<Longrightarrow> reachable c'"

definition finished :: "goroutine \<Rightarrow> bool" where
  "finished g \<longleftrightarrow> (case g of Idle \<Rightarrow> True | Got _ \<Rightarrow> True | CloseDone \<Rightarrow> True | _ \<Rightarrow> False)"

section \<open>The budget of the proxy\<close>

record proxyBudget =
  pbMaxRequests :: int
  pbMaxNetworkBytes :: int
  pbRequests :: int
  pbNetworkBytes :: int
  pbErr :: "webError option"
  pbCancelled :: bool

definition newProxyBudget :: "int \<Rightarrow> int \<Rightarrow> proxyBudget" where
  "newProxyBudget maxRequests maxNetworkBytes =
     \<lparr>pbMaxRequests = maxRequests, pbMaxNetworkBytes = maxNetworkBytes, pbRequests = 0,
      pbNetworkBytes = 0, pbErr = None, pbCancelled = False\<rparr>"

definition failLocked :: "webError \<Rightarrow> proxyBudget \<Rightarrow> webError option \<times> proxyBudget" where
  "failLocked e b =
     (let e' = newCodedError e ''render_budget_exceeded''
                 ''reduce page activity or increase the server render budget''
      in (Some e', b\<lparr>pbErr := Some e', pbCancelled := True\<rparr>))"

definition addRequest :: "proxyBudget \<Rightarrow> webError option \<times> proxyBudget" where
  "addRequest b =
     (case pbErr b of
        Some e \<Rightarrow> (Some e, b)
      | None \<Rightarrow>
          let b1 = b\<lparr>pbRequests := wrap64 (pbRequests b + 1)\<rparr>
          in if 0 < pbMaxRequests b1 \<and> pbMaxRequests b1 < pbRequests b1 then
               failLocked
                 (newError (''browser request budget exceeded: '' @ intToString (pbRequests b1) @
                            '' requests exceeds '' @ intToString (pbMaxRequests b1))) b1
             else (None, b1))"

definition addNetworkBytes :: "int \<Rightarrow> proxyBudget \<Rightarrow> webError option \<times> proxyBudget" where
  "addNetworkBytes n b =
     (if n \<le> 0 then (None, b)
      else case pbErr b of
        Some e \<Rightarrow> (Some e, b)
      | None \<Rightarrow>
          let b1 = b\<lparr>pbNetworkBytes := wrap64 (pbNetworkBytes b + n)\<rparr>
          in if 0 < pbMaxNetworkBytes b1 \<and> pbMaxNetworkBytes b1 < pbNetworkBytes b1 then
               failLocked
                 (newError (''browser network budget exceeded: '' @ intToString (pbNetworkBytes b1) @
                            '' bytes exceeds '' @ intToString (pbMaxNetworkBytes b1))) b1
             else (None, b1))"

definition failBudget :: "webError \<Rightarrow> proxyBudget \<Rightarrow> webError option \<times> proxyBudget" where
  "failBudget e b =
     (case pbErr b of
        Some e' \<Rightarrow> (Some e', b)
      | None \<Rightarrow>
          let e' = (if weCoded e \<noteq> None then e
                    else newCodedError (wrapError ''browser proxy: '' e) ''render_failed''
                           ''retry the page or use static Defuddle extraction'')
          in (Some e', b\<lparr>pbErr := Some e', pbCancelled := True\<rparr>))"

text \<open>\<open>reject\<close>: refusals of a private address or an invalid URL do not end the page.\<close>

definition reject :: "webError \<Rightarrow> proxyBudget \<Rightarrow> proxyBudget" where
  "reject e b =
     (case weCoded e of
        Some (code, _) \<Rightarrow>
          (if code \<noteq> ''private_network_blocked'' \<and> code \<noteq> ''invalid_url''
           then snd (failBudget e b) else b)
      | None \<Rightarrow> b)"

section \<open>The proxy's CONNECT\<close>

definition trimBrackets :: "string \<Rightarrow> string" where
  "trimBrackets s = trimBoth s ''[]''"

definition connectAuthority :: "string \<Rightarrow> string" where
  "connectAuthority host =
     (let authority = trimSpace host
      in case splitHostPort authority of
           Inr _ \<Rightarrow> authority
         | Inl _ \<Rightarrow> joinHostPort (trimBrackets authority) ''443'')"

text \<open>The target of a CONNECT: what is validated and what is dialled.\<close>

definition serveConnect ::
  "('w, 'c) netEnv \<Rightarrow> bool \<Rightarrow> string \<Rightarrow> 'w \<Rightarrow> (webError + 'c) \<times> 'w" where
  "serveConnect env allowPrivate host w =
     (if trimSpace host = [] then
        (Inl (newCodedError (newError ''CONNECT target is required'') ''invalid_url''
                ''provide a valid host and port''), w)
      else
        (let authority = connectAuthority host;
             target = \<lparr>uScheme = ''https'', uHost = authority, uUser = False,
                       uText = ''https://'' @ authority\<rparr>
         in case validateURL (Some target) allowPrivate of
              Some e \<Rightarrow> (Inl e, w)
            | None \<Rightarrow> dialContext env allowPrivate authority w))"

text \<open>\<open>textproto.CanonicalMIMEHeaderKey\<close>, which \<open>Header.Del\<close> applies to a name.\<close>

definition tokenByte :: "char \<Rightarrow> bool" where
  "tokenByte c \<longleftrightarrow> isDigit c \<or> isAlpha c \<or> c \<in> set ''!#$%&*+-.^_|~'' \<or> c = squote \<or> c = backtick"

fun canonBytes :: "bool \<Rightarrow> string \<Rightarrow> string" where
  "canonBytes _ [] = []"
| "canonBytes up (c # s) = (if up then upperByte c else lowerByte c) # canonBytes (c = CHR ''-'') s"

definition canonicalKey :: "string \<Rightarrow> string" where
  "canonicalKey s = (if list_all tokenByte s then canonBytes True s else s)"

definition removeHopHeaders :: "httpHeader \<Rightarrow> httpHeader" where
  "removeHopHeaders h =
     (let named = filter (\<lambda>n. n \<noteq> []) (map trimSpace (splitByte (hdrGet h ''Connection'') CHR '',''))
      in foldl hdrDel (foldl hdrDel h (map canonicalKey named))
           [''Connection'', ''Proxy-Connection'', ''Keep-Alive'', ''Proxy-Authenticate'',
            ''Proxy-Authorization'', ''Te'', ''Trailer'', ''Transfer-Encoding'', ''Upgrade''])"

end
