(* ===== verification/WebLifecycle.thy ===== *)
theory WebLifecycle
  imports WebRender
begin

text \<open>
  The invariant of the shared renderer: every step of every goroutine keeps it, so it holds in all
  reachable worlds.
\<close>

inductive_cases stepE: "step (s, pc) c"

text \<open>A goroutine that has, or is about to have, a renderer of its own.\<close>

fun busy :: "goroutine \<Rightarrow> bool" where
  "busy (Creating _) = True"
| "busy (Created _ _) = True"
| "busy (Discard _ (Some _)) = True"
| "busy (Closing (Some _) _) = True"
| "busy _ = False"

fun owns :: "goroutine \<Rightarrow> nat option" where
  "owns (Created _ (Inr r)) = Some r"
| "owns (Discard _ mr) = mr"
| "owns (Closing mr _) = mr"
| "owns _ = None"

fun making :: "goroutine \<Rightarrow> nat option" where
  "making (Creating ch) = Some ch"
| "making (Created ch _) = Some ch"
| "making _ = None"

fun awaits :: "goroutine \<Rightarrow> nat option" where
  "awaits (Waiting ch) = Some ch"
| "awaits (Closing _ ch) = ch"
| "awaits _ = None"

fun afterClose :: "goroutine \<Rightarrow> bool" where
  "afterClose (Discard _ _) = True"
| "afterClose (Closing _ _) = True"
| "afterClose _ = False"

definition willClose :: "nat \<Rightarrow> goroutine \<Rightarrow> bool" where
  "willClose ch g \<longleftrightarrow> making g = Some ch \<or> (\<exists>mr. g = Discard ch mr)"

definition lifecycle :: "world \<Rightarrow> bool" where
  "lifecycle c \<longleftrightarrow> (case c of (s, pc) \<Rightarrow>
     (\<forall>t u. busy (pc t) \<longrightarrow> busy (pc u) \<longrightarrow> t = u) \<and>
     (renderer s \<noteq> None \<longrightarrow> \<not> serviceClosed s \<and> renderInit s = None \<and> (\<forall>t. \<not> busy (pc t))) \<and>
     (\<forall>t. making (pc t) \<noteq> None \<longrightarrow> renderInit s = making (pc t)) \<and>
     (\<forall>t. afterClose (pc t) \<longrightarrow> serviceClosed s) \<and>
     (\<forall>r \<in> live s. renderer s = Some r \<or> (\<exists>t. owns (pc t) = Some r)) \<and>
     (\<forall>t ch. awaits (pc t) = Some ch \<longrightarrow> ch \<in> chDone s \<or> (\<exists>u. willClose ch (pc u))) \<and>
     (\<forall>ch. renderInit s = Some ch \<longrightarrow> (\<exists>u. making (pc u) = Some ch)) \<and>
     (renderInit s \<noteq> None \<longrightarrow> renderErr s = None) \<and>
     (\<forall>t r. pc t = Got (Inr r) \<longrightarrow> serviceClosed s \<or> renderer s = Some r))"

lemma lifecycle_start: "lifecycle (newService, \<lambda>_. Idle)"
  by (simp add: lifecycle_def newService_def)

lemma making_busy: "making g \<noteq> None \<Longrightarrow> busy g"
  by (cases g) simp_all

lemma owns_busy: "owns g = Some r \<Longrightarrow> busy g"
  by (cases g rule: owns.cases) auto

lemma lifecycleD:
  assumes "lifecycle (s, pc)"
  shows "busy (pc t) \<Longrightarrow> busy (pc u) \<Longrightarrow> t = u"
    and "renderer s \<noteq> None \<Longrightarrow> \<not> serviceClosed s \<and> renderInit s = None \<and> \<not> busy (pc t)"
    and "making (pc t) = Some ch \<Longrightarrow> renderInit s = Some ch"
    and "afterClose (pc t) \<Longrightarrow> serviceClosed s"
    and "r \<in> live s \<Longrightarrow> renderer s = Some r \<or> (\<exists>t. owns (pc t) = Some r)"
    and "awaits (pc t) = Some ch \<Longrightarrow> ch \<in> chDone s \<or> (\<exists>u. willClose ch (pc u))"
    and "renderInit s = Some ch \<Longrightarrow> \<exists>u. making (pc u) = Some ch"
    and "renderInit s \<noteq> None \<Longrightarrow> renderErr s = None"
    and "pc t = Got (Inr r) \<Longrightarrow> serviceClosed s \<or> renderer s = Some r"
proof -
  note L = assms [unfolded lifecycle_def prod.case]
  show "busy (pc t) \<Longrightarrow> busy (pc u) \<Longrightarrow> t = u" using L by (elim conjE) blast
  show "renderer s \<noteq> None \<Longrightarrow> \<not> serviceClosed s \<and> renderInit s = None \<and> \<not> busy (pc t)" using L by (elim conjE) blast
  show "making (pc t) = Some ch \<Longrightarrow> renderInit s = Some ch" using L by (metis option.distinct(1))
  show "afterClose (pc t) \<Longrightarrow> serviceClosed s" using L by (elim conjE) blast
  show "r \<in> live s \<Longrightarrow> renderer s = Some r \<or> (\<exists>t. owns (pc t) = Some r)" using L by (elim conjE) blast
  show "awaits (pc t) = Some ch \<Longrightarrow> ch \<in> chDone s \<or> (\<exists>u. willClose ch (pc u))" using L by (elim conjE) blast
  show "renderInit s = Some ch \<Longrightarrow> \<exists>u. making (pc u) = Some ch" using L by (elim conjE) blast
  show "renderInit s \<noteq> None \<Longrightarrow> renderErr s = None" using L by (elim conjE) blast
  show "pc t = Got (Inr r) \<Longrightarrow> serviceClosed s \<or> renderer s = Some r" using L by (elim conjE) blast
qed

text \<open>
  One goroutine moves from \<open>pc t\<close> to \<open>g\<close> and the service from \<open>s\<close> to \<open>s'\<close>: what has to be checked locally.
\<close>

lemma lifecycle_update:
  assumes inv: "lifecycle (s, pc)"
    and busy: "busy g \<Longrightarrow> busy (pc t) \<or> (\<forall>u. \<not> busy (pc u))"
    and rend: "renderer s' \<noteq> None \<Longrightarrow> \<not> serviceClosed s' \<and> renderInit s' = None \<and> \<not> busy g \<and> (\<forall>u. u \<noteq> t \<longrightarrow> \<not> busy (pc u))"
    and make: "making g \<noteq> None \<Longrightarrow> renderInit s' = making g"
    and others: "\<And>u ch. u \<noteq> t \<Longrightarrow> making (pc u) = Some ch \<Longrightarrow> renderInit s' = Some ch"
    and after: "afterClose g \<Longrightarrow> serviceClosed s'" and keep: "serviceClosed s \<Longrightarrow> serviceClosed s'"
    and alive: "\<And>r. r \<in> live s' \<Longrightarrow> renderer s' = Some r \<or> owns g = Some r \<or> (\<exists>u. u \<noteq> t \<and> owns (pc u) = Some r)"
    and chans: "chDone s \<subseteq> chDone s'"
    and wc: "\<And>ch. willClose ch (pc t) \<Longrightarrow> willClose ch g \<or> ch \<in> chDone s'"
    and aw: "\<And>ch. awaits g = Some ch \<Longrightarrow> ch \<in> chDone s' \<or> willClose ch g \<or> (\<exists>u. u \<noteq> t \<and> willClose ch (pc u))"
    and init: "\<And>ch. renderInit s' = Some ch \<Longrightarrow> making g = Some ch \<or> (\<exists>u. u \<noteq> t \<and> making (pc u) = Some ch)"
    and err: "renderInit s' \<noteq> None \<Longrightarrow> renderErr s' = None"
    and got: "\<And>r. g = Got (Inr r) \<Longrightarrow> serviceClosed s' \<or> renderer s' = Some r"
    and same: "\<And>r. renderer s = Some r \<Longrightarrow> renderer s' = Some r \<or> serviceClosed s'"
  shows "lifecycle (s', pc(t := g))"
proof -
  note D = lifecycleD [OF inv]
  have 1: "busy ((pc(t := g)) a) \<Longrightarrow> busy ((pc(t := g)) b) \<Longrightarrow> a = b" for a b
    using busy D(1) by (auto split: if_splits)
  have 2: "renderer s' \<noteq> None \<Longrightarrow> \<not> serviceClosed s' \<and> renderInit s' = None \<and> \<not> busy ((pc(t := g)) a)" for a
    using rend by (auto split: if_splits)
  have 3: "making ((pc(t := g)) a) \<noteq> None \<Longrightarrow> renderInit s' = making ((pc(t := g)) a)" for a
    using make others by (auto split: if_splits)
  have 4: "afterClose ((pc(t := g)) a) \<Longrightarrow> serviceClosed s'" for a
    using after keep D(4) by (auto split: if_splits)
  have 5: "r \<in> live s' \<Longrightarrow> renderer s' = Some r \<or> (\<exists>a. owns ((pc(t := g)) a) = Some r)" for r
    using alive by (metis fun_upd_other fun_upd_same)
  have 6: "ch \<in> chDone s' \<or> (\<exists>u. willClose ch ((pc(t := g)) u))" if "awaits ((pc(t := g)) a) = Some ch" for a ch
  proof (cases "a = t")
    case True
    then show ?thesis using that aw by (metis fun_upd_other fun_upd_same)
  next
    case False
    then have "ch \<in> chDone s \<or> (\<exists>u. willClose ch (pc u))" using that D(6) by simp
    then show ?thesis using chans wc by (metis fun_upd_other fun_upd_same subsetD)
  qed
  have 7: "renderInit s' = Some ch \<Longrightarrow> \<exists>u. making ((pc(t := g)) u) = Some ch" for ch
    using init by (metis fun_upd_other fun_upd_same)
  have 9: "(pc(t := g)) a = Got (Inr r) \<Longrightarrow> serviceClosed s' \<or> renderer s' = Some r" for a r
    using got same keep D(9) by (auto split: if_splits)
  show ?thesis
    unfolding lifecycle_def prod.case using 1 2 3 4 5 6 7 err 9 by blast
qed

text \<open>A move that leaves the service as it is and neither takes nor gives up anything.\<close>

lemma lifecycle_quiet:
  assumes inv: "lifecycle (s, pc)"
    and "\<not> busy (pc t)" "\<not> busy g" "making (pc t) = None" "making g = None" "\<And>ch. \<not> willClose ch (pc t)"
    and "\<And>r. owns (pc t) \<noteq> Some r"
    and "afterClose g \<Longrightarrow> serviceClosed s"
    and "\<And>ch. awaits g = Some ch \<Longrightarrow> ch \<in> chDone s \<or> (\<exists>u. u \<noteq> t \<and> willClose ch (pc u))"
    and "\<And>r. g = Got (Inr r) \<Longrightarrow> serviceClosed s \<or> renderer s = Some r"
  shows "lifecycle (s, pc(t := g))"
proof (rule lifecycle_update [OF inv])
  note D = lifecycleD [OF inv]
  show "r \<in> live s \<Longrightarrow> renderer s = Some r \<or> owns g = Some r \<or> (\<exists>u. u \<noteq> t \<and> owns (pc u) = Some r)" for r
    using D(5) assms(7) by metis
  show "renderInit s = Some ch \<Longrightarrow> making g = Some ch \<or> (\<exists>u. u \<noteq> t \<and> making (pc u) = Some ch)" for ch
    using D(7) assms(4) by (metis option.distinct(1))
  show "making (pc u) = Some ch \<Longrightarrow> renderInit s = Some ch" for u ch by (rule D(3))
  show "renderer s \<noteq> None \<Longrightarrow> \<not> serviceClosed s \<and> renderInit s = None \<and> \<not> busy g \<and> (\<forall>u. u \<noteq> t \<longrightarrow> \<not> busy (pc u))"
    using D(2) assms(3) by blast
  show "renderInit s \<noteq> None \<Longrightarrow> renderErr s = None" by (rule D(8))
qed (use assms in auto)

lemma making_willClose: "making g = Some ch \<Longrightarrow> willClose ch g"
  by (simp add: willClose_def)

lemma making_busy': "making g = Some ch \<Longrightarrow> busy g"
  by (simp add: making_busy)

lemma enter_returns:
  assumes inv: "lifecycle (s, pc)" and t: "pc t = Head"
    and g: "\<And>r. g = Inr r \<Longrightarrow> serviceClosed s \<or> renderer s = Some r"
  shows "lifecycle (s, pc(t := Got g))"
  by (rule lifecycle_quiet [OF inv]) (use t g in \<open>auto simp: willClose_def\<close>)

lemma enter_waits:
  assumes inv: "lifecycle (s, pc)" and t: "pc t = Head" and c: "renderInit s = Some c"
  shows "lifecycle (s, pc(t := Waiting c))"
proof (rule lifecycle_quiet [OF inv])
  obtain u where u: "making (pc u) = Some c" using lifecycleD(7) [OF inv c] by blast
  then have "u \<noteq> t" using t by auto
  then show "awaits (Waiting c) = Some ch \<Longrightarrow> ch \<in> chDone s \<or> (\<exists>u. u \<noteq> t \<and> willClose ch (pc u))" for ch
    using making_willClose [OF u] by auto
qed (use t in \<open>auto simp: willClose_def\<close>)

lemma enter_makes:
  assumes inv: "lifecycle (s, pc)" and t: "pc t = Head"
    and c: "\<not> serviceClosed s" "renderer s = None" "renderErr s = None" "renderInit s = None"
  shows "lifecycle (s\<lparr>renderInit := Some ch\<rparr>, pc(t := Creating ch))"
proof (rule lifecycle_update [OF inv])
  note D = lifecycleD [OF inv]
  have none: "\<not> busy (pc u)" for u
  proof
    assume b: "busy (pc u)"
    show False using b D(3) [of u] D(4) [of u] c by (cases "pc u" rule: busy.cases) auto
  qed
  then have own: "owns (pc u) \<noteq> Some r" for u r using owns_busy by blast
  show "r \<in> live (s\<lparr>renderInit := Some ch\<rparr>) \<Longrightarrow> renderer (s\<lparr>renderInit := Some ch\<rparr>) = Some r \<or>
      owns (Creating ch) = Some r \<or> (\<exists>u. u \<noteq> t \<and> owns (pc u) = Some r)" for r
    using D(5) own c by simp
  show "busy (Creating ch) \<Longrightarrow> busy (pc t) \<or> (\<forall>u. \<not> busy (pc u))" using none by blast
  show "making (pc u) = Some d \<Longrightarrow> renderInit (s\<lparr>renderInit := Some ch\<rparr>) = Some d" for u d
    using none making_busy' by blast
qed (use t c in \<open>auto simp: willClose_def\<close>)

lemma enter_keeps:
  assumes inv: "lifecycle (s, pc)" and t: "pc t = Head" and e: "ensureEnter ch s = (s', g)"
  shows "lifecycle (s', pc(t := g))"
proof (cases "serviceClosed s \<or> renderer s \<noteq> None \<or> renderErr s \<noteq> None")
  case True
  then have "s' = s \<and> (\<exists>x. g = Got x \<and> (\<forall>r. x = Inr r \<longrightarrow> serviceClosed s \<or> renderer s = Some r))"
    using e unfolding ensureEnter_def by (cases "renderer s"; cases "renderErr s"; cases "serviceClosed s") auto
  then show ?thesis using enter_returns [OF inv t] by blast
next
  case False
  then show ?thesis
    using e enter_waits [OF inv t] enter_makes [OF inv t] unfolding ensureEnter_def
    by (cases "renderInit s") auto
qed

lemma factory_keeps:
  assumes inv: "lifecycle (s, pc)" and t: "pc t = Creating ch"
    and L: "\<And>x. x \<in> L \<Longrightarrow> x \<in> live s \<or> res = Inr x"
  shows "lifecycle (s\<lparr>live := L\<rparr>, pc(t := Created ch res))"
proof (rule lifecycle_update [OF inv])
  note D = lifecycleD [OF inv]
  have o: "owns (pc t) = None" using t by simp
  show "x \<in> live (s\<lparr>live := L\<rparr>) \<Longrightarrow> renderer (s\<lparr>live := L\<rparr>) = Some x \<or> owns (Created ch res) = Some x \<or>
      (\<exists>u. u \<noteq> t \<and> owns (pc u) = Some x)" for x
    using D(5) [of x] o L [of x] by (cases "res = Inr x") (simp_all, metis option.distinct(1))
  show "renderInit (s\<lparr>live := L\<rparr>) = Some c \<Longrightarrow>
      making (Created ch res) = Some c \<or> (\<exists>u. u \<noteq> t \<and> making (pc u) = Some c)" for c
    using D(3) [of t ch] t by simp
  show "renderer (s\<lparr>live := L\<rparr>) \<noteq> None \<Longrightarrow> \<not> serviceClosed (s\<lparr>live := L\<rparr>) \<and>
      renderInit (s\<lparr>live := L\<rparr>) = None \<and> \<not> busy (Created ch res) \<and> (\<forall>u. u \<noteq> t \<longrightarrow> \<not> busy (pc u))"
    using D(2) [of t] t by simp
  show "making (Created ch res) \<noteq> None \<Longrightarrow> renderInit (s\<lparr>live := L\<rparr>) = making (Created ch res)"
    using D(3) [of t ch] t by simp
  show "making (pc u) = Some c \<Longrightarrow> renderInit (s\<lparr>live := L\<rparr>) = Some c" for u c
    using D(3) by simp
  show "renderInit (s\<lparr>live := L\<rparr>) \<noteq> None \<Longrightarrow> renderErr (s\<lparr>live := L\<rparr>) = None"
    using D(8) by simp
qed (use t in \<open>auto simp: willClose_def\<close>)

text \<open>Behind the factory no other goroutine is busy.\<close>

lemma alone:
  assumes "lifecycle (s, pc)" and "busy (pc t)" and "u \<noteq> t"
  shows "\<not> busy (pc u)" "making (pc u) = None" "owns (pc u) = None"
proof -
  show b: "\<not> busy (pc u)" using lifecycleD(1) [OF assms(1), of u t] assms(2,3) by blast
  show "making (pc u) = None" using b making_busy by blast
  show "owns (pc u) = None" using b owns_busy by (cases "owns (pc u)") blast+
qed

lemma install_keeps:
  assumes inv: "lifecycle (s, pc)" and t: "pc t = Created ch res" and e: "ensureInstall ch res s = (s', g)"
  shows "lifecycle (s', pc(t := g))"
proof -
  note D = lifecycleD [OF inv]
  have b: "busy (pc t)" using t by simp
  note A = alone [OF inv b]
  have r0: "renderer s = None" using D(2) [of t] b by blast
  have ri: "renderInit s = Some ch" using D(3) [of t ch] t by simp
  have e0: "renderErr s = None" using D(8) ri by simp
  have own: "res = Inr x" if x: "x \<in> live s" for x
  proof -
    obtain u where u: "owns (pc u) = Some x" using D(5) [OF x] r0 by auto
    then have "u = t" using A(3) [of u] by (cases "u = t") auto
    then show ?thesis using u t by (cases res) simp_all
  qed
  show ?thesis
  proof (cases "serviceClosed s")
    case True
    then have g: "s' = s\<lparr>renderInit := None\<rparr>" "g = Discard ch (case res of Inr r \<Rightarrow> Some r | Inl _ \<Rightarrow> None)"
      using e by (auto simp: ensureInstall_def)
    show ?thesis
      unfolding g using True t A own r0 by (intro lifecycle_update [OF inv]) (auto simp: willClose_def split: sum.splits)
  next
    case False
    show ?thesis
    proof (cases res)
      case (Inl x)
      then have g: "s' = s\<lparr>renderErr := Some (factoryError x), renderInit := None, chDone := insert ch (chDone s)\<rparr>"
          "g = Got (Inl (factoryError x))"
        using e False by (auto simp: ensureInstall_def Let_def)
      have "live s = {}" using own Inl by auto
      then show ?thesis
        unfolding g using t A r0 Inl by (intro lifecycle_update [OF inv]) (auto simp: willClose_def)
    next
      case (Inr r)
      then have g: "s' = s\<lparr>renderer := Some r, renderInit := None, chDone := insert ch (chDone s)\<rparr>"
          "g = Got (Inr r)"
        using e False e0 by (auto simp: ensureInstall_def Let_def)
      show ?thesis
        unfolding g using t A own r0 Inr False by (intro lifecycle_update [OF inv]) (auto simp: willClose_def)
    qed
  qed
qed

lemma owner_of:
  assumes "lifecycle (s, pc)" and "busy (pc t)" and "r \<in> live s"
  shows "owns (pc t) = Some r"
proof -
  obtain u where u: "owns (pc u) = Some r"
    using lifecycleD(5) [OF assms(1,3)] lifecycleD(2) [OF assms(1), of t] assms(2) by auto
  then have "u = t" using alone(3) [OF assms(1,2), of u] by (cases "u = t") auto
  then show ?thesis using u by simp
qed

lemma other_maker:
  "lifecycle (s, pc) \<Longrightarrow> making (pc t) = None \<Longrightarrow> renderInit s = Some c \<Longrightarrow>
   \<exists>u. u \<noteq> t \<and> making (pc u) = Some c"
  using lifecycleD(7) [of s pc c] by force

lemma other_owner:
  "lifecycle (s, pc) \<Longrightarrow> owns (pc t) = None \<Longrightarrow> r \<in> live s \<Longrightarrow>
   renderer s = Some r \<or> (\<exists>u. u \<noteq> t \<and> owns (pc u) = Some r)"
  using lifecycleD(5) [of s pc r] by force

lemma other_closer:
  "lifecycle (s, pc) \<Longrightarrow> \<not> willClose c (pc t) \<Longrightarrow> awaits (pc t) = Some c \<Longrightarrow>
   c \<in> chDone s \<or> (\<exists>u. u \<noteq> t \<and> willClose c (pc u))"
  using lifecycleD(6) [of s pc t c] by force

lemma discard_keeps:
  assumes inv: "lifecycle (s, pc)" and t: "pc t = Discard ch mr" and e: "discardStep ch mr s = (s', g)"
  shows "lifecycle (s', pc(t := g))"
proof -
  note D = lifecycleD [OF inv]
  have cl: "serviceClosed s" using D(4) [of t] t by simp
  have rn: "renderer s = None" using D(2) cl by blast
  show ?thesis
  proof (cases mr)
    case None
    then have g: "s' = s\<lparr>chDone := insert ch (chDone s)\<rparr>" "g = Got (Inl serviceClosedError)"
      using e by (simp_all add: discardStep_def)
    have own: "\<exists>u. u \<noteq> t \<and> owns (pc u) = Some r" if r: "r \<in> live s" for r
      using other_owner [OF inv _ r, of t] rn t None by simp
    have ini: "\<exists>u. u \<noteq> t \<and> making (pc u) = Some c" if c: "renderInit s = Some c" for c
      using other_maker [OF inv _ c, of t] t by simp
    show ?thesis
      unfolding g using t cl rn own ini D(3,8) None by (intro lifecycle_update [OF inv]) (auto simp: willClose_def)
  next
    case (Some r)
    then have g: "s' = s\<lparr>live := live s - {r}\<rparr>" "g = Discard ch None"
      using e by (simp_all add: discardStep_def)
    have b: "busy (pc t)" using t Some by simp
    have "live s \<subseteq> {r}" using owner_of [OF inv b] t Some by auto
    then have "live s - {r} = {}" by blast
    moreover have "\<exists>u. u \<noteq> t \<and> making (pc u) = Some c" if c: "renderInit s = Some c" for c
      using other_maker [OF inv _ c, of t] t by simp
    ultimately show ?thesis
      unfolding g using t cl rn D(3,8) by (intro lifecycle_update [OF inv]) (auto simp: willClose_def)
  qed
qed

lemma take_keeps:
  assumes inv: "lifecycle (s, pc)" and t: "pc t = CloseHead" and e: "closeTake s = (s', g)"
  shows "lifecycle (s', pc(t := g))"
proof -
  note D = lifecycleD [OF inv]
  have own: "renderer s = Some r \<or> (\<exists>u. u \<noteq> t \<and> owns (pc u) = Some r)" if r: "r \<in> live s" for r
    using other_owner [OF inv _ r, of t] t by simp
  have ini: "\<exists>u. u \<noteq> t \<and> making (pc u) = Some c" if c: "renderInit s = Some c" for c
    using other_maker [OF inv _ c, of t] t by simp
  show ?thesis
  proof (cases "serviceClosed s")
    case True
    then have g: "s' = s" "g = CloseDone" using e by (simp_all add: closeTake_def)
    show ?thesis unfolding g using t by (intro lifecycle_quiet [OF inv]) (auto simp: willClose_def)
  next
    case False
    then have g: "s' = s\<lparr>serviceClosed := True, renderer := None\<rparr>" "g = Closing (renderer s) (renderInit s)"
      using e by (simp_all add: closeTake_def)
    have quiet: "renderer s \<noteq> None \<Longrightarrow> \<not> busy (pc u)" for u using D(2) by blast
    have bz: "busy g \<Longrightarrow> renderer s \<noteq> None" by (cases "renderer s") (simp_all add: g)
    show ?thesis
    proof (rule lifecycle_update [OF inv])
      show "awaits g = Some ch \<Longrightarrow> ch \<in> chDone s' \<or> willClose ch g \<or> (\<exists>u. u \<noteq> t \<and> willClose ch (pc u))" for ch
        using ini [of ch] making_willClose by (auto simp: g)
    qed (use t own ini D(3,8) quiet bz in \<open>auto simp: g willClose_def\<close>)
  qed
qed

lemma closeRenderer_keeps:
  assumes inv: "lifecycle (s, pc)" and t: "pc t = Closing (Some r) init" and e: "closeRenderer r init s = (s', g)"
  shows "lifecycle (s', pc(t := g))"
proof -
  note D = lifecycleD [OF inv]
  have cl: "serviceClosed s" using D(4) [of t] t by simp
  have rn: "renderer s = None" using D(2) cl by blast
  have g: "s' = s\<lparr>live := live s - {r}\<rparr>" "g = Closing None init"
    using e by (simp_all add: closeRenderer_def)
  have b: "busy (pc t)" using t by simp
  have "live s \<subseteq> {r}" using owner_of [OF inv b] t by auto
  then have "live s - {r} = {}" by blast
  moreover have "\<exists>u. u \<noteq> t \<and> making (pc u) = Some c" if c: "renderInit s = Some c" for c
    using other_maker [OF inv _ c, of t] t by simp
  moreover have "awaits g = Some ch \<Longrightarrow> ch \<in> chDone s \<or> (\<exists>u. u \<noteq> t \<and> willClose ch (pc u))" for ch
    using other_closer [OF inv, of ch t] t by (auto simp: g willClose_def)
  ultimately show ?thesis
    unfolding g using t cl rn D(3,8) by (intro lifecycle_update [OF inv]) (auto simp: g willClose_def)
qed

theorem lifecycle_step:
  assumes "lifecycle (s, pc)" and "step (s, pc) c"
  shows "lifecycle c"
  using assms(2)
proof (cases rule: stepE)
  fix t ch s' g
  assume "c = (s', pc(t := g))" "pc t = Head" "ensureEnter ch s = (s', g)"
  then show ?thesis using enter_keeps [OF assms(1)] by simp
next
  fix t ch r
  assume "c = (s\<lparr>live := insert r (live s)\<rparr>, pc(t := Created ch (Inr r)))" "pc t = Creating ch"
  then show ?thesis using factory_keeps [OF assms(1), of t ch "insert r (live s)" "Inr r"] by auto
next
  fix t ch e
  assume "c = (s, pc(t := Created ch (Inl e)))" "pc t = Creating ch"
  then show ?thesis using factory_keeps [OF assms(1), of t ch "live s" "Inl e"] by auto
next
  fix t ch res s' g
  assume "c = (s', pc(t := g))" "pc t = Created ch res" "ensureInstall ch res s = (s', g)"
  then show ?thesis using install_keeps [OF assms(1)] by simp
next
  fix t ch mr s' g
  assume "c = (s', pc(t := g))" "pc t = Discard ch mr" "discardStep ch mr s = (s', g)"
  then show ?thesis using discard_keeps [OF assms(1)] by simp
next
  fix t s' g
  assume "c = (s', pc(t := g))" "pc t = CloseHead" "closeTake s = (s', g)"
  then show ?thesis using take_keeps [OF assms(1)] by simp
next
  fix t r init s' g
  assume "c = (s', pc(t := g))" "pc t = Closing (Some r) init" "closeRenderer r init s = (s', g)"
  then show ?thesis using closeRenderer_keeps [OF assms(1)] by simp
qed (auto intro!: lifecycle_quiet [OF assms(1)] simp: willClose_def)

lemma reachable_lifecycle: "reachable c \<Longrightarrow> lifecycle c"
proof (induction rule: reachable.induct)
  case (more c c')
  obtain s pc where c: "c = (s, pc)" by (rule prod.exhaust)
  show ?case using lifecycle_step [of s pc c'] more by (simp add: c)
qed (rule lifecycle_start)

lemma live_single:
  assumes inv: "lifecycle (s, pc)" and a: "a \<in> live s" and b: "b \<in> live s"
  shows "a = b"
proof (cases "\<exists>t. busy (pc t)")
  case True
  then obtain t where "busy (pc t)" by blast
  then show ?thesis using owner_of [OF inv _ a] owner_of [OF inv _ b] by force
next
  case False
  then have "owns (pc t) = None" for t using owns_busy by (cases "owns (pc t)") blast+
  then show ?thesis using lifecycleD(5) [OF inv a] lifecycleD(5) [OF inv b] by auto
qed

lemma finished_idle: "finished g \<Longrightarrow> \<not> busy g"
  by (cases g) (simp_all add: finished_def)

lemma live_gone:
  assumes inv: "lifecycle (s, pc)" and "serviceClosed s" and fin: "\<forall>t. finished (pc t)"
  shows "live s = {}"
proof -
  have "owns (pc t) = None" for t using fin finished_idle owns_busy by (cases "owns (pc t)") blast+
  moreover have "renderer s = None" using lifecycleD(2) [OF inv] assms(2) by blast
  ultimately show ?thesis using lifecycleD(5) [OF inv] by auto
qed

end
