(* ===== verification/WebProperties.thy ===== *)
theory WebProperties
  imports WebFacts WebLifecycle
begin

text \<open>
  The properties of the web client: which addresses it dials, what a redirect carries, how often and
  how long it tries, and the life of the shared browser and its budget.
\<close>

section \<open>Addresses\<close>

text \<open>C17: the network policy as conditions on bytes.  An address is refused exactly when it
  has neither 4 nor 16 bytes, when it is an IPv4 address (or an IPv6 address that carries one as
  mapped) in one of the listed special-use ranges, or when it is an IPv6 address in one of theirs.\<close>

lemma special_use_refused:
  "isPrivateIP ip \<longleftrightarrow> length ip \<noteq> 4 \<and> length ip \<noteq> 16 \<or>
     (case to4 ip of
        Some q \<Rightarrow> specialUse4 (byteAt q 0) (byteAt q 1) (byteAt q 2)
      | None \<Rightarrow> specialUse6 ip)"
  by (rule isPrivateIP_iff)

lemma special_use_refused_witness:
  "isPrivateIP [100, 64, 0, 1] \<and> \<not> isPrivateIP [100, 128, 0, 1] \<and>
   isPrivateIP (mapped4 [192, 168, 7, 9]) \<and>
   isPrivateIP [0x20, 1, 0x0D, 0xB8, 0, 0, 0, 0, 0, 0, 0, 0, 0, 0, 0, 1] \<and>
   \<not> isPrivateIP [0x26, 6, 0x47, 0, 0x47, 0, 0, 0, 0, 0, 0, 0, 0, 0, 0x11, 0x11]"
  unfolding special_use_refused
  by (simp add: to4_def mapped4_def specialUse4_def specialUse6_def byteAt_def)

text \<open>
  Two forms that carry an IPv4 address are not refused: the NAT64 prefix \<open>64:ff9b::/96\<close> and the
  IPv4-compatible addresses \<open>::/96\<close>; here with 127.0.0.1.
\<close>

lemma nat64_not_refused:
  "\<not> isPrivateIP [0, 0x64, 0xFF, 0x9B, 0, 0, 0, 0, 0, 0, 0, 0, 127, 0, 0, 1]"
  "\<not> isPrivateIP [0, 0, 0, 0, 0, 0, 0, 0, 0, 0, 0, 0, 127, 0, 0, 1]"
  by (simp_all add: isPrivateIP_iff to4_def mapped4_def specialUse6_def)

section \<open>A small web\<close>

definition demoURL :: goURL where
  "demoURL = \<lparr>uScheme = ''http'', uHost = ''a.org'', uUser = False, uText = ''http://a.org''\<rparr>"

definition demoReply :: httpReply where
  "demoReply = \<lparr>rpURL = None, rpStatusCode = 200, rpStatus = ''200 OK'', rpHeader = [],
                rpBody = (''hi'', None), rpClose = None\<rparr>"

definition demoWeb :: "(unit, unit) webEnv" where
  "demoWeb =
     \<lparr>lookupIPAddr = \<lambda>w h. (Inr [[93, 184, 216, 34]], w), dialer = \<lambda>w a. (Inr (), w), ctxErr = \<lambda>w. None,
      talk = \<lambda>w c req. (Inr demoReply, w), nextHop = \<lambda>via resp. None, toASCII = id, eqFold = equalFold,
      parseURL = \<lambda>t. Inr demoURL, badRequest = \<lambda>m u. None, untilTime = \<lambda>w v. None,
      sleep = \<lambda>w d. (None, w)\<rparr>"

definition demoClient :: webClient where
  "demoClient = \<lparr>maxBodyBytes = 100, allowPrivateNetworks = False, userAgent = ''t''\<rparr>"

lemma demo_guarded: "allowPrivateNetworks demoClient = False"
  by (simp add: demoClient_def)

lemma demo_ascii: "asciiWeb demoWeb"
proof -
  have "plainHost demoURL" by code_simp
  then show ?thesis by (simp add: asciiWeb_def demoWeb_def)
qed

lemma demo_dial:
  "dialContext (netEnv.truncate (watched demoWeb)) False ''a.org:80'' ((), es) =
     (Inr (), (), es @ [Dialled ''93.184.216.34:80''])"
proof -
  have "splitHostPort ''a.org:80'' = Inr (''a.org'', ''80'')" "parseIP ''a.org'' = None"
    "joinHostPort (ipString [93, 184, 216, 34]) ''80'' = ''93.184.216.34:80''"
    by code_simp+
  then show ?thesis
    by (simp add: dialContext_def watched_def demoWeb_def netEnv.defs isPrivateIP_iff to4_def specialUse4_def byteAt_def)
qed

lemma demo_run:
  "Do (watched demoWeb) demoClient ''GET'' ''http://a.org'' [] None ((), []) =
     (Inr \<lparr>hrURL = ''http://a.org'', hrStatusCode = 200, hrHeader = [], hrBody = ''hi''\<rparr>,
      (), [Dialled ''93.184.216.34:80'',
           Sent (newRequest demoClient ''GET'' demoURL [] None)])"
proof -
  have v: "validateTarget (\<lambda>t. Inr demoURL) ''http://a.org'' False = Inr demoURL"
    "canonicalAddr id demoURL = ''a.org:80''" "requestAttempts ''GET'' = 3"
    by code_simp+
  have p: "parseURL demoWeb = (\<lambda>t. Inr demoURL)" "toASCII (watched demoWeb) = id"
    "badRequest (watched demoWeb) m u = None" "nextHop (watched demoWeb) via resp = None"
    "talk (watched demoWeb) ((), es) () req = (Inr demoReply, (), es @ [Sent req])" for m u via resp es req
    by (simp_all add: watched_def demoWeb_def)
  have r: "followRedirects (watched demoWeb) False [] req ((), []) =
      (Inr demoReply, (), [Dialled ''93.184.216.34:80'', Sent req])" if "rURL req = demoURL" for req
    by (subst followRedirects.simps) (simp add: roundTrip_def p that v demo_dial)
  have "rURL (newRequest demoClient ''GET'' demoURL [] None) = demoURL" by (simp add: newRequest_def)
  note r = r [OF this]
  have b: "replyBody demoClient demoURL demoReply = Inr ''hi''" "shouldRetry 200 = False"
    by code_simp+
  have c: "allowPrivateNetworks demoClient = False" "rpStatusCode demoReply = 200"
    "clientDo (watched demoWeb) False (newRequest demoClient ''GET'' demoURL [] None) ((), []) =
      (Inr demoReply, (), [Dialled ''93.184.216.34:80'', Sent (newRequest demoClient ''GET'' demoURL [] None)])"
    by (simp add: demoClient_def, simp add: demoReply_def, simp add: clientDo_def r)
  have f: "finishResponse demoURL demoReply ''hi'' =
      Inr \<lparr>hrURL = ''http://a.org'', hrStatusCode = 200, hrHeader = [], hrBody = ''hi''\<rparr>"
    by code_simp
  show ?thesis
    by (simp add: Do_def p v c b f numeral_3_eq_3)
qed

section \<open>Requests\<close>

text \<open>C14: what the client dials.  For URLs with ASCII host names, whatever the resolver, the
  servers and their redirects answer, every address that one operation of a client without access to
  private networks dials is a literal of a public address.\<close>

lemma client_dials_public:
  assumes "asciiWeb env" and "\<not> allowPrivateNetworks c"
    and "snd (Do (watched env) c m rawURL headers body (w, [])) = (w', events)"
    and "Dialled addr \<in> set events"
  shows "publicDial addr"
proof -
  have "list_all (allowedEvent (allowPrivateNetworks c)) events"
    using Do_emits [OF assms(1), of c m "(w, [])" rawURL headers body] assms(3) by (auto simp: emits_def)
  then show ?thesis using assms(2,4) by (auto simp: list_all_iff)
qed

lemma client_dials_public_witness:
  "publicDial ''93.184.216.34:80'' \<and>
   Dialled ''93.184.216.34:80'' \<in> set (snd (snd (Do (watched demoWeb) demoClient ''GET'' ''http://a.org'' [] None ((), []))))"
  using client_dials_public [OF demo_ascii, of demoClient "''GET''" "''http://a.org''" "[]" None "()" "()"
      "[Dialled ''93.184.216.34:80'', Sent (newRequest demoClient ''GET'' demoURL [] None)]" "''93.184.216.34:80''"]
  by (simp add: demo_run demo_guarded)



lemma hdrValues_del: "hdrValues (hdrDel h n) k = (if k = n then [] else hdrValues h k)"
proof (cases "k = n")
  case True
  have "map_of (filter (\<lambda>(n', _). n' \<noteq> n) h) n = None" by (auto simp: map_of_eq_None_iff)
  then show ?thesis using True by (simp add: hdrValues_def hdrDel_def)
qed (simp add: hdrValues_def hdrDel_def map_of_filter_other)

lemma hdrValues_add: "hdrValues (hdrAdd h n v) k = (if k = n then hdrValues h n @ [v] else hdrValues h k)"
  using hdrValues_del [of h n k] by (simp add: hdrAdd_def hdrValues_def)

lemma hdrValues_copy:
  "hdrValues (copyHeader dst src n) k = (if k = n then hdrValues src n else hdrValues dst k)"
proof -
  have "hdrValues (foldl (\<lambda>h v. hdrAdd h n v) h vs) k =
      (if k = n then hdrValues h n @ vs else hdrValues h k)" for h vs
    by (induction vs arbitrary: h) (simp_all add: hdrValues_add)
  then show ?thesis by (simp add: copyHeader_def hdrValues_del)
qed

text \<open>C16: what a redirect carries.  A request that the redirect check lets through has at most nine
  before it and a validated URL; of the three credential headers it carries those of the first request when
  it stays at the first origin and none otherwise, and its other headers are as they were.\<close>

lemma redirect_credentials:
  assumes "checkRedirect eqf allow req (first # rest) = Inr req'"
  shows "length (first # rest) < 10 \<and> rURL req' = rURL req \<and> validateURL (Some (rURL req)) allow = None \<and>
    hdrValues (rHeader req') name =
      (if name \<in> set credentialHeaders
       then (if sameOrigin eqf (rURL first) (rURL req) then hdrValues (rHeader first) name else [])
       else hdrValues (rHeader req) name)"
proof -
  have "length (first # rest) < 10" "rURL req' = rURL req" "validateURL (Some (rURL req)) allow = None"
    using checkRedirect_bound [OF assms] checkRedirect_Inr [OF assms] by simp_all
  moreover have "rHeader req' = foldl (\<lambda>h n. if sameOrigin eqf (rURL first) (rURL req)
      then copyHeader h (rHeader first) n else hdrDel h n) (rHeader req) credentialHeaders"
    using assms by (auto simp: checkRedirect_def Let_def split: if_splits option.splits)
  ultimately show ?thesis
    by (auto simp: credentialHeaders_def hdrValues_copy hdrValues_del)
qed

definition demoRequest :: "string \<Rightarrow> httpHeader \<Rightarrow> httpRequest" where
  "demoRequest host h =
     \<lparr>rMethod = ''GET'', rURL = \<lparr>uScheme = ''http'', uHost = host, uUser = False, uText = host\<rparr>,
      rHeader = h, rBody = None\<rparr>"

lemma redirect_credentials_witness:
  "\<exists>req'. checkRedirect equalFold False (demoRequest ''b.org'' [(''Authorization'', [''k'']), (''Accept'', [''x''])])
      [demoRequest ''a.org'' [(''Authorization'', [''k''])]] = Inr req' \<and>
    hdrValues (rHeader req') ''Authorization'' = [] \<and> hdrValues (rHeader req') ''Accept'' = [''x'']"
proof -
  let ?first = "demoRequest ''a.org'' [(''Authorization'', [''k''])]"
  let ?req = "demoRequest ''b.org'' [(''Authorization'', [''k'']), (''Accept'', [''x''])]"
  have "validateURL (Some (rURL ?req)) False = None" "sameOrigin equalFold (rURL ?first) (rURL ?req) = False"
    by code_simp+
  then obtain r where r: "checkRedirect equalFold False ?req [?first] = Inr r"
    by (simp add: checkRedirect_def maxRedirectHops_def)
  have "hdrValues (rHeader r) ''Authorization'' = []" "hdrValues (rHeader r) ''Accept'' = [''x'']"
    using redirect_credentials [OF r, of "''Authorization''"] redirect_credentials [OF r, of "''Accept''"]
      \<open>sameOrigin equalFold (rURL ?first) (rURL ?req) = False\<close>
    by (simp_all add: credentialHeaders_def demoRequest_def hdrValues_def)
  then show ?thesis using r by blast
qed

section \<open>Bodies\<close>


section \<open>The shared renderer\<close>

text \<open>C15: the shared browser under all interleavings of starting and closing it.  At most one
  call is in the factory and at most one browser lives; after the service is closed, when all calls have returned, none
  is left; a browser that was handed out is the current one unless the service is closed; and the channel a
  call waits for is closed, or a call that is not waiting is going to close it.\<close>

lemma renderer_lifecycle:
  assumes "reachable (s, pc)"
  shows "(\<forall>t u a b. pc t = Creating a \<longrightarrow> pc u = Creating b \<longrightarrow> t = u) \<and>
    (\<forall>a b. a \<in> live s \<longrightarrow> b \<in> live s \<longrightarrow> a = b) \<and>
    (serviceClosed s \<longrightarrow> (\<forall>t. finished (pc t)) \<longrightarrow> live s = {}) \<and>
    (\<forall>t r. pc t = Got (Inr r) \<longrightarrow> serviceClosed s \<or> renderer s = Some r) \<and>
    (\<forall>t ch. pc t = Waiting ch \<longrightarrow> ch \<in> chDone s \<or>
       (\<exists>u. pc u = Creating ch \<or> (\<exists>res. pc u = Created ch res) \<or> (\<exists>mr. pc u = Discard ch mr)))"
proof -
  have inv: "lifecycle (s, pc)" using reachable_lifecycle [OF assms] .
  note D = lifecycleD [OF inv]
  have making: "making g = Some ch \<longleftrightarrow> g = Creating ch \<or> (\<exists>res. g = Created ch res)" for g ch
    by (cases g) auto
  have 1: "pc t = Creating a \<Longrightarrow> pc u = Creating b \<Longrightarrow> t = u" for t u a b using D(1) by simp
  have 5: "pc t = Waiting ch \<Longrightarrow> ch \<in> chDone s \<or>
       (\<exists>u. pc u = Creating ch \<or> (\<exists>res. pc u = Created ch res) \<or> (\<exists>mr. pc u = Discard ch mr))" for t ch
    using D(6) [of t ch] by (auto simp: willClose_def making)
  show ?thesis
    using 1 live_single [OF inv] live_gone [OF inv] D(9) 5 by blast
qed

text \<open>
  The race the code guards against: a call starts a renderer, the service is closed meanwhile, and the
  renderer is closed again by the call itself.
\<close>

definition racePC :: "goroutine \<Rightarrow> goroutine \<Rightarrow> nat \<Rightarrow> goroutine" where
  "racePC a b t = (if t = 0 then a else if t = 1 then b else Idle)"

lemma racePC_simps [simp]:
  "racePC a b 0 = a" "racePC a b 1 = b" "racePC a b (Suc 0) = b"
  "(racePC a b)(0 := c) = racePC c b" "(racePC a b)(1 := c) = racePC a c" "(racePC a b)(Suc 0 := c) = racePC a c"
  by (auto simp: racePC_def)

definition raceState :: "nat option \<Rightarrow> nat set \<Rightarrow> bool \<Rightarrow> service" where
  "raceState init alive shut = newService\<lparr>renderInit := init, live := alive, serviceClosed := shut\<rparr>"

lemma race_step: "reachable (s, racePC a b) \<Longrightarrow> step (s, racePC a b) (s', racePC c d) \<Longrightarrow> reachable (s', racePC c d)"
  by (rule reachable.more)

lemma race_reachable: "reachable (raceState None {3} True, racePC (Discard 7 (Some 3)) (Closing None (Some 7)))"
proof -
  note defs = raceState_def newService_def
  have "racePC Idle Idle = (\<lambda>_. Idle)" "raceState None {} False = newService" by (auto simp: racePC_def defs)
  then have "reachable (raceState None {} False, racePC Idle Idle)" using reachable.start by simp
  then have "reachable (raceState None {} False, racePC Head Idle)"
    by (rule race_step) (use step.call [of "racePC Idle Idle" 0] in simp)
  moreover have "\<forall>u. racePC Head Idle u \<noteq> Waiting 7 \<and> (\<forall>mr. racePC Head Idle u \<noteq> Discard 7 mr) \<and>
      (\<forall>mr. racePC Head Idle u \<noteq> Closing mr (Some 7))"
    by (auto simp: racePC_def)
  ultimately have "reachable (raceState (Some 7) {} False, racePC (Creating 7) Idle)"
    by (elim race_step) (use step.enter [of "racePC Head Idle" 0 7 "raceState None {} False"] in
        \<open>simp add: ensureEnter_def defs\<close>)
  then have "reachable (raceState (Some 7) {3} False, racePC (Created 7 (Inr 3)) Idle)"
    by (rule race_step) (use step.create [of "racePC (Creating 7) Idle" 0 7 3 "raceState (Some 7) {} False"] in
        \<open>simp add: defs\<close>)
  then have "reachable (raceState (Some 7) {3} False, racePC (Created 7 (Inr 3)) CloseHead)"
    by (rule race_step) (use step.callClose [of "racePC (Created 7 (Inr 3)) Idle" 1] in simp)
  then have "reachable (raceState (Some 7) {3} True, racePC (Created 7 (Inr 3)) (Closing None (Some 7)))"
    by (rule race_step) (use step.take [of "racePC (Created 7 (Inr 3)) CloseHead" 1 "raceState (Some 7) {3} False"] in
        \<open>simp add: closeTake_def defs\<close>)
  then show ?thesis
    by (rule race_step) (use step.install [of "racePC (Created 7 (Inr 3)) (Closing None (Some 7))" 0 7 "Inr 3"
        "raceState (Some 7) {3} True"] in \<open>simp add: ensureInstall_def defs\<close>)
qed

lemma renderer_lifecycle_witness:
  "serviceClosed (raceState None {3} True) \<and> live (raceState None {3} True) = {3} \<and>
   racePC (Discard 7 (Some 3)) (Closing None (Some 7)) 0 = Discard 7 (Some 3) \<and>
   card (live (raceState None {3} True)) \<le> 1"
proof -
  have l: "live (raceState None {3} True) = {3}" "serviceClosed (raceState None {3} True)"
    by (simp_all add: raceState_def newService_def)
  have "\<forall>a b. a \<in> live (raceState None {3} True) \<longrightarrow> b \<in> live (raceState None {3} True) \<longrightarrow> a = b"
    using renderer_lifecycle [OF race_reachable] by blast
  then have "card (live (raceState None {3} True)) \<le> 1"
    using l by (simp only: One_nat_def) (subst card_le_Suc0_iff_eq, simp_all)
  then show ?thesis using l by simp
qed

section \<open>The budget of the proxy\<close>

datatype budgetOp = AddRequest | AddBytes int | Reject webError

fun budgetStep :: "budgetOp \<Rightarrow> proxyBudget \<Rightarrow> webError option \<times> proxyBudget" where
  "budgetStep AddRequest b = addRequest b"
| "budgetStep (AddBytes n) b = addNetworkBytes n b"
| "budgetStep (Reject e) b = (None, reject e b)"

text \<open>The operations with what each returned.\<close>

fun budgetRun :: "budgetOp list \<Rightarrow> proxyBudget \<Rightarrow> (budgetOp \<times> webError option) list \<times> proxyBudget" where
  "budgetRun [] b = ([], b)"
| "budgetRun (op # ops) b =
     (case budgetStep op b of (r, b1) \<Rightarrow>
        (case budgetRun ops b1 of (rs, b2) \<Rightarrow> ((op, r) # rs, b2)))"

definition accepted :: "(budgetOp \<times> webError option) list \<Rightarrow> budgetOp list" where
  "accepted rs = map fst (filter (\<lambda>(_, r). r = None) rs)"

fun bytesOf :: "budgetOp \<Rightarrow> int" where
  "bytesOf (AddBytes n) = max 0 n"
| "bytesOf _ = 0"

definition requestsIn :: "budgetOp list \<Rightarrow> int" where
  "requestsIn ops = int (length (filter (\<lambda>op. op = AddRequest) ops))"

definition bytesIn :: "budgetOp list \<Rightarrow> int" where
  "bytesIn ops = sum_list (map bytesOf ops)"

definition budgetOK :: "int \<Rightarrow> int \<Rightarrow> proxyBudget \<Rightarrow> bool" where
  "budgetOK R N b \<longleftrightarrow> pbMaxRequests b = R \<and> pbMaxNetworkBytes b = N \<and>
     (pbErr b = None \<longrightarrow> 0 \<le> pbRequests b \<and> pbRequests b \<le> R \<and> 0 \<le> pbNetworkBytes b \<and> pbNetworkBytes b \<le> N)"

text \<open>What is left of the budget; a failed budget has nothing left.\<close>

definition leftRequests :: "proxyBudget \<Rightarrow> int" where
  "leftRequests b = (if pbErr b = None then pbMaxRequests b - pbRequests b else 0)"

definition leftBytes :: "proxyBudget \<Rightarrow> int" where
  "leftBytes b = (if pbErr b = None then pbMaxNetworkBytes b - pbNetworkBytes b else 0)"

lemma wrap64_id: "- (2 ^ 63) \<le> i \<Longrightarrow> i < 2 ^ 63 \<Longrightarrow> wrap64 i = i"
  by (simp add: wrap64_def)

lemma budgetStep_failed:
  "pbErr b = Some e \<Longrightarrow> budgetStep op b = (r, b1) \<Longrightarrow>
     b1 = b \<and> (r = None \<longrightarrow> requestsIn [op] = 0 \<and> bytesIn [op] = 0)"
  by (cases op) (auto simp: addRequest_def addNetworkBytes_def reject_def failBudget_def requestsIn_def
      bytesIn_def eq_commute [of "Some e"] split: if_splits option.splits)

lemma budgetStep_keeps:
  assumes R: "0 < R" "R < 2 ^ 62" and N: "0 < N" "N < 2 ^ 62"
    and n: "\<And>n. op = AddBytes n \<Longrightarrow> n < 2 ^ 62" and b: "budgetOK R N b" and st: "budgetStep op b = (r, b1)"
  shows "budgetOK R N b1 \<and> 0 \<le> leftRequests b1 \<and> 0 \<le> leftBytes b1 \<and>
    leftRequests b1 + (if r = None then requestsIn [op] else 0) \<le> leftRequests b \<and>
    leftBytes b1 + (if r = None then bytesIn [op] else 0) \<le> leftBytes b"
proof (cases "pbErr b = None")
  case False
  then obtain e where e: "pbErr b = Some e" by blast
  then show ?thesis using budgetStep_failed [OF e st] b by (auto simp: leftRequests_def leftBytes_def)
next
  case ok: True
  show ?thesis
  proof (cases op)
  case AddRequest
  have w: "pbErr b = None \<Longrightarrow> wrap64 (pbRequests b + 1) = pbRequests b + 1"
    using b R by (intro wrap64_id) (auto simp: budgetOK_def)
  show ?thesis
    using st b R N w AddRequest ok
    by (auto simp: addRequest_def failLocked_def Let_def budgetOK_def leftRequests_def leftBytes_def
        requestsIn_def bytesIn_def split: option.splits if_splits)
next
  case (AddBytes k)
  have w: "pbErr b = None \<Longrightarrow> 0 < k \<Longrightarrow> wrap64 (pbNetworkBytes b + k) = pbNetworkBytes b + k"
    using b N n [OF AddBytes] by (intro wrap64_id) (auto simp: budgetOK_def)
  show ?thesis
    using st b R N w AddBytes ok
    by (auto simp: addNetworkBytes_def failLocked_def Let_def budgetOK_def leftRequests_def leftBytes_def
        requestsIn_def bytesIn_def split: option.splits if_splits)
next
  case (Reject e)
  show ?thesis
    using st b R N Reject ok
    by (auto simp: reject_def failBudget_def Let_def budgetOK_def leftRequests_def leftBytes_def
        requestsIn_def bytesIn_def split: option.splits if_splits)
  qed
qed

lemma budgetRun_bounds:
  assumes R: "0 < R" "R < 2 ^ 62" and N: "0 < N" "N < 2 ^ 62"
  shows "budgetOK R N b \<Longrightarrow> (\<forall>n. AddBytes n \<in> set ops \<longrightarrow> n < 2 ^ 62) \<Longrightarrow>
    requestsIn (accepted (fst (budgetRun ops b))) \<le> leftRequests b \<and>
    bytesIn (accepted (fst (budgetRun ops b))) \<le> leftBytes b"
proof (induction ops arbitrary: b)
  case Nil
  then show ?case by (auto simp: requestsIn_def bytesIn_def accepted_def leftRequests_def leftBytes_def budgetOK_def)
next
  case (Cons op ops)
  obtain r b1 where st: "budgetStep op b = (r, b1)" by (rule prod.exhaust)
  note k = budgetStep_keeps [OF R N _ Cons.prems(1) st]
  let ?A = "accepted (fst (budgetRun ops b1))"
  have ih: "requestsIn ?A \<le> leftRequests b1 \<and> bytesIn ?A \<le> leftBytes b1"
    using Cons.IH [of b1] Cons.prems(2) k by simp
  have acc: "accepted (fst (budgetRun (op # ops) b)) = (if r = None then op # ?A else ?A)"
    by (simp add: st accepted_def split: prod.split)
  have "requestsIn (op # ?A) = requestsIn [op] + requestsIn ?A" "bytesIn (op # ?A) = bytesIn [op] + bytesIn ?A"
    by (simp_all add: requestsIn_def bytesIn_def)
  then show ?case
    using k ih Cons.prems(2) unfolding acc by (cases "r = None") auto
qed

text \<open>C19: the budget of a page.  In any sequence of operations on the budget the accepted
  requests are at most the limit of requests and the accepted bytes at most the limit of bytes.\<close>

lemma render_budget_holds:
  assumes "0 < R" "R < 2 ^ 62" "0 < N" "N < 2 ^ 62" and "\<forall>n. AddBytes n \<in> set ops \<longrightarrow> n < 2 ^ 62"
  shows "requestsIn (accepted (fst (budgetRun ops (newProxyBudget R N)))) \<le> R \<and>
    bytesIn (accepted (fst (budgetRun ops (newProxyBudget R N)))) \<le> N"
  using budgetRun_bounds [OF assms(1-4), of "newProxyBudget R N" ops] assms
  by (simp add: budgetOK_def newProxyBudget_def leftRequests_def leftBytes_def)

lemma render_budget_holds_witness:
  "requestsIn (accepted (fst (budgetRun [AddRequest, AddBytes 5, AddRequest, AddRequest, AddBytes 1]
      (newProxyBudget 2 100)))) \<le> 2 \<and>
   accepted (fst (budgetRun [AddRequest, AddBytes 5, AddRequest, AddRequest, AddBytes 1] (newProxyBudget 2 100))) =
     [AddRequest, AddBytes 5, AddRequest]"
proof -
  let ?ops = "[AddRequest, AddBytes 5, AddRequest, AddRequest, AddBytes 1]"
  have a: "accepted (fst (budgetRun ?ops (newProxyBudget 2 100))) = [AddRequest, AddBytes 5, AddRequest]"
    by (simp add: newProxyBudget_def addRequest_def addNetworkBytes_def failLocked_def Let_def accepted_def wrap64_def)
  have "requestsIn (accepted (fst (budgetRun ?ops (newProxyBudget 2 100)))) \<le> 2"
    by (rule conjunct1 [OF render_budget_holds [of 2 100]]) auto
  then show ?thesis using a by blast
qed

section \<open>Gaps\<close>

text \<open>
  A host name with ideographic full stops passes the check of literals; IDNA makes 127.0.0.1 of it,
  and \<open>dialContext\<close> dials a literal without a check.
\<close>

definition wideLoopback :: string where
  "wideLoopback = ''127'' @ [CHR 0xE3, CHR 0x80, CHR 0x82] @ ''0.0.1''"

lemma wide_host_reaches_loopback:
  "validateURL (Some \<lparr>uScheme = ''http'', uHost = wideLoopback, uUser = False, uText = []\<rparr>) False = None \<and>
   isPrivateIP (mapped4 [127, 0, 0, 1]) \<and>
   dialContext env False (joinHostPort ''127.0.0.1'' ''80'') w = dialer env w ''127.0.0.1:80''"
proof -
  have p: "parseIP ''127.0.0.1'' = Some (mapped4 [127, 0, 0, 1])"
    by (simp add: parseIP_def parseIPv4Fields_def octetField_def decVal_def digitVal_def mapped4_def isDigit_def)
  have "splitHostPort (joinHostPort ''127.0.0.1'' ''80'') = Inr (''127.0.0.1'', ''80'')"
    by (rule split_join) (simp_all add: bracketFree_def)
  moreover have "validateURL (Some \<lparr>uScheme = ''http'', uHost = wideLoopback, uUser = False, uText = []\<rparr>) False = None"
    by code_simp
  ultimately show ?thesis
    using p by (simp add: dialContext_def joinHostPort_def isPrivateIP_iff to4_def mapped4_def specialUse4_def byteAt_def)
qed

text \<open>A CONNECT whose port is a service name: what is validated is not what is dialled.\<close>

lemma connect_service_name_reaches_loopback:
  "serveConnect env False ''127.0.0.1:http'' w = dialer env w ''127.0.0.1:http''"
proof -
  have a: "trimSpace ''127.0.0.1:http'' \<noteq> []" "connectAuthority ''127.0.0.1:http'' = ''127.0.0.1:http''"
    and v: "validateURL (Some \<lparr>uScheme = ''https'', uHost = ''127.0.0.1:http'', uUser = False,
      uText = ''https://127.0.0.1:http''\<rparr>) False = None"
    and h: "splitHostPort ''127.0.0.1:http'' = Inr (''127.0.0.1'', ''http'')"
    by code_simp+
  have "parseIP ''127.0.0.1'' \<noteq> None"
    by (simp add: parseIP_def parseIPv4Fields_def octetField_def decVal_def digitVal_def isDigit_def)
  then show ?thesis using a v h by (simp add: serveConnect_def dialContext_def Let_def)
qed

text \<open>A \<open>Retry-After\<close> beyond the range of a duration in nanoseconds wraps to a wait in the past.\<close>

lemma retry_after_wraps:
  "retryDelay f 1 (Some \<lparr>rpURL = None, rpStatusCode = 503, rpStatus = [],
      rpHeader = [(''Retry-After'', [''9223372037''])], rpBody = ([], None), rpClose = None\<rparr>) < 0"
proof -
  have "trimSpace ''9223372037'' = ''9223372037''" by code_simp
  then show ?thesis
    by (simp add: retryDelay_def Let_def hdrGet_def hdrValues_def atoi_def decVal_def digitVal_def isDigit_def
        hasPrefix_def wrap64_def maxRetryWait_def)
qed

text \<open>At the largest limit the bound of the reader wraps, and a body is read as empty.\<close>

lemma largest_limit_reads_nothing: "readBounded (data, err) (2 ^ 63 - 1) = Inr []"
  by (simp add: readBounded_def readLimited_def wrap64_def)

end
