(* ===== verification/Spec2Isabelle.thy ===== *)
theory Spec2Isabelle
  imports RiskProperties PlanProperties EditProperties PatchProperties ToolProperties WebProperties
begin

text \<open>
  A verification development of jinn, a tool server that lets a language model read, edit and run
  things in a workspace.  This is the root of the development.

  \<^bold>\<open>The program.\<close>  An \<open>Engine\<close> (\<open>internal/jinn/engine.go\<close>) dispatches tool calls.
  Commands are judged before they run by a risk classifier (\<open>command_risk.go\<close> over the shell
  scanner \<open>command_risk_parse.go\<close>); \<open>run_shell\<close> (\<open>tool_shell.go\<close>) refuses a dangerous
  command without force and reports the exit code by \<open>exitcode.go\<close>; \<open>run_plan\<close>
  (\<open>plan_engine.go\<close>, \<open>plan_types.go\<close>, \<open>tool_run_plan.go\<close>) executes a graph of
  operations whose edges are conditions on results, with budgets and authority that nested plans
  inherit and cannot raise.  The editing tools replace text of files: \<open>edit_file\<close> one exact or
  tolerant match (\<open>edit_apply.go\<close>, \<open>normalize.go\<close>), \<open>multi_edit\<close> a batch over several files
  (\<open>tool_multi_edit.go\<close>), \<open>apply_patch\<close> a patch text (\<open>patch.go\<close>, \<open>patch_apply.go\<close>); each reports a line
  diff (\<open>diff.go\<close>, \<open>diff_edit_fast.go\<close>).  The web tools fetch pages through one HTTP client
  (\<open>internal/webfetch/client.go\<close>, \<open>client_network.go\<close>) that keeps away from private networks, and
  share one browser that renders pages (\<open>fetch.go\<close>) behind a proxy with a budget (\<open>render_proxy.go\<close>).

  \<^bold>\<open>Theories.\<close>
  \<^item> \<open>GoStrings\<close>, \<open>GoValues\<close>: the Go standard library as used (strings, paths, quoting,
    numbers, dynamic values), the argument readers and the error type.
  \<^item> \<open>ShellLex\<close>, \<open>ShellExpand\<close>, \<open>ShellWrap\<close>: the scanner of \<open>command_risk_parse.go\<close>;
    quote automaton, words, operators, redirections; substitutions and function bodies; wrappers
    (env, time, timeout, taskset, exec and others) and the effective command.
  \<^item> \<open>RiskTables\<close>, \<open>RiskArgs\<close>, \<open>RiskCloud\<close>, \<open>RiskClassify\<close>, \<open>RiskRecursion\<close>: the tables,
    every argument heuristic, segments, here-documents, and \<open>ClassifyCommand\<close> itself, whose
    recursion through nested command text is a \<open>function\<close> with a congruence rule that shows
    every nested text to be shorter.  A definition that the code has call \<open>ClassifyCommand\<close>
    takes the classifier as the argument \<open>cc\<close>.
  \<^item> \<open>RiskSafety\<close>, \<open>RiskProperties\<close>: what a verdict promises.
  \<^item> \<open>ExitCodes\<close>, \<open>ShellTool\<close>: exit codes, shell modes, the gates of \<open>runShell\<close>.
  \<^item> \<open>PlanTypes\<close>, \<open>PlanCheck\<close>, \<open>PlanRun\<close>, \<open>PlanLoop\<close>: plans and runs with the JSON text of a run,
    validation and conditions, gates and transcripts, the loop of \<open>runPlanTree\<close> as a step
    function \<open>planRound\<close> on its local variables, and dispatch through nested plans.
  \<^item> \<open>PlanBudget\<close>, \<open>PlanTwin\<close>, \<open>PlanWalk\<close>, \<open>PlanProperties\<close>: bounds of a run by the contract
    \<open>plan_dispatcher\<close>, comparison of runs on two hosts by \<open>twin_hosts\<close>, the walk of a run, and the
    properties.
  \<^item> \<open>GoRunes\<close>, \<open>EditText\<close>: UTF-8 as Go decodes it; line endings, the normalisation for tolerant
    matching and the map from offsets in the normalised text back to the original.
  \<^item> \<open>EditApply\<close>: the search of \<open>applyEdit\<close> in its order (exact, trailing blanks, indentation) with
    the splice and the error texts.  An \<open>'a run\<close> is \<open>None\<close> where the code does not return.
  \<^item> \<open>Diff\<close>: the longest-common-subsequence script, its hunks and the text of a diff, and the
    diff of an edited region.
  \<^item> \<open>MultiEdit\<close>: the overlap check, the order of application and the grouping of writes of a batch.
  \<^item> \<open>PatchParse\<close>: the parser of a patch and a printer for it; \<open>EditProperties\<close>: the properties.
  \<^item> \<open>PatchApply\<close>, \<open>PatchProperties\<close>: the hunks of a patch resolved and applied to the line records of
    a file (\<open>patch_apply.go\<close>); a panic is the value \<open>None\<close>.
  \<^item> \<open>GoPaths\<close>, \<open>PathGuard\<close>: lexical paths of the library; the checks every path passes
    (\<open>security.go\<close>).
  \<^item> \<open>FileStore\<close>: the files with the operations of \<open>tool_write.go\<close>, \<open>filelock.go\<close> and \<open>tracker.go\<close>.  Every
    call into the operating system takes the next event of the store and works, fails before or
    after it took effect, or ends the process.  A rule \<open>wp_\<close> says what an operation does under all events.
  \<^item> \<open>History\<close>, \<open>UndoTool\<close>: the undo history with its blobs (\<open>history.go\<close>, \<open>blob_codec.go\<close>), the write
    that every tool uses, \<open>snapshotAndWrite\<close>, and the actions of \<open>undo\<close> (\<open>tool_undo.go\<close>).
  \<^item> \<open>HistoryFacts\<close>, \<open>HistoryRestart\<close>, \<open>UndoFacts\<close>, \<open>FileProperties\<close>: what a write leaves behind under all
    events, what a new process finds, what undo does, and the properties.
  \<^item> \<open>FileTools\<close>: \<open>write_file\<close>, \<open>edit_file\<close>, \<open>multi_edit\<close> and \<open>apply_patch\<close> from their arguments to the
    files; \<open>BatchFacts\<close>, \<open>ToolFacts\<close>, \<open>BatchTool\<close>, \<open>CalmRuns\<close>, \<open>ToolProperties\<close>: what a batch has
    written when it stops, which files a tool can change, the batch as a replay of its edits, runs
    without failing calls (rules \<open>calmly_\<close>), and the properties.
  \<^item> \<open>WebAddr\<close>, \<open>WebAddrFacts\<close>: addresses of the library (\<open>net\<close>, \<open>net/netip\<close>): parsing, printing, prefixes;
    the text of an address reads back as the address.
  \<^item> \<open>WebGuard\<close>, \<open>WebClient\<close>: which hosts and addresses are refused, how a connection is dialled, what a
    redirect keeps; the client's \<open>Do\<close> with redirects, retries, waits and bounded bodies.  The resolver,
    the servers and the clock are the record \<open>webEnv\<close>; \<open>WebFacts\<close> lets it log what happens (\<open>watched\<close>)
    and bounds the events of an operation (\<open>emits\<close>).
  \<^item> \<open>WebRender\<close>, \<open>WebLifecycle\<close>, \<open>WebProperties\<close>: the options of a rendered fetch, the budget of its
    proxy, and the shared browser as a step relation on goroutines (\<open>step\<close>, \<open>reachable\<close>), where a step is
    what \<open>ensureRenderer\<close> or \<open>Close\<close> does under its lock; its invariant \<open>lifecycle\<close>; and the properties.

  \<^bold>\<open>Conventions.\<close>  A string is a sequence of bytes.  An \<open>ok\<close> result or the index \<open>-1\<close> is an
  option, an error a sum, a nil slice \<open>None\<close>, a Go map an association list.  A loop over an index
  is a recursion on the rest of the input; loops that end for another reason carry a measure.
  What is outside the program (processes, files, cancellation, regular expressions, the JSON
  codec, SHA-256, gzip, the formatting of times, symbolic links, the iteration order of a map, the
  blocks in which the library's stable sort merges) is an argument; the world it acts on is a type variable, so that a property holds for
  every host.

  \<^bold>\<open>Bounds.\<close>  \<open>planDispatch\<close> cuts the recursion through nested plans at a number of levels below
  which an arbitrary dispatcher answers; 34 levels are shown to be enough, since validation limits
  the depth to 32.  \<open>classifyDepth\<close> cuts the classifier in the same way and the length of the
  command line is shown to be enough.  \<open>planLoop\<close> ends because each round deepens the run.

  \<^bold>\<open>Not modelled.\<close>  The reading, searching, memory, language-server and MCP
  parts and the command line; of the web part the readers, the order of fallbacks of a fetch, the cache,
  the search services, the tunnel of the proxy and the browser itself; within the modelled files the execution of a process
  (\<open>executeShellCommand\<close>), the statistics file, the closing of directory handles, permissions,
  the names of temporary files, the JSON text of the history index, and a second process that
  works on the same files.  Goroutines of a parallel node are atomic steps in an arbitrary order.
\<close>

end
